(* ===== verification/Prelude.thy ===== *)
theory Prelude
  imports Main "HOL-Library.Char_ord" "HOL-Library.List_Lexorder"
begin

text \<open>
  Shared vocabulary of the development: JSON values as the TypeScript code sees them after
  \<open>JSON.parse\<close>, the string operations the code calls, results with errors as values, the
  row operations of the database client, and the lemma collections the components use.

  A JavaScript string is a HOL \<open>string\<close>: one character per UTF-16 code unit, restricted to
  the code units 0 to 255. A \<open>Date\<close> is the number of milliseconds since the epoch.
\<close>

named_theorems result_simps \<open>equations and equivalences for results with errors\<close>
named_theorems row_simps \<open>facts about the row operations of a table\<close>
named_theorems text_simps \<open>facts about the string operations\<close>
named_theorems eval_simps \<open>equations that compute on closed terms\<close>

section \<open>Results\<close>

text \<open>A call that may throw returns \<open>Inl\<close> the error or \<open>Inr\<close> the value.\<close>

definition andThen :: "'e + 'a \<Rightarrow> ('a \<Rightarrow> 'e + 'b) \<Rightarrow> 'e + 'b" where
  "andThen m f = (case m of Inl e \<Rightarrow> Inl e | Inr a \<Rightarrow> f a)"

lemma andThen_simps [simp]:
  "andThen (Inl e) f = Inl e"
  "andThen (Inr a) f = f a"
  by (simp_all add: andThen_def)

lemma andThen_Inr_iff [result_simps]:
  "andThen m f = Inr b \<longleftrightarrow> (\<exists>a. m = Inr a \<and> f a = Inr b)"
  by (cases m) auto

lemma andThen_Inl_iff [result_simps]:
  "andThen m f = Inl e \<longleftrightarrow> m = Inl e \<or> (\<exists>a. m = Inr a \<and> f a = Inl e)"
  by (cases m) auto

lemma andThen_cong [fundef_cong]:
  "m = m' \<Longrightarrow> (\<And>a. m' = Inr a \<Longrightarrow> f a = g a) \<Longrightarrow> andThen m f = andThen m' g"
  by (cases m') auto

text \<open>\<open>xs.map(f)\<close> where \<open>f\<close> may throw: the first error stops the traversal.\<close>

fun mapThrow :: "('a \<Rightarrow> 'e + 'b) \<Rightarrow> 'a list \<Rightarrow> 'e + 'b list" where
  "mapThrow f [] = Inr []"
| "mapThrow f (x # xs) =
     andThen (f x) (\<lambda>y. andThen (mapThrow f xs) (\<lambda>ys. Inr (y # ys)))"

lemma mapThrow_cong [fundef_cong]:
  assumes "xs = ys" and "\<And>x. x \<in> set ys \<Longrightarrow> f x = g x"
  shows "mapThrow f xs = mapThrow g ys"
  using assms(2) unfolding assms(1) by (induction ys) auto

lemma mapThrow_Inr_iff [result_simps]:
  "mapThrow f xs = Inr ys \<longleftrightarrow> list_all2 (\<lambda>x y. f x = Inr y) xs ys"
  by (induction xs arbitrary: ys) (auto simp: andThen_Inr_iff list_all2_Cons1)

lemma mapThrow_total:
  "(\<And>x. x \<in> set xs \<Longrightarrow> f x = Inr (g x)) \<Longrightarrow> mapThrow f xs = Inr (map g xs)"
  by (induction xs) auto

lemma mapThrow_Inl: "mapThrow f xs = Inl e \<Longrightarrow> \<exists>x \<in> set xs. f x = Inl e"
  by (induction xs) (auto simp: andThen_Inl_iff)

lemma mapThrow_memberD: "mapThrow f xs = Inr ys \<Longrightarrow> x \<in> set xs \<Longrightarrow> \<exists>y. f x = Inr y"
  by (induction xs arbitrary: ys) (auto simp: andThen_Inr_iff)

lemma mapThrow_map: "mapThrow f (map h xs) = mapThrow (\<lambda>x. f (h x)) xs"
  by (induction xs) simp_all

section \<open>Strings\<close>

definition codeUnit :: "char \<Rightarrow> nat" where
  "codeUnit c = of_char c"

text \<open>White space of \<open>String.prototype.trim\<close> and of \<open>\s\<close> among the code units 0 to 255.\<close>

definition isSpace :: "char \<Rightarrow> bool" where
  "isSpace c \<longleftrightarrow> codeUnit c \<in> {9, 10, 11, 12, 13, 32, 160}"

definition isDigit :: "char \<Rightarrow> bool" where
  "isDigit c \<longleftrightarrow> 48 \<le> codeUnit c \<and> codeUnit c \<le> 57"

definition isAlnum :: "char \<Rightarrow> bool" where
  "isAlnum c \<longleftrightarrow> isDigit c \<or> (65 \<le> codeUnit c \<and> codeUnit c \<le> 90)
     \<or> (97 \<le> codeUnit c \<and> codeUnit c \<le> 122)"

definition trimStart :: "string \<Rightarrow> string" where
  "trimStart = dropWhile isSpace"

definition trim :: "string \<Rightarrow> string" where
  "trim s = rev (trimStart (rev (trimStart s)))"

definition startsWith :: "string \<Rightarrow> string \<Rightarrow> bool" where
  "startsWith p s \<longleftrightarrow> take (length p) s = p"

lemma length_dropWhile_shrinks [termination_simp]: "length (dropWhile P xs) < Suc (length xs)"
  using length_dropWhile_le [of P xs] by simp

text \<open>\<open>s.replace(/\s+/g, ' ')\<close>: every run of white space becomes one blank.\<close>

fun collapseSpaces :: "string \<Rightarrow> string" where
  "collapseSpaces [] = []"
| "collapseSpaces (c # cs) =
     (if isSpace c then CHR 0x20 # collapseSpaces (dropWhile isSpace cs)
      else c # collapseSpaces cs)"

lemma dropWhile_idem [text_simps]: "dropWhile P (dropWhile P xs) = dropWhile P xs"
  by (induction xs) auto

lemma trimStart_rev_keeps_head:
  assumes "s = [] \<or> \<not> P (hd s)"
  shows "rev (dropWhile P (rev s)) = [] \<or> \<not> P (hd (rev (dropWhile P (rev s))))"
proof (cases "rev (dropWhile P (rev s))")
  case (Cons a as)
  have "s = rev (dropWhile P (rev s)) @ rev (takeWhile P (rev s))"
    by (metis rev_append rev_rev_ident takeWhile_dropWhile_id)
  with Cons have "hd s = a" "s \<noteq> []" by (metis hd_append2 list.distinct(1) list.sel(1), auto)
  with assms Cons show ?thesis by auto
qed simp

lemma dropWhile_id_iff: "dropWhile P s = s \<longleftrightarrow> s = [] \<or> \<not> P (hd s)"
proof (cases s)
  case (Cons a as)
  have "length (dropWhile P as) \<le> length as" by (rule length_dropWhile_le)
  then have "dropWhile P as \<noteq> a # as" by (metis impossible_Cons length_Cons)
  with Cons show ?thesis by auto
qed simp

lemma dropWhile_head: "dropWhile P s = [] \<or> \<not> P (hd (dropWhile P s))"
  by (metis hd_dropWhile)

lemma trim_idem [text_simps]: "trim (trim s) = trim s"
proof -
  let ?t = "dropWhile isSpace s"
  let ?u = "rev (dropWhile isSpace (rev ?t))"
  have "?t = [] \<or> \<not> isSpace (hd ?t)" by (rule dropWhile_head)
  then have "?u = [] \<or> \<not> isSpace (hd ?u)" by (rule trimStart_rev_keeps_head)
  then have "dropWhile isSpace ?u = ?u" by (simp only: dropWhile_id_iff)
  then show ?thesis by (simp add: trim_def trimStart_def dropWhile_idem)
qed

lemma set_dropWhile_subset: "set (dropWhile P xs) \<subseteq> set xs"
  by (auto dest: set_dropWhileD)

lemma set_trim: "set (trim s) \<subseteq> set s"
  by (auto simp: trim_def trimStart_def dest!: set_dropWhileD)

lemma length_trim: "length (trim s) \<le> length s"
  using length_dropWhile_le [of isSpace "rev (dropWhile isSpace s)"]
    length_dropWhile_le [of isSpace s]
  by (simp add: trim_def trimStart_def)

section \<open>Decimal numerals\<close>

definition digitChar :: "nat \<Rightarrow> char" where
  "digitChar d = ''0123456789'' ! d"

fun showNat :: "nat \<Rightarrow> string" where
  "showNat n = (if n < 10 then [digitChar n] else showNat (n div 10) @ [digitChar (n mod 10)])"

declare showNat.simps [simp del]

lemma showNat_small [eval_simps]: "n < 10 \<Longrightarrow> showNat n = [digitChar n]"
  by (simp add: showNat.simps [of n])

lemma showNat_large [eval_simps]:
  "\<not> n < 10 \<Longrightarrow> showNat n = showNat (n div 10) @ [digitChar (n mod 10)]"
  by (simp add: showNat.simps [of n])

definition showInt :: "int \<Rightarrow> string" where
  "showInt i = (if i < 0 then CHR ''-'' # showNat (nat (- i)) else showNat (nat i))"

definition readNat :: "string \<Rightarrow> nat" where
  "readNat s = foldl (\<lambda>n c. 10 * n + (codeUnit c - 48)) 0 s"

lemma codeUnit_digitChar [simp]:
  assumes "d < 10"
  shows "codeUnit (digitChar d) = 48 + d"
proof -
  from assms have "d \<in> {0, 1, 2, 3, 4, 5, 6, 7, 8, 9}" by auto
  then show ?thesis by (auto simp: codeUnit_def digitChar_def)
qed

lemma isDigit_digitChar [simp]: "d < 10 \<Longrightarrow> isDigit (digitChar d)"
  by (simp add: isDigit_def)

lemma showNat_digits: "list_all isDigit (showNat n)"
proof (induction n rule: showNat.induct)
  case (1 n)
  then show ?case by (subst showNat.simps) simp
qed

lemma readNat_snoc: "readNat (s @ [c]) = 10 * readNat s + (codeUnit c - 48)"
  by (simp add: readNat_def)

lemma readNat_showNat [simp]: "readNat (showNat n) = n"
proof (induction n rule: showNat.induct)
  case (1 n)
  show ?case
  proof (cases "n < 10")
    case True
    then show ?thesis by (simp add: showNat.simps [of n] readNat_def)
  next
    case False
    with 1 show ?thesis by (simp add: showNat.simps [of n] readNat_snoc)
  qed
qed

lemma showNat_inj: "showNat m = showNat n \<longleftrightarrow> m = n"
  by (metis readNat_showNat)

lemma showNat_not_Nil [simp]: "showNat n \<noteq> []"
  by (subst showNat.simps) simp

lemma length_showNat: "0 < k \<Longrightarrow> n < 10 ^ k \<Longrightarrow> length (showNat n) \<le> k"
proof (induction n arbitrary: k rule: showNat.induct)
  case (1 n)
  show ?case
  proof (cases "n < 10")
    case True
    with 1 show ?thesis by (simp add: showNat.simps [of n])
  next
    case False
    obtain j where "k = Suc j" using "1.prems"(1) by (cases k) auto
    with False "1.prems"(2) have "0 < j" by (cases j) auto
    from "1.prems"(2) \<open>k = Suc j\<close> have "n div 10 < 10 ^ j"
      by (simp add: less_mult_imp_div_less mult.commute)
    from "1.IH" [OF False \<open>0 < j\<close> this] False \<open>k = Suc j\<close> show ?thesis
      by (simp add: showNat.simps [of n])
  qed
qed

lemma showNat_head: "0 < n \<Longrightarrow> \<exists>c cs. showNat n = c # cs \<and> 49 \<le> codeUnit c \<and> codeUnit c \<le> 57"
proof (induction n rule: showNat.induct)
  case (1 n)
  show ?case
  proof (cases "n < 10")
    case True
    with 1 show ?thesis by (simp add: showNat.simps [of n])
  next
    case False
    then have "0 < n div 10" by auto
    from "1.IH" [OF False this] obtain c cs
      where "showNat (n div 10) = c # cs" "49 \<le> codeUnit c" "codeUnit c \<le> 57"
      by blast
    with False show ?thesis by (simp add: showNat.simps [of n])
  qed
qed

lemmas text_eval [eval_simps] =
  codeUnit_def isSpace_def isDigit_def isAlnum_def trim_def trimStart_def startsWith_def
  digitChar_def showInt_def readNat_def

end
