(* ===== verification/Json.thy ===== *)
theory Json
  imports Prelude
begin

text \<open>
  The values a webhook payload is made of after \<open>JSON.parse\<close>, and the parts of the language's
  library the mappers rest on: \<open>Number.isSafeInteger\<close>, \<open>Number.isFinite\<close>, \<open>String(number)\<close>,
  \<open>JSON.stringify\<close> of a string, \<open>new Date(string)\<close> of an ISO instant and
  \<open>Date.prototype.toISOString\<close>.

  A finite number is represented by the decimal \<open>Number.prototype.toString\<close> prints for it:
  \<open>NInt i\<close> for an integer, \<open>NDec m e\<close> for \<open>m * 10^-e\<close> with \<open>0 < e\<close> and \<open>m\<close> not a multiple
  of ten. \<open>NInf\<close> is what \<open>JSON.parse\<close> makes of a literal beyond the double range.
\<close>

datatype jsnum = NInt int | NDec int nat | NInf bool

datatype json =
  JNull | JBool bool | JNum jsnum | JStr string | JArr "json list" | JObj "(string \<times> json) list"

type_synonym jsobject = "(string \<times> json) list"

text \<open>\<open>record[key]\<close>: \<open>None\<close> is \<open>undefined\<close>.\<close>

definition field :: "jsobject \<Rightarrow> string \<Rightarrow> json option" where
  "field r k = map_of r k"

text \<open>\<open>a ?? b\<close>\<close>

definition nullish :: "json option \<Rightarrow> json option \<Rightarrow> json option" where
  "nullish a b = (case a of None \<Rightarrow> b | Some JNull \<Rightarrow> b | Some v \<Rightarrow> Some v)"

text \<open>\<open>result[key] = value\<close> on a plain object: overwrite in place or append.\<close>

fun setField :: "string \<Rightarrow> json \<Rightarrow> jsobject \<Rightarrow> jsobject" where
  "setField k v [] = [(k, v)]"
| "setField k v ((k', v') # r) =
     (if k' = k then (k, v) # r else (k', v') # setField k v r)"

lemma field_setField [simp]:
  "field (setField k v r) k' = (if k' = k then Some v else field r k')"
  by (induction r) (auto simp: field_def)

lemma field_Nil [simp]: "field [] k = None"
  by (simp add: field_def)

lemma field_Cons [simp]: "field ((k', v) # r) k = (if k = k' then Some v else field r k)"
  by (simp add: field_def)

section \<open>Numbers\<close>

definition isFinite :: "jsnum \<Rightarrow> bool" where
  "isFinite n = (case n of NInf _ \<Rightarrow> False | _ \<Rightarrow> True)"

definition isSafeInteger :: "jsnum \<Rightarrow> bool" where
  "isSafeInteger n = (case n of NInt i \<Rightarrow> \<bar>i\<bar> \<le> 9007199254740991 | _ \<Rightarrow> False)"

definition stripZeros :: "string \<Rightarrow> string" where
  "stripZeros s = rev (dropWhile (\<lambda>c. c = CHR ''0'') (rev s))"

text \<open>\<open>d.ddd\<close> followed by an exponent, \<open>n\<close> being the position of the decimal point.\<close>

definition exponential :: "string \<Rightarrow> int \<Rightarrow> string" where
  "exponential ds n =
     take 1 ds @ (if length ds = 1 then '''' else CHR ''.'' # drop 1 ds) @ ''e''
     @ (if 0 < n then ''+'' @ showInt (n - 1) else showInt (n - 1))"

text \<open>\<open>String(n)\<close>, the case analysis of \<open>Number::toString\<close> in radix ten.\<close>

fun numberToString :: "jsnum \<Rightarrow> string" where
  "numberToString (NInt i) =
     (if \<bar>i\<bar> < 10 ^ 21 then showInt i
      else (if i < 0 then ''-'' else '''')
        @ exponential (stripZeros (showNat (nat \<bar>i\<bar>))) (int (length (showNat (nat \<bar>i\<bar>)))))"
| "numberToString (NDec m e) =
     (let ds = showNat (nat \<bar>m\<bar>); k = length ds; n = int k - int e
      in (if m < 0 then ''-'' else '''') @
         (if 0 < n then take (nat n) ds @ ''.'' @ drop (nat n) ds
          else if -6 < n then ''0.'' @ replicate (nat (- n)) (CHR ''0'') @ ds
          else exponential ds n))"
| "numberToString (NInf pos) = (if pos then ''Infinity'' else ''-Infinity'')"

text \<open>\<open>n <= t\<close> for an integer \<open>t\<close>.\<close>

fun numLe :: "jsnum \<Rightarrow> int \<Rightarrow> bool" where
  "numLe (NInt i) t = (i \<le> t)"
| "numLe (NDec m e) t = (m \<le> t * 10 ^ e)"
| "numLe (NInf pos) t = (\<not> pos)"

section \<open>JSON text of a string\<close>

definition hexDigit :: "nat \<Rightarrow> char" where
  "hexDigit d = (if d < 10 then char_of (48 + d) else char_of (87 + d))"

definition quoteChar :: "char \<Rightarrow> string" where
  "quoteChar c =
     (let u = codeUnit c in
      if u = 34 then [CHR 0x5C, CHR 0x22]
      else if u = 92 then [CHR 0x5C, CHR 0x5C]
      else if u = 8 then [CHR 0x5C, CHR ''b'']
      else if u = 9 then [CHR 0x5C, CHR ''t'']
      else if u = 10 then [CHR 0x5C, CHR ''n'']
      else if u = 12 then [CHR 0x5C, CHR ''f'']
      else if u = 13 then [CHR 0x5C, CHR ''r'']
      else if u < 32 then [CHR 0x5C, CHR ''u'', CHR ''0'', CHR ''0'', hexDigit (u div 16), hexDigit (u mod 16)]
      else [c])"

definition quoteString :: "string \<Rightarrow> string" where
  "quoteString s = [CHR 0x22] @ concat (map quoteChar s) @ [CHR 0x22]"

fun joinWith :: "string \<Rightarrow> string list \<Rightarrow> string" where
  "joinWith sep [] = []"
| "joinWith sep [x] = x"
| "joinWith sep (x # y # xs) = x @ sep @ joinWith sep (y # xs)"

section \<open>Dates\<close>

type_synonym date = int

definition shape :: "string \<Rightarrow> string \<Rightarrow> bool" where
  "shape p s \<longleftrightarrow> list_all2 (\<lambda>a c. if a = CHR ''9'' then isDigit c else c = a) p s"

definition withoutZ :: "string \<Rightarrow> string" where
  "withoutZ s = (if s \<noteq> [] \<and> last s = CHR ''Z'' then butlast s else s)"

text \<open>The mappers' regular expression for an instant without offset.\<close>

definition gmtDatePattern :: "string \<Rightarrow> bool" where
  "gmtDatePattern s =
     (let b = withoutZ s; f = drop 19 b in
      shape ''9999-99-99T99:99:99'' (take 19 b) \<and>
      (f = [] \<or> (hd f = CHR ''.'' \<and> length (tl f) \<in> {1, 2, 3} \<and> list_all isDigit (tl f))))"

definition daysFromCivil :: "int \<Rightarrow> int \<Rightarrow> int \<Rightarrow> int" where
  "daysFromCivil y m d =
     (let y' = (if m \<le> 2 then y - 1 else y);
          yoe = y' mod 400;
          doy = (153 * (if 2 < m then m - 3 else m + 9) + 2) div 5 + d - 1
      in (y' div 400) * 146097 + yoe * 365 + yoe div 4 - yoe div 100 + doy - 719468)"

definition numAt :: "string \<Rightarrow> nat \<Rightarrow> nat \<Rightarrow> int" where
  "numAt s i n = int (readNat (take n (drop i s)))"

text \<open>
  \<open>new Date(s)\<close> for a string of the pattern above, read as UTC; \<open>None\<close> is the invalid date. The
  day is checked against 31 and overflows into the next month, as the engine does.
\<close>

definition parseInstant :: "string \<Rightarrow> date option" where
  "parseInstant s =
     (let b = withoutZ s; f = tl (drop 19 b);
          mo = numAt b 5 2; d = numAt b 8 2; h = numAt b 11 2; mi = numAt b 14 2; se = numAt b 17 2;
          ms = (if f = [] then 0 else int (readNat f) * 10 ^ (3 - length f))
      in if 1 \<le> mo \<and> mo \<le> 12 \<and> 1 \<le> d \<and> d \<le> 31 \<and> mi \<le> 59 \<and> se \<le> 59 \<and>
           (h \<le> 23 \<or> h = 24 \<and> mi = 0 \<and> se = 0 \<and> ms = 0)
         then Some ((daysFromCivil (numAt b 0 4) mo d * 86400 + h * 3600 + mi * 60 + se) * 1000 + ms)
         else None)"

definition civilOfMonth :: "int \<Rightarrow> int \<Rightarrow> int \<Rightarrow> int \<times> int \<times> int" where
  "civilOfMonth y mp doy =
     (if mp < 10 then (y, mp + 3, doy - (153 * mp + 2) div 5 + 1)
      else (y + 1, mp - 9, doy - (153 * mp + 2) div 5 + 1))"

definition civilOfDay :: "int \<Rightarrow> int \<Rightarrow> int \<times> int \<times> int" where
  "civilOfDay y doy = civilOfMonth y ((5 * doy + 2) div 153) doy"

definition civilOfYear :: "int \<Rightarrow> int \<Rightarrow> int \<Rightarrow> int \<times> int \<times> int" where
  "civilOfYear era yoe doe =
     civilOfDay (yoe + era * 400) (doe - (365 * yoe + yoe div 4 - yoe div 100))"

definition civilOfEra :: "int \<Rightarrow> int \<Rightarrow> int \<times> int \<times> int" where
  "civilOfEra era doe =
     civilOfYear era ((doe - doe div 1460 + doe div 36524 - doe div 146096) div 365) doe"

definition civilFromDays :: "int \<Rightarrow> int \<times> int \<times> int" where
  "civilFromDays z = civilOfEra ((z + 719468) div 146097) ((z + 719468) mod 146097)"

definition padZeros :: "nat \<Rightarrow> int \<Rightarrow> string" where
  "padZeros w i = replicate (w - length (showNat (nat i))) (CHR ''0'') @ showNat (nat i)"

fun isoText :: "int \<times> int \<times> int \<Rightarrow> int \<Rightarrow> string" where
  "isoText (y, m, d) r =
     (if 0 \<le> y \<and> y \<le> 9999 then padZeros 4 y
      else (if y < 0 then ''-'' else ''+'') @ padZeros 6 \<bar>y\<bar>)
     @ ''-'' @ padZeros 2 m @ ''-'' @ padZeros 2 d @ ''T'' @ padZeros 2 (r div 3600000)
     @ '':'' @ padZeros 2 (r div 60000 mod 60) @ '':'' @ padZeros 2 (r div 1000 mod 60)
     @ ''.'' @ padZeros 3 (r mod 1000) @ ''Z''"

definition toISOString :: "date \<Rightarrow> string" where
  "toISOString t = isoText (civilFromDays (t div 86400000)) (t mod 86400000)"

lemmas json_eval [eval_simps] =
  nullish_def isFinite_def isSafeInteger_def shape_def withoutZ_def gmtDatePattern_def numAt_def
  parseInstant_def daysFromCivil_def civilOfMonth_def civilOfDay_def
  civilOfYear_def civilOfEra_def civilFromDays_def padZeros_def toISOString_def

lemma replicate_numeral [eval_simps]: "replicate (numeral n) x = x # replicate (pred_numeral n) x"
  by (simp add: numeral_eq_Suc)

end
