(* ===== verification/OrderMapper.thy ===== *)
theory OrderMapper
  imports Json
begin

text \<open>
  \<open>backend/src/orders/order-payload.mapper.ts\<close>: reading a WooCommerce order payload into the
  projection the database stores, its canonical serialisation and its fingerprint. A thrown
  \<open>OrderPayloadMappingError\<close> is a value of \<open>OrderPayloadMappingError\<close>, its optional order id
  included, since the caller reconciles exactly when the id is present. The hash
  (\<open>createHash('sha256')\<close>) is the parameter \<open>sha\<close>.
\<close>

datatype OrderPayloadMappingError =
  OrderPayloadMappingError (code: string) (errWcOrderId: "string option")

type_synonym 'a mapped = "OrderPayloadMappingError + 'a"

record OrderProjection =
  wcOrderId :: string
  orderNumber :: string
  status :: string
  currency :: string
  totals :: json
  customerSnapshot :: json
  lineItemsSnapshot :: json
  paymentSnapshot :: json
  shippingLinesSnapshot :: json
  wcCreatedAt :: date
  wcModifiedAt :: date
  remoteDeletedAt :: "date option"
  projectionFingerprint :: string

definition TOTAL_FIELDS :: "string list" where
  "TOTAL_FIELDS = [''discount_total'', ''discount_tax'', ''shipping_total'', ''shipping_tax'',
     ''cart_tax'', ''total'', ''total_tax'']"

section \<open>Checked reads\<close>

definition requireRecord :: "json option \<Rightarrow> string \<Rightarrow> string option \<Rightarrow> jsobject mapped" where
  "requireRecord v c i =
     (case v of Some (JObj r) \<Rightarrow> Inr r | _ \<Rightarrow> Inl (OrderPayloadMappingError c i))"

definition requireString :: "json option \<Rightarrow> string \<Rightarrow> string \<Rightarrow> string mapped" where
  "requireString v c i =
     (case v of
        Some (JStr s) \<Rightarrow> if trim s = [] then Inl (OrderPayloadMappingError c (Some i)) else Inr s
      | _ \<Rightarrow> Inl (OrderPayloadMappingError c (Some i)))"

definition requireDisplayString :: "json option \<Rightarrow> string \<Rightarrow> string \<Rightarrow> string mapped" where
  "requireDisplayString v c i =
     (case v of
        Some (JNum (NInt n)) \<Rightarrow>
          if isSafeInteger (NInt n) \<and> 0 \<le> n then Inr (numberToString (NInt n))
          else requireString v c i
      | _ \<Rightarrow> requireString v c i)"

text \<open>\<open>WC_ORDER_ID_PATTERN\<close>, which is also the inventory mapper's \<open>WC_ITEM_ID_PATTERN\<close>.\<close>

definition wcIdPattern :: "string \<Rightarrow> bool" where
  "wcIdPattern s =
     (case s of [] \<Rightarrow> False
      | c # cs \<Rightarrow> 49 \<le> codeUnit c \<and> codeUnit c \<le> 57 \<and> length cs \<le> 31 \<and> list_all isDigit cs)"

definition normalizeWcId :: "json option \<Rightarrow> string" where
  "normalizeWcId v =
     (case v of
        Some (JNum (NInt n)) \<Rightarrow>
          if isSafeInteger (NInt n) \<and> 0 < n then numberToString (NInt n) else ''''
      | Some (JStr s) \<Rightarrow> s
      | _ \<Rightarrow> '''')"

definition readWooCommerceOrderId :: "json \<Rightarrow> string mapped" where
  "readWooCommerceOrderId payload =
     andThen (requireRecord (Some payload) ''malformed-order-payload'' None) (\<lambda>r.
     let normalized = normalizeWcId (field r ''id'') in
     if wcIdPattern normalized then Inr normalized
     else Inl (OrderPayloadMappingError ''malformed-order-identity'' None))"

definition requireGmtDate :: "json option \<Rightarrow> string \<Rightarrow> string \<Rightarrow> date mapped" where
  "requireGmtDate v c i =
     (case v of
        Some (JStr s) \<Rightarrow>
          if gmtDatePattern s
          then (case parseInstant s of
                  None \<Rightarrow> Inl (OrderPayloadMappingError c (Some i))
                | Some t \<Rightarrow> Inr t)
          else Inl (OrderPayloadMappingError c (Some i))
      | _ \<Rightarrow> Inl (OrderPayloadMappingError c (Some i)))"

definition displayValue :: "json option \<Rightarrow> bool" where
  "displayValue v =
     (case v of Some (JStr _) \<Rightarrow> True | Some (JNum n) \<Rightarrow> isFinite n | _ \<Rightarrow> False)"

fun pickDisplayFields :: "jsobject \<Rightarrow> string list \<Rightarrow> jsobject" where
  "pickDisplayFields r [] = []"
| "pickDisplayFields r (f # fs) =
     (if displayValue (field r f) then (f, the (field r f)) # pickDisplayFields r fs
      else pickDisplayFields r fs)"

definition normalizeOptionalString :: "json option \<Rightarrow> string \<Rightarrow> json mapped" where
  "normalizeOptionalString v i =
     (case v of
        None \<Rightarrow> Inr JNull
      | Some JNull \<Rightarrow> Inr JNull
      | Some (JStr s) \<Rightarrow> Inr (if trim s = [] then JNull else JStr (trim s))
      | _ \<Rightarrow> Inl (OrderPayloadMappingError ''malformed-order-context'' (Some i)))"

definition hasPaidDate :: "json option \<Rightarrow> string \<Rightarrow> bool mapped" where
  "hasPaidDate v i =
     (case v of
        None \<Rightarrow> Inr False
      | Some JNull \<Rightarrow> Inr False
      | Some (JStr s) \<Rightarrow> Inr (s \<noteq> '''')
      | _ \<Rightarrow> Inl (OrderPayloadMappingError ''malformed-order-payment'' (Some i)))"

section \<open>Canonical JSON\<close>

lemma size_json_in: "x \<in> set xs \<Longrightarrow> size (x :: json) < Suc (size_list size xs)"
  by (induction xs) auto

lemma size_json_snd:
  assumes "(a, b) \<in> set r"
  shows "size (b :: json) < Suc (size_list (size_prod (\<lambda>x. 0) size) r)"
proof -
  have "size b < size_list (size_prod (\<lambda>x. 0) size) r"
    by (rule size_list_estimation [OF assms]) simp
  then show ?thesis by simp
qed

function canonicalizeJson :: "json \<Rightarrow> json mapped" where
  "canonicalizeJson JNull = Inr JNull"
| "canonicalizeJson (JStr s) = Inr (JStr s)"
| "canonicalizeJson (JBool b) = Inr (JBool b)"
| "canonicalizeJson (JNum n) =
     (if isFinite n then Inr (JNum n)
      else Inl (OrderPayloadMappingError ''malformed-order-json'' None))"
| "canonicalizeJson (JArr xs) =
     andThen (mapThrow canonicalizeJson xs) (\<lambda>ys. Inr (JArr ys))"
| "canonicalizeJson (JObj r) =
     andThen (mapThrow (\<lambda>p. andThen (canonicalizeJson (snd p)) (\<lambda>v. Inr (fst p, v)))
       (sort_key fst r)) (\<lambda>r'. Inr (JObj r'))"
  by pat_completeness auto

termination
  by (relation "measure size") (auto intro: size_json_in size_json_snd)

function canonicalSerialize :: "json \<Rightarrow> string mapped" where
  "canonicalSerialize JNull = Inr ''null''"
| "canonicalSerialize (JBool b) = Inr (if b then ''true'' else ''false'')"
| "canonicalSerialize (JStr s) = Inr (quoteString s)"
| "canonicalSerialize (JNum n) =
     (if isFinite n then Inr (numberToString n)
      else Inl (OrderPayloadMappingError ''malformed-order-json'' None))"
| "canonicalSerialize (JArr xs) =
     andThen (mapThrow canonicalSerialize xs) (\<lambda>ts. Inr (''['' @ joinWith '','' ts @ '']''))"
| "canonicalSerialize (JObj r) =
     andThen (mapThrow (\<lambda>p. andThen (canonicalSerialize (snd p))
         (\<lambda>t. Inr (quoteString (fst p) @ '':'' @ t))) (sort_key fst r))
       (\<lambda>ts. Inr (''{'' @ joinWith '','' ts @ ''}''))"
  by pat_completeness auto

termination
  by (relation "measure size") (auto intro: size_json_in size_json_snd)

section \<open>The fingerprint\<close>

text \<open>
  The object \<open>orderProjectionFingerprint\<close> serialises. Its keys are the projection's fields, the
  fingerprint itself left out.
\<close>

definition fingerprintSource :: "'a OrderProjection_scheme \<Rightarrow> json" where
  "fingerprintSource p = JObj
     [(''wcOrderId'', JStr (wcOrderId p)),
      (''orderNumber'', JStr (orderNumber p)),
      (''status'', JStr (status p)),
      (''currency'', JStr (currency p)),
      (''totals'', totals p),
      (''customerSnapshot'', customerSnapshot p),
      (''lineItemsSnapshot'', lineItemsSnapshot p),
      (''paymentSnapshot'', paymentSnapshot p),
      (''shippingLinesSnapshot'', shippingLinesSnapshot p),
      (''wcCreatedAt'', JStr (toISOString (wcCreatedAt p))),
      (''wcModifiedAt'', JStr (toISOString (wcModifiedAt p))),
      (''remoteDeletedAt'',
         case remoteDeletedAt p of None \<Rightarrow> JNull | Some t \<Rightarrow> JStr (toISOString t))]"

definition orderProjectionFingerprint ::
  "(string \<Rightarrow> string) \<Rightarrow> 'a OrderProjection_scheme \<Rightarrow> string mapped" where
  "orderProjectionFingerprint sha p =
     andThen (canonicalSerialize (fingerprintSource p)) (\<lambda>canonical. Inr (sha canonical))"

definition withRemoteDeletedAt ::
  "(string \<Rightarrow> string) \<Rightarrow> OrderProjection \<Rightarrow> date option \<Rightarrow> OrderProjection mapped" where
  "withRemoteDeletedAt sha p t =
     andThen (orderProjectionFingerprint sha (p\<lparr>remoteDeletedAt := t\<rparr>))
       (\<lambda>h. Inr (p\<lparr>remoteDeletedAt := t, projectionFingerprint := h\<rparr>))"

section \<open>The mapper\<close>

fun readTotals :: "jsobject \<Rightarrow> string \<Rightarrow> string list \<Rightarrow> jsobject \<Rightarrow> jsobject mapped" where
  "readTotals r i [] acc = Inr acc"
| "readTotals r i (f # fs) acc =
     (case field r f of
        Some (JStr s) \<Rightarrow> readTotals r i fs (setField f (JStr s) acc)
      | Some (JNum n) \<Rightarrow> readTotals r i fs (setField f (JNum n) acc)
      | _ \<Rightarrow> Inl (OrderPayloadMappingError ''malformed-order-totals'' (Some i)))"

definition requireArray :: "json option \<Rightarrow> string \<Rightarrow> string \<Rightarrow> json list mapped" where
  "requireArray v c i =
     (case v of Some (JArr xs) \<Rightarrow> Inr xs | _ \<Rightarrow> Inl (OrderPayloadMappingError c (Some i)))"

definition billingFields :: "string list" where
  "billingFields = [''first_name'', ''last_name'', ''company'']"

definition shippingFields :: "string list" where
  "shippingFields = [''company'', ''address_1'', ''address_2'', ''city'', ''state'', ''postcode'',
     ''country'']"

definition lineItemFields :: "string list" where
  "lineItemFields = [''name'', ''quantity'', ''total'']"

definition mapLineItem :: "string \<Rightarrow> json \<Rightarrow> json mapped" where
  "mapLineItem i item =
     andThen (requireRecord (Some item) ''malformed-order-line-items'' (Some i))
       (\<lambda>r. Inr (JObj (pickDisplayFields r lineItemFields)))"

definition mapShippingLine :: "string \<Rightarrow> json \<Rightarrow> json mapped" where
  "mapShippingLine i line =
     andThen (requireRecord (Some line) ''malformed-order-shipping-lines'' (Some i)) (\<lambda>r.
     andThen (normalizeOptionalString (field r ''method_id'') i) (\<lambda>mid.
     andThen (normalizeOptionalString (field r ''method_title'') i) (\<lambda>mt.
     Inr (JObj [(''method_id'', mid), (''method_title'', mt)]))))"

definition mapPayment :: "jsobject \<Rightarrow> string \<Rightarrow> json mapped" where
  "mapPayment r i =
     andThen (normalizeOptionalString (field r ''payment_method'') i) (\<lambda>m.
     andThen (normalizeOptionalString (field r ''payment_method_title'') i) (\<lambda>mt.
     andThen (hasPaidDate (nullish (field r ''date_paid_gmt'') (field r ''date_paid'')) i) (\<lambda>paid.
     canonicalizeJson (JObj [(''method'', m), (''method_title'', mt), (''paid'', JBool paid)]))))"

text \<open>
  The body of the \<open>try\<close> block, in the order its expressions are evaluated. The \<open>catch\<close> rethrows
  a mapping error as it is, and no other exception can arise on a parsed payload.
\<close>

definition mapOrderBody ::
  "(string \<Rightarrow> string) \<Rightarrow> jsobject \<Rightarrow> string \<Rightarrow> OrderProjection mapped" where
  "mapOrderBody sha r i =
     andThen (readTotals r i TOTAL_FIELDS []) (\<lambda>ts.
     andThen (requireRecord (field r ''billing'') ''malformed-order-customer'' (Some i)) (\<lambda>billing.
     andThen (requireRecord (field r ''shipping'') ''malformed-order-customer'' (Some i)) (\<lambda>shipping.
     andThen (requireArray (field r ''line_items'') ''malformed-order-line-items'' i) (\<lambda>items.
     andThen (requireArray (nullish (field r ''shipping_lines'') (Some (JArr [])))
       ''malformed-order-shipping-lines'' i) (\<lambda>lines.
     andThen (requireDisplayString (field r ''number'') ''malformed-order-number'' i) (\<lambda>num.
     andThen (requireString (field r ''status'') ''malformed-order-status'' i) (\<lambda>st.
     andThen (requireString (field r ''currency'') ''malformed-order-currency'' i) (\<lambda>cur.
     andThen (canonicalizeJson (JObj ts)) (\<lambda>ctotals.
     andThen (canonicalizeJson (JObj
       [(''billing'', JObj (pickDisplayFields billing billingFields)),
        (''shipping'', JObj (pickDisplayFields shipping shippingFields))])) (\<lambda>customer.
     andThen (mapThrow (mapLineItem i) items) (\<lambda>its.
     andThen (canonicalizeJson (JArr its)) (\<lambda>citems.
     andThen (mapPayment r i) (\<lambda>payment.
     andThen (mapThrow (mapShippingLine i) lines) (\<lambda>ls.
     andThen (canonicalizeJson (JArr ls)) (\<lambda>clines.
     andThen (requireGmtDate (field r ''date_created_gmt'') ''malformed-order-created-at'' i) (\<lambda>created.
     andThen (requireGmtDate (field r ''date_modified_gmt'') ''unreliable-order-modified-at'' i) (\<lambda>modified.
     let p = \<lparr>wcOrderId = i, orderNumber = num, status = st, currency = cur, totals = ctotals,
              customerSnapshot = customer, lineItemsSnapshot = citems, paymentSnapshot = payment,
              shippingLinesSnapshot = clines, wcCreatedAt = created, wcModifiedAt = modified,
              remoteDeletedAt = None, projectionFingerprint = ''''\<rparr>
     in andThen (orderProjectionFingerprint sha p)
          (\<lambda>h. Inr (p\<lparr>projectionFingerprint := h\<rparr>)))))))))))))))))))"

definition mapWooCommerceOrder :: "(string \<Rightarrow> string) \<Rightarrow> json \<Rightarrow> OrderProjection mapped" where
  "mapWooCommerceOrder sha payload =
     andThen (requireRecord (Some payload) ''malformed-order-payload'' None) (\<lambda>r.
     andThen (readWooCommerceOrderId payload) (\<lambda>i. mapOrderBody sha r i))"

section \<open>Key order does not matter\<close>

text \<open>
  Two JSON values with the same content: objects may list their keys in another order, as they do
  after a round trip through a \<open>jsonb\<close> column.
\<close>

inductive sameJson :: "json \<Rightarrow> json \<Rightarrow> bool" where
  same_null: "sameJson JNull JNull"
| same_bool: "sameJson (JBool b) (JBool b)"
| same_num: "sameJson (JNum n) (JNum n)"
| same_str: "sameJson (JStr s) (JStr s)"
| same_arr: "list_all2 sameJson xs ys \<Longrightarrow> sameJson (JArr xs) (JArr ys)"
| same_obj: "distinct (map fst r) \<Longrightarrow> distinct (map fst r') \<Longrightarrow> set (map fst r) = set (map fst r') \<Longrightarrow>
    (\<forall>(k, v) \<in> set r. \<forall>(k', w) \<in> set r'. k = k' \<longrightarrow> sameJson v w) \<Longrightarrow> sameJson (JObj r) (JObj r')"

lemma sort_key_by_keys:
  assumes "distinct (map fst r)"
  shows "sort_key fst r = map (\<lambda>k. (k, the (map_of r k))) (sort (map fst r))"
proof -
  have set: "set (sort_key fst r) = set r" by simp
  have "map fst (sort_key fst r) = sort (map fst r)"
    by (rule sorted_distinct_set_unique) (use assms in \<open>auto simp: distinct_map\<close>)
  moreover have "map (\<lambda>p. (fst p, the (map_of r (fst p)))) (sort_key fst r) = sort_key fst r"
    using assms by (intro map_idI) auto
  ultimately show ?thesis by (metis (no_types, lifting) list.map_comp comp_apply map_eq_conv)
qed

lemma serialize_entries:
  assumes "distinct (map fst r)"
  shows "canonicalSerialize (JObj r) =
    andThen (mapThrow (\<lambda>k. andThen (canonicalSerialize (the (map_of r k)))
       (\<lambda>t. Inr (quoteString k @ '':'' @ t))) (sort (map fst r)))
      (\<lambda>ts. Inr (''{'' @ joinWith '','' ts @ ''}''))"
  by (simp add: sort_key_by_keys [OF assms] mapThrow_map)

lemma mapThrow_all2:
  "list_all2 (\<lambda>x y. f x = f y) xs ys \<Longrightarrow> mapThrow f xs = mapThrow f ys"
  by (induction rule: list_all2_induct) auto

lemma sameJson_serialize:
  "sameJson v w \<Longrightarrow> canonicalSerialize v = canonicalSerialize w"
proof (induction rule: sameJson.induct)
  case (same_arr xs ys)
  then have "list_all2 (\<lambda>x y. canonicalSerialize x = canonicalSerialize y) xs ys"
    by (auto elim: list_all2_mono)
  then show ?case by (simp add: mapThrow_all2)
next
  case (same_obj r r')
  have keys: "sort (map fst r) = sort (map fst r')"
    by (rule sorted_distinct_set_unique) (use same_obj in auto)
  have "canonicalSerialize (the (map_of r k)) = canonicalSerialize (the (map_of r' k))"
    if "k \<in> set (sort (map fst r))" for k
  proof -
    from that same_obj.hyps(3) have "k \<in> fst ` set r" "k \<in> fst ` set r'" by auto
    then obtain v w where "(k, v) \<in> set r" "(k, w) \<in> set r'" by auto
    with same_obj show ?thesis by (fastforce simp: map_of_is_SomeI)
  qed
  then show ?case
    unfolding serialize_entries [OF same_obj.hyps(1)] serialize_entries [OF same_obj.hyps(2)] keys
    by (metis (mono_tags, lifting) keys mapThrow_cong)
qed simp_all
section \<open>What a mapped order looks like\<close>

lemma fingerprintSource_own_field [simp]:
  "fingerprintSource (p\<lparr>projectionFingerprint := h\<rparr>) = fingerprintSource p"
  by (simp add: fingerprintSource_def)

lemma orderProjectionFingerprint_own_field [simp]:
  "orderProjectionFingerprint sha (p\<lparr>projectionFingerprint := h\<rparr>) = orderProjectionFingerprint sha p"
  by (simp add: orderProjectionFingerprint_def)

lemma readWooCommerceOrderId_Inr:
  "readWooCommerceOrderId v = Inr i \<longleftrightarrow>
     (\<exists>r. v = JObj r \<and> i = normalizeWcId (field r ''id'') \<and> wcIdPattern i)"
  by (auto simp: readWooCommerceOrderId_def andThen_Inr_iff requireRecord_def Let_def
      split: json.splits if_splits)

lemma mapWooCommerceOrder_Inr:
  "mapWooCommerceOrder sha v = Inr p \<longleftrightarrow>
     (\<exists>r i. v = JObj r \<and> readWooCommerceOrderId v = Inr i \<and> mapOrderBody sha r i = Inr p)"
  by (auto simp: mapWooCommerceOrder_def andThen_Inr_iff requireRecord_def split: json.splits)

text \<open>Every field of a successful projection, by inversion of the body.\<close>

definition bodyParts :: "(string \<Rightarrow> string) \<Rightarrow> jsobject \<Rightarrow> string \<Rightarrow> OrderProjection \<Rightarrow>
    jsobject \<Rightarrow> jsobject \<Rightarrow> jsobject \<Rightarrow> json list \<Rightarrow> json list \<Rightarrow> json list \<Rightarrow> json list \<Rightarrow> bool" where
  "bodyParts sha r i p ts billing shipping items lines ls its \<longleftrightarrow>
    (readTotals r i TOTAL_FIELDS [] = Inr ts \<and> canonicalizeJson (JObj ts) = Inr (totals p)) \<and>
    requireRecord (field r ''billing'') ''malformed-order-customer'' (Some i) = Inr billing \<and>
    requireRecord (field r ''shipping'') ''malformed-order-customer'' (Some i) = Inr shipping \<and>
    canonicalizeJson (JObj [(''billing'', JObj (pickDisplayFields billing billingFields)),
       (''shipping'', JObj (pickDisplayFields shipping shippingFields))]) = Inr (customerSnapshot p) \<and>
    (requireArray (field r ''line_items'') ''malformed-order-line-items'' i = Inr items \<and>
     mapThrow (mapLineItem i) items = Inr its \<and>
     canonicalizeJson (JArr its) = Inr (lineItemsSnapshot p)) \<and>
    (requireArray (nullish (field r ''shipping_lines'') (Some (JArr [])))
       ''malformed-order-shipping-lines'' i = Inr lines \<and>
     mapThrow (mapShippingLine i) lines = Inr ls \<and>
     canonicalizeJson (JArr ls) = Inr (shippingLinesSnapshot p)) \<and>
    mapPayment r i = Inr (paymentSnapshot p) \<and>
    requireDisplayString (field r ''number'') ''malformed-order-number'' i = Inr (orderNumber p) \<and>
    requireString (field r ''status'') ''malformed-order-status'' i = Inr (status p) \<and>
    requireString (field r ''currency'') ''malformed-order-currency'' i = Inr (currency p) \<and>
    requireGmtDate (field r ''date_created_gmt'') ''malformed-order-created-at'' i = Inr (wcCreatedAt p) \<and>
    requireGmtDate (field r ''date_modified_gmt'') ''unreliable-order-modified-at'' i = Inr (wcModifiedAt p) \<and>
    wcOrderId p = i \<and> remoteDeletedAt p = None \<and>
    orderProjectionFingerprint sha p = Inr (projectionFingerprint p)"

lemma mapOrderBody_Inr:
  "mapOrderBody sha r i = Inr p \<longleftrightarrow>
    (\<exists>ts billing shipping items lines ls its.
       bodyParts sha r i p ts billing shipping items lines ls its)"
proof
  assume "mapOrderBody sha r i = Inr p"
  then show "\<exists>ts billing shipping items lines ls its.
      bodyParts sha r i p ts billing shipping items lines ls its"
    unfolding mapOrderBody_def andThen_Inr_iff Let_def
    by (elim exE conjE) (intro exI, (auto simp: bodyParts_def orderProjectionFingerprint_def
        fingerprintSource_def simp del: canonicalizeJson.simps canonicalSerialize.simps))
next
  assume "\<exists>ts billing shipping items lines ls its.
      bodyParts sha r i p ts billing shipping items lines ls its"
  then obtain ts billing shipping items lines ls its where
    "bodyParts sha r i p ts billing shipping items lines ls its" by blast
  then show "mapOrderBody sha r i = Inr p"
    by (cases p) (auto simp: mapOrderBody_def bodyParts_def orderProjectionFingerprint_def
        fingerprintSource_def andThen_Inr_iff simp del: canonicalizeJson.simps canonicalSerialize.simps)
qed

lemma requireString_Inr:
  "requireString v c i = Inr s \<longleftrightarrow> v = Some (JStr s) \<and> trim s \<noteq> []"
  by (auto simp: requireString_def split: option.splits json.splits if_splits)

text \<open>
  The mapper's own fingerprint is the fingerprint of the projection it returns, so recomputing it
  from the stored fields gives the stored value.
\<close>

lemma mapped_fingerprint:
  assumes "mapWooCommerceOrder sha v = Inr p"
  shows "orderProjectionFingerprint sha p = Inr (projectionFingerprint p)"
  using assms by (auto simp: mapWooCommerceOrder_Inr mapOrderBody_Inr bodyParts_def)

lemma mapped_identity:
  assumes "mapWooCommerceOrder sha v = Inr p"
  shows "readWooCommerceOrderId v = Inr (wcOrderId p) \<and> wcIdPattern (wcOrderId p)
    \<and> trim (status p) \<noteq> [] \<and> trim (currency p) \<noteq> [] \<and> remoteDeletedAt p = None"
  using assms
  by (auto simp: mapWooCommerceOrder_Inr mapOrderBody_Inr bodyParts_def requireString_Inr
      readWooCommerceOrderId_Inr)

section \<open>Serialising finite JSON never fails\<close>

fun finiteJson :: "json \<Rightarrow> bool" where
  "finiteJson (JNum n) = isFinite n"
| "finiteJson (JArr xs) = (\<forall>x \<in> set xs. finiteJson x)"
| "finiteJson (JObj r) = (\<forall>p \<in> set r. finiteJson (snd p))"
| "finiteJson _ = True"

lemma mapThrow_success: "(\<And>x. x \<in> set xs \<Longrightarrow> \<exists>y. f x = Inr y) \<Longrightarrow> \<exists>ys. mapThrow f xs = Inr ys"
  by (induction xs) (auto, metis andThen_simps(2))

lemma canonicalSerialize_total: "finiteJson v \<Longrightarrow> \<exists>s. canonicalSerialize v = Inr s"
proof (induction v rule: canonicalSerialize.induct)
  case (5 xs)
  then have "\<exists>ts. mapThrow canonicalSerialize xs = Inr ts" by (intro mapThrow_success) auto
  then show ?case by auto
next
  case (6 r)
  then have "\<exists>ts. mapThrow (\<lambda>p. andThen (canonicalSerialize (snd p))
      (\<lambda>t. Inr (quoteString (fst p) @ '':'' @ t))) (sort_key fst r) = Inr ts"
    by (intro mapThrow_success) (auto simp: result_simps)
  then show ?case by auto
qed auto

lemma canonicalizeJson_total: "finiteJson v \<Longrightarrow> \<exists>w. canonicalizeJson v = Inr w"
proof (induction v rule: canonicalizeJson.induct)
  case (5 xs)
  then have "\<exists>ts. mapThrow canonicalizeJson xs = Inr ts" by (intro mapThrow_success) auto
  then show ?case by auto
next
  case (6 r)
  then have "\<exists>ts. mapThrow (\<lambda>p. andThen (canonicalizeJson (snd p)) (\<lambda>v. Inr (fst p, v)))
      (sort_key fst r) = Inr ts"
    by (intro mapThrow_success) (auto simp: result_simps)
  then show ?case by auto
qed auto

lemma mapThrow_elements:
  "mapThrow f xs = Inr ys \<Longrightarrow> y \<in> set ys \<Longrightarrow> \<exists>x \<in> set xs. f x = Inr y"
  by (induction xs arbitrary: ys) (auto simp: andThen_Inr_iff)

lemma canonicalizeJson_finite: "canonicalizeJson v = Inr w \<Longrightarrow> finiteJson w"
proof (induction v arbitrary: w rule: canonicalizeJson.induct)
  case (5 xs)
  then obtain ys where "w = JArr ys" "mapThrow canonicalizeJson xs = Inr ys"
    by (auto simp: andThen_Inr_iff)
  with 5 show ?case by (auto dest: mapThrow_elements)
next
  case (6 r)
  then obtain r' where r': "w = JObj r'"
    "mapThrow (\<lambda>p. andThen (canonicalizeJson (snd p)) (\<lambda>v. Inr (fst p, v))) (sort_key fst r) = Inr r'"
    by (auto simp: andThen_Inr_iff)
  with 6 show ?case by (auto simp: andThen_Inr_iff dest!: mapThrow_elements [OF r'(2)])
qed (auto split: if_splits)

text \<open>The stored JSON columns of an order, as the mapper writes them, are finite.\<close>

definition finiteSnapshots :: "'a OrderProjection_scheme \<Rightarrow> bool" where
  "finiteSnapshots p \<longleftrightarrow> finiteJson (totals p) \<and> finiteJson (customerSnapshot p)
     \<and> finiteJson (lineItemsSnapshot p) \<and> finiteJson (paymentSnapshot p)
     \<and> finiteJson (shippingLinesSnapshot p)"

lemma fingerprint_total:
  assumes "finiteSnapshots p"
  shows "\<exists>h. orderProjectionFingerprint sha p = Inr h"
proof -
  have "finiteJson (fingerprintSource p)"
    using assms by (auto simp: fingerprintSource_def finiteSnapshots_def split: option.splits)
  from canonicalSerialize_total [OF this] show ?thesis
    by (auto simp: orderProjectionFingerprint_def)
qed

lemma mapPayment_finite: "mapPayment r i = Inr v \<Longrightarrow> finiteJson v"
  unfolding mapPayment_def andThen_Inr_iff by (elim exE conjE) (rule canonicalizeJson_finite)

lemma mapped_finite:
  "mapWooCommerceOrder sha v = Inr p \<Longrightarrow> finiteSnapshots p"
  by (auto simp: mapWooCommerceOrder_Inr mapOrderBody_Inr bodyParts_def finiteSnapshots_def
      mapPayment_finite simp del: canonicalizeJson.simps dest: canonicalizeJson_finite)

lemma withRemoteDeletedAt_total:
  assumes "finiteSnapshots p"
  shows "\<exists>h. withRemoteDeletedAt sha p t = Inr (p\<lparr>remoteDeletedAt := t, projectionFingerprint := h\<rparr>)
    \<and> orderProjectionFingerprint sha (p\<lparr>remoteDeletedAt := t\<rparr>) = Inr h"
proof -
  have "finiteSnapshots (p\<lparr>remoteDeletedAt := t\<rparr>)" using assms by (simp add: finiteSnapshots_def)
  from fingerprint_total [OF this, of sha] show ?thesis by (auto simp: withRemoteDeletedAt_def)
qed

section \<open>A sample payload\<close>

text \<open>An order payload as the store sends it, for the witnesses.\<close>

definition sampleOrderAt :: "string \<Rightarrow> jsobject" where
  "sampleOrderAt modified =
    [(''id'', JNum (NInt 42)), (''number'', JStr ''42''), (''status'', JStr ''processing''),
     (''currency'', JStr ''EUR''), (''discount_total'', JStr ''0.00''), (''discount_tax'', JStr ''0.00''),
     (''shipping_total'', JStr ''4.90''), (''shipping_tax'', JStr ''0.00''), (''cart_tax'', JStr ''0.00''),
     (''total'', JStr ''24.90''), (''total_tax'', JNum (NInt 0)),
     (''billing'', JObj [(''first_name'', JStr ''Ada''), (''email'', JStr ''ada@shop.test'')]),
     (''shipping'', JObj [(''city'', JStr ''Paris'')]),
     (''line_items'', JArr [JObj [(''name'', JStr ''Mug''), (''quantity'', JNum (NInt 2))]]),
     (''date_created_gmt'', JStr ''2026-07-01T10:00:00''),
     (''date_modified_gmt'', JStr modified)]"

definition sampleOrder :: jsobject where
  "sampleOrder = sampleOrderAt ''2026-07-01T10:05:00''"

lemmas mapper_eval =
  requireRecord_def requireString_def requireDisplayString_def wcIdPattern_def normalizeWcId_def
  readWooCommerceOrderId_def requireGmtDate_def normalizeOptionalString_def hasPaidDate_def
  requireArray_def mapLineItem_def mapShippingLine_def TOTAL_FIELDS_def

lemma sampleOrderAt_id: "readWooCommerceOrderId (JObj (sampleOrderAt m)) = Inr ''42''"
  by (simp add: sampleOrderAt_def eval_simps mapper_eval)

lemma pickDisplayFields_finite: "p \<in> set (pickDisplayFields r fs) \<Longrightarrow> finiteJson (snd p)"
  by (induction fs) (auto simp: displayValue_def split: if_splits option.splits json.splits)

lemma sampleOrderAt_fields:
  "field (sampleOrderAt m) ''billing'' = Some (JObj [(''first_name'', JStr ''Ada''), (''email'', JStr ''ada@shop.test'')])"
  "field (sampleOrderAt m) ''shipping'' = Some (JObj [(''city'', JStr ''Paris'')])"
  "field (sampleOrderAt m) ''line_items'' =
     Some (JArr [JObj [(''name'', JStr ''Mug''), (''quantity'', JNum (NInt 2))]])"
  "field (sampleOrderAt m) ''shipping_lines'' = None"
  "requireDisplayString (field (sampleOrderAt m) ''number'') c i = Inr ''42''"
  "requireString (field (sampleOrderAt m) ''status'') c i = Inr ''processing''"
  "requireString (field (sampleOrderAt m) ''currency'') c i = Inr ''EUR''"
  by (simp_all add: sampleOrderAt_def requireDisplayString_def requireString_def eval_simps)

lemma sampleOrderAt_dates:
  "requireGmtDate (field (sampleOrderAt m) ''date_created_gmt'') c i = Inr 1782900000000"
  "field (sampleOrderAt m) ''date_modified_gmt'' = Some (JStr m)"
  by (simp_all add: sampleOrderAt_def requireGmtDate_def eval_simps)

lemma sampleOrderAt_maps:
  assumes m: "\<And>c i. requireGmtDate (Some (JStr m)) c i = Inr modified"
  shows "\<exists>p. mapWooCommerceOrder sha (JObj (sampleOrderAt m)) = Inr p \<and> wcOrderId p = ''42'' \<and>
     status p = ''processing'' \<and> wcModifiedAt p = modified"
proof -
  obtain ts where ts: "readTotals (sampleOrderAt m) ''42'' TOTAL_FIELDS [] = Inr ts" "finiteJson (JObj ts)"
    by (simp add: sampleOrderAt_def TOTAL_FIELDS_def isFinite_def)
  let ?c = "JObj [(''billing'', JObj (pickDisplayFields [(''first_name'', JStr ''Ada''),
      (''email'', JStr ''ada@shop.test'')] billingFields)),
    (''shipping'', JObj (pickDisplayFields [(''city'', JStr ''Paris'')] shippingFields))]"
  obtain its where its: "mapThrow (mapLineItem ''42'') [JObj [(''name'', JStr ''Mug''),
      (''quantity'', JNum (NInt 2))]] = Inr its" "finiteJson (JArr its)"
    by (auto simp: mapLineItem_def requireRecord_def pickDisplayFields_finite)
  obtain a where a: "canonicalizeJson (JObj ts) = Inr a" using canonicalizeJson_total [OF ts(2)] ..
  have "finiteJson ?c" by (simp add: pickDisplayFields_finite)
  then obtain b where b: "canonicalizeJson ?c = Inr b" using canonicalizeJson_total by blast
  obtain c where c: "canonicalizeJson (JArr its) = Inr c" using canonicalizeJson_total [OF its(2)] ..
  obtain d where d: "mapPayment (sampleOrderAt m) ''42'' = Inr d"
    using canonicalizeJson_total [of "JObj [(''method'', JNull), (''method_title'', JNull), (''paid'', JBool False)]"]
    by (auto simp: mapPayment_def sampleOrderAt_def normalizeOptionalString_def hasPaidDate_def nullish_def
        simp del: canonicalizeJson.simps)
  obtain e where "canonicalizeJson (JArr []) = Inr e" by simp
  note col = a b c d this
  define p where "p = \<lparr>wcOrderId = ''42'', orderNumber = ''42'', status = ''processing'', currency = ''EUR'',
    totals = a, customerSnapshot = b, lineItemsSnapshot = c, paymentSnapshot = d, shippingLinesSnapshot = e,
    wcCreatedAt = 1782900000000, wcModifiedAt = modified, remoteDeletedAt = None,
    projectionFingerprint = ''''\<rparr>"
  have "finiteSnapshots p"
    using col mapPayment_finite by (auto simp: p_def finiteSnapshots_def simp del: canonicalizeJson.simps
        intro: canonicalizeJson_finite)
  then obtain h where h: "orderProjectionFingerprint sha p = Inr h" using fingerprint_total by blast
  have "bodyParts sha (sampleOrderAt m) ''42'' (p\<lparr>projectionFingerprint := h\<rparr>) ts
      [(''first_name'', JStr ''Ada''), (''email'', JStr ''ada@shop.test'')] [(''city'', JStr ''Paris'')]
      [JObj [(''name'', JStr ''Mug''), (''quantity'', JNum (NInt 2))]] [] [] its"
    using ts its col h unfolding bodyParts_def sampleOrderAt_fields sampleOrderAt_dates m
    by (simp add: p_def requireRecord_def requireArray_def nullish_def
        orderProjectionFingerprint_def fingerprintSource_def
        del: canonicalizeJson.simps canonicalSerialize.simps readTotals.simps mapThrow.simps(2) pickDisplayFields.simps)
  then have "mapOrderBody sha (sampleOrderAt m) ''42'' = Inr (p\<lparr>projectionFingerprint := h\<rparr>)"
    unfolding mapOrderBody_Inr by blast
  with sampleOrderAt_id show ?thesis by (auto simp: mapWooCommerceOrder_Inr p_def)
qed

lemma sampleOrder_maps:
  "\<exists>p. mapWooCommerceOrder sha (JObj sampleOrder) = Inr p \<and> wcOrderId p = ''42'' \<and>
     status p = ''processing'' \<and> wcModifiedAt p = 1782900300000"
  unfolding sampleOrder_def
  by (rule sampleOrderAt_maps) (simp add: requireGmtDate_def eval_simps)

lemma laterOrder_maps:
  "\<exists>p. mapWooCommerceOrder sha (JObj (sampleOrderAt ''2026-07-02T10:05:00'')) = Inr p \<and> wcOrderId p = ''42'' \<and>
     status p = ''processing'' \<and> wcModifiedAt p = 1782986700000"
  by (rule sampleOrderAt_maps) (simp add: requireGmtDate_def eval_simps)

end
