(* ===== verification/InventoryMapper.thy ===== *)
theory InventoryMapper
  imports OrderMapper
begin

text \<open>
  \<open>backend/src/inventory/inventory-payload.mapper.ts\<close>: reading a WooCommerce product or variation into
  the inventory projection, and classifying its stock. Identifiers share their pattern and
  normalisation with the order mapper. \<open>Number(text)\<close> of a decimal text is exact up to fifteen
  significant digits; beyond that it is the nearest double, printed with the shortest decimal that
  reads back as the same double, which \<open>shortestDouble\<close> computes with integers.
\<close>

datatype InventoryPayloadMappingError =
  InventoryPayloadMappingError (invCode: string) (errItemId: "string option") (errParentId: "string option")

type_synonym 'a invMapped = "InventoryPayloadMappingError + 'a"

datatype InventoryItemKind = PRODUCT | VARIATION
datatype InventoryAlertClassification = HEALTHY | LOW_STOCK | OUT_OF_STOCK

record InventoryProjection =
  itemWcId :: string
  itemParentId :: "string option"
  itemKind :: InventoryItemKind
  itemName :: string
  itemSku :: "string option"
  itemContext :: "(string \<times> string) list"
  itemManagesStock :: bool
  itemQuantity :: "string option"
  itemStockStatus :: string
  itemModifiedAt :: date
  itemActive :: bool
  itemFingerprint :: string

section \<open>Decimal texts\<close>

definition decimalPattern :: "string \<Rightarrow> bool" where
  "decimalPattern s =
     (let b = (if s \<noteq> [] \<and> hd s = CHR ''-'' then tl s else s);
          whole = takeWhile isDigit b; rest = dropWhile isDigit b
      in 1 \<le> length whole \<and> length whole \<le> 14 \<and>
         (rest = [] \<or> (hd rest = CHR ''.'' \<and> 1 \<le> length (tl rest) \<and> length (tl rest) \<le> 6
            \<and> list_all isDigit (tl rest))))"

text \<open>\<open>m * 10^-e\<close> without trailing zeros after the decimal point.\<close>

fun normalizeDecimal :: "int \<Rightarrow> nat \<Rightarrow> jsnum" where
  "normalizeDecimal m 0 = NInt m"
| "normalizeDecimal m (Suc e) = (if m mod 10 = 0 then normalizeDecimal (m div 10) e else NDec m (Suc e))"

definition roundHalfEven :: "int \<Rightarrow> int \<Rightarrow> int" where
  "roundHalfEven a b =
     (let q = a div b; r = a mod b
      in if b < 2 * r \<or> (2 * r = b \<and> odd q) then q + 1 else q)"

text \<open>
  The double nearest to \<open>m * 10^-e\<close> for a positive value below \<open>2^52\<close>: \<open>(t, sig)\<close> stands for
  \<open>sig / 2^t\<close> with a significand of 53 bits.
\<close>

definition nearestDouble :: "int \<Rightarrow> nat \<Rightarrow> nat \<times> int" where
  "nearestDouble m e =
     (let t = the (find (\<lambda>t. 2 ^ 52 * 10 ^ e \<le> m * 2 ^ t) [0..<80])
      in (t, roundHalfEven (m * 2 ^ t) (10 ^ e)))"

definition sameDouble :: "nat \<times> int \<Rightarrow> nat \<times> int \<Rightarrow> bool" where
  "sameDouble x y \<longleftrightarrow> snd x * 2 ^ fst y = snd y * 2 ^ fst x"

definition shortestAt :: "nat \<times> int \<Rightarrow> nat \<Rightarrow> int option" where
  "shortestAt d j =
     (let n = snd d * 10 ^ j; lo = n div 2 ^ fst d;
          okLo = sameDouble (nearestDouble lo j) d; okHi = sameDouble (nearestDouble (lo + 1) j) d
      in if okLo \<and> (\<not> okHi \<or> 2 * (n mod 2 ^ fst d) \<le> 2 ^ fst d) then Some lo
         else if okHi then Some (lo + 1) else None)"

definition shortestDouble :: "int \<Rightarrow> nat \<Rightarrow> jsnum" where
  "shortestDouble m e =
     (let d = nearestDouble m e
      in case find (\<lambda>j. shortestAt d j \<noteq> None) [0..<10] of
           Some j \<Rightarrow> normalizeDecimal (the (shortestAt d j)) j
         | None \<Rightarrow> normalizeDecimal m e)"

fun negateNumber :: "jsnum \<Rightarrow> jsnum" where
  "negateNumber (NInt i) = NInt (- i)"
| "negateNumber (NDec m e) = NDec (- m) e"
| "negateNumber (NInf p) = NInf (\<not> p)"

definition readUnsigned :: "string \<Rightarrow> jsnum" where
  "readUnsigned b =
     (let whole = takeWhile isDigit b; f = tl (dropWhile isDigit b); m = int (readNat (whole @ f))
      in if m < 10 ^ 15 then normalizeDecimal m (length f) else shortestDouble m (length f))"

text \<open>\<open>Number(s)\<close> for a text of the decimal pattern.\<close>

definition decimalNumber :: "string \<Rightarrow> jsnum" where
  "decimalNumber s =
     (if s \<noteq> [] \<and> hd s = CHR ''-'' then negateNumber (readUnsigned (tl s)) else readUnsigned s)"

section \<open>Checked reads\<close>

definition requireInventoryRecord :: "json \<Rightarrow> string \<Rightarrow> jsobject invMapped" where
  "requireInventoryRecord v c =
     (case v of JObj r \<Rightarrow> Inr r | _ \<Rightarrow> Inl (InventoryPayloadMappingError c None None))"

definition normalizeIdentifier :: "json option \<Rightarrow> string \<Rightarrow> string invMapped" where
  "normalizeIdentifier v c =
     (if wcIdPattern (normalizeWcId v) then Inr (normalizeWcId v)
      else Inl (InventoryPayloadMappingError c None None))"

definition readWooCommerceInventoryItemId :: "json \<Rightarrow> string invMapped" where
  "readWooCommerceInventoryItemId payload =
     andThen (requireInventoryRecord payload ''malformed-inventory-payload'')
       (\<lambda>r. normalizeIdentifier (field r ''id'') ''malformed-inventory-identity'')"

definition readWooCommerceParentProductId :: "json \<Rightarrow> string option invMapped" where
  "readWooCommerceParentProductId payload =
     andThen (requireInventoryRecord payload ''malformed-inventory-payload'') (\<lambda>r.
       let v = field r ''parent_id''
       in if v = None \<or> v = Some JNull \<or> v = Some (JNum (NInt 0)) \<or> v = Some (JStr ''0'') then Inr None
          else andThen (normalizeIdentifier v ''malformed-inventory-parent-identity'') (\<lambda>i. Inr (Some i)))"

definition requireTrimmedString ::
  "json option \<Rightarrow> string \<Rightarrow> string \<Rightarrow> string option \<Rightarrow> string invMapped" where
  "requireTrimmedString v c i parent =
     (case v of
        Some (JStr s) \<Rightarrow>
          if trim s = [] then Inl (InventoryPayloadMappingError c (Some i) parent) else Inr (trim s)
      | _ \<Rightarrow> Inl (InventoryPayloadMappingError c (Some i) parent))"

definition requireInventoryGmtDate ::
  "json option \<Rightarrow> string \<Rightarrow> string option \<Rightarrow> date invMapped" where
  "requireInventoryGmtDate v i parent =
     (case v of
        Some (JStr s) \<Rightarrow>
          if gmtDatePattern s
          then (case parseInstant s of
                  Some t \<Rightarrow> Inr t
                | None \<Rightarrow> Inl (InventoryPayloadMappingError ''unreliable-inventory-modified-at'' (Some i) parent))
          else Inl (InventoryPayloadMappingError ''unreliable-inventory-modified-at'' (Some i) parent)
      | _ \<Rightarrow> Inl (InventoryPayloadMappingError ''unreliable-inventory-modified-at'' (Some i) parent))"

definition readWooCommerceInventoryModifiedAt :: "json \<Rightarrow> date invMapped" where
  "readWooCommerceInventoryModifiedAt payload =
     andThen (requireInventoryRecord payload ''malformed-inventory-payload'') (\<lambda>r.
     andThen (readWooCommerceInventoryItemId payload) (\<lambda>i.
     let parent = (case readWooCommerceParentProductId payload of Inr p \<Rightarrow> p | Inl _ \<Rightarrow> None)
     in requireInventoryGmtDate (field r ''date_modified_gmt'') i parent))"

definition productRequiresVariationScan :: "json \<Rightarrow> bool invMapped" where
  "productRequiresVariationScan payload =
     andThen (requireInventoryRecord payload ''malformed-inventory-payload'') (\<lambda>r.
       Inr (field r ''type'' = Some (JStr ''variable'') \<and>
         (case field r ''variations'' of
            Some (JArr xs) \<Rightarrow> list_ex (\<lambda>v. wcIdPattern (normalizeWcId (Some v))) xs
          | _ \<Rightarrow> False)))"

definition normalizeManageStock :: "json option \<Rightarrow> string \<Rightarrow> string option \<Rightarrow> bool invMapped" where
  "normalizeManageStock v i parent =
     (if v = Some (JBool True) then Inr True
      else if v = Some (JBool False) \<or> v = Some (JStr ''parent'') then Inr False
      else Inl (InventoryPayloadMappingError ''malformed-inventory-stock-ownership'' (Some i) parent))"

definition quantityCandidate :: "json option \<Rightarrow> string" where
  "quantityCandidate v =
     (case v of
        Some (JNum n) \<Rightarrow> if isFinite n then numberToString n else ''''
      | Some (JStr s) \<Rightarrow> trim s
      | _ \<Rightarrow> '''')"

text \<open>A text of the pattern is a finite number, so the second check of the code never fails.\<close>

definition normalizeStockQuantity ::
  "json option \<Rightarrow> string \<Rightarrow> string option \<Rightarrow> string option invMapped" where
  "normalizeStockQuantity v i parent =
     (if v = Some JNull then Inr None
      else if \<not> decimalPattern (quantityCandidate v)
      then Inl (InventoryPayloadMappingError ''malformed-inventory-stock-quantity'' (Some i) parent)
      else let n = decimalNumber (quantityCandidate v)
           in Inr (Some (if n = NInt 0 then ''0'' else numberToString n)))"

definition optionalDisplay :: "json option \<Rightarrow> nat \<Rightarrow> string option" where
  "optionalDisplay v maximumLength =
     (case v of
        Some (JStr s) \<Rightarrow>
          let normalized = take maximumLength (trim (filter (\<lambda>c. 32 \<le> codeUnit c \<and> codeUnit c \<noteq> 127)
                (collapseSpaces s)))
          in if normalized = [] then None else Some normalized
      | _ \<Rightarrow> None)"

definition mapAttribute :: "json \<Rightarrow> (string \<times> string) list" where
  "mapAttribute v =
     (case v of
        JObj r \<Rightarrow>
          (case (optionalDisplay (field r ''name'') 80, optionalDisplay (field r ''option'') 120) of
             (Some n, Some opt) \<Rightarrow> [(n, opt)]
           | _ \<Rightarrow> [])
      | _ \<Rightarrow> [])"

definition mapVariationContext :: "json option \<Rightarrow> (string \<times> string) list" where
  "mapVariationContext v =
     (case v of Some (JArr xs) \<Rightarrow> concat (map mapAttribute (take 8 xs)) | _ \<Rightarrow> [])"

section \<open>The fingerprint\<close>

definition jsonOptional :: "string option \<Rightarrow> string" where
  "jsonOptional v = (case v of None \<Rightarrow> ''null'' | Some s \<Rightarrow> quoteString s)"

definition kindText :: "InventoryItemKind \<Rightarrow> string" where
  "kindText k = (case k of PRODUCT \<Rightarrow> ''PRODUCT'' | VARIATION \<Rightarrow> ''VARIATION'')"

definition jsonBool :: "bool \<Rightarrow> string" where
  "jsonBool b = (if b then ''true'' else ''false'')"

definition jsonContext :: "(string \<times> string) list \<Rightarrow> string" where
  "jsonContext xs = ''['' @ joinWith '',''
     (map (\<lambda>(n, opt). ''{'' @ quoteString ''name'' @ '':'' @ quoteString n @ '','' @ quoteString ''option''
        @ '':'' @ quoteString opt @ ''}'') xs) @ '']''"

definition fingerprintText :: "InventoryProjection \<Rightarrow> string" where
  "fingerprintText p = ''{'' @ joinWith '',''
     (map (\<lambda>(k, v). quoteString k @ '':'' @ v)
       [(''active'', jsonBool (itemActive p)),
        (''displayName'', quoteString (itemName p)),
        (''kind'', quoteString (kindText (itemKind p))),
        (''managesStock'', jsonBool (itemManagesStock p)),
        (''parentWcProductId'', jsonOptional (itemParentId p)),
        (''sku'', jsonOptional (itemSku p)),
        (''stockQuantity'', jsonOptional (itemQuantity p)),
        (''stockStatus'', quoteString (itemStockStatus p)),
        (''variationContext'', jsonContext (itemContext p)),
        (''wcItemId'', quoteString (itemWcId p)),
        (''wcModifiedAt'', quoteString (toISOString (itemModifiedAt p)))]) @ ''}''"

definition inventoryProjectionFingerprint :: "(string \<Rightarrow> string) \<Rightarrow> InventoryProjection \<Rightarrow> string" where
  "inventoryProjectionFingerprint sha p = sha (fingerprintText p)"

section \<open>The mapper\<close>

definition STOCK_STATUSES :: "string list" where
  "STOCK_STATUSES = [''instock'', ''outofstock'', ''onbackorder'']"

text \<open>\<open>optionalDisplay(name) ?? sku ?? default\<close>\<close>

definition displayName :: "json option \<Rightarrow> string option \<Rightarrow> InventoryItemKind \<Rightarrow> string" where
  "displayName v sku kind =
     (case optionalDisplay v 255 of
        Some n \<Rightarrow> n
      | None \<Rightarrow> (case sku of
          Some s \<Rightarrow> s
        | None \<Rightarrow> if kind = VARIATION then ''Unnamed variation'' else ''Unnamed product''))"

text \<open>The object literal \<open>projection\<close> with its fingerprint.\<close>

definition assembleItem ::
  "(string \<Rightarrow> string) \<Rightarrow> jsobject \<Rightarrow> string \<Rightarrow> string option \<Rightarrow> InventoryItemKind \<Rightarrow> bool \<Rightarrow> string option
     \<Rightarrow> string \<Rightarrow> date \<Rightarrow> bool \<Rightarrow> InventoryProjection" where
  "assembleItem sha r i parent kind manages quantity stockStatus modified active =
     (let sku = optionalDisplay (field r ''sku'') 191;
          p = \<lparr>itemWcId = i, itemParentId = parent, itemKind = kind,
              itemName = displayName (field r ''name'') sku kind, itemSku = sku,
              itemContext = (if kind = VARIATION then mapVariationContext (field r ''attributes'') else []),
              itemManagesStock = manages, itemQuantity = quantity, itemStockStatus = stockStatus,
              itemModifiedAt = modified, itemActive = active, itemFingerprint = ''''\<rparr>
      in p\<lparr>itemFingerprint := inventoryProjectionFingerprint sha p\<rparr>)"

definition mapInventoryBody ::
  "(string \<Rightarrow> string) \<Rightarrow> jsobject \<Rightarrow> string \<Rightarrow> string option \<Rightarrow> InventoryProjection invMapped" where
  "mapInventoryBody sha r i parent =
     andThen (requireTrimmedString (field r ''type'') ''malformed-inventory-type'' i parent) (\<lambda>type.
     let kind = (if parent \<noteq> None \<or> type = ''variation'' then VARIATION else PRODUCT)
     in if kind = VARIATION \<and> parent = None
        then Inl (InventoryPayloadMappingError ''malformed-inventory-parent-identity'' (Some i) None)
        else
     andThen (normalizeManageStock (field r ''manage_stock'') i parent) (\<lambda>manages.
     andThen (requireTrimmedString (field r ''stock_status'') ''malformed-inventory-stock-status'' i parent) (\<lambda>st.
     if st \<notin> set STOCK_STATUSES
     then Inl (InventoryPayloadMappingError ''malformed-inventory-stock-status'' (Some i) parent)
     else
     andThen (if manages then normalizeStockQuantity (field r ''stock_quantity'') i parent else Inr None) (\<lambda>quantity.
     let inheritsParentStock = (field r ''manage_stock'' = Some (JStr ''parent''));
         active = (manages \<or> (\<not> inheritsParentStock \<and> st = ''outofstock''
           \<and> (kind = VARIATION \<or> type \<noteq> ''variable'')))
     in andThen (requireInventoryGmtDate (field r ''date_modified_gmt'') i parent) (\<lambda>modified.
     Inr (assembleItem sha r i parent kind manages quantity st modified active))))))"

definition mapWooCommerceInventoryItem :: "(string \<Rightarrow> string) \<Rightarrow> json \<Rightarrow> InventoryProjection invMapped" where
  "mapWooCommerceInventoryItem sha payload =
     andThen (requireInventoryRecord payload ''malformed-inventory-payload'') (\<lambda>r.
     andThen (readWooCommerceInventoryItemId payload) (\<lambda>i.
     andThen (readWooCommerceParentProductId payload) (\<lambda>parent.
       mapInventoryBody sha r i parent)))"

section \<open>Classification\<close>

definition classifyInventoryItem ::
  "bool \<Rightarrow> string option \<Rightarrow> string \<Rightarrow> int option \<Rightarrow> InventoryAlertClassification" where
  "classifyInventoryItem managesStock stockQuantity stockStatus lowStockThreshold =
     (if stockStatus = ''outofstock'' then OUT_OF_STOCK
      else case (stockQuantity, lowStockThreshold) of
             (Some q, Some t) \<Rightarrow>
               if managesStock \<and> numLe (decimalNumber q) t then LOW_STOCK else HEALTHY
           | _ \<Rightarrow> HEALTHY)"

section \<open>What a mapped item looks like\<close>

lemma optionalDisplay_Some:
  assumes "optionalDisplay v n = Some s"
  shows "s \<noteq> [] \<and> length s \<le> n"
  using assms by (auto simp: optionalDisplay_def Let_def split: option.splits json.splits if_splits)

lemma displayName_bounds:
  assumes "\<And>s. sku = Some s \<Longrightarrow> s \<noteq> [] \<and> length s \<le> 191"
  shows "displayName v sku kind \<noteq> [] \<and> length (displayName v sku kind) \<le> 255"
  using assms by (auto simp: displayName_def split: option.splits dest: optionalDisplay_Some)

lemma mapAttribute_bounds:
  "(n, opt) \<in> set (mapAttribute v) \<Longrightarrow> n \<noteq> [] \<and> opt \<noteq> [] \<and> length n \<le> 80 \<and> length opt \<le> 120"
  by (auto simp: mapAttribute_def split: json.splits option.splits dest!: optionalDisplay_Some [OF sym])

lemma length_mapAttribute: "length (mapAttribute v) \<le> 1"
  by (auto simp: mapAttribute_def split: json.splits option.splits)

lemma length_concat_le: "(\<And>x. x \<in> set xs \<Longrightarrow> length (f x) \<le> 1) \<Longrightarrow> length (concat (map f xs)) \<le> length xs"
  by (induction xs) (auto, fastforce)

lemma mapVariationContext_bounds:
  "length (mapVariationContext v) \<le> 8 \<and>
   (\<forall>(n, opt) \<in> set (mapVariationContext v). n \<noteq> [] \<and> opt \<noteq> [] \<and> length n \<le> 80 \<and> length opt \<le> 120)"
proof (cases v)
  case (Some j)
  have "length (concat (map mapAttribute (take 8 xs))) \<le> 8" for xs
    using length_concat_le [of "take 8 xs" mapAttribute] length_mapAttribute by fastforce
  with Some show ?thesis
    by (auto simp: mapVariationContext_def split: json.splits dest: mapAttribute_bounds)
qed (simp add: mapVariationContext_def)

definition itemWellFormed :: "(string \<Rightarrow> string) \<Rightarrow> InventoryProjection \<Rightarrow> bool" where
  "itemWellFormed sha p \<longleftrightarrow>
     wcIdPattern (itemWcId p) \<and> (\<forall>i. itemParentId p = Some i \<longrightarrow> wcIdPattern i)
     \<and> (itemKind p = VARIATION \<longleftrightarrow> itemParentId p \<noteq> None)
     \<and> itemStockStatus p \<in> set STOCK_STATUSES
     \<and> (\<not> itemManagesStock p \<longrightarrow> itemQuantity p = None)
     \<and> (itemManagesStock p \<longrightarrow> itemActive p)
     \<and> (itemActive p \<and> \<not> itemManagesStock p \<longrightarrow> itemStockStatus p = ''outofstock'')
     \<and> itemName p \<noteq> [] \<and> length (itemName p) \<le> 255
     \<and> length (itemContext p) \<le> 8
     \<and> itemFingerprint p = inventoryProjectionFingerprint sha p"

lemma inventoryFingerprint_own_field [simp]:
  "inventoryProjectionFingerprint sha (p\<lparr>itemFingerprint := h\<rparr>) = inventoryProjectionFingerprint sha p"
  by (simp add: inventoryProjectionFingerprint_def fingerprintText_def)

lemma normalizeIdentifier_Inr: "normalizeIdentifier v c = Inr i \<Longrightarrow> wcIdPattern i \<and> i = normalizeWcId v"
  by (auto simp: normalizeIdentifier_def split: if_splits)

lemma mapInventoryBody_Inr:
  assumes "mapInventoryBody sha r i parent = Inr p"
  obtains type where
    "itemWcId p = i" "itemParentId p = parent"
    "itemKind p = (if parent \<noteq> None \<or> type = ''variation'' then VARIATION else PRODUCT)"
    "itemKind p = VARIATION \<longrightarrow> parent \<noteq> None"
    "itemStockStatus p \<in> set STOCK_STATUSES"
    "\<not> itemManagesStock p \<longrightarrow> itemQuantity p = None"
    "itemActive p = (itemManagesStock p \<or> (field r ''manage_stock'' \<noteq> Some (JStr ''parent'')
       \<and> itemStockStatus p = ''outofstock'' \<and> (itemKind p = VARIATION \<or> type \<noteq> ''variable'')))"
    "itemName p = displayName (field r ''name'') (optionalDisplay (field r ''sku'') 191) (itemKind p)"
    "itemContext p = (if itemKind p = VARIATION then mapVariationContext (field r ''attributes'') else [])"
    "itemFingerprint p = inventoryProjectionFingerprint sha p"
proof -
  from assms obtain type where
    t: "requireTrimmedString (field r ''type'') ''malformed-inventory-type'' i parent = Inr type"
    by (auto simp: mapInventoryBody_def andThen_Inr_iff)
  define kind where "kind = (if parent \<noteq> None \<or> type = ''variation'' then VARIATION else PRODUCT)"
  note rest0 = assms [unfolded mapInventoryBody_def t andThen_simps Let_def kind_def [symmetric]]
  have k: "\<not> (kind = VARIATION \<and> parent = None)"
  proof
    assume a: "kind = VARIATION \<and> parent = None"
    from rest0 [unfolded if_P [OF a]] show False by simp
  qed
  note rest = rest0 [unfolded if_not_P [OF k]]
  from rest obtain manages where m: "normalizeManageStock (field r ''manage_stock'') i parent = Inr manages"
    by (auto simp: andThen_Inr_iff)
  note rest2 = rest [unfolded m andThen_simps]
  from rest2 obtain st where st: "requireTrimmedString (field r ''stock_status'')
      ''malformed-inventory-stock-status'' i parent = Inr st"
    by (auto simp: andThen_Inr_iff)
  have known: "\<not> st \<notin> set STOCK_STATUSES"
  proof
    assume a: "st \<notin> set STOCK_STATUSES"
    from rest2 [unfolded st andThen_simps if_P [OF a]] show False by simp
  qed
  note rest3 = rest2 [unfolded st andThen_simps if_not_P [OF known]]
  define active where "active = (manages \<or> \<not> field r ''manage_stock'' = Some (JStr ''parent'')
    \<and> st = ''outofstock'' \<and> (kind = VARIATION \<or> type \<noteq> ''variable''))"
  from rest3 obtain quantity modified where
    q: "(if manages then normalizeStockQuantity (field r ''stock_quantity'') i parent else Inr None) = Inr quantity"
    and p: "p = assembleItem sha r i parent kind manages quantity st modified active"
    unfolding active_def [symmetric] andThen_Inr_iff by blast
  show thesis
    by (rule that [of type])
      (use k known q in \<open>simp_all add: p assembleItem_def Let_def active_def kind_def
        inventoryProjectionFingerprint_def fingerprintText_def split: if_split_asm\<close>)
qed

lemma mapInventoryBody_wellFormed:
  assumes "mapInventoryBody sha r i parent = Inr p"
    and "wcIdPattern i" and "\<And>j. parent = Some j \<Longrightarrow> wcIdPattern j"
  shows "itemWellFormed sha p \<and> itemWcId p = i \<and> itemParentId p = parent"
proof -
  from assms(1) obtain type where p:
    "itemWcId p = i" "itemParentId p = parent"
    "itemKind p = (if parent \<noteq> None \<or> type = ''variation'' then VARIATION else PRODUCT)"
    "itemKind p = VARIATION \<longrightarrow> parent \<noteq> None"
    "itemStockStatus p \<in> set STOCK_STATUSES"
    "\<not> itemManagesStock p \<longrightarrow> itemQuantity p = None"
    "itemActive p = (itemManagesStock p \<or> (field r ''manage_stock'' \<noteq> Some (JStr ''parent'')
       \<and> itemStockStatus p = ''outofstock'' \<and> (itemKind p = VARIATION \<or> type \<noteq> ''variable'')))"
    and name: "itemName p = displayName (field r ''name'') (optionalDisplay (field r ''sku'') 191) (itemKind p)"
    and ctx: "itemContext p = (if itemKind p = VARIATION then mapVariationContext (field r ''attributes'') else [])"
    and fp: "itemFingerprint p = inventoryProjectionFingerprint sha p"
    by (rule mapInventoryBody_Inr)
  have "itemName p \<noteq> [] \<and> length (itemName p) \<le> 255"
    unfolding name by (rule displayName_bounds) (rule optionalDisplay_Some)
  moreover have "length (itemContext p) \<le> 8" unfolding ctx using mapVariationContext_bounds by simp
  moreover have "itemKind p = VARIATION \<longleftrightarrow> itemParentId p \<noteq> None"
    using p(2,3,4) by auto
  moreover have "itemManagesStock p \<longrightarrow> itemActive p"
    "itemActive p \<and> \<not> itemManagesStock p \<longrightarrow> itemStockStatus p = ''outofstock''"
    unfolding p(7) by blast+
  ultimately show ?thesis using p(1,2,5,6) assms(2,3) fp by (simp add: itemWellFormed_def)
qed

lemma mapWooCommerceInventoryItem_Inr:
  "mapWooCommerceInventoryItem sha v = Inr p \<longleftrightarrow>
     (\<exists>r i parent. v = JObj r \<and> readWooCommerceInventoryItemId v = Inr i
        \<and> readWooCommerceParentProductId v = Inr parent \<and> mapInventoryBody sha r i parent = Inr p)"
  by (auto simp: mapWooCommerceInventoryItem_def andThen_Inr_iff requireInventoryRecord_def split: json.splits)

lemma mapped_item_identity:
  assumes "mapWooCommerceInventoryItem sha v = Inr p"
  shows "itemWellFormed sha p \<and> readWooCommerceInventoryItemId v = Inr (itemWcId p)
    \<and> readWooCommerceParentProductId v = Inr (itemParentId p)"
proof -
  from assms obtain r i parent where v: "v = JObj r" "readWooCommerceInventoryItemId v = Inr i"
    "readWooCommerceParentProductId v = Inr parent" "mapInventoryBody sha r i parent = Inr p"
    by (auto simp: mapWooCommerceInventoryItem_Inr)
  have "wcIdPattern i" using v(2)
    by (auto simp: readWooCommerceInventoryItemId_def andThen_Inr_iff dest: normalizeIdentifier_Inr)
  moreover have "wcIdPattern j" if "parent = Some j" for j
    using v(3) that
    by (auto simp: readWooCommerceParentProductId_def andThen_Inr_iff Let_def split: if_splits
        dest: normalizeIdentifier_Inr)
  ultimately show ?thesis using mapInventoryBody_wellFormed [OF v(4)] v(2,3) by simp
qed

text \<open>
  C17: every item the mapper accepts is well formed: decimal identities, a parent exactly for
  variations, a known stock status, a quantity only under managed stock, an unmanaged item active only
  when out of stock, a non-empty bounded display name, at most eight attributes, and a fingerprint that
  is the hash of its own fields.
\<close>

theorem mapped_item_well_formed:
  assumes "mapWooCommerceInventoryItem sha v = Inr p"
  shows "itemWellFormed sha p"
  using mapped_item_identity [OF assms] by simp

definition sampleProduct :: "int \<Rightarrow> string \<Rightarrow> json" where
  "sampleProduct quantity modified = JObj
    [(''id'', JNum (NInt 7)), (''parent_id'', JNum (NInt 0)), (''type'', JStr ''simple''),
     (''name'', JStr '' Mug ''), (''sku'', JStr ''MUG-1''), (''manage_stock'', JBool True),
     (''stock_quantity'', JNum (NInt quantity)), (''stock_status'', JStr ''instock''),
     (''date_modified_gmt'', JStr modified)]"

lemmas inventory_eval =
  requireInventoryRecord_def normalizeIdentifier_def wcIdPattern_def normalizeWcId_def
  readWooCommerceInventoryItemId_def readWooCommerceParentProductId_def requireTrimmedString_def
  requireInventoryGmtDate_def normalizeManageStock_def STOCK_STATUSES_def

lemma sampleProduct_quantity:
  "normalizeStockQuantity (Some (JNum (NInt 3))) i parent = Inr (Some ''3'')"
  "normalizeStockQuantity (Some (JNum (NInt 12))) i parent = Inr (Some ''12'')"
  by (simp_all add: normalizeStockQuantity_def quantityCandidate_def decimalPattern_def decimalNumber_def
      readUnsigned_def eval_simps)

lemma sampleProduct_maps:
  assumes q: "\<And>i parent. normalizeStockQuantity (Some (JNum (NInt n))) i parent = Inr (Some q)"
    and m: "\<And>i parent. requireInventoryGmtDate (Some (JStr m)) i parent = Inr t"
  shows "\<exists>p. mapWooCommerceInventoryItem sha (sampleProduct n m) = Inr p \<and> itemWcId p = ''7''
    \<and> itemModifiedAt p = t \<and> itemActive p \<and> itemQuantity p = Some q \<and> itemManagesStock p
    \<and> itemStockStatus p = ''instock'' \<and> itemParentId p = None"
proof -
  have i: "readWooCommerceInventoryItemId (sampleProduct n m) = Inr ''7''"
    by (simp add: sampleProduct_def inventory_eval eval_simps)
  have parent: "readWooCommerceParentProductId (sampleProduct n m) = Inr None"
    by (simp add: sampleProduct_def readWooCommerceParentProductId_def requireInventoryRecord_def)
  have "\<exists>p. mapInventoryBody sha (case sampleProduct n m of JObj r \<Rightarrow> r | _ \<Rightarrow> []) ''7'' None = Inr p
      \<and> itemWcId p = ''7'' \<and> itemModifiedAt p = t \<and> itemActive p \<and> itemQuantity p = Some q
      \<and> itemManagesStock p \<and> itemStockStatus p = ''instock'' \<and> itemParentId p = None"
    using q m by (simp add: sampleProduct_def mapInventoryBody_def assembleItem_def requireTrimmedString_def
        normalizeManageStock_def STOCK_STATUSES_def Let_def eval_simps)
  with i parent show ?thesis
    by (auto simp: mapWooCommerceInventoryItem_Inr sampleProduct_def)
qed

lemma mapped_item_well_formed_witness:
  "\<exists>p. mapWooCommerceInventoryItem (\<lambda>t. t) (sampleProduct 3 ''2026-07-01T10:05:00'') = Inr p
     \<and> itemWellFormed (\<lambda>t. t) p"
proof -
  obtain p where p: "mapWooCommerceInventoryItem (\<lambda>t. t) (sampleProduct 3 ''2026-07-01T10:05:00'') = Inr p"
    using sampleProduct_maps [OF sampleProduct_quantity(1), of "''2026-07-01T10:05:00''" 1782900300000]
    by (auto simp: requireInventoryGmtDate_def eval_simps)
  with mapped_item_well_formed [OF p] show ?thesis by blast
qed

end
