(* ===== verification/Transactions.thy ===== *)
theory Transactions
  imports Json
begin

text \<open>
  The part of the database client the services share. A table is a list of rows; \<open>findFirst\<close>,
  \<open>findMany\<close> and \<open>updateMany\<close> are the client's operations on it. A serializable transaction is one
  atomic step that either commits the operation's table or, when the operation throws or the
  database aborts it, leaves the table as other transactions made it. The retry loop
  \<open>withProjectionTransaction\<close> is the one both projection services carry. What other
  processes commit before an attempt and which attempts the database aborts are parameters
  (\<open>interference\<close>, \<open>databaseFault\<close>).
\<close>

section \<open>Rows\<close>

definition findFirst :: "('r \<Rightarrow> bool) \<Rightarrow> 'r list \<Rightarrow> 'r option" where
  "findFirst P rows = find P rows"

definition findMany :: "('r \<Rightarrow> bool) \<Rightarrow> 'r list \<Rightarrow> 'r list" where
  "findMany P rows = filter P rows"

text \<open>\<open>updateMany\<close> returns the number of rows it matched.\<close>

definition updateMany :: "('r \<Rightarrow> bool) \<Rightarrow> ('r \<Rightarrow> 'r) \<Rightarrow> 'r list \<Rightarrow> nat \<times> 'r list" where
  "updateMany P f rows = (length (filter P rows), map (\<lambda>r. if P r then f r else r) rows)"

lemma findFirst_Some: "findFirst P rows = Some r \<Longrightarrow> P r \<and> r \<in> set rows"
  by (auto simp: findFirst_def find_Some_iff)

lemma findFirst_None [row_simps]: "findFirst P rows = None \<longleftrightarrow> (\<forall>r \<in> set rows. \<not> P r)"
  by (auto simp: findFirst_def find_None_iff)

lemma findFirst_append:
  "findFirst P (xs @ ys) = (case findFirst P xs of None \<Rightarrow> findFirst P ys | Some r \<Rightarrow> Some r)"
  by (induction xs) (auto simp: findFirst_def)

lemma findFirst_single [simp]: "findFirst P [r] = (if P r then Some r else None)"
  by (simp add: findFirst_def)

lemma findFirst_map:
  "findFirst P (map f rows) = map_option f (findFirst (\<lambda>r. P (f r)) rows)"
  by (induction rows) (auto simp: findFirst_def)

lemma findFirst_cong:
  "(\<And>r. r \<in> set rows \<Longrightarrow> P r = Q r) \<Longrightarrow> findFirst P rows = findFirst Q rows"
  by (induction rows) (auto simp: findFirst_def)

lemma updateMany_count [row_simps]: "fst (updateMany P f rows) = length (filter P rows)"
  by (simp add: updateMany_def)

lemma updateMany_rows [row_simps]:
  "snd (updateMany P f rows) = map (\<lambda>r. if P r then f r else r) rows"
  by (simp add: updateMany_def)

lemma distinct_key_eq:
  "distinct (map k rows) \<Longrightarrow> r \<in> set rows \<Longrightarrow> s \<in> set rows \<Longrightarrow> k r = k s \<Longrightarrow> r = s"
  by (auto simp: distinct_map dest: inj_onD)

lemma filter_single_key:
  assumes "distinct (map k rows)" and "r \<in> set rows" and "P r"
    and "\<And>s. P s \<Longrightarrow> k s = k r"
  shows "filter P rows = [r]"
  using assms
proof (induction rows)
  case (Cons a rows)
  show ?case
  proof (cases "a = r")
    case True
    have "\<not> P s" if "s \<in> set rows" for s
      using Cons.prems(1) Cons.prems(4) [of s] that True by (auto simp: rev_image_eqI)
    with True Cons.prems(3) show ?thesis by (auto simp: filter_empty_conv)
  next
    case False
    with Cons.prems(2) have r: "r \<in> set rows" by auto
    have "k a \<noteq> k r" using Cons.prems(1) r by auto
    then have "\<not> P a" using Cons.prems(4) by blast
    moreover have "filter P rows = [r]"
    proof (rule Cons.IH)
      show "distinct (map k rows)" using Cons.prems(1) by simp
      show "r \<in> set rows" by (rule r)
      show "P r" by (rule Cons.prems(3))
    qed (rule Cons.prems(4))
    ultimately show ?thesis by simp
  qed
qed simp

lemma findFirst_unique:
  assumes "distinct (map k rows)" and "r \<in> set rows" and "P r" and "\<And>s. P s \<Longrightarrow> k s = k r"
  shows "findFirst P rows = Some r"
proof (cases "findFirst P rows")
  case None
  with assms show ?thesis by (auto simp: row_simps)
next
  case (Some s)
  from findFirst_Some [OF Some] have "s \<in> set rows" "P s" by simp_all
  with distinct_key_eq [OF assms(1) _ assms(2) assms(4)] have "s = r" by blast
  with Some show ?thesis by simp
qed

lemma updateMany_single:
  assumes "distinct (map k rows)" and "r \<in> set rows" and "P r" and "\<And>s. P s \<Longrightarrow> k s = k r" and "\<And>s. k (f s) = k s"
  shows "fst (updateMany P f rows) = 1"
    and "findFirst (\<lambda>s. k s = k r) (snd (updateMany P f rows)) = Some (f r)"
    and "f r \<in> set (snd (updateMany P f rows))"
    and "map k (snd (updateMany P f rows)) = map k rows"
proof -
  show "fst (updateMany P f rows) = 1"
    using filter_single_key [of k rows r P, OF assms(1-4)] by (simp add: updateMany_count)
  show keys: "map k (snd (updateMany P f rows)) = map k rows"
    by (simp add: updateMany_rows assms(5))
  show mem: "f r \<in> set (snd (updateMany P f rows))"
    using assms(2,3) by (auto simp: updateMany_rows)
  show "findFirst (\<lambda>s. k s = k r) (snd (updateMany P f rows)) = Some (f r)"
    by (rule findFirst_unique [where k = k]) (use keys mem assms(1,5) in auto)
qed

text \<open>A write of one row, by a key that no two rows share.\<close>

lemma updateMany_keyed:
  assumes "distinct (map k rows)" and "r \<in> set rows" and "P r" and "\<And>s. P s \<Longrightarrow> k s = k r"
  shows "updateMany P f rows = (1, map (\<lambda>s. if k s = k r then f r else s) rows)"
proof -
  have "P s \<longleftrightarrow> k s = k r" and "k s = k r \<longrightarrow> s = r" if "s \<in> set rows" for s
    using distinct_key_eq [OF assms(1) that assms(2)] assms(3,4) by blast+
  then have "map (\<lambda>s. if P s then f s else s) rows = map (\<lambda>s. if k s = k r then f r else s) rows"
    by (intro map_cong refl) auto
  moreover have "filter P rows = [r]" by (rule filter_single_key [where k = k]) (use assms in blast)+
  ultimately show ?thesis by (simp add: updateMany_def)
qed

section \<open>Serializable transactions with retry\<close>

datatype 'e TransactionError = ConcurrentProjectionError | PrismaError string | Thrown 'e

definition PROJECTION_TRANSACTION_ATTEMPTS :: nat where
  "PROJECTION_TRANSACTION_ATTEMPTS = 3"

definition isConcurrentProjectionError :: "'e TransactionError \<Rightarrow> bool" where
  "isConcurrentProjectionError e =
     (case e of ConcurrentProjectionError \<Rightarrow> True
      | PrismaError c \<Rightarrow> c = ''P2002'' \<or> c = ''P2034''
      | Thrown _ \<Rightarrow> False)"

record 'db Attempt =
  interference :: "'db \<Rightarrow> 'db"
  databaseFault :: "string option"

text \<open>An operation receives the number of the attempt: the clock and fresh ids differ per attempt.\<close>

type_synonym ('db, 'e, 'a) operation = "nat \<Rightarrow> 'db \<Rightarrow> 'e TransactionError + 'a \<times> 'db"

definition runTransaction ::
  "'db Attempt \<Rightarrow> ('db \<Rightarrow> 'e TransactionError + 'a \<times> 'db) \<Rightarrow> 'db
     \<Rightarrow> ('e TransactionError + 'a) \<times> 'db" where
  "runTransaction a op db =
     (let db1 = interference a db
      in case databaseFault a of
           Some c \<Rightarrow> (Inl (PrismaError c), db1)
         | None \<Rightarrow> (case op db1 of Inl e \<Rightarrow> (Inl e, db1) | Inr (r, db2) \<Rightarrow> (Inr r, db2)))"

fun transactionLoop ::
  "nat \<Rightarrow> nat \<Rightarrow> (nat \<Rightarrow> 'db Attempt) \<Rightarrow> ('db, 'e, 'a) operation \<Rightarrow> 'db
     \<Rightarrow> ('e TransactionError + 'a) \<times> 'db" where
  "transactionLoop 0 attempt env op db = (Inl ConcurrentProjectionError, db)"
| "transactionLoop (Suc left) attempt env op db =
     (case runTransaction (env attempt) (op attempt) db of
        (Inr a, db') \<Rightarrow> (Inr a, db')
      | (Inl e, db') \<Rightarrow>
          if attempt = PROJECTION_TRANSACTION_ATTEMPTS \<or> \<not> isConcurrentProjectionError e
          then (Inl e, db')
          else transactionLoop left (Suc attempt) env op db')"

definition withProjectionTransaction ::
  "(nat \<Rightarrow> 'db Attempt) \<Rightarrow> ('db, 'e, 'a) operation \<Rightarrow> 'db \<Rightarrow> ('e TransactionError + 'a) \<times> 'db" where
  "withProjectionTransaction env op db = transactionLoop PROJECTION_TRANSACTION_ATTEMPTS 1 env op db"

definition quietAttempt :: "'db Attempt" where
  "quietAttempt = \<lparr>interference = (\<lambda>db. db), databaseFault = None\<rparr>"

definition quiet :: "nat \<Rightarrow> 'db Attempt" where
  "quiet n = quietAttempt"

text \<open>
  Rely and guarantee: a preorder on tables that every interfering transaction and every committed
  operation respects is respected by the whole retried transaction. The laws are those of the
  operation; each service interprets the locale on its own operations.
\<close>

locale guaranteed =
  fixes op :: "('db, 'e, 'a) operation" and rel :: "'db \<Rightarrow> 'db \<Rightarrow> bool"
  assumes rel_refl: "rel db db"
    and rel_trans: "rel a b \<Longrightarrow> rel b c \<Longrightarrow> rel a c"
    and op_rel: "op n db = Inr (r, db') \<Longrightarrow> rel db db'"
begin

lemma runTransaction_rel:
  assumes "\<And>db. rel db (interference a db)"
  shows "rel db (snd (runTransaction a (op n) db))"
  using assms [of db]
  by (auto simp: runTransaction_def Let_def split: option.splits sum.splits
      dest!: op_rel intro: rel_trans)

lemma transactionLoop_rel:
  assumes rely: "\<And>n db. rel db (interference (env n) db)"
  shows "rel db (snd (transactionLoop left attempt env op db))"
proof (induction left arbitrary: attempt db)
  case 0
  show ?case by (simp add: rel_refl)
next
  case (Suc left)
  have "rel db (snd (runTransaction (env attempt) (op attempt) db))"
    using runTransaction_rel rely by blast
  with Suc show ?case
    by (auto split: prod.splits sum.splits intro: rel_trans)
qed

lemma withProjectionTransaction_rel:
  assumes "\<And>n db. rel db (interference (env n) db)"
  shows "rel db (snd (withProjectionTransaction env op db))"
  unfolding withProjectionTransaction_def using assms by (rule transactionLoop_rel)

end

lemma runTransaction_quiet [simp]:
  "runTransaction quietAttempt op db =
     (case op db of Inl e \<Rightarrow> (Inl e, db) | Inr (r, db') \<Rightarrow> (Inr r, db'))"
  by (simp add: runTransaction_def quietAttempt_def)

text \<open>Without interference and aborts, an operation that commits at the first attempt decides.\<close>

lemma withProjectionTransaction_quiet_Inr:
  "op 1 db = Inr (r, db') \<Longrightarrow> withProjectionTransaction quiet op db = (Inr r, db')"
  by (simp add: withProjectionTransaction_def PROJECTION_TRANSACTION_ATTEMPTS_def numeral_3_eq_3 quiet_def)

lemma withProjectionTransaction_quiet_Thrown:
  "op 1 db = Inl (Thrown e) \<Longrightarrow> withProjectionTransaction quiet op db = (Inl (Thrown e), db)"
  by (simp add: withProjectionTransaction_def PROJECTION_TRANSACTION_ATTEMPTS_def numeral_3_eq_3
      quiet_def isConcurrentProjectionError_def)

text \<open>A committed result is the result of the operation at one of the attempts.\<close>

lemma transactionLoop_Inr:
  "transactionLoop left attempt env op db = (Inr r, db') \<Longrightarrow>
     \<exists>n db1. attempt \<le> n \<and> n < attempt + left \<and> op n db1 = Inr (r, db')"
proof (induction left arbitrary: attempt db)
  case (Suc left)
  show ?case
  proof (cases "fst (runTransaction (env attempt) (op attempt) db)")
    case (Inl e)
    with Suc.prems obtain db1 where "transactionLoop left (Suc attempt) env op db1 = (Inr r, db')"
      by (auto split: prod.splits if_splits)
    from Suc.IH [OF this] show ?thesis by (metis Suc_leD add_Suc_shift)
  next
    case (Inr a)
    with Suc.prems have "runTransaction (env attempt) (op attempt) db = (Inr r, db')"
      by (auto split: prod.splits)
    then show ?thesis
      by (auto simp: runTransaction_def Let_def split: option.splits sum.splits)
  qed
qed simp

lemma transactionLoop_quiet_state:
  assumes "transactionLoop left attempt quiet op db = (Inr r, db')"
  shows "\<exists>n. op n db = Inr (r, db')"
  using assms
proof (induction left arbitrary: attempt)
  case (Suc left)
  then show ?case
    by (cases "op attempt db") (auto simp: quiet_def split: if_splits)
qed simp

section \<open>Conflicts\<close>

text \<open>
  The database the \<open>k\<close>-th attempt sees when no earlier attempt committed: what the other processes made of
  it before each attempt up to this one.
\<close>

primrec seenAt :: "(nat \<Rightarrow> 'db Attempt) \<Rightarrow> 'db \<Rightarrow> nat \<Rightarrow> 'db" where
  "seenAt env db 0 = db"
| "seenAt env db (Suc k) = interference (env (Suc k)) (seenAt env db k)"

text \<open>
  The \<open>k\<close>-th attempt ends in a conflict: the database aborts it with a unique violation or a serialisation
  failure, or the operation itself finds one in the database it sees.
\<close>

definition conflictAt :: "(nat \<Rightarrow> 'db Attempt) \<Rightarrow> ('db, 'e, 'a) operation \<Rightarrow> 'db \<Rightarrow> nat \<Rightarrow> bool" where
  "conflictAt env op db k \<longleftrightarrow>
     (case databaseFault (env k) of
        Some c \<Rightarrow> c = ''P2002'' \<or> c = ''P2034''
      | None \<Rightarrow> op k (seenAt env db k) = Inl ConcurrentProjectionError
          \<or> op k (seenAt env db k) = Inl (PrismaError ''P2002''))"

lemma runTransaction_conflict:
  assumes "conflictAt env op db (Suc k)"
  shows "\<exists>e. runTransaction (env (Suc k)) (op (Suc k)) (seenAt env db k) = (Inl e, seenAt env db (Suc k))
    \<and> isConcurrentProjectionError e"
  using assms
  by (auto simp: conflictAt_def runTransaction_def isConcurrentProjectionError_def split: option.splits)

lemma transactionLoop_conflict:
  assumes "conflictAt env op db (Suc k)" and "Suc k \<noteq> PROJECTION_TRANSACTION_ATTEMPTS"
  shows "transactionLoop (Suc left) (Suc k) env op (seenAt env db k)
    = transactionLoop left (Suc (Suc k)) env op (seenAt env db (Suc k))"
  using runTransaction_conflict [OF assms(1)] assms(2) by auto

lemma transactionLoop_commit:
  assumes "databaseFault (env (Suc k)) = None" and "op (Suc k) (seenAt env db (Suc k)) = Inr (r, db')"
  shows "transactionLoop (Suc left) (Suc k) env op (seenAt env db k) = (Inr r, db')"
  using assms by (simp add: runTransaction_def)

text \<open>Conflicts before the attempt that commits leave no trace: that attempt alone decides.\<close>

lemma transactionLoop_reaches:
  assumes "k \<le> PROJECTION_TRANSACTION_ATTEMPTS" and "\<And>j. 1 \<le> j \<Longrightarrow> j < k \<Longrightarrow> conflictAt env op db j"
    and "databaseFault (env k) = None" and "op k (seenAt env db k) = Inr (r, db')"
  shows "Suc j + d = k \<Longrightarrow> transactionLoop (Suc (d + left)) (Suc j) env op (seenAt env db j) = (Inr r, db')"
proof (induction d arbitrary: j)
  case 0
  then have k: "k = Suc j" by simp
  show ?case
    using transactionLoop_commit [of env j op db r db' left] assms(3,4) unfolding k by (simp only: add_0)
next
  case (Suc d)
  then have "Suc j < k" by simp
  with assms(1,2) have "conflictAt env op db (Suc j)" "Suc j \<noteq> PROJECTION_TRANSACTION_ATTEMPTS" by simp_all
  from transactionLoop_conflict [OF this, of "Suc (d + left)"]
  have "transactionLoop (Suc (Suc d + left)) (Suc j) env op (seenAt env db j)
    = transactionLoop (Suc (d + left)) (Suc (Suc j)) env op (seenAt env db (Suc j))" by (simp only: add_Suc)
  also have "\<dots> = (Inr r, db')" by (rule Suc.IH) (use Suc.prems in simp)
  finally show ?case .
qed

lemma withProjectionTransaction_commits:
  assumes k: "k \<in> {1, 2, 3}" and conflicts: "\<And>j. 1 \<le> j \<Longrightarrow> j < k \<Longrightarrow> conflictAt env op db j"
    and good: "databaseFault (env k) = None" "op k (seenAt env db k) = Inr (r, db')"
  shows "withProjectionTransaction env op db = (Inr r, db')"
proof -
  have bound: "k \<le> PROJECTION_TRANSACTION_ATTEMPTS" using k by (auto simp: PROJECTION_TRANSACTION_ATTEMPTS_def)
  have "Suc 0 + (k - 1) = k" and "Suc (k - 1 + (3 - k)) = PROJECTION_TRANSACTION_ATTEMPTS"
    using k by (auto simp: PROJECTION_TRANSACTION_ATTEMPTS_def)
  with transactionLoop_reaches [OF bound conflicts good, of 0 "k - 1" "3 - k"] show ?thesis
    by (simp add: withProjectionTransaction_def)
qed

end
