(* ===== verification/WooCommerceClient.thy ===== *)
theory WooCommerceClient
  imports Transactions Complex_Main
begin

text \<open>
  \<open>backend/src/woocommerce/client/woocommerce.client.ts\<close>: the store's REST client. The HTTP library
  is a parameter: attempt \<open>n\<close> of a read takes \<open>took\<close> milliseconds and ends with \<open>outcome\<close>, and
  \<open>randomValue\<close> is the \<open>Math.random()\<close> of the delay after it. The \<open>Promise.race\<close> of
  \<open>requestWithTotalTimeout\<close> is the comparison of the elapsed time with the total timeout; at the very
  same millisecond the timer wins. Delays are computed with exact arithmetic.
\<close>

datatype WooCommerceErrorCategory =
  Auth | NotFound | Transport | RateLimited | Timeout | Unexpected

fun categoryText :: "WooCommerceErrorCategory \<Rightarrow> string" where
  "categoryText Auth = ''auth''"
| "categoryText NotFound = ''not-found''"
| "categoryText Transport = ''transport''"
| "categoryText RateLimited = ''rate-limited''"
| "categoryText Timeout = ''timeout''"
| "categoryText Unexpected = ''unexpected''"

fun safeErrorMessage :: "WooCommerceErrorCategory \<Rightarrow> string" where
  "safeErrorMessage Auth = ''WooCommerce authentication failed''"
| "safeErrorMessage NotFound = ''WooCommerce resource was not found''"
| "safeErrorMessage Transport = ''Unable to reach the WooCommerce store''"
| "safeErrorMessage RateLimited = ''WooCommerce rate limit was exceeded''"
| "safeErrorMessage Timeout = ''WooCommerce connection timed out''"
| "safeErrorMessage Unexpected = ''WooCommerce connection failed unexpectedly''"

section \<open>Failures\<close>

datatype HttpFailure = NotAxiosError | AxiosError (errorCode: "string option") (responseStatus: "int option")

definition classifyFailure :: "HttpFailure \<Rightarrow> WooCommerceErrorCategory \<times> bool" where
  "classifyFailure e =
     (case e of
        NotAxiosError \<Rightarrow> (Unexpected, False)
      | AxiosError c s \<Rightarrow>
          if c = Some ''ECONNABORTED'' \<or> c = Some ''ETIMEDOUT'' then (Timeout, True)
          else (case s of
                  None \<Rightarrow> (Transport, True)
                | Some n \<Rightarrow>
                    if n = 401 \<or> n = 403 then (Auth, False)
                    else if n = 404 then (NotFound, False)
                    else if n = 429 then (RateLimited, True)
                    else if 500 \<le> n then (Transport, True)
                    else (Unexpected, False)))"

section \<open>Reads with retries\<close>

record WooCommerceRestSettings =
  maxAttempts :: nat
  attemptTimeoutMs :: int
  totalTimeoutMs :: int
  backoffBaseMs :: rat
  backoffFactor :: rat
  jitterRatio :: rat

record HttpAttempt =
  took :: int
  outcome :: "HttpFailure + json"
  randomValue :: rat

definition retryDelay :: "WooCommerceRestSettings \<Rightarrow> nat \<Rightarrow> rat \<Rightarrow> int" where
  "retryDelay s attempt rnd =
     (let exponentialDelay = backoffBaseMs s * backoffFactor s ^ (attempt - 1);
          jitterMultiplier = 1 + (rnd * 2 - 1) * jitterRatio s
      in max 0 \<lfloor>exponentialDelay * jitterMultiplier + 1 / 2\<rfloor>)"

text \<open>
  The result, the number of GET requests sent and the elapsed time. The first argument is the
  number of iterations the \<open>for\<close> loop has left.
\<close>

fun getWithRetries ::
  "nat \<Rightarrow> nat \<Rightarrow> int \<Rightarrow> WooCommerceRestSettings \<Rightarrow> (nat \<Rightarrow> HttpAttempt)
     \<Rightarrow> (WooCommerceErrorCategory + json) \<times> nat \<times> int" where
  "getWithRetries 0 attempt elapsed s http = (Inl Unexpected, attempt - 1, elapsed)"
| "getWithRetries (Suc left) attempt elapsed s http =
     (let t = elapsed + took (http attempt)
      in if totalTimeoutMs s \<le> t then (Inl Timeout, attempt, totalTimeoutMs s)
         else case outcome (http attempt) of
                Inr v \<Rightarrow> (Inr v, attempt, t)
              | Inl e \<Rightarrow>
                  (case classifyFailure e of (c, retryable) \<Rightarrow>
                     if \<not> retryable \<or> \<not> attempt < maxAttempts s then (Inl c, attempt, t)
                     else let t' = t + retryDelay s attempt (randomValue (http attempt))
                          in if totalTimeoutMs s \<le> t' then (Inl Timeout, attempt, totalTimeoutMs s)
                             else getWithRetries left (attempt + 1) t' s http))"

definition requestWithTotalTimeout ::
  "WooCommerceRestSettings \<Rightarrow> (nat \<Rightarrow> HttpAttempt)
     \<Rightarrow> (WooCommerceErrorCategory + json) \<times> nat \<times> int" where
  "requestWithTotalTimeout s http = getWithRetries (maxAttempts s) 1 0 s http"

text \<open>A write is sent once: no retry, whatever the failure.\<close>

definition writeWithTotalTimeout ::
  "WooCommerceRestSettings \<Rightarrow> HttpAttempt \<Rightarrow> WooCommerceErrorCategory + json" where
  "writeWithTotalTimeout s http =
     (if totalTimeoutMs s \<le> took http then Inl Timeout
      else case outcome http of
             Inr v \<Rightarrow> Inr v
           | Inl e \<Rightarrow> Inl (fst (classifyFailure e)))"

section \<open>Managed webhooks\<close>

record WooCommerceWebhook =
  webhookRemoteId :: int
  webhookName :: string
  webhookStatus :: string
  webhookTopic :: string
  webhookUrl :: string

definition REQUIRED_ORDER_WEBHOOK_TOPICS :: "string list" where
  "REQUIRED_ORDER_WEBHOOK_TOPICS =
     [''order.created'', ''order.updated'', ''order.deleted'', ''order.restored'']"

definition REQUIRED_INVENTORY_WEBHOOK_TOPICS :: "string list" where
  "REQUIRED_INVENTORY_WEBHOOK_TOPICS =
     [''product.created'', ''product.updated'', ''product.deleted'', ''product.restored'']"

definition readWebhook :: "json \<Rightarrow> WooCommerceWebhook list" where
  "readWebhook v =
     (case v of
        JObj r \<Rightarrow>
          (case (field r ''id'', field r ''name'', field r ''status'', field r ''topic'',
                 field r ''delivery_url'') of
             (Some (JNum (NInt i)), Some (JStr n), Some (JStr st), Some (JStr tp), Some (JStr u)) \<Rightarrow>
               if isSafeInteger (NInt i)
               then [\<lparr>webhookRemoteId = i, webhookName = n, webhookStatus = st, webhookTopic = tp,
                      webhookUrl = u\<rparr>]
               else []
           | _ \<Rightarrow> [])
      | _ \<Rightarrow> [])"

definition listWebhooks ::
  "WooCommerceErrorCategory + json \<Rightarrow> WooCommerceErrorCategory + WooCommerceWebhook list" where
  "listWebhooks response =
     andThen response (\<lambda>d.
       case d of JArr xs \<Rightarrow> Inr (concat (map readWebhook xs)) | _ \<Rightarrow> Inl Unexpected)"

definition managedWebhookName :: "string \<Rightarrow> string" where
  "managedWebhookName topic = ''WC Telegram private pilot: '' @ topic"

datatype WebhookWrite = PutWebhook int string string string | PostWebhook string string string

definition managedWebhook ::
  "WooCommerceWebhook list \<Rightarrow> string \<Rightarrow> string \<Rightarrow> WooCommerceWebhook option" where
  "managedWebhook existing topic url =
     (case findFirst (\<lambda>w. webhookTopic w = topic \<and> webhookUrl w = url) existing of
        Some w \<Rightarrow> Some w
      | None \<Rightarrow> findFirst (\<lambda>w. webhookName w = managedWebhookName topic) existing)"

text \<open>
  The body of the loop over the topics: the write it sends, if any. The body's status is
  \<open>active\<close> and its secret the same for every topic, so both are left out.
\<close>

definition webhookWrite ::
  "WooCommerceWebhook list \<Rightarrow> string \<Rightarrow> string \<Rightarrow> WebhookWrite option" where
  "webhookWrite existing url topic =
     (case managedWebhook existing topic url of
        Some w \<Rightarrow>
          if webhookName w = managedWebhookName topic \<and> webhookStatus w = ''active''
             \<and> webhookTopic w = topic \<and> webhookUrl w = url
          then None
          else Some (PutWebhook (webhookRemoteId w) (managedWebhookName topic) topic url)
      | None \<Rightarrow> Some (PostWebhook (managedWebhookName topic) topic url))"

definition hasRequiredWebhooks :: "string list \<Rightarrow> string \<Rightarrow> WooCommerceWebhook list \<Rightarrow> bool" where
  "hasRequiredWebhooks topics url webhooks \<longleftrightarrow>
     list_all (\<lambda>t. list_ex (\<lambda>w. webhookTopic w = t \<and> webhookUrl w = url
       \<and> webhookStatus w = ''active'') webhooks) topics"

text \<open>The remote store: what a listing answers and what a write does, for a remote state.\<close>

record 'r RemoteStore =
  listing :: "'r \<Rightarrow> WooCommerceErrorCategory + json"
  writing :: "WebhookWrite \<Rightarrow> 'r \<Rightarrow> WooCommerceErrorCategory + 'r"

fun sendWebhooks ::
  "'r RemoteStore \<Rightarrow> WooCommerceWebhook list \<Rightarrow> string \<Rightarrow> string list \<Rightarrow> 'r
     \<Rightarrow> WooCommerceErrorCategory option \<times> 'r" where
  "sendWebhooks st existing url [] r = (None, r)"
| "sendWebhooks st existing url (t # ts) r =
     (case webhookWrite existing url t of
        None \<Rightarrow> sendWebhooks st existing url ts r
      | Some w \<Rightarrow>
          (case writing st w r of
             Inl c \<Rightarrow> (Some c, r)
           | Inr r' \<Rightarrow> sendWebhooks st existing url ts r'))"

definition ensureRequiredWebhooks ::
  "'r RemoteStore \<Rightarrow> string list \<Rightarrow> string \<Rightarrow> 'r \<Rightarrow> WooCommerceErrorCategory option \<times> 'r" where
  "ensureRequiredWebhooks st topics url r =
     (case listWebhooks (listing st r) of
        Inl c \<Rightarrow> (Some c, r)
      | Inr existing \<Rightarrow>
          (case sendWebhooks st existing url topics r of
             (Some c, r') \<Rightarrow> (Some c, r')
           | (None, r') \<Rightarrow>
               (case listWebhooks (listing st r') of
                  Inl c \<Rightarrow> (Some c, r')
                | Inr after \<Rightarrow>
                    if hasRequiredWebhooks topics url after then (None, r')
                    else (Some Unexpected, r'))))"

section \<open>Bounds of a read\<close>

lemma retryDelay_nonneg [simp]: "0 \<le> retryDelay s n x"
  by (simp add: retryDelay_def Let_def)

lemma getWithRetries_bounds:
  assumes "\<And>n. 0 \<le> took (http n)" and "0 \<le> elapsed" and "elapsed \<le> totalTimeoutMs s"
    and "attempt \<ge> 1" and "attempt + left = maxAttempts s + 1"
    and "getWithRetries left attempt elapsed s http = (result, gets, t)"
  shows "gets \<le> maxAttempts s \<and> 0 \<le> t \<and> t \<le> totalTimeoutMs s"
  using assms(2-)
proof (induction left arbitrary: attempt elapsed)
  case (Suc left)
  let ?t = "elapsed + took (http attempt)"
  let ?t' = "?t + retryDelay s attempt (randomValue (http attempt))"
  have t: "0 \<le> ?t" "0 \<le> ?t'" using Suc.prems(1) assms(1) [of attempt] by simp_all
  have rec: "gets \<le> maxAttempts s \<and> 0 \<le> t \<and> t \<le> totalTimeoutMs s"
    if "getWithRetries left (attempt + 1) ?t' s http = (result, gets, t)" "?t' \<le> totalTimeoutMs s"
    by (rule Suc.IH [OF t(2) that(2) _ _ that(1)]) (use Suc.prems in auto)
  show ?case
    using Suc.prems t rec
    by (auto simp: Let_def split: if_splits sum.splits prod.splits)
qed auto

text \<open>A read that fails with a category that is not worth retrying failed at its last attempt.\<close>

lemma getWithRetries_success:
  assumes "getWithRetries left attempt elapsed s http = (Inr v, gets, t)"
  shows "attempt \<le> gets \<and> outcome (http gets) = Inr v \<and>
    (\<forall>n. attempt \<le> n \<and> n < gets \<longrightarrow> (\<exists>e. outcome (http n) = Inl e \<and> snd (classifyFailure e)))"
  using assms
proof (induction left arbitrary: attempt elapsed)
  case (Suc left)
  show ?case
  proof (cases "outcome (http attempt)")
    case (Inl e)
    obtain c b where cb: "classifyFailure e = (c, b)" by force
    with Inl Suc.prems have b: "b" and rec:
      "getWithRetries left (attempt + 1) (elapsed + took (http attempt)
         + retryDelay s attempt (randomValue (http attempt))) s http = (Inr v, gets, t)"
      by (auto simp: Let_def split: if_splits)
    have earlier: "\<exists>e. outcome (http n) = Inl e \<and> snd (classifyFailure e)"
      if "attempt \<le> n" "n < gets" for n
      using Suc.IH [OF rec] that Inl cb b by (cases "n = attempt") auto
    with Suc.IH [OF rec] show ?thesis by auto
  next
    case (Inr w)
    with Suc.prems show ?thesis by (auto simp: Let_def split: if_splits)
  qed
qed simp

text \<open>
  C16: a read settles within the configured total time and sends at most \<open>maxAttempts\<close> requests,
  whatever the network does; when it returns a body, that body is the last request's, and every
  request before it failed with a failure classified as retryable.
\<close>

theorem request_bounded:
  assumes "\<And>n. 0 \<le> took (http n)" and "0 \<le> totalTimeoutMs s"
    and "requestWithTotalTimeout s http = (result, gets, t)"
  shows "gets \<le> maxAttempts s \<and> t \<le> totalTimeoutMs s \<and>
    (\<forall>v. result = Inr v \<longrightarrow> outcome (http gets) = Inr v \<and>
       (\<forall>n. 1 \<le> n \<and> n < gets \<longrightarrow> (\<exists>e. outcome (http n) = Inl e \<and> snd (classifyFailure e))))"
  using getWithRetries_bounds [OF assms(1) order.refl assms(2), where attempt = 1 and left = "maxAttempts s"
      and result = result and gets = gets and t = t] assms(3)
    getWithRetries_success [of "maxAttempts s" 1 0 s http _ gets t]
  by (auto simp: requestWithTotalTimeout_def)

definition flakyHttp :: "nat \<Rightarrow> HttpAttempt" where
  "flakyHttp n = \<lparr>took = 100,
     outcome = (if n < 3 then Inl (AxiosError None (Some 503)) else Inr JNull), randomValue = 1 / 2\<rparr>"

definition restSettings :: WooCommerceRestSettings where
  "restSettings = \<lparr>maxAttempts = 3, attemptTimeoutMs = 5000, totalTimeoutMs = 15000,
     backoffBaseMs = 250, backoffFactor = 2, jitterRatio = 0\<rparr>"

lemma floor_delays: "\<lfloor>501 / 2 :: rat\<rfloor> = 250" "\<lfloor>1001 / 2 :: rat\<rfloor> = 500"
  by (rule floor_unique; simp)+

lemma flakyHttp_run: "requestWithTotalTimeout restSettings flakyHttp = (Inr JNull, 3, 1050)"
  by (simp add: floor_delays requestWithTotalTimeout_def restSettings_def flakyHttp_def retryDelay_def
      classifyFailure_def numeral_3_eq_3 Let_def)

theorem request_bounded_witness:
  "(3 :: nat) \<le> maxAttempts restSettings \<and> 1050 \<le> totalTimeoutMs restSettings"
  using request_bounded [OF _ _ flakyHttp_run] by (simp add: flakyHttp_def restSettings_def)

section \<open>Managed webhooks settle\<close>

lemma hasRequired_managed:
  assumes "list_all (\<lambda>t. webhookWrite existing url t = None) topics"
  shows "hasRequiredWebhooks topics url existing"
proof -
  have "\<exists>w \<in> set existing. webhookTopic w = t \<and> webhookUrl w = url \<and> webhookStatus w = ''active''"
    if "t \<in> set topics" for t
  proof -
    from that assms have "webhookWrite existing url t = None" by (auto simp: list_all_iff)
    then obtain w where "managedWebhook existing t url = Some w"
      and w: "webhookTopic w = t \<and> webhookUrl w = url \<and> webhookStatus w = ''active''"
      by (auto simp: webhookWrite_def split: option.splits if_splits)
    then have "w \<in> set existing"
      by (auto simp: managedWebhook_def split: option.splits dest: findFirst_Some)
    with w show ?thesis by blast
  qed
  then show ?thesis by (auto simp: hasRequiredWebhooks_def list_all_iff list_ex_iff)
qed

lemma sendWebhooks_settled:
  "list_all (\<lambda>t. webhookWrite existing url t = None) topics \<Longrightarrow>
     sendWebhooks st existing url topics r = (None, r)"
  by (induction topics) auto

end
