(* ===== verification/Decisions.thy ===== *)
theory Decisions
  imports WooCommerceClient
begin

text \<open>
  What the two projection services share: the store and event they are called with, which REST
  failures they retry, and the contract of \<open>decideOrderProjection\<close> and \<open>decideInventoryProjection\<close>: what both services rely
  on when they compare a stored version of an entity with an incoming one. Each service interprets
  the locale on its own function.
\<close>

text \<open>The credentials and the base URL of a store are used by the REST client only.\<close>

record ProjectableStore =
  storeId :: string
  storeTenantId :: string

record ProjectableWebhookEvent =
  eventId :: string
  eventTopic :: string
  eventPayload :: json
  eventReceivedAt :: date
  eventStore :: ProjectableStore

datatype FetchFailure = ClientError WooCommerceErrorCategory | OtherFetchError

definition retryableCategory :: "WooCommerceErrorCategory \<Rightarrow> bool" where
  "retryableCategory c \<longleftrightarrow> c = Transport \<or> c = RateLimited \<or> c = Timeout"

datatype ProjectionDecision = Apply | Noop | Reconcile

type_synonym version = "date \<times> string"

text \<open>Offering a version to a slot that keeps the version the decision function prefers.\<close>

fun offer ::
  "(date \<Rightarrow> string \<Rightarrow> date \<Rightarrow> string \<Rightarrow> bool \<Rightarrow> ProjectionDecision) \<Rightarrow> bool \<Rightarrow> version
     \<Rightarrow> version option \<Rightarrow> version option" where
  "offer decide a (t, f) None = Some (t, f)"
| "offer decide a (t, f) (Some (s, g)) =
     (if decide s g t f a = Apply then Some (t, f) else Some (s, g))"

locale projection_decision =
  fixes decide :: "date \<Rightarrow> string \<Rightarrow> date \<Rightarrow> string \<Rightarrow> bool \<Rightarrow> ProjectionDecision"
  assumes older: "t < s \<Longrightarrow> decide s g t f a = Noop"
    and newer: "s < t \<Longrightarrow> decide s g t f a = Apply"
    and replay: "decide t f t f a = Noop"
    and tie: "f \<noteq> g \<Longrightarrow> decide t g t f a = (if a then Apply else Reconcile)"
begin

lemma applied_not_older: "decide s g t f a = Apply \<Longrightarrow> s \<le> t"
  using older [of t s g f a] by (cases "t < s") simp_all

lemma applied_changes: "decide s g t f a = Apply \<Longrightarrow> (s, g) \<noteq> (t, f)"
  using replay [of t f a] by auto

lemma reconciled_is_tie: "decide s g t f a = Reconcile \<Longrightarrow> s = t \<and> f \<noteq> g \<and> \<not> a"
  by (metis ProjectionDecision.distinct(4,5) ProjectionDecision.simps(4) linorder_neqE_linordered_idom
      newer older replay tie)

lemma authoritative_settles: "decide s g t f True \<noteq> Reconcile"
  using reconciled_is_tie by blast

lemma offer_cases:
  "offer decide a v st = Some w \<Longrightarrow> w = v \<or> st = Some w"
  by (cases v; cases st) (auto split: if_splits)

lemma offer_newest:
  assumes "offer decide a v st = Some w"
  shows "fst v \<le> fst w \<and> (\<forall>u. st = Some u \<longrightarrow> fst u \<le> fst w)"
proof (cases st)
  case None
  with assms show ?thesis by (cases v) auto
next
  case (Some u)
  obtain t f s g where [simp]: "v = (t, f)" "u = (s, g)" by (cases v; cases u)
  show ?thesis
    using assms Some newer [of s t g f a] applied_not_older [of s g t f a]
    by (cases "s < t") (auto split: if_splits)
qed

lemma offer_some: "\<exists>w. offer decide a v st = Some w"
proof (cases st)
  case None
  then show ?thesis by (cases v) simp
next
  case (Some u)
  then show ?thesis by (cases v; cases u) simp
qed

lemma offers_defined: "\<exists>w. fold (offer decide a) vs (Some u) = Some w"
proof (induction vs arbitrary: u)
  case (Cons v vs)
  obtain w where "offer decide a v (Some u) = Some w" using offer_some by blast
  with Cons show ?case by simp
qed simp

text \<open>Whatever the order of arrival, a version with the newest modification time is kept.\<close>

lemma offers_newest:
  assumes "fold (offer decide a) vs st = Some w"
  shows "(w \<in> set vs \<or> st = Some w) \<and> (\<forall>v \<in> set vs. fst v \<le> fst w)
    \<and> (\<forall>u. st = Some u \<longrightarrow> fst u \<le> fst w)"
  using assms
proof (induction vs arbitrary: st)
  case (Cons v vs)
  obtain u where u: "offer decide a v st = Some u" using offer_some by blast
  with Cons.prems have "fold (offer decide a) vs (Some u) = Some w" by simp
  from Cons.IH [OF this] offer_cases [OF u] offer_newest [OF u] show ?case by fastforce
qed simp

lemma offers_order_irrelevant:
  assumes "set vs = set ws" and "inj_on fst (set vs)" and "vs \<noteq> []"
  shows "fold (offer decide a) vs None = fold (offer decide a) ws None"
proof -
  have start: "\<exists>x. fold (offer decide a) us None = Some x" if "us \<noteq> []" for us
    using that offers_defined by (cases us; cases "hd us") auto
  from assms have "ws \<noteq> []" by auto
  with start assms(3) obtain x y where
    xy: "fold (offer decide a) vs None = Some x" "fold (offer decide a) ws None = Some y" by blast
  from offers_newest [OF xy(1)] offers_newest [OF xy(2)] assms(1)
  have "x \<in> set vs" "y \<in> set vs" "fst x = fst y" by (auto intro: order.antisym)
  with assms(2) xy show ?thesis by (auto dest: inj_onD)
qed

end

end
