(* ===== verification/InventoryProjection.thy ===== *)
theory InventoryProjection
  imports InventoryMapper Decisions
begin

text \<open>
  \<open>backend/src/inventory/inventory-projection.service.ts\<close>: projecting WooCommerce product webhooks and
  bootstrap pages into the \<open>inventory_items\<close> table, with the stock incidents and the alert signals they
  start. The database state holds the items and the columns of the stores the service reads. Reads and
  writes outside a transaction are preceded by whatever other processes did (\<open>invBetween\<close>).
\<close>

datatype InventoryAlertLevel = LOW_ALERT | OUT_ALERT

record ItemRow =
  itemRowId :: string
  itemTenantId :: string
  itemStoreId :: string
  rowWcItemId :: string
  rowParentId :: "string option"
  rowKind :: InventoryItemKind
  rowName :: string
  rowSku :: "string option"
  rowContext :: "(string \<times> string) list"
  rowManagesStock :: bool
  rowQuantity :: "string option"
  rowStockStatus :: string
  rowModifiedAt :: date
  rowFingerprint :: string
  rowSyncedAt :: date
  rowWebhookReceivedAt :: "date option"
  rowDeletedAt :: "date option"
  alertClassification :: InventoryAlertClassification
  incidentGeneration :: nat
  lowAlertSource :: "string option"
  lowAlertCapturedAt :: "date option"
  outAlertSource :: "string option"
  outAlertCapturedAt :: "date option"

record StoreSettings =
  settingsStoreId :: string
  settingsTenantId :: string
  lowStockThreshold :: "int option"
  settingsDeletedAt :: "date option"
  settingsTenantDeletedAt :: "date option"

record InventoryDb =
  inventoryItems :: "ItemRow list"
  stores :: "StoreSettings list"

record InventoryAlertSignal =
  signalItemId :: string
  signalGeneration :: nat
  signalLevel :: InventoryAlertLevel
  signalSource :: string

record ProjectionSource =
  baseline :: bool
  sourceWebhookEventId :: "string option"
  webhookReceivedAt :: "date option"
  clearDeletion :: bool

datatype InventoryFailure = InventoryProjectionFailure WooCommerceErrorCategory string bool

type_synonym InventoryError = "InventoryFailure TransactionError"

record InventoryEnv =
  invSha :: "string \<Rightarrow> string"
  fetchProduct :: "ProjectableStore \<Rightarrow> string \<Rightarrow> FetchFailure + json"
  fetchProductVariation :: "ProjectableStore \<Rightarrow> string \<Rightarrow> string \<Rightarrow> FetchFailure + json"
  invAttemptOf :: "nat \<Rightarrow> nat \<Rightarrow> InventoryDb Attempt"
  invBetween :: "InventoryDb \<Rightarrow> InventoryDb"
  invClock :: "nat \<Rightarrow> nat \<Rightarrow> date"
  invFreshId :: "nat \<Rightarrow> nat \<Rightarrow> string"

definition PRODUCT_TOPICS :: "string list" where
  "PRODUCT_TOPICS = [''product.created'', ''product.updated'', ''product.deleted'', ''product.restored'']"

definition decideInventoryProjection ::
  "date \<Rightarrow> string \<Rightarrow> date \<Rightarrow> string \<Rightarrow> bool \<Rightarrow> ProjectionDecision" where
  "decideInventoryProjection storedModifiedAt storedFingerprint incomingModifiedAt incomingFingerprint
       authoritative =
     (let timestampComparison = incomingModifiedAt - storedModifiedAt
      in if timestampComparison < 0 then Noop
         else if timestampComparison > 0 then Apply
         else if storedFingerprint = incomingFingerprint then Noop
         else if authoritative then Apply else Reconcile)"

interpretation inventory_decision: projection_decision decideInventoryProjection
  by unfold_locales (auto simp: decideInventoryProjection_def Let_def)

section \<open>Incidents\<close>

definition entryAlertLevel :: "InventoryAlertClassification \<Rightarrow> InventoryAlertLevel option" where
  "entryAlertLevel c =
     (case c of LOW_STOCK \<Rightarrow> Some LOW_ALERT | OUT_OF_STOCK \<Rightarrow> Some OUT_ALERT | HEALTHY \<Rightarrow> None)"

text \<open>An absent or empty source id is falsy.\<close>

definition sourceId :: "ProjectionSource \<Rightarrow> string option" where
  "sourceId src = (case sourceWebhookEventId src of Some (c # cs) \<Rightarrow> Some (c # cs) | _ \<Rightarrow> None)"

definition replaySignal :: "ItemRow \<Rightarrow> ProjectionSource \<Rightarrow> InventoryAlertSignal option" where
  "replaySignal existing src =
     (case sourceId src of
        None \<Rightarrow> None
      | Some e \<Rightarrow>
          if lowAlertSource existing = Some e
          then Some \<lparr>signalItemId = itemRowId existing, signalGeneration = incidentGeneration existing,
                     signalLevel = LOW_ALERT, signalSource = e\<rparr>
          else if outAlertSource existing = Some e
          then Some \<lparr>signalItemId = itemRowId existing, signalGeneration = incidentGeneration existing,
                     signalLevel = OUT_ALERT, signalSource = e\<rparr>
          else None)"

definition clearAlertSources :: "ItemRow \<Rightarrow> ItemRow" where
  "clearAlertSources r = r\<lparr>lowAlertSource := None, lowAlertCapturedAt := None,
     outAlertSource := None, outAlertCapturedAt := None\<rparr>"

text \<open>The columns \<open>nextIncident\<close> updates, as a function on the row, and the signal it starts.\<close>

definition startedSignal ::
  "ItemRow \<Rightarrow> InventoryAlertClassification \<Rightarrow> ProjectionSource \<Rightarrow> nat \<Rightarrow> InventoryAlertSignal option" where
  "startedSignal existing c src generation =
     (case (sourceId src, entryAlertLevel c) of
        (Some e, Some level) \<Rightarrow>
          if baseline src then None
          else Some \<lparr>signalItemId = itemRowId existing, signalGeneration = generation,
                     signalLevel = level, signalSource = e\<rparr>
      | _ \<Rightarrow> None)"

definition nextIncident ::
  "ItemRow \<Rightarrow> InventoryAlertClassification \<Rightarrow> ProjectionSource
     \<Rightarrow> (ItemRow \<Rightarrow> ItemRow) \<times> InventoryAlertSignal option" where
  "nextIncident existing c src =
     (if c = HEALTHY then (clearAlertSources, None)
      else if alertClassification existing = c
      then ((\<lambda>r. r), if baseline src then None else replaySignal existing src)
      else if alertClassification existing = OUT_OF_STOCK \<and> c = LOW_STOCK then ((\<lambda>r. r), None)
      else
        let startsIncident = (alertClassification existing = HEALTHY);
            generation = (if startsIncident then incidentGeneration existing + 1
                          else incidentGeneration existing);
            signal = startedSignal existing c src generation
        in ((\<lambda>r. let r1 = (if startsIncident then clearAlertSources r else r);
                      r2 = r1\<lparr>incidentGeneration := generation\<rparr>
                  in if c = LOW_STOCK
                     then r2\<lparr>lowAlertSource := map_option signalSource signal, lowAlertCapturedAt := None\<rparr>
                     else r2\<lparr>outAlertSource := map_option signalSource signal, outAlertCapturedAt := None\<rparr>),
            signal))"

section \<open>Rows\<close>

definition itemKey :: "ProjectableStore \<Rightarrow> string \<Rightarrow> ItemRow \<Rightarrow> bool" where
  "itemKey s i r \<longleftrightarrow> itemTenantId r = storeTenantId s \<and> itemStoreId r = storeId s \<and> rowWcItemId r = i"

definition findItem :: "ProjectableStore \<Rightarrow> string \<Rightarrow> ItemRow list \<Rightarrow> ItemRow option" where
  "findItem s i rows = findFirst (itemKey s i) rows"

definition findSettings :: "ProjectableStore \<Rightarrow> StoreSettings list \<Rightarrow> StoreSettings option" where
  "findSettings s rows = findFirst (\<lambda>r. settingsStoreId r = storeId s \<and> settingsTenantId r = storeTenantId s
     \<and> settingsDeletedAt r = None \<and> settingsTenantDeletedAt r = None) rows"

definition optimisticItemWhere :: "ItemRow \<Rightarrow> ItemRow \<Rightarrow> bool" where
  "optimisticItemWhere existing r \<longleftrightarrow>
     itemRowId r = itemRowId existing \<and> itemTenantId r = itemTenantId existing
     \<and> itemStoreId r = itemStoreId existing \<and> rowModifiedAt r = rowModifiedAt existing
     \<and> rowFingerprint r = rowFingerprint existing \<and> rowDeletedAt r = rowDeletedAt existing
     \<and> alertClassification r = alertClassification existing
     \<and> incidentGeneration r = incidentGeneration existing"

definition createItem :: "ItemRow \<Rightarrow> ItemRow list \<Rightarrow> InventoryError + ItemRow list" where
  "createItem row rows =
     (if list_ex (\<lambda>r. itemRowId r = itemRowId row
          \<or> itemStoreId r = itemStoreId row \<and> rowWcItemId r = rowWcItemId row) rows
      then Inl (PrismaError ''P2002'') else Inr (rows @ [row]))"

definition newItemRow ::
  "ProjectableStore \<Rightarrow> InventoryProjection \<Rightarrow> InventoryAlertClassification \<Rightarrow> ProjectionSource
     \<Rightarrow> string \<Rightarrow> date \<Rightarrow> InventoryAlertSignal option \<Rightarrow> ItemRow" where
  "newItemRow s p c src fresh now signal =
     \<lparr>itemRowId = ''inv_'' @ fresh, itemTenantId = storeTenantId s, itemStoreId = storeId s,
      rowWcItemId = itemWcId p, rowParentId = itemParentId p, rowKind = itemKind p, rowName = itemName p,
      rowSku = itemSku p, rowContext = itemContext p, rowManagesStock = itemManagesStock p,
      rowQuantity = itemQuantity p, rowStockStatus = itemStockStatus p, rowModifiedAt = itemModifiedAt p,
      rowFingerprint = itemFingerprint p, rowSyncedAt = now, rowWebhookReceivedAt = webhookReceivedAt src,
      rowDeletedAt = None, alertClassification = c,
      incidentGeneration = (if c = HEALTHY then 0 else 1),
      lowAlertSource = (if map_option signalLevel signal = Some LOW_ALERT then sourceWebhookEventId src else None),
      lowAlertCapturedAt = None,
      outAlertSource = (if map_option signalLevel signal = Some OUT_ALERT then sourceWebhookEventId src else None),
      outAlertCapturedAt = None\<rparr>"

definition projectItemOnto ::
  "InventoryProjection \<Rightarrow> ProjectionSource \<Rightarrow> date \<Rightarrow> date option \<Rightarrow> InventoryAlertClassification
     \<Rightarrow> (ItemRow \<Rightarrow> ItemRow) \<Rightarrow> ItemRow \<Rightarrow> ItemRow" where
  "projectItemOnto p src now preservedDeletion c incident r =
     incident (r\<lparr>rowParentId := itemParentId p, rowKind := itemKind p, rowName := itemName p,
       rowSku := itemSku p, rowContext := itemContext p, rowManagesStock := itemManagesStock p,
       rowQuantity := itemQuantity p, rowStockStatus := itemStockStatus p,
       rowModifiedAt := itemModifiedAt p, rowFingerprint := itemFingerprint p, rowSyncedAt := now,
       rowWebhookReceivedAt := (case webhookReceivedAt src of None \<Rightarrow> rowWebhookReceivedAt r | Some t \<Rightarrow> Some t),
       rowDeletedAt := (if itemActive p then preservedDeletion
         else Some (case webhookReceivedAt src of None \<Rightarrow> now | Some t \<Rightarrow> t)),
       alertClassification := c\<rparr>)"

section \<open>Applying a projection\<close>

text \<open>
  The decision, after the reactivation rule: a no-op on a deleted row is verified with the store when
  the webhook may clear the deletion, and applied when the candidate is the verified one.
\<close>

definition itemDecision ::
  "InventoryProjection \<Rightarrow> bool \<Rightarrow> ProjectionSource \<Rightarrow> ItemRow \<Rightarrow> ProjectionDecision" where
  "itemDecision p authoritative src existing =
     (let decided = decideInventoryProjection (rowModifiedAt existing) (rowFingerprint existing)
            (itemModifiedAt p) (itemFingerprint p) authoritative
      in if rowDeletedAt existing \<noteq> None \<and> clearDeletion src \<and> decided = Noop
         then (if authoritative then Apply else Reconcile) else decided)"

definition preservedDeletion :: "ProjectionSource \<Rightarrow> ItemRow \<Rightarrow> date option" where
  "preservedDeletion src existing = (if clearDeletion src then None else rowDeletedAt existing)"

definition applyToItem ::
  "InventoryProjection \<Rightarrow> bool \<Rightarrow> ProjectionSource \<Rightarrow> date \<Rightarrow> InventoryAlertClassification \<Rightarrow> ItemRow
     \<Rightarrow> InventoryDb \<Rightarrow> InventoryError + (ProjectionDecision \<times> InventoryAlertSignal option) \<times> InventoryDb" where
  "applyToItem p authoritative src now classification existing db =
     (if baseline src \<and> rowWebhookReceivedAt existing \<noteq> None \<and> itemModifiedAt p \<le> rowModifiedAt existing
      then Inr ((Noop, None), db)
      else if itemDecision p authoritative src existing \<noteq> Apply
      then Inr ((itemDecision p authoritative src existing,
                 if baseline src then None else replaySignal existing src), db)
      else
        let preserved = preservedDeletion src existing;
            effective = (if preserved \<noteq> None then HEALTHY else classification);
            incident = nextIncident existing effective src;
            updated = updateMany (optimisticItemWhere existing)
              (projectItemOnto p src now preserved effective (fst incident)) (inventoryItems db)
        in if fst updated \<noteq> 1 then Inl ConcurrentProjectionError
           else Inr ((Apply, snd incident), db\<lparr>inventoryItems := snd updated\<rparr>))"

definition createFromProjection ::
  "ProjectableStore \<Rightarrow> InventoryProjection \<Rightarrow> ProjectionSource \<Rightarrow> date \<Rightarrow> string \<Rightarrow> InventoryAlertClassification
     \<Rightarrow> InventoryDb \<Rightarrow> InventoryError + (ProjectionDecision \<times> InventoryAlertSignal option) \<times> InventoryDb" where
  "createFromProjection s p src now fresh c db =
     (if \<not> itemActive p then Inr ((Apply, None), db)
      else
        let generation = (if c = HEALTHY then 0 else 1);
            signal = (case (entryAlertLevel c, sourceId src) of
              (Some level, Some e) \<Rightarrow>
                if baseline src then None
                else Some \<lparr>signalItemId = ''inv_'' @ fresh, signalGeneration = generation,
                           signalLevel = level, signalSource = e\<rparr>
            | _ \<Rightarrow> None)
        in case createItem (newItemRow s p c src fresh now signal) (inventoryItems db) of
             Inl e \<Rightarrow> Inl e
           | Inr rows \<Rightarrow> Inr ((Apply, signal), db\<lparr>inventoryItems := rows\<rparr>))"

definition applyItemOperation ::
  "InventoryEnv \<Rightarrow> nat \<Rightarrow> ProjectableStore \<Rightarrow> InventoryProjection \<Rightarrow> bool \<Rightarrow> ProjectionSource
     \<Rightarrow> (InventoryDb, InventoryFailure, ProjectionDecision \<times> InventoryAlertSignal option) operation" where
  "applyItemOperation env tx s p authoritative src n db =
     (case findSettings s (stores db) of
        None \<Rightarrow> Inl (Thrown (InventoryProjectionFailure NotFound ''inventory-store-unavailable'' False))
      | Some settings \<Rightarrow>
          let classification = (if itemActive p
                then classifyInventoryItem (itemManagesStock p) (itemQuantity p) (itemStockStatus p)
                       (lowStockThreshold settings)
                else HEALTHY)
          in case findItem s (itemWcId p) (inventoryItems db) of
               None \<Rightarrow> createFromProjection s p src (invClock env tx n) (invFreshId env tx n) classification db
             | Some existing \<Rightarrow>
                 applyToItem p authoritative src (invClock env tx n) classification existing db)"

definition applyInventoryProjection ::
  "InventoryEnv \<Rightarrow> nat \<Rightarrow> ProjectableStore \<Rightarrow> InventoryProjection \<Rightarrow> bool \<Rightarrow> ProjectionSource \<Rightarrow> InventoryDb
     \<Rightarrow> (InventoryError + ProjectionDecision \<times> InventoryAlertSignal option) \<times> InventoryDb" where
  "applyInventoryProjection env tx s p authoritative src db =
     withProjectionTransaction (invAttemptOf env tx) (applyItemOperation env tx s p authoritative src) db"

section \<open>The service\<close>

definition signalList :: "InventoryAlertSignal option \<Rightarrow> InventoryAlertSignal list" where
  "signalList signal = (case signal of None \<Rightarrow> [] | Some s \<Rightarrow> [s])"

definition fetchFailed :: "FetchFailure \<Rightarrow> InventoryError" where
  "fetchFailed e = Thrown (case e of
     ClientError c \<Rightarrow> InventoryProjectionFailure c (''woocommerce-'' @ categoryText c) (retryableCategory c)
   | OtherFetchError \<Rightarrow> InventoryProjectionFailure Unexpected ''woocommerce-unexpected'' False)"

definition fetchItem ::
  "InventoryEnv \<Rightarrow> ProjectableStore \<Rightarrow> string option \<Rightarrow> string \<Rightarrow> FetchFailure + json" where
  "fetchItem env s parent i =
     (case parent of Some p \<Rightarrow> fetchProductVariation env s p i | None \<Rightarrow> fetchProduct env s i)"

definition reconcileItem ::
  "InventoryEnv \<Rightarrow> nat \<Rightarrow> ProjectableStore \<Rightarrow> string \<Rightarrow> string option \<Rightarrow> ProjectionSource \<Rightarrow> InventoryDb
     \<Rightarrow> (InventoryError + InventoryAlertSignal list) \<times> InventoryDb" where
  "reconcileItem env tx s i suppliedParent src db0 =
     (let db = invBetween env db0;
          parent = (case suppliedParent of Some p \<Rightarrow> Some p
                    | None \<Rightarrow> Option.bind (findItem s i (inventoryItems db)) rowParentId)
      in case fetchItem env s parent i of
           Inl e \<Rightarrow> (Inl (fetchFailed e), db)
         | Inr payload \<Rightarrow>
             (case mapWooCommerceInventoryItem (invSha env) payload of
                Inl e \<Rightarrow> (Inl (Thrown (InventoryProjectionFailure Unexpected
                            ''malformed-inventory-reconciliation-payload'' False)), db)
              | Inr mapped \<Rightarrow>
                  if itemWcId mapped \<noteq> i \<or> (parent \<noteq> None \<and> itemParentId mapped \<noteq> parent)
                  then (Inl (Thrown (InventoryProjectionFailure Unexpected
                          ''inventory-reconciliation-identity-mismatch'' False)), db)
                  else map_prod (map_sum id (\<lambda>r. signalList (snd r))) id
                         (applyInventoryProjection env tx s mapped True src db)))"

definition projectBootstrapPayload ::
  "InventoryEnv \<Rightarrow> nat \<Rightarrow> ProjectableStore \<Rightarrow> json \<Rightarrow> InventoryDb \<Rightarrow> (InventoryError + unit) \<times> InventoryDb" where
  "projectBootstrapPayload env tx s payload db =
     (case mapWooCommerceInventoryItem (invSha env) payload of
        Inl e \<Rightarrow> (Inl (Thrown (InventoryProjectionFailure Unexpected (invCode e) False)), db)
      | Inr mapped \<Rightarrow>
          map_prod (map_sum id (\<lambda>r. ())) id
            (applyInventoryProjection env tx s mapped True
              \<lparr>baseline = True, sourceWebhookEventId = None, webhookReceivedAt = None, clearDeletion = True\<rparr> db))"

definition reconcileItemMappingFailure ::
  "InventoryEnv \<Rightarrow> nat \<Rightarrow> ProjectableWebhookEvent \<Rightarrow> InventoryPayloadMappingError \<Rightarrow> InventoryDb
     \<Rightarrow> (InventoryError + InventoryAlertSignal list) \<times> InventoryDb" where
  "reconcileItemMappingFailure env tx event e db =
     (case errItemId e of
        None \<Rightarrow> (Inl (Thrown (InventoryProjectionFailure Unexpected (invCode e) False)), db)
      | Some i \<Rightarrow>
          if i = [] then (Inl (Thrown (InventoryProjectionFailure Unexpected (invCode e) False)), db)
          else reconcileItem env tx (eventStore event) i (errParentId e)
                 \<lparr>baseline = False, sourceWebhookEventId = Some (eventId event),
                  webhookReceivedAt = Some (eventReceivedAt event),
                  clearDeletion = (eventTopic event = ''product.restored'')\<rparr> db)"

text \<open>\<open>OR: [{ wcItemId }, { parentWcProductId: wcItemId }]\<close> within the event's store.\<close>

definition deletionScope :: "ProjectableStore \<Rightarrow> string \<Rightarrow> ItemRow \<Rightarrow> bool" where
  "deletionScope s i r \<longleftrightarrow> itemTenantId r = storeTenantId s \<and> itemStoreId r = storeId s
     \<and> (rowWcItemId r = i \<or> rowParentId r = Some i)"

definition deletionWhere :: "ProjectableWebhookEvent \<Rightarrow> string \<Rightarrow> date option \<Rightarrow> ItemRow \<Rightarrow> bool" where
  "deletionWhere event i deletedModifiedAt r \<longleftrightarrow> deletionScope (eventStore event) i r
     \<and> (case deletedModifiedAt of None \<Rightarrow> True | Some t \<Rightarrow> rowModifiedAt r \<le> t)
     \<and> (case rowWebhookReceivedAt r of None \<Rightarrow> True | Some t \<Rightarrow> t \<le> eventReceivedAt event)"

definition markItemDeleted :: "ProjectableWebhookEvent \<Rightarrow> date \<Rightarrow> ItemRow \<Rightarrow> ItemRow" where
  "markItemDeleted event now r =
     clearAlertSources (r\<lparr>rowDeletedAt := Some (eventReceivedAt event),
       rowWebhookReceivedAt := Some (eventReceivedAt event), rowSyncedAt := now,
       alertClassification := HEALTHY\<rparr>)"

definition deletionReadParent :: "json \<Rightarrow> ItemRow list \<Rightarrow> string option" where
  "deletionReadParent payload existing =
     (case readWooCommerceParentProductId payload of
        Inr (Some p) \<Rightarrow> Some p
      | _ \<Rightarrow> Option.bind (findFirst (\<lambda>r. rowParentId r \<noteq> None) existing) rowParentId)"

definition deleteItems ::
  "InventoryEnv \<Rightarrow> ProjectableWebhookEvent \<Rightarrow> string \<Rightarrow> date option \<Rightarrow> InventoryDb
     \<Rightarrow> (InventoryError + unit) \<times> InventoryDb" where
  "deleteItems env event i deletedModifiedAt db0 =
     (let db = invBetween env db0
      in (Inr (), db\<lparr>inventoryItems := snd (updateMany (deletionWhere event i deletedModifiedAt)
            (markItemDeleted event (invClock env 0 0)) (inventoryItems db))\<rparr>))"

text \<open>
  The \<open>catch\<close> around the authoritative read also catches what \<open>projectBootstrapPayload\<close> throws: its own
  failure is rethrown, any other error becomes a failure that is not retried.
\<close>

definition projectItemDeletion ::
  "InventoryEnv \<Rightarrow> ProjectableWebhookEvent \<Rightarrow> InventoryDb \<Rightarrow> (InventoryError + unit) \<times> InventoryDb" where
  "projectItemDeletion env event db =
     (case readWooCommerceInventoryItemId (eventPayload event) of
        Inl e \<Rightarrow> (Inl (Thrown (InventoryProjectionFailure Unexpected (invCode e) False)), db)
      | Inr i \<Rightarrow>
          let s = eventStore event;
              existing = findMany (deletionScope s i) (inventoryItems db);
              deletedModifiedAt = (case readWooCommerceInventoryModifiedAt (eventPayload event) of
                Inr t \<Rightarrow> Some t | Inl _ \<Rightarrow> None)
          in if existing = [] then (Inr (), db)
             else if deletedModifiedAt = None
                  \<or> list_ex (\<lambda>r. Some (rowModifiedAt r) = deletedModifiedAt) existing
             then (case fetchItem env s (deletionReadParent (eventPayload event) existing) i of
                     Inl (ClientError NotFound) \<Rightarrow> deleteItems env event i deletedModifiedAt db
                   | Inl e \<Rightarrow> (Inl (fetchFailed e), db)
                   | Inr current \<Rightarrow>
                       (case projectBootstrapPayload env 1 s current db of
                          (Inl (Thrown f), db') \<Rightarrow> (Inl (Thrown f), db')
                        | (Inl _, db') \<Rightarrow>
                            (Inl (Thrown (InventoryProjectionFailure Unexpected ''woocommerce-unexpected'' False)), db')
                        | (Inr _, db') \<Rightarrow> (Inr (), db')))
             else deleteItems env event i deletedModifiedAt db)"

definition webhookSource :: "ProjectableWebhookEvent \<Rightarrow> ProjectionSource" where
  "webhookSource event =
     \<lparr>baseline = False, sourceWebhookEventId = Some (eventId event),
      webhookReceivedAt = Some (eventReceivedAt event),
      clearDeletion = (eventTopic event = ''product.created'' \<or> eventTopic event = ''product.restored'')\<rparr>"

definition projectWebhook ::
  "InventoryEnv \<Rightarrow> ProjectableWebhookEvent \<Rightarrow> InventoryDb
     \<Rightarrow> (InventoryError + InventoryAlertSignal list) \<times> InventoryDb" where
  "projectWebhook env event db =
     (if eventTopic event \<notin> set PRODUCT_TOPICS then (Inr [], db)
      else if eventTopic event = ''product.deleted''
      then map_prod (map_sum id (\<lambda>_. [])) id (projectItemDeletion env event db)
      else case mapWooCommerceInventoryItem (invSha env) (eventPayload event) of
             Inl e \<Rightarrow> reconcileItemMappingFailure env 1 event e db
           | Inr mapped \<Rightarrow>
               (case applyInventoryProjection env 1 (eventStore event) mapped False (webhookSource event) db of
                  (Inl e, db') \<Rightarrow> (Inl e, db')
                | (Inr (decision, signal), db') \<Rightarrow>
                    if decision = Reconcile
                    then reconcileItem env 2 (eventStore event) (itemWcId mapped) (itemParentId mapped)
                           (webhookSource event) db'
                    else (case itemParentId mapped of
                            Some parent \<Rightarrow>
                              if itemActive mapped then (Inr (signalList signal), db')
                              else map_prod (map_sum id (\<lambda>more. signalList signal @ more)) id
                                     (reconcileItem env 2 (eventStore event) parent None
                                       (webhookSource event) db')
                          | None \<Rightarrow> (Inr (signalList signal), db'))))"

section \<open>What a committed operation did\<close>

lemma clearAlertSources_simps [simp]:
  "itemRowId (clearAlertSources r) = itemRowId r" "itemTenantId (clearAlertSources r) = itemTenantId r"
  "itemStoreId (clearAlertSources r) = itemStoreId r" "rowWcItemId (clearAlertSources r) = rowWcItemId r"
  "rowModifiedAt (clearAlertSources r) = rowModifiedAt r"
  "incidentGeneration (clearAlertSources r) = incidentGeneration r"
  "alertClassification (clearAlertSources r) = alertClassification r"
  "rowDeletedAt (clearAlertSources r) = rowDeletedAt r" "rowFingerprint (clearAlertSources r) = rowFingerprint r"
  "rowWebhookReceivedAt (clearAlertSources r) = rowWebhookReceivedAt r"
  "lowAlertSource (clearAlertSources r) = None" "outAlertSource (clearAlertSources r) = None"
  by (simp_all add: clearAlertSources_def)

lemma nextIncident_simps [simp]:
  "itemRowId (fst (nextIncident e c src) r) = itemRowId r"
  "itemTenantId (fst (nextIncident e c src) r) = itemTenantId r"
  "itemStoreId (fst (nextIncident e c src) r) = itemStoreId r"
  "rowWcItemId (fst (nextIncident e c src) r) = rowWcItemId r"
  "rowModifiedAt (fst (nextIncident e c src) r) = rowModifiedAt r"
  "rowFingerprint (fst (nextIncident e c src) r) = rowFingerprint r"
  "rowDeletedAt (fst (nextIncident e c src) r) = rowDeletedAt r"
  "rowWebhookReceivedAt (fst (nextIncident e c src) r) = rowWebhookReceivedAt r"
  "alertClassification (fst (nextIncident e c src) r) = alertClassification r"
  by (simp_all add: nextIncident_def Let_def)

lemma nextIncident_generation:
  "incidentGeneration (fst (nextIncident e c src) r) =
     (if c \<noteq> HEALTHY \<and> alertClassification e \<noteq> c \<and> \<not> (alertClassification e = OUT_OF_STOCK \<and> c = LOW_STOCK)
      then (if alertClassification e = HEALTHY then incidentGeneration e + 1 else incidentGeneration e)
      else incidentGeneration r)"
  by (simp add: nextIncident_def Let_def)

lemma projectItemOnto_simps [simp]:
  "itemRowId (projectItemOnto p src now pd c (fst (nextIncident e c' src)) r) = itemRowId r"
  "itemTenantId (projectItemOnto p src now pd c (fst (nextIncident e c' src)) r) = itemTenantId r"
  "itemStoreId (projectItemOnto p src now pd c (fst (nextIncident e c' src)) r) = itemStoreId r"
  "rowWcItemId (projectItemOnto p src now pd c (fst (nextIncident e c' src)) r) = rowWcItemId r"
  "rowModifiedAt (projectItemOnto p src now pd c (fst (nextIncident e c' src)) r) = itemModifiedAt p"
  "rowFingerprint (projectItemOnto p src now pd c (fst (nextIncident e c' src)) r) = itemFingerprint p"
  "alertClassification (projectItemOnto p src now pd c (fst (nextIncident e c' src)) r) = c"
  "rowDeletedAt (projectItemOnto p src now pd c (fst (nextIncident e c' src)) r) =
     (if itemActive p then pd else Some (case webhookReceivedAt src of None \<Rightarrow> now | Some t \<Rightarrow> t))"
  by (simp_all add: projectItemOnto_def)

lemma createItem_Inr:
  "createItem row rows = Inr rows' \<longleftrightarrow> rows' = rows @ [row] \<and>
     (\<forall>r \<in> set rows. itemRowId r \<noteq> itemRowId row
        \<and> \<not> (itemStoreId r = itemStoreId row \<and> rowWcItemId r = rowWcItemId row))"
  by (auto simp: createItem_def list_ex_iff)

lemma newItemRow_simps [simp]:
  "itemRowId (newItemRow s p c src fresh now sg) = ''inv_'' @ fresh"
  "itemTenantId (newItemRow s p c src fresh now sg) = storeTenantId s"
  "itemStoreId (newItemRow s p c src fresh now sg) = storeId s"
  "rowWcItemId (newItemRow s p c src fresh now sg) = itemWcId p"
  "rowModifiedAt (newItemRow s p c src fresh now sg) = itemModifiedAt p"
  "rowFingerprint (newItemRow s p c src fresh now sg) = itemFingerprint p"
  "rowDeletedAt (newItemRow s p c src fresh now sg) = None"
  "alertClassification (newItemRow s p c src fresh now sg) = c"
  "incidentGeneration (newItemRow s p c src fresh now sg) = (if c = HEALTHY then 0 else 1)"
  "rowWebhookReceivedAt (newItemRow s p c src fresh now sg) = webhookReceivedAt src"
  by (simp_all add: newItemRow_def)

text \<open>The signal a creation starts, and the effective classification of an update.\<close>

definition createdSignal ::
  "InventoryAlertClassification \<Rightarrow> ProjectionSource \<Rightarrow> string \<Rightarrow> InventoryAlertSignal option" where
  "createdSignal c src fresh =
     (case (entryAlertLevel c, sourceId src) of
        (Some level, Some e) \<Rightarrow>
          if baseline src then None
          else Some \<lparr>signalItemId = ''inv_'' @ fresh, signalGeneration = (if c = HEALTHY then 0 else 1),
                     signalLevel = level, signalSource = e\<rparr>
      | _ \<Rightarrow> None)"

definition effectiveClassification ::
  "InventoryProjection \<Rightarrow> ProjectionSource \<Rightarrow> StoreSettings \<Rightarrow> ItemRow \<Rightarrow> InventoryAlertClassification" where
  "effectiveClassification p src settings r =
     (if (if clearDeletion src then None else rowDeletedAt r) \<noteq> None \<or> \<not> itemActive p then HEALTHY
      else classifyInventoryItem (itemManagesStock p) (itemQuantity p) (itemStockStatus p)
             (lowStockThreshold settings))"

lemma itemDecision_Apply:
  assumes "itemDecision p a src r = Apply"
  shows "rowModifiedAt r \<le> itemModifiedAt p \<or> (rowDeletedAt r \<noteq> None \<and> clearDeletion src \<and> a)"
  using assms inventory_decision.applied_not_older [of "rowModifiedAt r" "rowFingerprint r" "itemModifiedAt p"
      "itemFingerprint p" a]
  by (auto simp: itemDecision_def Let_def split: if_splits)

lemma applyToItem_Inr:
  assumes "applyToItem p a src now c r db = Inr ((d, sg), db')"
  obtains (kept) "d \<noteq> Apply" "sg = None \<or> (\<not> baseline src \<and> sg = replaySignal r src)" "db' = db"
  | (updated) eff where "eff = (if preservedDeletion src r \<noteq> None then HEALTHY else c)"
      "itemDecision p a src r = Apply" "d = Apply" "sg = snd (nextIncident r eff src)"
      "inventoryItems db' = snd (updateMany (optimisticItemWhere r)
         (projectItemOnto p src now (preservedDeletion src r) eff (fst (nextIncident r eff src)))
         (inventoryItems db))" "stores db' = stores db"
proof (cases "baseline src \<and> rowWebhookReceivedAt r \<noteq> None \<and> itemModifiedAt p \<le> rowModifiedAt r")
  case True
  note run = assms [unfolded applyToItem_def if_P [OF True]]
  then show ?thesis by (intro kept) auto
next
  case f: False
  note run = assms [unfolded applyToItem_def if_not_P [OF f]]
  show ?thesis
  proof (cases "itemDecision p a src r \<noteq> Apply")
    case True
    note run2 = run [unfolded if_P [OF True]]
    with True show ?thesis by (intro kept) (cases "baseline src"; auto)+
  next
    case False
    note run2 = run [unfolded if_not_P [OF False] Let_def]
    then have "d = Apply \<and> sg = snd (nextIncident r (if preservedDeletion src r \<noteq> None then HEALTHY else c) src)"
      and "db' = db\<lparr>inventoryItems := snd (updateMany (optimisticItemWhere r)
        (projectItemOnto p src now (preservedDeletion src r) (if preservedDeletion src r \<noteq> None then HEALTHY else c)
          (fst (nextIncident r (if preservedDeletion src r \<noteq> None then HEALTHY else c) src))) (inventoryItems db))\<rparr>"
      by (simp_all split: if_split_asm)
    with False show ?thesis by (intro updated [OF refl]) simp_all
  qed
qed

definition stockClass ::
  "InventoryProjection \<Rightarrow> StoreSettings \<Rightarrow> InventoryAlertClassification" where
  "stockClass p settings =
     (if itemActive p then classifyInventoryItem (itemManagesStock p) (itemQuantity p) (itemStockStatus p)
             (lowStockThreshold settings) else HEALTHY)"

lemma createFromProjection_Inr:
  assumes "createFromProjection s p src now fresh c db = Inr ((d, sg), db')"
  shows "if itemActive p then d = Apply \<and> sg = createdSignal c src fresh \<and>
        createItem (newItemRow s p c src fresh now sg) (inventoryItems db) = Inr (inventoryItems db')
        \<and> stores db' = stores db
    else d = Apply \<and> sg = None \<and> db' = db"
  using assms
  unfolding createFromProjection_def Let_def createdSignal_def [symmetric]
  by (auto split: sum.splits if_splits)

lemma applyItemOperation_cases:
  assumes "applyItemOperation env tx s p a src n db = Inr ((d, sg), db')"
  obtains
    (created) settings where "findSettings s (stores db) = Some settings"
      "findItem s (itemWcId p) (inventoryItems db) = None" "itemActive p"
      "d = Apply" "sg = createdSignal (stockClass p settings) src (invFreshId env tx n)"
      "createItem (newItemRow s p (stockClass p settings) src (invFreshId env tx n) (invClock env tx n) sg)
         (inventoryItems db) = Inr (inventoryItems db')" "stores db' = stores db"
  | (skipped) "findItem s (itemWcId p) (inventoryItems db) = None" "\<not> itemActive p" "d = Apply" "sg = None"
      "db' = db"
  | (kept) r where "findItem s (itemWcId p) (inventoryItems db) = Some r" "d \<noteq> Apply"
      "sg = None \<or> (\<not> baseline src \<and> sg = replaySignal r src)" "db' = db"
  | (updated) settings r eff where "findSettings s (stores db) = Some settings"
      "findItem s (itemWcId p) (inventoryItems db) = Some r"
      "eff = (if preservedDeletion src r \<noteq> None then HEALTHY else stockClass p settings)"
      "itemDecision p a src r = Apply" "d = Apply" "sg = snd (nextIncident r eff src)"
      "inventoryItems db' = snd (updateMany (optimisticItemWhere r)
         (projectItemOnto p src (invClock env tx n) (preservedDeletion src r) eff (fst (nextIncident r eff src)))
         (inventoryItems db))" "stores db' = stores db"
proof (cases "findSettings s (stores db)")
  case None
  with assms show ?thesis by (simp add: applyItemOperation_def)
next
  case st: (Some settings)
  note run = assms [unfolded applyItemOperation_def st option.case Let_def stockClass_def [symmetric]]
  show ?thesis
  proof (cases "findItem s (itemWcId p) (inventoryItems db)")
    case None
    with run have "createFromProjection s p src (invClock env tx n) (invFreshId env tx n)
        (stockClass p settings) db = Inr ((d, sg), db')" by simp
    from createFromProjection_Inr [OF this] None st created skipped show ?thesis
      by (cases "itemActive p") auto
  next
    case (Some r)
    with run have "applyToItem p a src (invClock env tx n) (stockClass p settings) r db = Inr ((d, sg), db')"
      by simp
    then show ?thesis
    proof (cases rule: applyToItem_Inr)
      case k: kept
      with Some kept show ?thesis by blast
    next
      case u: (updated eff)
      with Some st show ?thesis by (intro updated)
    qed
  qed
qed

section \<open>What every operation guarantees\<close>

text \<open>No item row disappears, changes its identity or loses an incident generation.\<close>

definition itemsAdvance :: "InventoryDb \<Rightarrow> InventoryDb \<Rightarrow> bool" where
  "itemsAdvance a b \<longleftrightarrow> (\<forall>r \<in> set (inventoryItems a). \<exists>r' \<in> set (inventoryItems b).
     itemRowId r' = itemRowId r \<and> itemTenantId r' = itemTenantId r \<and> itemStoreId r' = itemStoreId r
     \<and> rowWcItemId r' = rowWcItemId r \<and> incidentGeneration r \<le> incidentGeneration r')"

lemma itemsAdvance_refl: "itemsAdvance a a"
  by (auto simp: itemsAdvance_def)

lemma itemsAdvance_trans: "itemsAdvance a b \<Longrightarrow> itemsAdvance b c \<Longrightarrow> itemsAdvance a c"
  unfolding itemsAdvance_def by (metis order_trans)

lemma itemsAdvance_updateMany:
  assumes "inventoryItems b = snd (updateMany P f (inventoryItems a))"
    and "\<And>r. P r \<Longrightarrow> itemRowId (f r) = itemRowId r \<and> itemTenantId (f r) = itemTenantId r
      \<and> itemStoreId (f r) = itemStoreId r \<and> rowWcItemId (f r) = rowWcItemId r
      \<and> incidentGeneration r \<le> incidentGeneration (f r)"
  shows "itemsAdvance a b"
proof (unfold itemsAdvance_def, intro ballI)
  fix r
  assume "r \<in> set (inventoryItems a)"
  then have "(if P r then f r else r) \<in> set (inventoryItems b)"
    unfolding assms(1) by (auto simp: row_simps)
  then show "\<exists>r' \<in> set (inventoryItems b). itemRowId r' = itemRowId r \<and> itemTenantId r' = itemTenantId r
     \<and> itemStoreId r' = itemStoreId r \<and> rowWcItemId r' = rowWcItemId r
     \<and> incidentGeneration r \<le> incidentGeneration r'"
    by (rule rev_bexI) (cases "P r"; simp add: assms(2))
qed

lemma projectItemOnto_generation:
  "incidentGeneration (projectItemOnto p src now pd c (fst (nextIncident e c' src)) r) =
     incidentGeneration (fst (nextIncident e c' src) r)"
  by (simp add: projectItemOnto_def nextIncident_generation)

lemma applyItemOperation_advances:
  assumes "applyItemOperation env tx s p a src n db = Inr (r, db')"
  shows "itemsAdvance db db'"
proof -
  obtain d sg where "r = (d, sg)" by force
  with assms have "applyItemOperation env tx s p a src n db = Inr ((d, sg), db')" by simp
  then show ?thesis
  proof (cases rule: applyItemOperation_cases)
    case created
    then show ?thesis by (auto simp: createItem_Inr itemsAdvance_def)
  next
    case (updated settings r eff)
    from updated(7) show ?thesis
      by (rule itemsAdvance_updateMany)
        (simp add: projectItemOnto_generation nextIncident_generation optimisticItemWhere_def)
  qed (simp_all add: itemsAdvance_refl)
qed

interpretation item_advances: guaranteed "applyItemOperation env tx s p a src" itemsAdvance
  for env tx s p a src
  by unfold_locales (auto intro: itemsAdvance_refl itemsAdvance_trans applyItemOperation_advances)

lemma markItemDeleted_simps [simp]:
  "itemRowId (markItemDeleted ev now r) = itemRowId r"
  "itemTenantId (markItemDeleted ev now r) = itemTenantId r"
  "itemStoreId (markItemDeleted ev now r) = itemStoreId r"
  "rowWcItemId (markItemDeleted ev now r) = rowWcItemId r"
  "incidentGeneration (markItemDeleted ev now r) = incidentGeneration r"
  "alertClassification (markItemDeleted ev now r) = HEALTHY"
  "rowDeletedAt (markItemDeleted ev now r) = Some (eventReceivedAt ev)"
  "lowAlertSource (markItemDeleted ev now r) = None"
  "outAlertSource (markItemDeleted ev now r) = None"
  by (simp_all add: markItemDeleted_def)

text \<open>A relation every step respects is respected by the service.\<close>

definition othersKeepItems :: "InventoryEnv \<Rightarrow> (InventoryDb \<Rightarrow> InventoryDb \<Rightarrow> bool) \<Rightarrow> bool" where
  "othersKeepItems env rel \<longleftrightarrow>
     (\<forall>tx n db. rel db (interference (invAttemptOf env tx n) db)) \<and> (\<forall>db. rel db (invBetween env db))"

lemma inventory_service_rel:
  assumes refl: "\<And>a. rel a a" and trans: "\<And>a b c. rel a b \<Longrightarrow> rel b c \<Longrightarrow> rel a c"
    and between: "\<And>db. rel db (invBetween env db)"
    and appl: "\<And>tx p a src db v. mapWooCommerceInventoryItem (invSha env) v = Inr p \<Longrightarrow>
      rel db (snd (applyInventoryProjection env tx (eventStore event) p a src db))"
    and del: "\<And>i t db. rel db (db\<lparr>inventoryItems := snd (updateMany (deletionWhere event i t)
            (markItemDeleted event (invClock env 0 0)) (inventoryItems db))\<rparr>)"
  shows "rel db (snd (projectWebhook env event db))"
proof -
  let ?s = "eventStore event"
  have rec: "rel db (snd (reconcileItem env tx ?s i sp src db))" for tx i sp src db
  proof -
    have "rel (invBetween env db) (snd (reconcileItem env tx ?s i sp src db))"
      using refl appl by (auto simp: reconcileItem_def Let_def split: sum.splits)
    with between trans show ?thesis by blast
  qed
  have fail: "rel db (snd (reconcileItemMappingFailure env tx event e db))" for tx e db
    using refl rec by (auto simp: reconcileItemMappingFailure_def split: option.splits)
  have boot: "rel db (snd (projectBootstrapPayload env tx ?s v db))" for tx v db
    using refl appl by (auto simp: projectBootstrapPayload_def split: sum.splits)
  have delete: "rel db (snd (deleteItems env event i t db))" for i t db
    using trans [OF between del] by (simp add: deleteItems_def Let_def)
  have boot1: "rel db db'" if "projectBootstrapPayload env 1 ?s v db = (res, db')" for v db res db'
    using boot [of db 1 v] that by simp
  have deletion: "rel db (snd (projectItemDeletion env event db))"
    using refl boot1 delete
    by (auto simp: projectItemDeletion_def Let_def split: sum.splits FetchFailure.splits
        WooCommerceErrorCategory.splits prod.splits TransactionError.splits)
  show ?thesis
  proof (cases "mapWooCommerceInventoryItem (invSha env) (eventPayload event)")
    case (Inl e)
    with refl fail deletion show ?thesis by (simp add: projectWebhook_def)
  next
    case (Inr p)
    let ?a = "applyInventoryProjection env 1 ?s p False (webhookSource event) db"
    obtain o1 db1 where a: "?a = (o1, db1)" by force
    with appl [OF Inr, of db 1 False "webhookSource event"] have one: "rel db db1" by simp
    have two: "rel db (snd (reconcileItem env 2 ?s i sp src db1))" for i sp src
      using one rec trans by blast
    show ?thesis
    proof (cases o1)
      case (Inl e)
      with refl deletion Inr a one show ?thesis by (simp add: projectWebhook_def)
    next
      case o: (Inr r)
      with refl deletion Inr a one two show ?thesis
        by (cases r) (simp add: projectWebhook_def split: option.splits)
    qed
  qed
qed

text \<open>
  C14: whatever product webhook is projected, whatever the outcome, no item row is lost or changes its
  identity, and the generation of its stock incidents never decreases.
\<close>

theorem incident_generation_never_decreases:
  assumes "othersKeepItems env itemsAdvance"
  shows "itemsAdvance db (snd (projectWebhook env event db))"
proof (rule inventory_service_rel)
  show "itemsAdvance db (snd (applyInventoryProjection env tx (eventStore event) p a src db))" for tx p a src db
    using assms unfolding applyInventoryProjection_def
    by (intro item_advances.withProjectionTransaction_rel) (simp add: othersKeepItems_def)
  show "itemsAdvance db (db\<lparr>inventoryItems := snd (updateMany (deletionWhere event i t)
            (markItemDeleted event (invClock env 0 0)) (inventoryItems db))\<rparr>)" for i t db
    by (rule itemsAdvance_updateMany [where P = "deletionWhere event i t"
      and f = "markItemDeleted event (invClock env 0 0)"]) simp_all
  show "itemsAdvance db (invBetween env db)" for db using assms by (simp add: othersKeepItems_def)
qed (blast intro: itemsAdvance_refl itemsAdvance_trans)+

section \<open>Incidents are consistent\<close>

definition incidentOk :: "ItemRow \<Rightarrow> bool" where
  "incidentOk r \<longleftrightarrow>
     (alertClassification r = HEALTHY \<longrightarrow> lowAlertSource r = None \<and> outAlertSource r = None)
     \<and> (alertClassification r \<noteq> HEALTHY \<longrightarrow> 1 \<le> incidentGeneration r)
     \<and> (rowDeletedAt r \<noteq> None \<longrightarrow> alertClassification r = HEALTHY)"

definition itemTableOk :: "InventoryDb \<Rightarrow> bool" where
  "itemTableOk db \<longleftrightarrow> distinct (map itemRowId (inventoryItems db))
     \<and> distinct (map (\<lambda>r. (itemStoreId r, rowWcItemId r)) (inventoryItems db))
     \<and> (\<forall>r \<in> set (inventoryItems db). incidentOk r)"

lemma itemTableOk_updateMany:
  assumes ok: "itemTableOk a" and b: "inventoryItems b = snd (updateMany P f (inventoryItems a))"
    and same: "\<And>r. itemRowId (f r) = itemRowId r \<and> itemStoreId (f r) = itemStoreId r
      \<and> rowWcItemId (f r) = rowWcItemId r"
    and new: "\<And>r. r \<in> set (inventoryItems a) \<Longrightarrow> P r \<Longrightarrow> incidentOk (f r)"
  shows "itemTableOk b"
proof -
  have ids: "map itemRowId (inventoryItems b) = map itemRowId (inventoryItems a)"
    "map (\<lambda>r. (itemStoreId r, rowWcItemId r)) (inventoryItems b)
       = map (\<lambda>r. (itemStoreId r, rowWcItemId r)) (inventoryItems a)"
    unfolding b by (simp_all add: updateMany_rows same)
  have "incidentOk r'" if "r' \<in> set (inventoryItems b)" for r'
    using that ok new unfolding b updateMany_rows itemTableOk_def by auto
  with ok show ?thesis unfolding itemTableOk_def ids by blast
qed

lemma findItem_Some:
  assumes "findItem s i rows = Some r"
  shows "r \<in> set rows \<and> itemKey s i r \<and> rowWcItemId r = i"
  using findFirst_Some [OF assms [unfolded findItem_def]] by (simp add: itemKey_def)

lemma same_item:
  assumes "itemTableOk db" "findItem s i (inventoryItems db) = Some r" "r' \<in> set (inventoryItems db)"
    and "optimisticItemWhere r r'"
  shows "r' = r"
proof -
  have "distinct (map itemRowId (inventoryItems db))" using assms(1) by (simp add: itemTableOk_def)
  from distinct_key_eq [OF this assms(3)] findItem_Some [OF assms(2)] assms(4)
  show ?thesis by (simp add: optimisticItemWhere_def)
qed

lemma nextIncident_sources:
  assumes "incidentOk r" and "r' = fst (nextIncident r c src) (r\<lparr>alertClassification := c, rowDeletedAt := t\<rparr>)"
    and "t \<noteq> None \<longrightarrow> c = HEALTHY"
  shows "incidentOk r'"
  using assms(1,3) unfolding assms(2) incidentOk_def
  by (cases c; cases "alertClassification r")
    (auto simp: nextIncident_def Let_def clearAlertSources_def)

lemma projectItemOnto_ok:
  assumes "incidentOk r" and "(if itemActive p then pd else Some t) \<noteq> None \<longrightarrow> c = HEALTHY"
    and "t = (case webhookReceivedAt src of None \<Rightarrow> now | Some t \<Rightarrow> t)"
  shows "incidentOk (projectItemOnto p src now pd c (fst (nextIncident r c src)) r)"
proof -
  let ?d = "if itemActive p then pd else Some t"
  have "incidentOk (fst (nextIncident r c src) (r\<lparr>alertClassification := c, rowDeletedAt := ?d\<rparr>))"
    using nextIncident_sources [OF assms(1) refl assms(2)] .
  then show ?thesis
    using assms(3)
    by (cases c; cases "alertClassification r"; cases "itemActive p")
      (auto simp: incidentOk_def projectItemOnto_def nextIncident_def Let_def clearAlertSources_def)
qed

lemma newItemRow_incidentOk:
  assumes "sg = createdSignal c src fresh"
  shows "incidentOk (newItemRow s p c src f now sg)"
  using assms
  by (cases c) (auto simp: incidentOk_def newItemRow_def createdSignal_def entryAlertLevel_def split: option.splits)

lemma applyItemOperation_ok:
  assumes run: "applyItemOperation env tx s p a src n db = Inr (res, db')" and ok: "itemTableOk db"
  shows "itemTableOk db'"
proof -
  obtain d sg where "res = (d, sg)" by force
  with run have "applyItemOperation env tx s p a src n db = Inr ((d, sg), db')" by simp
  then show ?thesis
  proof (cases rule: applyItemOperation_cases)
    case (created settings)
    from newItemRow_incidentOk [OF created(5)] created(6) ok show ?thesis
      by (auto simp: createItem_Inr itemTableOk_def image_iff)
  next
    case (updated settings r eff)
    have "incidentOk r" using findItem_Some [OF updated(2)] ok by (simp add: itemTableOk_def)
    then have new: "incidentOk (projectItemOnto p src (invClock env tx n) (preservedDeletion src r) eff
        (fst (nextIncident r eff src)) r)"
      by (rule projectItemOnto_ok [OF _ _ refl]) (auto simp: updated(3) stockClass_def)
    show ?thesis
      by (rule itemTableOk_updateMany [OF ok updated(7)])
        (use new in \<open>auto dest: same_item [OF ok updated(2)]\<close>)
  qed (use ok in simp_all)
qed

definition keepsItemsOk :: "InventoryDb \<Rightarrow> InventoryDb \<Rightarrow> bool" where
  "keepsItemsOk a b \<longleftrightarrow> (itemTableOk a \<longrightarrow> itemTableOk b)"

interpretation item_ok: guaranteed "applyItemOperation env tx s p a src" keepsItemsOk
  for env tx s p a src
  by unfold_locales (auto simp: keepsItemsOk_def dest: applyItemOperation_ok)

text \<open>
  C7: every product webhook, deletions included, keeps the items table consistent: ids and (store,
  item) pairs stay unique, a healthy item carries no alert source, an item in an incident has a
  generation, and a deleted item is healthy.
\<close>

theorem incidents_stay_consistent:
  assumes "othersKeepItems env keepsItemsOk" and "itemTableOk db"
  shows "itemTableOk (snd (projectWebhook env event db))"
proof -
  have "keepsItemsOk db (snd (projectWebhook env event db))"
  proof (rule inventory_service_rel)
    show "keepsItemsOk db (snd (applyInventoryProjection env tx (eventStore event) p a src db))" for tx p a src db
      using assms(1) unfolding applyInventoryProjection_def
      by (intro item_ok.withProjectionTransaction_rel) (simp add: othersKeepItems_def)
    show "keepsItemsOk db (db\<lparr>inventoryItems := snd (updateMany (deletionWhere event i t)
            (markItemDeleted event (invClock env 0 0)) (inventoryItems db))\<rparr>)" for i t db
      unfolding keepsItemsOk_def
    proof
      assume ok: "itemTableOk db"
      show "itemTableOk (db\<lparr>inventoryItems := snd (updateMany (deletionWhere event i t)
            (markItemDeleted event (invClock env 0 0)) (inventoryItems db))\<rparr>)"
        by (rule itemTableOk_updateMany [OF ok, where P = "deletionWhere event i t"
              and f = "markItemDeleted event (invClock env 0 0)"]) (simp_all add: incidentOk_def)
    qed
    show "keepsItemsOk db (invBetween env db)" for db using assms(1) by (simp add: othersKeepItems_def)
  qed (auto simp: keepsItemsOk_def)
  with assms(2) show ?thesis by (simp add: keepsItemsOk_def)
qed

section \<open>Alert signals\<close>

definition alertSourceAt :: "InventoryAlertLevel \<Rightarrow> ItemRow \<Rightarrow> string option" where
  "alertSourceAt level r = (case level of LOW_ALERT \<Rightarrow> lowAlertSource r | OUT_ALERT \<Rightarrow> outAlertSource r)"

definition signalRecorded :: "InventoryAlertSignal \<Rightarrow> ItemRow \<Rightarrow> bool" where
  "signalRecorded sg r \<longleftrightarrow> itemRowId r = signalItemId sg \<and> incidentGeneration r = signalGeneration sg
     \<and> alertSourceAt (signalLevel sg) r = Some (signalSource sg)"

lemma sourceId_Some: "sourceId src = Some e \<Longrightarrow> sourceWebhookEventId src = Some e"
  by (auto simp: sourceId_def split: option.splits list.splits)

lemma replaySignal_Some:
  assumes "replaySignal r src = Some sg"
  shows "sourceId src = Some (signalSource sg) \<and> signalRecorded sg r"
  using assms
  by (auto simp: replaySignal_def signalRecorded_def alertSourceAt_def split: option.splits if_splits)

lemma createdSignal_Some:
  assumes "createdSignal c src fresh = Some sg"
  shows "\<not> baseline src \<and> sourceId src = Some (signalSource sg)
    \<and> signalRecorded sg (newItemRow s p c src fresh now (Some sg))"
  using assms
  by (cases c) (auto simp: createdSignal_def signalRecorded_def alertSourceAt_def entryAlertLevel_def
      newItemRow_def sourceId_Some split: option.splits if_splits)

lemma nextIncident_signal:
  assumes "snd (nextIncident r c src) = Some sg" and "incidentGeneration r' = incidentGeneration r"
    and "itemRowId r' = itemRowId r"
    and "lowAlertSource r' = lowAlertSource r" "outAlertSource r' = outAlertSource r"
  shows "\<not> baseline src \<and> sourceId src = Some (signalSource sg)
    \<and> signalRecorded sg (fst (nextIncident r c src) r')"
proof (cases "alertClassification r = c")
  case True
  with assms have c: "c \<noteq> HEALTHY" "\<not> baseline src" "replaySignal r src = Some sg"
    by (auto simp: nextIncident_def split: if_splits)
  then have "fst (nextIncident r c src) r' = r'" using True by (simp add: nextIncident_def)
  moreover have "signalRecorded sg r'"
    using replaySignal_Some [OF c(3)] assms(2-)
    by (cases "signalLevel sg") (auto simp: signalRecorded_def alertSourceAt_def)
  ultimately show ?thesis using c(2) replaySignal_Some [OF c(3)] by simp
next
  case False
  with assms show ?thesis
    by (cases c; cases "alertClassification r")
      (auto simp: nextIncident_def Let_def startedSignal_def signalRecorded_def alertSourceAt_def
        entryAlertLevel_def split: option.splits if_splits)
qed

lemma projectItemOnto_recorded:
  assumes "snd (nextIncident r c src) = Some sg"
  shows "\<not> baseline src \<and> sourceId src = Some (signalSource sg)
    \<and> signalRecorded sg (projectItemOnto p src now pd c (fst (nextIncident r c src)) r)"
  unfolding projectItemOnto_def
  by (rule nextIncident_signal [OF assms]) simp_all

lemma applyItemOperation_signal:
  assumes "applyItemOperation env tx s p a src n db = Inr ((d, Some sg), db')"
  shows "\<not> baseline src \<and> sourceId src = Some (signalSource sg)
    \<and> (\<exists>r \<in> set (inventoryItems db'). signalRecorded sg r)"
  using assms
proof (cases rule: applyItemOperation_cases)
  case (created settings)
  from createdSignal_Some [OF created(5) [symmetric]] created(6) show ?thesis
    by (fastforce simp: createItem_Inr)
next
  case (kept r)
  with replaySignal_Some [of r src sg] findItem_Some [OF kept(1)] show ?thesis by auto
next
  case (updated settings r eff)
  let ?f = "projectItemOnto p src (invClock env tx n) (preservedDeletion src r) eff (fst (nextIncident r eff src))"
  have "?f r \<in> set (inventoryItems db')"
    unfolding updated(7) updateMany_rows using findItem_Some [OF updated(2)]
    by (auto simp: optimisticItemWhere_def image_iff)
  with projectItemOnto_recorded [OF updated(6) [symmetric]] show ?thesis by blast
qed simp

text \<open>
  C8: an alert signal is only emitted for an incident that is on record: it never comes from the
  bootstrap baseline, it carries the id of the webhook being projected, and the database holds the
  item with the signal's generation and with that webhook as the recorded source of that alert level.
\<close>

theorem signal_is_recorded:
  assumes "applyInventoryProjection env tx s p a src db = (Inr (d, Some sg), db')"
  shows "\<not> baseline src \<and> sourceWebhookEventId src = Some (signalSource sg)
    \<and> (\<exists>r \<in> set (inventoryItems db'). signalRecorded sg r)"
  using transactionLoop_Inr [OF assms [unfolded applyInventoryProjection_def withProjectionTransaction_def]]
    applyItemOperation_signal sourceId_Some by blast

text \<open>A healthy or absent item starts an incident once; another webhook that finds it in the same state is silent.\<close>

lemma nextIncident_fresh:
  assumes "sourceId src = Some e" "lowAlertSource r \<noteq> Some e" "outAlertSource r \<noteq> Some e"
    and "snd (nextIncident r c src) = Some sg"
  shows "(alertClassification r = HEALTHY \<and> signalGeneration sg = incidentGeneration r + 1)
    \<or> (alertClassification r = LOW_STOCK \<and> c = OUT_OF_STOCK \<and> signalGeneration sg = incidentGeneration r)"
  using assms
  by (cases c; cases "alertClassification r")
    (auto simp: nextIncident_def Let_def startedSignal_def replaySignal_def entryAlertLevel_def
      split: option.splits if_splits)

section \<open>Redelivery\<close>

lemma updateMany_optimisticItem:
  assumes "itemTableOk db" and "findItem s i (inventoryItems db) = Some r"
  shows "updateMany (optimisticItemWhere r) f (inventoryItems db)
    = (1, map (\<lambda>x. if x = r then f r else x) (inventoryItems db))"
proof -
  have d: "distinct (map itemRowId (inventoryItems db))" using assms(1) by (simp add: itemTableOk_def)
  have "filter (optimisticItemWhere r) (inventoryItems db) = [r]"
    by (rule filter_single_key [OF d]) (use findItem_Some [OF assms(2)] in
      \<open>auto simp: optimisticItemWhere_def\<close>)
  moreover have "map (\<lambda>x. if optimisticItemWhere r x then f x else x) (inventoryItems db)
      = map (\<lambda>x. if x = r then f r else x) (inventoryItems db)"
    by (intro map_cong refl) (auto simp: optimisticItemWhere_def dest: same_item [OF assms])
  ultimately show ?thesis by (simp add: updateMany_def)
qed

lemma findItem_replaced:
  assumes "findItem s i rows = Some r" and "itemKey s i r'"
  shows "findItem s i (map (\<lambda>x. if x = r then r' else x) rows) = Some r'"
proof -
  have "itemKey s i (if x = r then r' else x) \<longleftrightarrow> itemKey s i x" for x
    using findItem_Some [OF assms(1)] assms(2) by simp
  then show ?thesis
    using assms(1) unfolding findItem_def findFirst_map by simp
qed

text \<open>A row that already carries the candidate answers with a no-op and the replayed signal.\<close>

lemma applyItemOperation_replay:
  assumes "findSettings s (stores db) = Some settings"
    and "findItem s (itemWcId p) (inventoryItems db) = Some r"
    and "rowModifiedAt r = itemModifiedAt p" "rowFingerprint r = itemFingerprint p"
    and "clearDeletion src \<longrightarrow> rowDeletedAt r = None" "\<not> baseline src"
  shows "applyItemOperation env tx s p a src n db = Inr ((Noop, replaySignal r src), db)"
  using assms by (auto simp: applyItemOperation_def Let_def applyToItem_def itemDecision_def
      inventory_decision.replay)

lemma replaySignal_created:
  assumes "sourceId src = Some e" "\<not> baseline src"
  shows "replaySignal (newItemRow s p c src fresh now (createdSignal c src fresh)) src = createdSignal c src fresh"
  using assms sourceId_Some [OF assms(1)]
  by (cases c) (simp_all add: replaySignal_def createdSignal_def newItemRow_def entryAlertLevel_def)

lemma replaySignal_updated:
  assumes "sourceId src = Some e" "\<not> baseline src" "lowAlertSource r \<noteq> Some e" "outAlertSource r \<noteq> Some e"
  shows "replaySignal (projectItemOnto p src now pd c (fst (nextIncident r c src)) r) src
    = snd (nextIncident r c src)"
  using assms
  by (cases c; cases "alertClassification r")
    (simp_all add: replaySignal_def projectItemOnto_def nextIncident_def Let_def startedSignal_def
      entryAlertLevel_def clearAlertSources_def)

definition undisturbedItems :: "InventoryEnv \<Rightarrow> bool" where
  "undisturbedItems env \<longleftrightarrow> invAttemptOf env = (\<lambda>tx. quiet) \<and> invBetween env = (\<lambda>db. db)"

lemma applyInventoryProjection_quiet:
  assumes "undisturbedItems env" and "applyItemOperation env tx s p a src 1 db = Inr (x, db')"
  shows "applyInventoryProjection env tx s p a src db = (Inr x, db')"
  using withProjectionTransaction_quiet_Inr [of "applyItemOperation env tx s p a src", OF assms(2)] assms(1)
  by (simp add: applyInventoryProjection_def undisturbedItems_def)

lemma applyItemOperation_kept_again:
  assumes "applyItemOperation env tx s p a src n db = Inr ((d, sg), db')" and "d \<noteq> Apply"
  shows "applyItemOperation env' tx' s p a src m db = Inr ((d, sg), db)"
proof -
  obtain settings where st: "findSettings s (stores db) = Some settings"
    using assms(1) by (auto simp: applyItemOperation_def split: option.splits)
  obtain r where r: "findItem s (itemWcId p) (inventoryItems db) = Some r"
    using assms by (cases rule: applyItemOperation_cases) auto
  show ?thesis
    using assms unfolding applyItemOperation_def st r option.case Let_def applyToItem_def
    by (auto split: if_splits)
qed

text \<open>
  A row that carries an item and answers the webhook \<open>src\<close> with the signal \<open>sg\<close>; and what a committed
  application leaves behind when the webhook is not yet a source of the item's alerts: such a row, or the
  database as it was and no signal.
\<close>

definition carriesItem :: "InventoryProjection \<Rightarrow> ProjectionSource \<Rightarrow> InventoryAlertSignal option \<Rightarrow> ItemRow \<Rightarrow> bool" where
  "carriesItem p src sg r \<longleftrightarrow> rowModifiedAt r = itemModifiedAt p \<and> rowFingerprint r = itemFingerprint p
     \<and> rowParentId r = itemParentId p \<and> (clearDeletion src \<longrightarrow> rowDeletedAt r = None) \<and> replaySignal r src = sg"

definition freshSource :: "ProjectableStore \<Rightarrow> string \<Rightarrow> string \<Rightarrow> InventoryDb \<Rightarrow> bool" where
  "freshSource s i e db \<longleftrightarrow> (\<forall>r. findItem s i (inventoryItems db) = Some r \<longrightarrow>
     lowAlertSource r \<noteq> Some e \<and> outAlertSource r \<noteq> Some e)"

lemma applied_item_carried:
  assumes env: "undisturbedItems env" and ok: "itemTableOk db" and p: "itemActive p"
    and src: "\<not> baseline src" "sourceId src = Some e" and fresh: "freshSource s (itemWcId p) e db"
    and run: "applyInventoryProjection env tx s p a src db = (Inr (d, sg), db')"
  shows "if d = Apply
    then (\<exists>r settings. findItem s (itemWcId p) (inventoryItems db') = Some r \<and> carriesItem p src sg r
      \<and> findSettings s (stores db') = Some settings)
    else db' = db \<and> sg = None \<and> (\<forall>env' tx' m. applyItemOperation env' tx' s p a src m db = Inr ((d, sg), db))"
proof -
  from run env transactionLoop_quiet_state obtain n where
    op: "applyItemOperation env tx s p a src n db = Inr ((d, sg), db')"
    unfolding applyInventoryProjection_def withProjectionTransaction_def undisturbedItems_def by metis
  then show ?thesis
  proof (cases rule: applyItemOperation_cases)
    case (created settings)
    let ?r = "newItemRow s p (stockClass p settings) src (invFreshId env tx n) (invClock env tx n) sg"
    have "findItem s (itemWcId p) (inventoryItems db') = Some ?r"
      using created(2,6) by (auto simp: createItem_Inr findItem_def findFirst_append itemKey_def)
    moreover have "replaySignal ?r src = sg"
      unfolding created(5) by (rule replaySignal_created [OF src(2,1)])
    moreover have "rowParentId ?r = itemParentId p" by (simp add: newItemRow_def)
    ultimately show ?thesis using created(1,4,7) by (simp add: carriesItem_def)
  next
    case (updated settings r eff)
    let ?r = "projectItemOnto p src (invClock env tx n) (preservedDeletion src r) eff (fst (nextIncident r eff src)) r"
    have "findItem s (itemWcId p) (inventoryItems db') = Some ?r"
      unfolding updated(7) updateMany_optimisticItem [OF ok updated(2)] snd_conv
      using findItem_Some [OF updated(2)] by (intro findItem_replaced [OF updated(2)]) (simp add: itemKey_def)
    moreover have "replaySignal ?r src = sg"
      unfolding updated(6) using fresh updated(2) by (intro replaySignal_updated [OF src(2,1)]) (simp_all add: freshSource_def)
    moreover have "clearDeletion src \<longrightarrow> rowDeletedAt ?r = None" using p by (simp add: preservedDeletion_def)
    moreover have "rowParentId ?r = itemParentId p"
      by (auto simp: projectItemOnto_def nextIncident_def Let_def clearAlertSources_def)
    ultimately show ?thesis using updated(1,5,8) by (simp add: carriesItem_def)
  next
    case (kept r)
    then have "sg = None" using fresh src(2) by (auto simp: replaySignal_def freshSource_def)
    with kept applyItemOperation_kept_again [OF op] show ?thesis by auto
  qed (use p in simp_all)
qed

text \<open>A webhook or a read that is not newer than what the row carries changes nothing and replays the signal.\<close>

lemma carried_item_replays:
  assumes "findSettings s (stores db) = Some settings" and "findItem s (itemWcId p) (inventoryItems db) = Some r"
    and "carriesItem q src sg r" and "itemModifiedAt p \<le> itemModifiedAt q" and "\<not> baseline src"
  shows "\<exists>d. applyItemOperation env tx s p False src n db = Inr ((d, sg), db) \<and> d \<noteq> Apply
    \<and> (d = Reconcile \<longrightarrow> itemModifiedAt p = itemModifiedAt q)"
proof -
  have "itemDecision p False src r \<in> {Noop, Reconcile}"
    and "itemDecision p False src r = Reconcile \<longrightarrow> itemModifiedAt p = itemModifiedAt q"
    using assms(3,4) by (auto simp: itemDecision_def carriesItem_def decideInventoryProjection_def Let_def)
  with assms show ?thesis
    by (auto simp: applyItemOperation_def Let_def applyToItem_def carriesItem_def)
qed

text \<open>
  The order of an item's reads: what the shop answered to a read of the first run, it answers again to the
  second, be the item read as a product or as a variation of its parent.
\<close>

definition sameReads :: "InventoryEnv \<Rightarrow> InventoryEnv \<Rightarrow> ProjectableStore \<Rightarrow> string \<Rightarrow> bool" where
  "sameReads env env' s i \<longleftrightarrow> (\<forall>parent v q. fetchItem env s parent i = Inr v
     \<and> mapWooCommerceInventoryItem (invSha env) v = Inr q \<longrightarrow>
       itemActive q \<and> (\<forall>parent' \<in> {parent, itemParentId q}. \<exists>v'. fetchItem env' s parent' i = Inr v'
         \<and> mapWooCommerceInventoryItem (invSha env') v' = Inr q))"

lemma reconcileItem_Inr:
  assumes "undisturbedItems env" and "reconcileItem env tx s i sp src db = (Inr sigs, db')"
  obtains parent v q d sg where
    "parent = (case sp of Some x \<Rightarrow> Some x | None \<Rightarrow> Option.bind (findItem s i (inventoryItems db)) rowParentId)"
    "fetchItem env s parent i = Inr v" "mapWooCommerceInventoryItem (invSha env) v = Inr q" "itemWcId q = i"
    "parent \<noteq> None \<longrightarrow> itemParentId q = parent"
    "applyInventoryProjection env tx s q True src db = (Inr (d, sg), db')" "sigs = signalList sg"
  using assms
  by (auto simp: reconcileItem_def undisturbedItems_def Let_def map_prod_def map_sum_def
      split: sum.splits if_splits prod.splits)

lemma reconcileItem_run:
  assumes "undisturbedItems env"
    and "parent = (case sp of Some x \<Rightarrow> Some x | None \<Rightarrow> Option.bind (findItem s i (inventoryItems db)) rowParentId)"
    and "fetchItem env s parent i = Inr v" "mapWooCommerceInventoryItem (invSha env) v = Inr q" "itemWcId q = i"
    and "parent \<noteq> None \<longrightarrow> itemParentId q = parent"
    and "applyItemOperation env tx s q True src 1 db = Inr ((d, sg), db')"
  shows "reconcileItem env tx s i sp src db = (Inr (signalList sg), db')"
  using assms applyInventoryProjection_quiet [OF assms(1,7)]
  by (auto simp: reconcileItem_def undisturbedItems_def Let_def)

lemma reconcileItem_again:
  assumes env: "undisturbedItems env" "undisturbedItems env'" and ok: "itemTableOk db"
    and src: "\<not> baseline src" "sourceId src = Some e" and fresh: "freshSource s i e db"
    and reads: "sameReads env env' s i"
    and run: "reconcileItem env tx s i sp src db = (Inr sigs, db')"
  shows "reconcileItem env' tx' s i sp src db' = (Inr sigs, db')
    \<and> (db' = db \<and> sigs = [] \<or> (\<exists>parent v q r sg settings. fetchItem env s parent i = Inr v
        \<and> mapWooCommerceInventoryItem (invSha env) v = Inr q \<and> itemWcId q = i
        \<and> findItem s i (inventoryItems db') = Some r \<and> carriesItem q src sg r \<and> sigs = signalList sg
        \<and> findSettings s (stores db') = Some settings))"
proof -
  from reconcileItem_Inr [OF env(1) run] obtain parent v q d sg where
    parent: "parent = (case sp of Some x \<Rightarrow> Some x | None \<Rightarrow> Option.bind (findItem s i (inventoryItems db)) rowParentId)"
    and v: "fetchItem env s parent i = Inr v" and q: "mapWooCommerceInventoryItem (invSha env) v = Inr q" "itemWcId q = i"
    and same: "parent \<noteq> None \<longrightarrow> itemParentId q = parent"
    and app: "applyInventoryProjection env tx s q True src db = (Inr (d, sg), db')" and sigs: "sigs = signalList sg"
    by metis
  from reads v q(1) have active: "itemActive q"
    and again: "\<And>parent'. parent' \<in> {parent, itemParentId q} \<Longrightarrow> \<exists>v'. fetchItem env' s parent' i = Inr v'
      \<and> mapWooCommerceInventoryItem (invSha env') v' = Inr q" by (auto simp: sameReads_def)
  note left = applied_item_carried [OF env(1) ok active src fresh [folded q(2)] app, unfolded q(2)]
  show ?thesis
  proof (cases "d = Apply")
    case True
    with left obtain r settings where r: "findItem s i (inventoryItems db') = Some r" "carriesItem q src sg r"
      and st: "findSettings s (stores db') = Some settings" by auto
    define parent' where "parent' = (case sp of Some x \<Rightarrow> Some x
      | None \<Rightarrow> Option.bind (findItem s i (inventoryItems db')) rowParentId)"
    have parent'_cases: "parent' = parent \<and> sp \<noteq> None \<or> parent' = itemParentId q"
      using r parent by (cases sp) (auto simp: parent'_def carriesItem_def)
    then obtain v' where v': "fetchItem env' s parent' i = Inr v'" "mapWooCommerceInventoryItem (invSha env') v' = Inr q"
      using again by blast
    have "applyItemOperation env' tx' s q True src 1 db' = Inr ((Noop, sg), db')"
      using applyItemOperation_replay [OF st, of q r src env' tx' True 1] r q(2) src(1) by (simp add: carriesItem_def)
    moreover have "parent' \<noteq> None \<longrightarrow> itemParentId q = parent'" using parent'_cases same by auto
    ultimately have "reconcileItem env' tx' s i sp src db' = (Inr sigs, db')"
      unfolding sigs by (intro reconcileItem_run [OF env(2) parent'_def v' q(2)])
    with sigs r st v q show ?thesis by blast
  next
    case False
    with left have kept: "db' = db" "sg = None" "applyItemOperation env' tx' s q True src 1 db = Inr ((d, sg), db)" by auto
    from again obtain v' where v': "fetchItem env' s parent i = Inr v'" "mapWooCommerceInventoryItem (invSha env') v' = Inr q"
      by blast
    from reconcileItem_run [OF env(2) parent v' q(2) same kept(3)] kept(1,2) sigs show ?thesis
      by (simp add: signalList_def)
  qed
qed

text \<open>The item a webhook's payload names, whether or not the payload maps.\<close>

definition namesItem :: "(string \<Rightarrow> string) \<Rightarrow> json \<Rightarrow> string \<Rightarrow> bool" where
  "namesItem sha v i \<longleftrightarrow> (case mapWooCommerceInventoryItem sha v of
     Inr p \<Rightarrow> i = itemWcId p | Inl x \<Rightarrow> errItemId x = Some i)"

lemma redelivered_mapped:
  assumes env: "undisturbedItems env" "undisturbedItems env'" "invSha env' = invSha env" and ok: "itemTableOk db"
    and topic: "eventTopic event \<in> {''product.created'', ''product.updated'', ''product.restored''}"
    and e: "eventId event \<noteq> []" and p: "mapWooCommerceInventoryItem (invSha env) (eventPayload event) = Inr p" "itemActive p"
    and fresh: "freshSource (eventStore event) (itemWcId p) (eventId event) db"
    and reads: "sameReads env env' (eventStore event) (itemWcId p)"
    and newer: "\<And>parent v q. fetchItem env (eventStore event) parent (itemWcId p) = Inr v \<Longrightarrow>
      mapWooCommerceInventoryItem (invSha env) v = Inr q \<Longrightarrow> itemModifiedAt p \<le> itemModifiedAt q"
    and run: "projectWebhook env event db = (Inr sigs, db')"
  shows "projectWebhook env' event db' = (Inr sigs, db')"
proof -
  let ?s = "eventStore event" and ?src = "webhookSource event" and ?i = "itemWcId p"
  have src: "\<not> baseline ?src" "sourceId ?src = Some (eventId event)"
    using e by (auto simp: webhookSource_def sourceId_def split: list.splits)
  have service: "projectWebhook env1 event db1 =
      (case applyInventoryProjection env1 1 ?s p False ?src db1 of
         (Inl x, db2) \<Rightarrow> (Inl x, db2)
       | (Inr (d, sg), db2) \<Rightarrow> if d = Reconcile then reconcileItem env1 2 ?s ?i (itemParentId p) ?src db2
           else (Inr (signalList sg), db2))"
    if "invSha env1 = invSha env" for env1 db1
    using topic p that by (auto simp: projectWebhook_def PRODUCT_TOPICS_def Let_def
        split: prod.splits sum.splits option.splits)
  obtain d sg db1 where app: "applyInventoryProjection env 1 ?s p False ?src db = (Inr (d, sg), db1)"
    using run unfolding service [OF refl] by (auto split: prod.splits sum.splits)
  note left = applied_item_carried [OF env(1) ok p(2) src fresh app]
  have second: "projectWebhook env' event db2 = (if d2 = Reconcile then reconcileItem env' 2 ?s ?i (itemParentId p) ?src db2
      else (Inr (signalList sg2), db2))"
    if "applyItemOperation env' 1 ?s p False ?src 1 db2 = Inr ((d2, sg2), db2)" for d2 sg2 db2
    unfolding service [OF env(3)] applyInventoryProjection_quiet [OF env(2) that] by simp
  show ?thesis
  proof (cases "d = Reconcile")
    case False
    with run app have out: "sigs = signalList sg" "db' = db1" unfolding service [OF refl] by simp_all
    show ?thesis
    proof (cases "d = Apply")
      case True
      with left obtain r settings where r: "findItem ?s ?i (inventoryItems db1) = Some r" "carriesItem p ?src sg r"
        and st: "findSettings ?s (stores db1) = Some settings" by auto
      have "applyItemOperation env' 1 ?s p False ?src 1 db1 = Inr ((Noop, sg), db1)"
        using applyItemOperation_replay [OF st r(1), of ?src env' 1 False 1] r(2) src(1) by (simp add: carriesItem_def)
      with second out show ?thesis by simp
    next
      case False
      with left have "db1 = db" "applyItemOperation env' 1 ?s p False ?src 1 db = Inr ((d, sg), db)" by auto
      with second out \<open>d \<noteq> Reconcile\<close> show ?thesis by simp
    qed
  next
    case True
    with left have kept: "db1 = db" "applyItemOperation env' 1 ?s p False ?src 1 db = Inr ((d, sg), db)" by auto
    from run app True kept(1) have rec: "reconcileItem env 2 ?s ?i (itemParentId p) ?src db = (Inr sigs, db')"
      unfolding service [OF refl] by simp
    note again = reconcileItem_again [OF env(1,2) ok src fresh reads rec, of 2]
    show ?thesis
    proof (cases "db' = db")
      case True
      with second [OF kept(2)] \<open>d = Reconcile\<close> again show ?thesis by simp
    next
      case False
      with again obtain parent v q r sg' settings where q: "fetchItem env ?s parent ?i = Inr v"
        "mapWooCommerceInventoryItem (invSha env) v = Inr q"
        and r: "findItem ?s ?i (inventoryItems db') = Some r" "carriesItem q ?src sg' r" "sigs = signalList sg'"
        and st: "findSettings ?s (stores db') = Some settings" by blast
      from carried_item_replays [OF st r(1,2) newer [OF q] src(1), of env' 1 1] obtain d2 where
        "applyItemOperation env' 1 ?s p False ?src 1 db' = Inr ((d2, sg'), db')" by blast
      from second [OF this] r(3) again show ?thesis by simp
    qed
  qed
qed

text \<open>
  C4: delivering a creation, update or restoration webhook of a product again changes nothing and loses no
  alert: after an undisturbed projection of an active item, applied directly or through the
  reconciliation with the shop, projecting the same webhook once more leaves the database as it is and returns
  the very signals the first projection returned, so a crash before the alert was queued is repaired by the
  redelivery. The webhook is new (not yet a source of the item's alerts), the shop shows the item no older
  than the webhook and the same to both projections. Deletion webhooks and items taken off sale start
  no alert and are not part of the claim: a repeated deletion writes the synchronisation time again.
\<close>

theorem redelivery_repeats_the_alert:
  assumes env: "undisturbedItems env" "undisturbedItems env'" "invSha env' = invSha env" and ok: "itemTableOk db"
    and topic: "eventTopic event \<in> {''product.created'', ''product.updated'', ''product.restored''}"
    and e: "eventId event \<noteq> []"
    and active: "\<And>p. mapWooCommerceInventoryItem (invSha env) (eventPayload event) = Inr p \<Longrightarrow> itemActive p"
    and fresh: "\<And>i. namesItem (invSha env) (eventPayload event) i \<Longrightarrow> freshSource (eventStore event) i (eventId event) db"
    and reads: "\<And>i. namesItem (invSha env) (eventPayload event) i \<Longrightarrow> sameReads env env' (eventStore event) i"
    and newer: "\<And>p parent v q. mapWooCommerceInventoryItem (invSha env) (eventPayload event) = Inr p \<Longrightarrow>
      fetchItem env (eventStore event) parent (itemWcId p) = Inr v \<Longrightarrow>
      mapWooCommerceInventoryItem (invSha env) v = Inr q \<Longrightarrow> itemModifiedAt p \<le> itemModifiedAt q"
    and run: "projectWebhook env event db = (Inr sigs, db')"
  shows "projectWebhook env' event db' = (Inr sigs, db')"
proof (cases "mapWooCommerceInventoryItem (invSha env) (eventPayload event)")
  case (Inr p)
  have names: "namesItem (invSha env) (eventPayload event) (itemWcId p)" by (simp add: namesItem_def Inr)
  show ?thesis
    by (rule redelivered_mapped [OF env ok topic e Inr active [OF Inr] fresh [OF names] reads [OF names]
      newer [OF Inr] run])
next
  case (Inl x)
  let ?src = "\<lparr>baseline = False, sourceWebhookEventId = Some (eventId event),
    webhookReceivedAt = Some (eventReceivedAt event), clearDeletion = (eventTopic event = ''product.restored'')\<rparr>"
  have src: "\<not> baseline ?src" "sourceId ?src = Some (eventId event)"
    using e by (auto simp: sourceId_def split: list.splits)
  from run topic Inl obtain i where i: "errItemId x = Some i" "i \<noteq> []"
    and rec: "reconcileItem env 1 (eventStore event) i (errParentId x) ?src db = (Inr sigs, db')"
    by (auto simp: projectWebhook_def PRODUCT_TOPICS_def reconcileItemMappingFailure_def split: option.splits if_splits)
  have names: "namesItem (invSha env) (eventPayload event) i" by (simp add: namesItem_def Inl i)
  from reconcileItem_again [OF env(1,2) ok src fresh [OF names] reads [OF names] rec, of 1] topic Inl i env(3)
  show ?thesis by (auto simp: projectWebhook_def PRODUCT_TOPICS_def reconcileItemMappingFailure_def)
qed

section \<open>Tenant isolation\<close>

definition otherItems :: "ProjectableStore \<Rightarrow> InventoryDb \<Rightarrow> ItemRow list" where
  "otherItems s db =
     filter (\<lambda>r. \<not> (itemTenantId r = storeTenantId s \<and> itemStoreId r = storeId s)) (inventoryItems db)"

definition sameOtherItems :: "ProjectableStore \<Rightarrow> InventoryDb \<Rightarrow> InventoryDb \<Rightarrow> bool" where
  "sameOtherItems s a b \<longleftrightarrow> otherItems s a = otherItems s b"

lemma otherItems_updateMany:
  assumes "inventoryItems b = snd (updateMany P f (inventoryItems a))"
    and "\<And>r. P r \<Longrightarrow> itemTenantId r = storeTenantId s \<and> itemStoreId r = storeId s"
    and "\<And>r. itemTenantId (f r) = itemTenantId r \<and> itemStoreId (f r) = itemStoreId r"
  shows "sameOtherItems s a b"
proof -
  have "filter (\<lambda>r. \<not> (itemTenantId r = storeTenantId s \<and> itemStoreId r = storeId s))
      (map (\<lambda>r. if P r then f r else r) rows)
    = filter (\<lambda>r. \<not> (itemTenantId r = storeTenantId s \<and> itemStoreId r = storeId s)) rows" for rows
    using assms(2,3) by (induction rows) auto
  then show ?thesis by (simp add: sameOtherItems_def otherItems_def assms(1) updateMany_rows)
qed

lemma applyItemOperation_elsewhere:
  assumes "applyItemOperation env tx s p a src n db = Inr (r, db')"
  shows "sameOtherItems s db db'"
proof -
  obtain d sg where "r = (d, sg)" by force
  with assms have "applyItemOperation env tx s p a src n db = Inr ((d, sg), db')" by simp
  then show ?thesis
  proof (cases rule: applyItemOperation_cases)
    case created
    then show ?thesis by (auto simp: createItem_Inr sameOtherItems_def otherItems_def)
  next
    case (updated settings r eff)
    from findItem_Some [OF updated(2)] have "itemKey s (itemWcId p) r" by simp
    with updated(7) show ?thesis
      by (intro otherItems_updateMany [OF updated(7)]) (auto simp: optimisticItemWhere_def itemKey_def)
  qed (simp_all add: sameOtherItems_def)
qed

interpretation item_elsewhere: guaranteed "applyItemOperation env tx s p a src" "sameOtherItems s"
  for env tx s p a src
  by unfold_locales (auto simp: sameOtherItems_def dest: applyItemOperation_elsewhere [unfolded sameOtherItems_def])

text \<open>
  Projecting a product webhook of one store leaves every item row of every other tenant or store as
  it is, deletions by parent product included.
\<close>

theorem inventory_touches_own_store_only:
  assumes "othersKeepItems env (sameOtherItems (eventStore event))"
  shows "otherItems (eventStore event) (snd (projectWebhook env event db)) = otherItems (eventStore event) db"
proof -
  have "sameOtherItems (eventStore event) db (snd (projectWebhook env event db))"
  proof (rule inventory_service_rel)
    show "sameOtherItems (eventStore event) db (snd (applyInventoryProjection env tx (eventStore event) p a src db))"
      for tx p a src db
      using assms unfolding applyInventoryProjection_def
      by (intro item_elsewhere.withProjectionTransaction_rel) (simp add: othersKeepItems_def)
    show "sameOtherItems (eventStore event) db (db\<lparr>inventoryItems := snd (updateMany (deletionWhere event i t)
            (markItemDeleted event (invClock env 0 0)) (inventoryItems db))\<rparr>)" for i t db
      by (rule otherItems_updateMany [where P = "deletionWhere event i t"
        and f = "markItemDeleted event (invClock env 0 0)"]) (simp_all add: deletionWhere_def deletionScope_def)
    show "sameOtherItems (eventStore event) db (invBetween env db)" for db
      using assms by (simp add: othersKeepItems_def)
  qed (auto simp: sameOtherItems_def)
  then show ?thesis by (simp add: sameOtherItems_def)
qed

section \<open>Sample runs\<close>

definition shop :: ProjectableStore where
  "shop = \<lparr>storeId = ''st1'', storeTenantId = ''t1''\<rparr>"

definition invDemo :: InventoryEnv where
  "invDemo = \<lparr>invSha = (\<lambda>t. t), fetchProduct = (\<lambda>s i. Inl (ClientError Timeout)),
     fetchProductVariation = (\<lambda>s p i. Inl (ClientError Timeout)), invAttemptOf = (\<lambda>tx. quiet),
     invBetween = (\<lambda>db. db), invClock = (\<lambda>tx n. 1782990000000), invFreshId = (\<lambda>tx n. ''a'')\<rparr>"

definition shopDb :: InventoryDb where
  "shopDb = \<lparr>inventoryItems = [], stores = [\<lparr>settingsStoreId = ''st1'', settingsTenantId = ''t1'',
     lowStockThreshold = Some 5, settingsDeletedAt = None, settingsTenantDeletedAt = None\<rparr>]\<rparr>"

definition productEvent :: "json \<Rightarrow> ProjectableWebhookEvent" where
  "productEvent payload = \<lparr>eventId = ''evt'', eventTopic = ''product.updated'', eventPayload = payload,
     eventReceivedAt = 1782990000000, eventStore = shop\<rparr>"

lemma invDemo_othersKeep: "(\<And>a. rel a a) \<Longrightarrow> othersKeepItems invDemo rel"
  by (simp add: othersKeepItems_def invDemo_def quiet_def quietAttempt_def)

lemma low_stock_class:
  "classifyInventoryItem True (Some ''3'') ''instock'' (Some 5) = LOW_STOCK"
  by (simp add: classifyInventoryItem_def decimalNumber_def readUnsigned_def eval_simps)

text \<open>A first webhook of a product with three pieces left starts a low stock incident.\<close>

lemma low_stock_run:
  assumes "mapWooCommerceInventoryItem (\<lambda>t. t) v = Inr p" "itemActive p" "itemQuantity p = Some ''3''"
    "itemManagesStock p" "itemStockStatus p = ''instock''"
  shows "\<exists>db'. applyInventoryProjection invDemo 1 shop p False (webhookSource (productEvent v)) shopDb
     = (Inr (Apply, Some \<lparr>signalItemId = ''inv_a'', signalGeneration = 1, signalLevel = LOW_ALERT,
          signalSource = ''evt''\<rparr>), db')"
proof -
  have "\<exists>db'. applyItemOperation invDemo 1 shop p False (webhookSource (productEvent v)) 1 shopDb
     = Inr ((Apply, Some \<lparr>signalItemId = ''inv_a'', signalGeneration = 1, signalLevel = LOW_ALERT,
          signalSource = ''evt''\<rparr>), db')"
    using assms(2-)
    by (simp add: applyItemOperation_def findSettings_def findItem_def findFirst_def shopDb_def shop_def
        createFromProjection_def low_stock_class webhookSource_def productEvent_def sourceId_def
        entryAlertLevel_def createItem_def invDemo_def Let_def)
  then obtain db' where "applyItemOperation invDemo 1 shop p False (webhookSource (productEvent v)) 1 shopDb
     = Inr ((Apply, Some \<lparr>signalItemId = ''inv_a'', signalGeneration = 1, signalLevel = LOW_ALERT,
          signalSource = ''evt''\<rparr>), db')" ..
  from withProjectionTransaction_quiet_Inr [of "applyItemOperation invDemo 1 shop p False
      (webhookSource (productEvent v))", OF this]
  show ?thesis by (auto simp: applyInventoryProjection_def invDemo_def)
qed

lemma sampleProduct_demo:
  "\<exists>p. mapWooCommerceInventoryItem (\<lambda>t. t) (sampleProduct 3 ''2026-07-01T10:05:00'') = Inr p
     \<and> itemActive p \<and> itemQuantity p = Some ''3'' \<and> itemManagesStock p \<and> itemStockStatus p = ''instock''"
  using sampleProduct_maps [OF sampleProduct_quantity(1), of "''2026-07-01T10:05:00''" 1782900300000]
  by (auto simp: requireInventoryGmtDate_def eval_simps)

lemma shopDb_ok: "itemTableOk shopDb"
  by (simp add: itemTableOk_def shopDb_def)

theorem signal_is_recorded_witness:
  "\<exists>p sg db'. applyInventoryProjection invDemo 1 shop p False
       (webhookSource (productEvent (sampleProduct 3 ''2026-07-01T10:05:00''))) shopDb = (Inr (Apply, Some sg), db')
     \<and> signalSource sg = ''evt'' \<and> (\<exists>r \<in> set (inventoryItems db'). signalRecorded sg r)"
proof -
  from sampleProduct_demo low_stock_run obtain p sg db' where
    run: "applyInventoryProjection invDemo 1 shop p False
       (webhookSource (productEvent (sampleProduct 3 ''2026-07-01T10:05:00''))) shopDb = (Inr (Apply, Some sg), db')"
    and sg: "signalSource sg = ''evt''" by fastforce
  from signal_is_recorded [OF run] run sg show ?thesis by blast
qed

text \<open>The same with a shop that answers every read with that product.\<close>

definition lowShop :: InventoryEnv where
  "lowShop = invDemo\<lparr>fetchProduct := (\<lambda>s i. Inr (sampleProduct 3 ''2026-07-01T10:05:00'')),
     fetchProductVariation := (\<lambda>s p i. Inr (sampleProduct 3 ''2026-07-01T10:05:00''))\<rparr>"

lemma lowShop_simps:
  "invClock lowShop = invClock invDemo" "invFreshId lowShop = invFreshId invDemo"
  "invAttemptOf lowShop = invAttemptOf invDemo"
  by (simp_all add: lowShop_def)

lemma lowShop_apply: "applyInventoryProjection lowShop = applyInventoryProjection invDemo"
  unfolding applyInventoryProjection_def [abs_def] applyItemOperation_def [abs_def] lowShop_simps by (rule refl)

lemma low_stock_webhook:
  "\<exists>db'. projectWebhook lowShop (productEvent (sampleProduct 3 ''2026-07-01T10:05:00'')) shopDb
     = (Inr [\<lparr>signalItemId = ''inv_a'', signalGeneration = 1, signalLevel = LOW_ALERT, signalSource = ''evt''\<rparr>], db')"
proof -
  from sampleProduct_demo obtain p where
    p: "mapWooCommerceInventoryItem (\<lambda>t. t) (sampleProduct 3 ''2026-07-01T10:05:00'') = Inr p" "itemActive p"
    "itemQuantity p = Some ''3''" "itemManagesStock p" "itemStockStatus p = ''instock''" by blast
  have sha: "invSha lowShop = (\<lambda>t. t)" by (simp add: lowShop_def invDemo_def)
  from low_stock_run [OF p] p show ?thesis
    by (cases "itemParentId p")
      (auto simp: projectWebhook_def productEvent_def PRODUCT_TOPICS_def signalList_def sha lowShop_apply)
qed

theorem redelivery_repeats_the_alert_witness:
  "\<exists>sg db'. projectWebhook lowShop (productEvent (sampleProduct 3 ''2026-07-01T10:05:00'')) shopDb = (Inr [sg], db')
     \<and> signalLevel sg = LOW_ALERT
     \<and> projectWebhook lowShop (productEvent (sampleProduct 3 ''2026-07-01T10:05:00'')) db' = (Inr [sg], db')"
proof -
  let ?ev = "productEvent (sampleProduct 3 ''2026-07-01T10:05:00'')"
  from low_stock_webhook obtain sg db' where run: "projectWebhook lowShop ?ev shopDb = (Inr [sg], db')"
    and sg: "signalLevel sg = LOW_ALERT" by fastforce
  have "projectWebhook lowShop ?ev db' = (Inr [sg], db')"
    by (rule redelivery_repeats_the_alert [OF _ _ _ shopDb_ok _ _ _ _ _ _ run])
      (use sampleProduct_demo in \<open>auto simp: lowShop_def invDemo_def productEvent_def undisturbedItems_def
        freshSource_def findItem_def findFirst_def shopDb_def sameReads_def fetchItem_def split: option.splits\<close>)
  with run sg show ?thesis by blast
qed

theorem incident_generation_never_decreases_witness:
  "itemsAdvance shopDb (snd (projectWebhook invDemo (productEvent (sampleProduct 3 ''2026-07-01T10:05:00'')) shopDb))"
  using incident_generation_never_decreases [OF invDemo_othersKeep [OF itemsAdvance_refl]] .

theorem incidents_stay_consistent_witness:
  "itemTableOk (snd (projectWebhook invDemo (productEvent (sampleProduct 3 ''2026-07-01T10:05:00'')) shopDb))"
  by (rule incidents_stay_consistent [OF invDemo_othersKeep shopDb_ok]) (simp add: keepsItemsOk_def)

theorem inventory_touches_own_store_only_witness:
  "otherItems shop (snd (projectWebhook invDemo (productEvent (sampleProduct 3 ''2026-07-01T10:05:00'')) shopDb)) = []"
  using inventory_touches_own_store_only [OF invDemo_othersKeep, of "productEvent (sampleProduct 3 ''2026-07-01T10:05:00'')" shopDb]
  by (simp add: sameOtherItems_def productEvent_def otherItems_def shopDb_def)

end
