(* ===== verification/OrderProjection.thy ===== *)
theory OrderProjection
  imports OrderMapper Decisions
begin

text \<open>
  \<open>backend/src/orders/order-projection.service.ts\<close>: projecting WooCommerce order webhooks into the
  \<open>orders\<close> table. A row is the projection with its key columns. The store's REST client is the
  function \<open>fetchOrder\<close> of the environment, ids and the clock are its \<open>freshId\<close> and \<open>clock\<close>
  (per transaction and attempt), the hash is \<open>sha256\<close>.
\<close>

record OrderRow = OrderProjection +
  orderRowId :: string
  orderTenantId :: string
  orderStoreId :: string
  lastSyncedAt :: date

datatype RemoteDeletionMode = Clear | Preserve

text \<open>What the service throws: its own failure, a mapping error, or the transaction's error.\<close>

datatype OrderProjectionError =
  OrderProjectionFailure WooCommerceErrorCategory string bool
  | TransactionFailed "OrderPayloadMappingError TransactionError"

record OrderEnv =
  sha256 :: "string \<Rightarrow> string"
  fetchOrder :: "ProjectableStore \<Rightarrow> string \<Rightarrow> FetchFailure + json"
  attemptOf :: "nat \<Rightarrow> nat \<Rightarrow> OrderRow list Attempt"
  clock :: "nat \<Rightarrow> nat \<Rightarrow> date"
  freshId :: "nat \<Rightarrow> nat \<Rightarrow> string"

definition ORDER_TOPICS :: "string list" where
  "ORDER_TOPICS = [''order.created'', ''order.updated'', ''order.deleted'', ''order.restored'']"

section \<open>The decision\<close>

definition decideOrderProjection ::
  "date \<Rightarrow> string \<Rightarrow> date \<Rightarrow> string \<Rightarrow> bool \<Rightarrow> ProjectionDecision" where
  "decideOrderProjection storedModifiedAt storedFingerprint incomingModifiedAt incomingFingerprint
       authoritative =
     (let timestampComparison = incomingModifiedAt - storedModifiedAt
      in if timestampComparison < 0 then Noop
         else if timestampComparison > 0 then Apply
         else if storedFingerprint = incomingFingerprint then Noop
         else if authoritative then Apply else Reconcile)"

section \<open>Rows\<close>

definition orderKey :: "ProjectableStore \<Rightarrow> string \<Rightarrow> OrderRow \<Rightarrow> bool" where
  "orderKey s i r \<longleftrightarrow> orderTenantId r = storeTenantId s \<and> orderStoreId r = storeId s \<and> wcOrderId r = i"

definition findOrder :: "ProjectableStore \<Rightarrow> string \<Rightarrow> OrderRow list \<Rightarrow> OrderRow option" where
  "findOrder s i rows = findFirst (orderKey s i) rows"

definition optimisticOrderWhere :: "OrderRow \<Rightarrow> OrderRow \<Rightarrow> bool" where
  "optimisticOrderWhere existing r \<longleftrightarrow>
     orderRowId r = orderRowId existing \<and> orderTenantId r = orderTenantId existing
     \<and> orderStoreId r = orderStoreId existing \<and> wcModifiedAt r = wcModifiedAt existing
     \<and> projectionFingerprint r = projectionFingerprint existing
     \<and> remoteDeletedAt r = remoteDeletedAt existing"

text \<open>\<open>order.create\<close>: the primary key and the unique (store, order) pair reject a duplicate.\<close>

definition createOrder ::
  "OrderRow \<Rightarrow> OrderRow list \<Rightarrow> OrderPayloadMappingError TransactionError + OrderRow list" where
  "createOrder row rows =
     (if list_ex (\<lambda>r. orderRowId r = orderRowId row
          \<or> orderStoreId r = orderStoreId row \<and> wcOrderId r = wcOrderId row) rows
      then Inl (PrismaError ''P2002'') else Inr (rows @ [row]))"

definition newOrderRow :: "ProjectableStore \<Rightarrow> OrderProjection \<Rightarrow> string \<Rightarrow> date \<Rightarrow> OrderRow" where
  "newOrderRow s p fresh now =
     \<lparr>wcOrderId = wcOrderId p, orderNumber = orderNumber p, status = status p, currency = currency p,
      totals = totals p, customerSnapshot = customerSnapshot p,
      lineItemsSnapshot = lineItemsSnapshot p, paymentSnapshot = paymentSnapshot p,
      shippingLinesSnapshot = shippingLinesSnapshot p, wcCreatedAt = wcCreatedAt p,
      wcModifiedAt = wcModifiedAt p, remoteDeletedAt = remoteDeletedAt p,
      projectionFingerprint = projectionFingerprint p, orderRowId = ''ord_'' @ fresh,
      orderTenantId = storeTenantId s, orderStoreId = storeId s, lastSyncedAt = now\<rparr>"

text \<open>The \<open>data\<close> of the update: every projected column but the order id.\<close>

definition projectOnto :: "OrderProjection \<Rightarrow> date \<Rightarrow> OrderRow \<Rightarrow> OrderRow" where
  "projectOnto p now r =
     r\<lparr>orderNumber := orderNumber p, status := status p, currency := currency p,
       totals := totals p, customerSnapshot := customerSnapshot p,
       lineItemsSnapshot := lineItemsSnapshot p, paymentSnapshot := paymentSnapshot p,
       shippingLinesSnapshot := shippingLinesSnapshot p, wcCreatedAt := wcCreatedAt p,
       wcModifiedAt := wcModifiedAt p, projectionFingerprint := projectionFingerprint p,
       remoteDeletedAt := remoteDeletedAt p, lastSyncedAt := now\<rparr>"

section \<open>The transactions\<close>

definition applyToExisting ::
  "(string \<Rightarrow> string) \<Rightarrow> OrderProjection \<Rightarrow> bool \<Rightarrow> RemoteDeletionMode \<Rightarrow> date \<Rightarrow> OrderRow \<Rightarrow> OrderRow list
     \<Rightarrow> OrderPayloadMappingError TransactionError + ProjectionDecision \<times> OrderRow list" where
  "applyToExisting sha candidate authoritative mode now existing rows =
     (case (if mode = Preserve then withRemoteDeletedAt sha candidate (remoteDeletedAt existing)
            else Inr candidate) of
        Inl e \<Rightarrow> Inl (Thrown e)
      | Inr p \<Rightarrow>
          let decision = decideOrderProjection (wcModifiedAt existing) (projectionFingerprint existing)
                (wcModifiedAt p) (projectionFingerprint p) authoritative
          in if decision \<noteq> Apply then Inr (decision, rows)
             else let updated = updateMany (optimisticOrderWhere existing) (projectOnto p now) rows
                  in if fst updated \<noteq> 1 then Inl ConcurrentProjectionError
                     else Inr (Apply, snd updated))"

definition applyOperation ::
  "OrderEnv \<Rightarrow> nat \<Rightarrow> ProjectableStore \<Rightarrow> OrderProjection \<Rightarrow> bool \<Rightarrow> RemoteDeletionMode
     \<Rightarrow> (OrderRow list, OrderPayloadMappingError, ProjectionDecision) operation" where
  "applyOperation env tx s candidate authoritative mode n rows =
     (case findOrder s (wcOrderId candidate) rows of
        None \<Rightarrow> map_sum id (Pair Apply) (createOrder (newOrderRow s candidate (freshId env tx n) (clock env tx n)) rows)
      | Some existing \<Rightarrow>
          applyToExisting (sha256 env) candidate authoritative mode (clock env tx n) existing rows)"

definition applyProjection ::
  "OrderEnv \<Rightarrow> nat \<Rightarrow> ProjectableStore \<Rightarrow> OrderProjection \<Rightarrow> bool \<Rightarrow> RemoteDeletionMode \<Rightarrow> OrderRow list
     \<Rightarrow> (OrderProjectionError + ProjectionDecision) \<times> OrderRow list" where
  "applyProjection env tx s candidate authoritative mode rows =
     map_prod (map_sum TransactionFailed id) id
       (withProjectionTransaction (attemptOf env tx)
         (applyOperation env tx s candidate authoritative mode) rows)"

definition deletionOperation ::
  "OrderEnv \<Rightarrow> nat \<Rightarrow> ProjectableStore \<Rightarrow> string \<Rightarrow> date
     \<Rightarrow> (OrderRow list, OrderPayloadMappingError, unit) operation" where
  "deletionOperation env tx s i receivedAt n rows =
     (case findOrder s i rows of
        None \<Rightarrow> Inr ((), rows)
      | Some existing \<Rightarrow>
          if (case remoteDeletedAt existing of None \<Rightarrow> False | Some t \<Rightarrow> receivedAt \<le> t)
          then Inr ((), rows)
          else (case orderProjectionFingerprint (sha256 env) (existing\<lparr>remoteDeletedAt := Some receivedAt\<rparr>) of
                  Inl e \<Rightarrow> Inl (Thrown e)
                | Inr h \<Rightarrow>
                    let updated = updateMany (optimisticOrderWhere existing)
                          (\<lambda>r. r\<lparr>remoteDeletedAt := Some receivedAt, projectionFingerprint := h,
                                 lastSyncedAt := clock env tx n\<rparr>) rows
                    in if fst updated \<noteq> 1 then Inl ConcurrentProjectionError
                       else Inr ((), snd updated)))"

definition projectDeletion ::
  "OrderEnv \<Rightarrow> nat \<Rightarrow> ProjectableWebhookEvent \<Rightarrow> OrderRow list
     \<Rightarrow> (OrderProjectionError + unit) \<times> OrderRow list" where
  "projectDeletion env tx event rows =
     (case readWooCommerceOrderId (eventPayload event) of
        Inl e \<Rightarrow> (Inl (OrderProjectionFailure Unexpected (code e) False), rows)
      | Inr i \<Rightarrow>
          map_prod (map_sum TransactionFailed id) id
            (withProjectionTransaction (attemptOf env tx)
              (deletionOperation env tx (eventStore event) i (eventReceivedAt event)) rows))"

section \<open>The service\<close>

definition reconcileAuthoritativeOrder ::
  "OrderEnv \<Rightarrow> nat \<Rightarrow> ProjectableStore \<Rightarrow> json \<Rightarrow> string \<Rightarrow> OrderRow list
     \<Rightarrow> (OrderProjectionError + unit) \<times> OrderRow list" where
  "reconcileAuthoritativeOrder env tx s payload expected rows =
     (case mapWooCommerceOrder (sha256 env) payload of
        Inl e \<Rightarrow> (Inl (OrderProjectionFailure Unexpected ''malformed-reconciliation-payload'' False), rows)
      | Inr authoritative \<Rightarrow>
          if wcOrderId authoritative \<noteq> expected
          then (Inl (OrderProjectionFailure Unexpected ''reconciliation-order-identity-mismatch'' False), rows)
          else map_prod (map_sum id (\<lambda>_. ())) id
                 (applyProjection env tx s authoritative True Clear rows))"

definition reconcile ::
  "OrderEnv \<Rightarrow> nat \<Rightarrow> ProjectableStore \<Rightarrow> string \<Rightarrow> OrderRow list
     \<Rightarrow> (OrderProjectionError + unit) \<times> OrderRow list" where
  "reconcile env tx s i rows =
     (case fetchOrder env s i of
        Inl (ClientError c) \<Rightarrow>
          (Inl (OrderProjectionFailure c (''woocommerce-'' @ categoryText c) (retryableCategory c)), rows)
      | Inl OtherFetchError \<Rightarrow>
          (Inl (OrderProjectionFailure Unexpected ''woocommerce-unexpected'' False), rows)
      | Inr payload \<Rightarrow> reconcileAuthoritativeOrder env tx s payload i rows)"

text \<open>The mapper throws nothing but its own error; an empty order id counts as absent.\<close>

definition reconcileMappingFailure ::
  "OrderEnv \<Rightarrow> nat \<Rightarrow> ProjectableWebhookEvent \<Rightarrow> OrderPayloadMappingError \<Rightarrow> OrderRow list
     \<Rightarrow> (OrderProjectionError + unit) \<times> OrderRow list" where
  "reconcileMappingFailure env tx event e rows =
     (case errWcOrderId e of
        None \<Rightarrow> (Inl (OrderProjectionFailure Unexpected (code e) False), rows)
      | Some i \<Rightarrow>
          if i = [] then (Inl (OrderProjectionFailure Unexpected (code e) False), rows)
          else reconcile env tx (eventStore event) i rows)"

definition project ::
  "OrderEnv \<Rightarrow> ProjectableWebhookEvent \<Rightarrow> OrderRow list
     \<Rightarrow> (OrderProjectionError + unit) \<times> OrderRow list" where
  "project env event rows =
     (if eventTopic event \<notin> set ORDER_TOPICS then (Inr (), rows)
      else if eventTopic event = ''order.deleted'' then projectDeletion env 1 event rows
      else case mapWooCommerceOrder (sha256 env) (eventPayload event) of
             Inl e \<Rightarrow> reconcileMappingFailure env 1 event e rows
           | Inr mapped \<Rightarrow>
               let mode = (if eventTopic event = ''order.restored'' then Clear else Preserve)
               in case applyProjection env 1 (eventStore event) mapped False mode rows of
                    (Inl e, rows') \<Rightarrow> (Inl e, rows')
                  | (Inr Reconcile, rows') \<Rightarrow> reconcile env 2 (eventStore event) (wcOrderId mapped) rows'
                  | (Inr _, rows') \<Rightarrow> (Inr (), rows'))"

section \<open>The decision meets its contract\<close>

interpretation order_decision: projection_decision decideOrderProjection
  by unfold_locales (auto simp: decideOrderProjection_def Let_def)

section \<open>What every operation guarantees\<close>

text \<open>No row disappears, keeps its identity, and its modification time never goes back.\<close>

definition advances :: "OrderRow list \<Rightarrow> OrderRow list \<Rightarrow> bool" where
  "advances a b \<longleftrightarrow> (\<forall>r \<in> set a. \<exists>r' \<in> set b. orderRowId r' = orderRowId r
     \<and> orderTenantId r' = orderTenantId r \<and> orderStoreId r' = orderStoreId r
     \<and> wcOrderId r' = wcOrderId r \<and> wcModifiedAt r \<le> wcModifiedAt r')"

lemma advances_refl: "advances a a"
  by (auto simp: advances_def)

lemma advances_trans: "advances a b \<Longrightarrow> advances b c \<Longrightarrow> advances a c"
  unfolding advances_def by (metis order_trans)

lemma advances_append: "advances a (a @ b)"
  by (auto simp: advances_def)

lemma advances_updateMany:
  assumes "\<And>r. P r \<Longrightarrow> orderRowId (f r) = orderRowId r \<and> orderTenantId (f r) = orderTenantId r
    \<and> orderStoreId (f r) = orderStoreId r \<and> wcOrderId (f r) = wcOrderId r \<and> wcModifiedAt r \<le> wcModifiedAt (f r)"
  shows "advances a (snd (updateMany P f a))"
proof (unfold advances_def, intro ballI)
  fix r
  assume "r \<in> set a"
  then have "(if P r then f r else r) \<in> set (snd (updateMany P f a))" by (auto simp: row_simps)
  then show "\<exists>r' \<in> set (snd (updateMany P f a)). orderRowId r' = orderRowId r
     \<and> orderTenantId r' = orderTenantId r \<and> orderStoreId r' = orderStoreId r
     \<and> wcOrderId r' = wcOrderId r \<and> wcModifiedAt r \<le> wcModifiedAt r'"
    by (rule rev_bexI) (cases "P r"; simp add: assms)
qed

lemma findOrder_Some:
  assumes "findOrder s i rows = Some r"
  shows "r \<in> set rows \<and> orderKey s i r \<and> wcOrderId r = i"
  using findFirst_Some [OF assms [unfolded findOrder_def]] by (simp add: orderKey_def)

lemma projectOnto_simps [simp]:
  "orderRowId (projectOnto p now r) = orderRowId r"
  "orderTenantId (projectOnto p now r) = orderTenantId r"
  "orderStoreId (projectOnto p now r) = orderStoreId r"
  "wcOrderId (projectOnto p now r) = wcOrderId r"
  "wcModifiedAt (projectOnto p now r) = wcModifiedAt p"
  "projectionFingerprint (projectOnto p now r) = projectionFingerprint p"
  "remoteDeletedAt (projectOnto p now r) = remoteDeletedAt p"
  by (simp_all add: projectOnto_def)

lemma newOrderRow_simps [simp]:
  "orderRowId (newOrderRow s p fresh now) = ''ord_'' @ fresh"
  "orderTenantId (newOrderRow s p fresh now) = storeTenantId s"
  "orderStoreId (newOrderRow s p fresh now) = storeId s"
  "wcOrderId (newOrderRow s p fresh now) = wcOrderId p"
  "wcModifiedAt (newOrderRow s p fresh now) = wcModifiedAt p"
  "projectionFingerprint (newOrderRow s p fresh now) = projectionFingerprint p"
  "remoteDeletedAt (newOrderRow s p fresh now) = remoteDeletedAt p"
  by (simp_all add: newOrderRow_def)

text \<open>What a committed operation did, by inversion.\<close>

lemma createOrder_Inr:
  "createOrder row rows = Inr rows' \<longleftrightarrow> rows' = rows @ [row] \<and>
     (\<forall>r \<in> set rows. orderRowId r \<noteq> orderRowId row
        \<and> \<not> (orderStoreId r = orderStoreId row \<and> wcOrderId r = wcOrderId row))"
  by (auto simp: createOrder_def list_ex_iff)

definition effectiveProjection ::
  "(string \<Rightarrow> string) \<Rightarrow> OrderProjection \<Rightarrow> RemoteDeletionMode \<Rightarrow> OrderRow \<Rightarrow> OrderProjection mapped" where
  "effectiveProjection sha p mode r =
     (if mode = Preserve then withRemoteDeletedAt sha p (remoteDeletedAt r) else Inr p)"

lemma applyToExisting_Inr:
  "applyToExisting sha p a mode now r rows = Inr (d, rows') \<longleftrightarrow>
     (\<exists>q. effectiveProjection sha p mode r = Inr q \<and>
        d = decideOrderProjection (wcModifiedAt r) (projectionFingerprint r) (wcModifiedAt q)
              (projectionFingerprint q) a \<and>
        (if d = Apply
         then fst (updateMany (optimisticOrderWhere r) (projectOnto q now) rows) = 1
           \<and> rows' = snd (updateMany (optimisticOrderWhere r) (projectOnto q now) rows)
         else rows' = rows))"
  unfolding applyToExisting_def effectiveProjection_def [symmetric]
  by (auto simp: Let_def split: sum.splits)

lemma applyOperation_cases:
  assumes "applyOperation env tx s p a mode n rows = Inr (d, rows')"
  obtains
    (created) "findOrder s (wcOrderId p) rows = None" "d = Apply"
      "createOrder (newOrderRow s p (freshId env tx n) (clock env tx n)) rows = Inr rows'"
  | (updated) r q where "findOrder s (wcOrderId p) rows = Some r"
      "effectiveProjection (sha256 env) p mode r = Inr q" "d = Apply"
      "decideOrderProjection (wcModifiedAt r) (projectionFingerprint r) (wcModifiedAt q)
         (projectionFingerprint q) a = Apply"
      "rows' = snd (updateMany (optimisticOrderWhere r) (projectOnto q (clock env tx n)) rows)"
  | (kept) r q where "findOrder s (wcOrderId p) rows = Some r"
      "effectiveProjection (sha256 env) p mode r = Inr q"
      "d = decideOrderProjection (wcModifiedAt r) (projectionFingerprint r) (wcModifiedAt q)
         (projectionFingerprint q) a" "d \<noteq> Apply" "rows' = rows"
proof (cases "findOrder s (wcOrderId p) rows")
  case None
  with assms show ?thesis by (intro created) (auto simp: applyOperation_def map_sum_def split: sum.splits)
next
  case (Some r)
  with assms have "applyToExisting (sha256 env) p a mode (clock env tx n) r rows = Inr (d, rows')"
    by (simp add: applyOperation_def)
  then show ?thesis
    unfolding applyToExisting_Inr using Some updated kept by (auto split: if_splits)
qed

lemma deletionOperation_cases:
  assumes "deletionOperation env tx s i t n rows = Inr (u, rows')"
  obtains (ignored) "rows' = rows"
  | (deleted) r h where "findOrder s i rows = Some r"
      "orderProjectionFingerprint (sha256 env) (r\<lparr>remoteDeletedAt := Some t\<rparr>) = Inr h"
      "rows' = snd (updateMany (optimisticOrderWhere r) (\<lambda>r. r\<lparr>remoteDeletedAt := Some t,
         projectionFingerprint := h, lastSyncedAt := clock env tx n\<rparr>) rows)"
  using assms
  by (auto simp: deletionOperation_def Let_def split: option.splits sum.splits if_splits)

lemma applyOperation_advances:
  assumes "applyOperation env tx s p a mode n rows = Inr (d, rows')"
  shows "advances rows rows'"
  using assms
proof (cases rule: applyOperation_cases)
  case created
  then show ?thesis by (auto simp: createOrder_Inr advances_append)
next
  case (updated r q)
  from order_decision.applied_not_older [OF updated(4)] show ?thesis
    unfolding updated(5) by (intro advances_updateMany) (auto simp: optimisticOrderWhere_def)
qed (auto intro: advances_refl)

lemma deletionOperation_advances:
  assumes "deletionOperation env tx s i t n rows = Inr (u, rows')"
  shows "advances rows rows'"
  using assms
proof (cases rule: deletionOperation_cases)
  case (deleted r h)
  then show ?thesis by (auto intro: advances_updateMany)
qed (auto intro: advances_refl)

interpretation apply_advances: guaranteed "applyOperation env tx s p a mode" advances
  for env tx s p a mode
  by unfold_locales (auto intro: advances_refl advances_trans applyOperation_advances)

interpretation deletion_advances: guaranteed "deletionOperation env tx s i t" advances
  for env tx s i t
  by unfold_locales (auto intro: advances_refl advances_trans deletionOperation_advances)

text \<open>
  A relation respected by both transactions, and by whatever else writes the table, is respected
  by the whole service.
\<close>

definition othersKeep :: "OrderEnv \<Rightarrow> (OrderRow list \<Rightarrow> OrderRow list \<Rightarrow> bool) \<Rightarrow> bool" where
  "othersKeep env rel \<longleftrightarrow> (\<forall>tx n rows. rel rows (interference (attemptOf env tx n) rows))"

lemma service_rel:
  assumes refl: "\<And>a. rel a a" and trans: "\<And>a b c. rel a b \<Longrightarrow> rel b c \<Longrightarrow> rel a c"
    and appl: "\<And>tx p a mode rows v. mapWooCommerceOrder (sha256 env) v = Inr p \<Longrightarrow>
      rel rows (snd (withProjectionTransaction (attemptOf env tx)
        (applyOperation env tx (eventStore event) p a mode) rows))"
    and del: "\<And>tx i rows.
      rel rows (snd (withProjectionTransaction (attemptOf env tx)
        (deletionOperation env tx (eventStore event) i (eventReceivedAt event)) rows))"
  shows "rel rows (snd (project env event rows))"
proof -
  have authoritative: "rel rows (snd (reconcileAuthoritativeOrder env tx (eventStore event) v i rows))"
    for tx v i rows
    using refl appl by (auto simp: reconcileAuthoritativeOrder_def applyProjection_def split: sum.splits)
  then have rec: "rel rows (snd (reconcile env tx (eventStore event) i rows))" for tx i rows
    using refl by (auto simp: reconcile_def split: sum.splits FetchFailure.splits)
  then have fail: "rel rows (snd (reconcileMappingFailure env tx event e rows))" for tx e rows
    using refl by (auto simp: reconcileMappingFailure_def split: option.splits)
  have deletion: "rel rows (snd (projectDeletion env tx event rows))" for tx rows
    using refl del by (auto simp: projectDeletion_def split: sum.splits)
  have "rel rows (snd (case applyProjection env 1 (eventStore event) p False mode rows of
        (Inl e, rows') \<Rightarrow> (Inl e, rows')
      | (Inr Reconcile, rows') \<Rightarrow> reconcile env 2 (eventStore event) (wcOrderId p) rows'
      | (Inr _, rows') \<Rightarrow> (Inr (), rows')))"
    if "mapWooCommerceOrder (sha256 env) v = Inr p" for v p mode
  proof -
    have "rel rows (snd (applyProjection env 1 (eventStore event) p False mode rows))"
      using appl [OF that] by (simp add: applyProjection_def)
    then show ?thesis
      using rec trans by (auto split: prod.splits sum.splits ProjectionDecision.splits)
  qed
  with refl fail deletion show ?thesis
    by (auto simp: project_def Let_def split: sum.splits)
qed

text \<open>
  C13: whatever webhook is projected, whatever the outcome, no order row is lost or changes its
  identity, and no row's modification time goes back, provided the transactions of other processes
  do not do so either.
\<close>

theorem project_never_goes_back:
  assumes "othersKeep env advances"
  shows "advances rows (snd (project env event rows))"
proof (rule service_rel)
  show "advances rows (snd (withProjectionTransaction (attemptOf env tx)
      (applyOperation env tx (eventStore event) p a mode) rows))" for tx p a mode rows
    using assms by (intro apply_advances.withProjectionTransaction_rel) (simp add: othersKeep_def)
  show "advances rows (snd (withProjectionTransaction (attemptOf env tx)
      (deletionOperation env tx (eventStore event) i (eventReceivedAt event)) rows))" for tx i rows
    using assms by (intro deletion_advances.withProjectionTransaction_rel) (simp add: othersKeep_def)
qed (blast intro: advances_refl advances_trans)+

section \<open>The table's invariant\<close>

text \<open>
  The database's uniqueness constraints, and what the code adds to them: each stored fingerprint is
  the fingerprint of the stored columns, the deletion time included.
\<close>

definition orderRowOk :: "(string \<Rightarrow> string) \<Rightarrow> OrderRow \<Rightarrow> bool" where
  "orderRowOk sha r \<longleftrightarrow> finiteSnapshots r \<and>
     orderProjectionFingerprint sha r = Inr (projectionFingerprint r)"

definition orderTableOk :: "(string \<Rightarrow> string) \<Rightarrow> OrderRow list \<Rightarrow> bool" where
  "orderTableOk sha rows \<longleftrightarrow> distinct (map orderRowId rows)
     \<and> distinct (map (\<lambda>r. (orderStoreId r, wcOrderId r)) rows)
     \<and> (\<forall>r \<in> set rows. orderRowOk sha r)"

text \<open>A projection the mapper can produce: its fingerprint is its own.\<close>

definition candidateOk :: "(string \<Rightarrow> string) \<Rightarrow> OrderProjection \<Rightarrow> bool" where
  "candidateOk sha p \<longleftrightarrow> finiteSnapshots p \<and>
     orderProjectionFingerprint sha p = Inr (projectionFingerprint p)"

lemma mapped_candidateOk: "mapWooCommerceOrder sha v = Inr p \<Longrightarrow> candidateOk sha p"
  by (simp add: candidateOk_def mapped_fingerprint mapped_finite)

lemma fingerprint_cong:
  assumes "fingerprintSource p = fingerprintSource q"
  shows "orderProjectionFingerprint sha p = orderProjectionFingerprint sha q"
  using assms by (simp add: orderProjectionFingerprint_def)

lemma projectOnto_source:
  "wcOrderId r = wcOrderId p \<Longrightarrow> fingerprintSource (projectOnto p now r) = fingerprintSource p"
  by (simp add: fingerprintSource_def projectOnto_def)

lemma newOrderRow_source: "fingerprintSource (newOrderRow s p fresh now) = fingerprintSource p"
  by (simp add: fingerprintSource_def newOrderRow_def)

lemma projectOnto_ok:
  "candidateOk sha p \<Longrightarrow> wcOrderId r = wcOrderId p \<Longrightarrow> orderRowOk sha (projectOnto p now r)"
  by (simp add: candidateOk_def orderRowOk_def fingerprint_cong [OF projectOnto_source])
    (simp add: finiteSnapshots_def projectOnto_def)

lemma newOrderRow_ok: "candidateOk sha p \<Longrightarrow> orderRowOk sha (newOrderRow s p fresh now)"
  by (simp add: candidateOk_def orderRowOk_def fingerprint_cong [OF newOrderRow_source])
    (simp add: finiteSnapshots_def newOrderRow_def)

lemma effectiveProjection_ok:
  assumes "candidateOk sha p" and "effectiveProjection sha p mode r = Inr q"
  shows "candidateOk sha q \<and> wcOrderId q = wcOrderId p \<and> wcModifiedAt q = wcModifiedAt p
    \<and> remoteDeletedAt q = (if mode = Preserve then remoteDeletedAt r else remoteDeletedAt p)"
proof (cases "mode = Preserve")
  case True
  from assms(1) have "finiteSnapshots p" by (simp add: candidateOk_def)
  from withRemoteDeletedAt_total [OF this, of sha "remoteDeletedAt r"] assms(2) True
  obtain h where h: "q = p\<lparr>remoteDeletedAt := remoteDeletedAt r, projectionFingerprint := h\<rparr>"
    "orderProjectionFingerprint sha (p\<lparr>remoteDeletedAt := remoteDeletedAt r\<rparr>) = Inr h"
    by (auto simp: effectiveProjection_def)
  with True assms(1) show ?thesis by (simp add: candidateOk_def finiteSnapshots_def)
next
  case False
  with assms show ?thesis by (auto simp: effectiveProjection_def)
qed

lemma orderTableOk_append:
  "orderTableOk sha (rows @ [row]) \<longleftrightarrow> orderTableOk sha rows \<and> orderRowOk sha row \<and>
     orderRowId row \<notin> orderRowId ` set rows \<and>
     (orderStoreId row, wcOrderId row) \<notin> (\<lambda>r. (orderStoreId r, wcOrderId r)) ` set rows"
  by (auto simp: orderTableOk_def)

lemma orderTableOk_updateMany:
  assumes "orderTableOk sha rows"
    and same: "\<And>r. orderRowId (f r) = orderRowId r \<and> orderStoreId (f r) = orderStoreId r
      \<and> wcOrderId (f r) = wcOrderId r"
    and ok: "\<And>r. r \<in> set rows \<Longrightarrow> P r \<Longrightarrow> orderRowOk sha (f r)"
  shows "orderTableOk sha (snd (updateMany P f rows))"
proof -
  have ids: "map orderRowId (snd (updateMany P f rows)) = map orderRowId rows"
    "map (\<lambda>r. (orderStoreId r, wcOrderId r)) (snd (updateMany P f rows))
       = map (\<lambda>r. (orderStoreId r, wcOrderId r)) rows"
    by (simp_all add: updateMany_rows same)
  have "orderRowOk sha r'" if "r' \<in> set (snd (updateMany P f rows))" for r'
    using that assms(1) ok unfolding updateMany_rows orderTableOk_def by auto
  with assms(1) show ?thesis unfolding orderTableOk_def ids by blast
qed

lemma same_row:
  assumes "orderTableOk sha rows" "findOrder s i rows = Some r" "r' \<in> set rows"
    and "optimisticOrderWhere r r'"
  shows "r' = r"
proof -
  have "distinct (map orderRowId rows)" using assms(1) by (simp add: orderTableOk_def)
  from distinct_key_eq [OF this assms(3)] findOrder_Some [OF assms(2)] assms(4)
  show ?thesis by (simp add: optimisticOrderWhere_def)
qed

lemma applyOperation_ok:
  assumes "applyOperation env tx s p a mode n rows = Inr (d, rows')"
    and p: "candidateOk (sha256 env) p" and t: "orderTableOk (sha256 env) rows"
  shows "orderTableOk (sha256 env) rows'"
  using assms(1)
proof (cases rule: applyOperation_cases)
  case created
  with p t show ?thesis by (auto simp: createOrder_Inr orderTableOk_append newOrderRow_ok image_iff)
next
  case (updated r q)
  from findOrder_Some [OF updated(1)] have "wcOrderId r = wcOrderId p" by simp
  with effectiveProjection_ok [OF p updated(2)] have q: "candidateOk (sha256 env) q" "wcOrderId r = wcOrderId q"
    by simp_all
  show ?thesis
    unfolding updated(5)
    by (rule orderTableOk_updateMany [OF t])
      (use q in \<open>auto dest: same_row [OF t updated(1)] intro: projectOnto_ok\<close>)
qed (use t in simp)

lemma deletionOperation_ok:
  assumes "deletionOperation env tx s i t n rows = Inr (u, rows')"
    and ok: "orderTableOk (sha256 env) rows"
  shows "orderTableOk (sha256 env) rows'"
  using assms(1)
proof (cases rule: deletionOperation_cases)
  case (deleted r h)
  let ?f = "\<lambda>r. r\<lparr>remoteDeletedAt := Some t, projectionFingerprint := h, lastSyncedAt := clock env tx n\<rparr>"
  have "r \<in> set rows" using findOrder_Some [OF deleted(1)] by simp
  with ok have "finiteSnapshots r" by (auto simp: orderTableOk_def orderRowOk_def)
  moreover have "orderProjectionFingerprint (sha256 env) (?f r) = Inr h"
    using deleted(2) by (simp add: orderProjectionFingerprint_def fingerprintSource_def)
  ultimately have "orderRowOk (sha256 env) (?f r)"
    by (simp add: orderRowOk_def finiteSnapshots_def)
  then show ?thesis
    unfolding deleted(3)
    by (intro orderTableOk_updateMany [OF ok]) (auto dest: same_row [OF ok deleted(1)])
qed (use ok in simp)

text \<open>Preserving the invariant, as a relation between tables.\<close>

definition keepsOk :: "bool \<Rightarrow> (string \<Rightarrow> string) \<Rightarrow> OrderRow list \<Rightarrow> OrderRow list \<Rightarrow> bool" where
  "keepsOk c sha a b \<longleftrightarrow> (c \<longrightarrow> orderTableOk sha a \<longrightarrow> orderTableOk sha b)"

interpretation apply_ok: guaranteed "applyOperation env tx s p a mode"
    "keepsOk (candidateOk (sha256 env) p) (sha256 env)"
  for env tx s p a mode
  by unfold_locales (auto simp: keepsOk_def dest: applyOperation_ok)

interpretation deletion_ok: guaranteed "deletionOperation env tx s i t" "keepsOk True (sha256 env)"
  for env tx s i t
  by unfold_locales (auto simp: keepsOk_def dest: deletionOperation_ok)

lemma project_table_ok:
  assumes "othersKeep env (keepsOk True (sha256 env))" and "orderTableOk (sha256 env) rows"
  shows "orderTableOk (sha256 env) (snd (project env event rows))"
proof -
  have "keepsOk True (sha256 env) rows (snd (project env event rows))"
  proof (rule service_rel)
    fix tx p a mode rows v
    assume "mapWooCommerceOrder (sha256 env) v = Inr p"
    then have "candidateOk (sha256 env) p" by (rule mapped_candidateOk)
    then show "keepsOk True (sha256 env) rows (snd (withProjectionTransaction (attemptOf env tx)
        (applyOperation env tx (eventStore event) p a mode) rows))"
      using assms(1) apply_ok.withProjectionTransaction_rel [of env p "attemptOf env tx"]
      by (simp add: othersKeep_def)
  next
    show "keepsOk True (sha256 env) rows (snd (withProjectionTransaction (attemptOf env tx)
        (deletionOperation env tx (eventStore event) i (eventReceivedAt event)) rows))" for tx i rows
      using assms(1) by (intro deletion_ok.withProjectionTransaction_rel) (simp add: othersKeep_def)
  qed (auto simp: keepsOk_def)
  with assms(2) show ?thesis by (simp add: keepsOk_def)
qed

text \<open>
  C6: projecting any webhook, whatever the outcome, keeps the orders table consistent: row ids and
  (store, order) pairs stay unique, and every stored fingerprint is the hash of the stored columns.
\<close>

theorem project_keeps_table_ok:
  assumes "othersKeep env (keepsOk True (sha256 env))" and "orderTableOk (sha256 env) rows"
  shows "orderTableOk (sha256 env) (snd (project env event rows))"
  using assms by (rule project_table_ok)

section \<open>Tenant isolation\<close>

definition otherStores :: "ProjectableStore \<Rightarrow> OrderRow list \<Rightarrow> OrderRow list" where
  "otherStores s rows =
     filter (\<lambda>r. \<not> (orderTenantId r = storeTenantId s \<and> orderStoreId r = storeId s)) rows"

definition sameElsewhere :: "ProjectableStore \<Rightarrow> OrderRow list \<Rightarrow> OrderRow list \<Rightarrow> bool" where
  "sameElsewhere s a b \<longleftrightarrow> otherStores s a = otherStores s b"

lemma otherStores_updateMany:
  assumes "\<And>r. P r \<Longrightarrow> orderTenantId r = storeTenantId s \<and> orderStoreId r = storeId s"
    and "\<And>r. orderTenantId (f r) = orderTenantId r \<and> orderStoreId (f r) = orderStoreId r"
  shows "otherStores s (snd (updateMany P f rows)) = otherStores s rows"
  unfolding otherStores_def updateMany_rows using assms by (induction rows) auto

lemma applyOperation_elsewhere:
  assumes "applyOperation env tx s p a mode n rows = Inr (d, rows')"
  shows "sameElsewhere s rows rows'"
  using assms
proof (cases rule: applyOperation_cases)
  case created
  then show ?thesis by (auto simp: createOrder_Inr sameElsewhere_def otherStores_def)
next
  case (updated r q)
  from findOrder_Some [OF updated(1)] have "orderKey s (wcOrderId p) r" by simp
  then show ?thesis
    unfolding updated(5) sameElsewhere_def
    by (subst otherStores_updateMany) (auto simp: optimisticOrderWhere_def orderKey_def)
qed (simp add: sameElsewhere_def)

lemma deletionOperation_elsewhere:
  assumes "deletionOperation env tx s i t n rows = Inr (u, rows')"
  shows "sameElsewhere s rows rows'"
  using assms
proof (cases rule: deletionOperation_cases)
  case (deleted r h)
  from findOrder_Some [OF deleted(1)] have "orderKey s i r" by simp
  then show ?thesis
    unfolding deleted(3) sameElsewhere_def
    by (subst otherStores_updateMany) (auto simp: optimisticOrderWhere_def orderKey_def)
qed (simp add: sameElsewhere_def)

interpretation apply_elsewhere: guaranteed "applyOperation env tx s p a mode" "sameElsewhere s"
  for env tx s p a mode
  by unfold_locales (auto simp: sameElsewhere_def dest: applyOperation_elsewhere [unfolded sameElsewhere_def])

interpretation deletion_elsewhere: guaranteed "deletionOperation env tx s i t" "sameElsewhere s"
  for env tx s i t
  by unfold_locales (auto simp: sameElsewhere_def dest: deletionOperation_elsewhere [unfolded sameElsewhere_def])

text \<open>
  Projecting a webhook of one store leaves every row of every other tenant or store as it is.
\<close>

theorem project_touches_own_store_only:
  assumes "othersKeep env (sameElsewhere (eventStore event))"
  shows "otherStores (eventStore event) (snd (project env event rows)) = otherStores (eventStore event) rows"
proof -
  have "sameElsewhere (eventStore event) rows (snd (project env event rows))"
  proof (rule service_rel)
    show "sameElsewhere (eventStore event) rows (snd (withProjectionTransaction (attemptOf env tx)
        (applyOperation env tx (eventStore event) p a mode) rows))" for tx p a mode rows
      using assms by (intro apply_elsewhere.withProjectionTransaction_rel) (simp add: othersKeep_def)
    show "sameElsewhere (eventStore event) rows (snd (withProjectionTransaction (attemptOf env tx)
        (deletionOperation env tx (eventStore event) i (eventReceivedAt event)) rows))" for tx i rows
      using assms by (intro deletion_elsewhere.withProjectionTransaction_rel) (simp add: othersKeep_def)
  qed (auto simp: sameElsewhere_def)
  then show ?thesis by (simp add: sameElsewhere_def)
qed

section \<open>Undisturbed transactions\<close>

definition undisturbed :: "OrderEnv \<Rightarrow> bool" where
  "undisturbed env \<longleftrightarrow> attemptOf env = (\<lambda>tx. quiet)"

definition replaceRow :: "OrderRow \<Rightarrow> OrderRow \<Rightarrow> OrderRow list \<Rightarrow> OrderRow list" where
  "replaceRow r r' rows = map (\<lambda>x. if x = r then r' else x) rows"

lemma updateMany_optimistic:
  assumes "orderTableOk sha rows" and "findOrder s i rows = Some r"
  shows "updateMany (optimisticOrderWhere r) f rows = (1, replaceRow r (f r) rows)"
proof -
  have d: "distinct (map orderRowId rows)" using assms(1) by (simp add: orderTableOk_def)
  have "filter (optimisticOrderWhere r) rows = [r]"
    by (rule filter_single_key [OF d]) (use findOrder_Some [OF assms(2)] in
      \<open>auto simp: optimisticOrderWhere_def\<close>)
  moreover have "map (\<lambda>x. if optimisticOrderWhere r x then f x else x) rows = replaceRow r (f r) rows"
    unfolding replaceRow_def
    by (intro map_cong refl) (auto simp: optimisticOrderWhere_def dest: same_row [OF assms])
  ultimately show ?thesis by (simp add: updateMany_def)
qed

lemma findOrder_unique:
  assumes "orderTableOk sha rows" and "r \<in> set rows" and "orderKey s i r"
  shows "findOrder s i rows = Some r"
proof -
  have "distinct (map (\<lambda>r. (orderStoreId r, wcOrderId r)) rows)"
    using assms(1) by (simp add: orderTableOk_def)
  then show ?thesis
    unfolding findOrder_def
    by (rule findFirst_unique) (use assms in \<open>auto simp: orderKey_def\<close>)
qed

lemma findOrder_replaceRow:
  assumes "orderTableOk sha rows" and "findOrder s i rows = Some r" and "orderKey s i r'"
  shows "findOrder s i (replaceRow r r' rows) = Some r'"
proof -
  have "orderKey s i (if x = r then r' else x) \<longleftrightarrow> orderKey s i x" for x
    using findOrder_Some [OF assms(2)] assms(3) by simp
  then show ?thesis
    using assms(2) unfolding findOrder_def replaceRow_def findFirst_map by simp
qed

lemma effectiveProjection_total:
  assumes "candidateOk sha p"
  shows "\<exists>q. effectiveProjection sha p mode r = Inr q"
  using assms withRemoteDeletedAt_total [of p sha "remoteDeletedAt r"]
  by (auto simp: effectiveProjection_def candidateOk_def)

text \<open>The effect of one undisturbed \<open>applyProjection\<close>, on each branch.\<close>

lemma applyProjection_Some:
  assumes env: "undisturbed env" and ok: "orderTableOk (sha256 env) rows"
    and r: "findOrder s (wcOrderId p) rows = Some r"
    and q: "effectiveProjection (sha256 env) p mode r = Inr q"
    and d: "d = decideOrderProjection (wcModifiedAt r) (projectionFingerprint r) (wcModifiedAt q)
      (projectionFingerprint q) a"
  shows "applyProjection env tx s p a mode rows =
    (Inr d, if d = Apply then replaceRow r (projectOnto q (clock env tx 1) r) rows else rows)"
proof -
  have "applyOperation env tx s p a mode 1 rows =
      Inr (d, if d = Apply then replaceRow r (projectOnto q (clock env tx 1) r) rows else rows)"
    using r q unfolding applyOperation_def applyToExisting_def effectiveProjection_def [symmetric] d
    by (simp add: updateMany_optimistic [OF ok r])
  then have "withProjectionTransaction quiet (applyOperation env tx s p a mode) rows = (Inr d,
      if d = Apply then replaceRow r (projectOnto q (clock env tx 1) r) rows else rows)"
    by (rule withProjectionTransaction_quiet_Inr)
  with env show ?thesis by (simp add: applyProjection_def undisturbed_def)
qed

lemma createOrder_faulty:
  assumes "createOrder row rows = Inl e"
  shows "e = PrismaError ''P2002''"
  using assms by (auto simp: createOrder_def split: if_splits)

lemma applyProjection_None:
  assumes env: "undisturbed env" and r: "findOrder s (wcOrderId p) rows = None"
    and c: "createOrder (newOrderRow s p (freshId env tx 1) (clock env tx 1)) rows = Inr rows'"
  shows "applyProjection env tx s p a mode rows = (Inr Apply, rows')"
proof -
  have "applyOperation env tx s p a mode 1 rows = Inr (Apply, rows')"
    using r c by (simp add: applyOperation_def)
  then have "withProjectionTransaction quiet (applyOperation env tx s p a mode) rows = (Inr Apply, rows')"
    by (rule withProjectionTransaction_quiet_Inr)
  with env show ?thesis by (simp add: applyProjection_def undisturbed_def)
qed

text \<open>Conversely, a committed \<open>applyProjection\<close> that ran undisturbed.\<close>

lemma applyProjection_committed:
  assumes "undisturbed env" and "applyProjection env tx s p a mode rows = (Inr d, rows')"
  shows "\<exists>n. applyOperation env tx s p a mode n rows = Inr (d, rows')"
  using assms transactionLoop_quiet_state
  by (auto simp: applyProjection_def undisturbed_def withProjectionTransaction_def map_sum_def
      map_prod_def split: prod.splits sum.splits)

text \<open>A candidate that is not newer than the stored row changes nothing.\<close>

lemma applyProjection_stale:
  assumes env: "undisturbed env" and ok: "orderTableOk (sha256 env) rows"
    and p: "candidateOk (sha256 env) p"
    and r: "findOrder s (wcOrderId p) rows = Some r" "wcModifiedAt p \<le> wcModifiedAt r"
  shows "\<exists>d. applyProjection env tx s p False mode rows = (Inr d, rows) \<and> d \<noteq> Apply"
proof -
  obtain q where q: "effectiveProjection (sha256 env) p mode r = Inr q"
    using effectiveProjection_total [OF p] by blast
  define d where "d = decideOrderProjection (wcModifiedAt r) (projectionFingerprint r) (wcModifiedAt q)
    (projectionFingerprint q) False"
  have "d \<noteq> Apply"
    using effectiveProjection_ok [OF p q] r(2) by (auto simp: d_def decideOrderProjection_def Let_def)
  with applyProjection_Some [OF env ok r(1) q d_def] show ?thesis by auto
qed

text \<open>Offering the same candidate again is a no-op.\<close>

lemma stored_after_apply:
  assumes ok: "orderTableOk (sha256 env) rows" and p: "candidateOk (sha256 env) p" "remoteDeletedAt p = None"
    and op: "applyOperation env tx s p a mode n rows = Inr (Apply, rows')"
  shows "\<exists>r'. findOrder s (wcOrderId p) rows' = Some r' \<and> wcModifiedAt r' = wcModifiedAt p
    \<and> (\<exists>q. effectiveProjection (sha256 env) p mode r' = Inr q
        \<and> projectionFingerprint q = projectionFingerprint r' \<and> wcModifiedAt q = wcModifiedAt r')"
  using op
proof (cases rule: applyOperation_cases)
  case created
  let ?r = "newOrderRow s p (freshId env tx n) (clock env tx n)"
  have "findOrder s (wcOrderId p) rows' = Some ?r"
    using created(1,3) by (auto simp: createOrder_Inr findOrder_def findFirst_append orderKey_def)
  moreover have "p\<lparr>remoteDeletedAt := None, projectionFingerprint := projectionFingerprint p\<rparr> = p"
    using p(2) by (cases p) simp
  then have "effectiveProjection (sha256 env) p mode ?r = Inr p"
    using p by (cases p) (auto simp: effectiveProjection_def withRemoteDeletedAt_def candidateOk_def)
  ultimately show ?thesis by auto
next
  case (updated r q)
  let ?r = "projectOnto q (clock env tx n) r"
  note f = findOrder_Some [OF updated(1)]
  from effectiveProjection_ok [OF p(1) updated(2)] have q: "wcModifiedAt q = wcModifiedAt p"
    "remoteDeletedAt q = (if mode = Preserve then remoteDeletedAt r else None)"
    using p(2) by auto
  have "findOrder s (wcOrderId p) rows' = Some ?r"
    using f unfolding updated(5) updateMany_optimistic [OF ok updated(1)] snd_conv
    by (intro findOrder_replaceRow [OF ok updated(1)]) (simp add: orderKey_def)
  moreover have "effectiveProjection (sha256 env) p mode ?r = Inr q"
    using updated(2) q by (simp add: effectiveProjection_def split: if_splits)
  ultimately show ?thesis using q by auto
qed simp

lemma applyProjection_again:
  assumes env: "undisturbed env" "undisturbed env'" "sha256 env' = sha256 env"
    and ok: "orderTableOk (sha256 env) rows"
    and p: "candidateOk (sha256 env) p" "remoteDeletedAt p = None"
    and run: "applyProjection env tx s p a mode rows = (Inr d, rows')"
  shows "applyProjection env' tx' s p a mode rows' = (Inr (if d = Apply then Noop else d), rows')"
proof -
  from applyProjection_committed [OF env(1) run] obtain n
    where op: "applyOperation env tx s p a mode n rows = Inr (d, rows')" by blast
  have ok': "orderTableOk (sha256 env') rows'" using applyOperation_ok [OF op p(1) ok] env(3) by simp
  show ?thesis
  proof (cases "d = Apply")
    case True
    from stored_after_apply [OF ok p op [unfolded True]] obtain r' q where
      r': "findOrder s (wcOrderId p) rows' = Some r'" and
      q: "effectiveProjection (sha256 env') p mode r' = Inr q"
        "projectionFingerprint q = projectionFingerprint r'" "wcModifiedAt q = wcModifiedAt r'"
      using env(3) by auto
    from applyProjection_Some [OF env(2) ok' r' q(1) refl] True q show ?thesis
      by (simp add: order_decision.replay)
  next
    case False
    from op obtain r q where "findOrder s (wcOrderId p) rows = Some r"
      "effectiveProjection (sha256 env) p mode r = Inr q" "rows' = rows"
      "d = decideOrderProjection (wcModifiedAt r) (projectionFingerprint r) (wcModifiedAt q)
         (projectionFingerprint q) a"
      by (cases rule: applyOperation_cases) (use False in auto)
    with applyProjection_Some [OF env(2) ok', of s p r mode q d a tx'] env(3) False show ?thesis by simp
  qed
qed

section \<open>Redelivery\<close>

lemma mapped_not_deleted: "mapWooCommerceOrder sha v = Inr p \<Longrightarrow> remoteDeletedAt p = None"
  using mapped_identity by blast

lemma reconcile_again:
  assumes env: "undisturbed env" "undisturbed env'" "sha256 env' = sha256 env" "fetchOrder env' = fetchOrder env"
    and ok: "orderTableOk (sha256 env) rows"
    and run: "reconcile env tx s i rows = (Inr (), rows')"
  shows "reconcile env' tx' s i rows' = (Inr (), rows')"
proof -
  from run obtain v p d where v: "fetchOrder env s i = Inr v" "mapWooCommerceOrder (sha256 env) v = Inr p"
    "wcOrderId p = i" and d: "applyProjection env tx s p True Clear rows = (Inr d, rows')"
    by (auto simp: reconcile_def reconcileAuthoritativeOrder_def map_prod_def map_sum_def
        split: sum.splits FetchFailure.splits if_splits prod.splits)
  from applyProjection_again [OF env(1-3) ok mapped_candidateOk [OF v(2)] mapped_not_deleted [OF v(2)] d]
  show ?thesis using v env by (simp add: reconcile_def reconcileAuthoritativeOrder_def)
qed

lemma reconcile_table:
  assumes "undisturbed env" "orderTableOk (sha256 env) rows" "reconcile env tx s i rows = (u, rows')"
  shows "orderTableOk (sha256 env) rows' \<and> advances rows rows'"
proof -
  have "orderTableOk (sha256 env) (snd (applyProjection env tx s p True Clear rows))
      \<and> advances rows (snd (applyProjection env tx s p True Clear rows))"
    if "mapWooCommerceOrder (sha256 env) v = Inr p" for v p
    using assms(1,2) mapped_candidateOk [OF that]
      apply_ok.withProjectionTransaction_rel [of env p "attemptOf env tx" rows tx s True Clear]
      apply_advances.withProjectionTransaction_rel [of "attemptOf env tx" rows env tx s p True Clear]
    by (simp add: undisturbed_def quiet_def quietAttempt_def keepsOk_def advances_refl applyProjection_def)
  moreover have "rows' = snd (reconcile env tx s i rows)" using assms(3) by simp
  ultimately show ?thesis
    using assms(2) advances_refl
    by (auto simp: reconcile_def reconcileAuthoritativeOrder_def split: sum.splits FetchFailure.splits)
qed

lemma advanced_row:
  assumes ok: "orderTableOk sha rows'" and r: "findOrder s i rows = Some r" and adv: "advances rows rows'"
  shows "\<exists>r'. findOrder s i rows' = Some r' \<and> wcModifiedAt r \<le> wcModifiedAt r'"
proof -
  note f = findOrder_Some [OF r]
  with adv obtain r' where "r' \<in> set rows'" "orderKey s i r'" "wcModifiedAt r \<le> wcModifiedAt r'"
    unfolding advances_def orderKey_def by metis
  with findOrder_unique [OF ok] show ?thesis by blast
qed

lemma projectDeletion_again:
  assumes env: "undisturbed env" "undisturbed env'" "sha256 env' = sha256 env"
    and ok: "orderTableOk (sha256 env) rows"
    and run: "projectDeletion env tx ev rows = (Inr (), rows')"
  shows "projectDeletion env' tx' ev rows' = (Inr (), rows')"
proof -
  let ?s = "eventStore ev" and ?t = "eventReceivedAt ev"
  from run obtain i where i: "readWooCommerceOrderId (eventPayload ev) = Inr i" and
    "withProjectionTransaction quiet (deletionOperation env tx ?s i ?t) rows = (Inr (), rows')"
    using env(1) by (auto simp: projectDeletion_def undisturbed_def map_sum_def map_prod_def
        split: sum.splits prod.splits)
  then obtain n where op: "deletionOperation env tx ?s i ?t n rows = Inr ((), rows')"
    unfolding withProjectionTransaction_def by (auto dest: transactionLoop_quiet_state)
  have "deletionOperation env' tx' ?s i ?t 1 rows' = Inr ((), rows')"
  proof (cases "findOrder ?s i rows")
    case None
    with op show ?thesis by (simp add: deletionOperation_def)
  next
    case (Some r)
    show ?thesis
    proof (cases "rows' = rows \<and> (\<exists>t. remoteDeletedAt r = Some t \<and> ?t \<le> t)")
      case True
      with Some show ?thesis by (auto simp: deletionOperation_def)
    next
      case False
      with op Some obtain h where
        "rows' = replaceRow r (r\<lparr>remoteDeletedAt := Some ?t, projectionFingerprint := h,
           lastSyncedAt := clock env tx n\<rparr>) rows"
        by (auto simp: deletionOperation_def Let_def updateMany_optimistic [OF ok Some]
            split: option.splits sum.splits if_splits)
      with findOrder_replaceRow [OF ok Some] findOrder_Some [OF Some]
      have "\<exists>r'. findOrder ?s i rows' = Some r' \<and> remoteDeletedAt r' = Some ?t"
        by (simp add: orderKey_def)
      then show ?thesis by (auto simp: deletionOperation_def)
    qed
  qed
  from withProjectionTransaction_quiet_Inr [of "deletionOperation env' tx' ?s i ?t", OF this] i env(2)
  show ?thesis by (simp add: projectDeletion_def undisturbed_def)
qed

lemma project_redelivered_mapped:
  assumes env: "undisturbed env" "undisturbed env'" "sha256 env' = sha256 env" "fetchOrder env' = fetchOrder env"
    and ok: "orderTableOk (sha256 env) rows"
    and run: "project env ev rows = (Inr (), rows')"
    and True: "eventTopic ev \<in> set ORDER_TOPICS \<and> eventTopic ev \<noteq> ''order.deleted''"
    and Inr: "mapWooCommerceOrder (sha256 env) (eventPayload ev) = Inr p"
  shows "project env' ev rows' = (Inr (), rows')"
proof -
    let ?s = "eventStore ev" and ?mode = "if eventTopic ev = ''order.restored'' then Clear else Preserve"
    note p = mapped_candidateOk [OF Inr] mapped_not_deleted [OF Inr]
    from True Inr run obtain d rows1 where a: "applyProjection env 1 ?s p False ?mode rows = (Inr d, rows1)"
      and next1: "if d = Reconcile then reconcile env 2 ?s (wcOrderId p) rows1 = (Inr (), rows') else rows' = rows1"
      by (auto simp: project_def Let_def split: prod.splits sum.splits ProjectionDecision.splits)
    have unfold: "project env' ev rows' = (case applyProjection env' 1 ?s p False ?mode rows' of
        (Inl e, rows') \<Rightarrow> (Inl e, rows')
      | (Inr Reconcile, rows') \<Rightarrow> reconcile env' 2 ?s (wcOrderId p) rows'
      | (Inr _, rows') \<Rightarrow> (Inr (), rows'))"
      using True Inr env(3) by (simp add: project_def Let_def)
    show ?thesis
    proof (cases "d = Reconcile")
      case False
      then show ?thesis
        using applyProjection_again [OF env(1-3) ok p a, of 1] next1 unfold
        by (cases d) simp_all
    next
      case rec: True
      with next1 have rec2: "reconcile env 2 ?s (wcOrderId p) rows1 = (Inr (), rows')" by simp
      from applyProjection_committed [OF env(1) a] obtain n where
        "applyOperation env 1 ?s p False ?mode n rows = Inr (d, rows1)" by blast
      then obtain r where r: "findOrder ?s (wcOrderId p) rows = Some r" "rows1 = rows"
        "wcModifiedAt p = wcModifiedAt r"
        by (cases rule: applyOperation_cases)
          (use rec effectiveProjection_ok [OF p(1)] in \<open>auto dest: order_decision.reconciled_is_tie [OF sym]\<close>)
      from reconcile_table [OF env(1) ok, of 2 ?s "wcOrderId p"] rec2 r(2)
      have ok': "orderTableOk (sha256 env') rows'" and "advances rows rows'" using env(3) by auto
      with advanced_row [OF ok' r(1)] r(3) obtain r' where
        r': "findOrder ?s (wcOrderId p) rows' = Some r'" "wcModifiedAt p \<le> wcModifiedAt r'" by auto
      have "candidateOk (sha256 env') p" using p(1) env(3) by simp
      from applyProjection_stale [OF env(2) ok' this r', of 1 ?mode] obtain d' where
        "applyProjection env' 1 ?s p False ?mode rows' = (Inr d', rows')" "d' \<noteq> Apply" by blast
      with reconcile_again [OF env ok rec2 [unfolded r(2)], of 2] unfold show ?thesis
        by (cases d') simp_all
    qed
qed

text \<open>
  C2: projecting a webhook that has already been projected changes nothing: if it succeeded on a
  consistent table, then delivering it again, at another time and with other fresh ids but the same
  store, succeeds and leaves every row, its synchronisation time included, as it was.
\<close>

theorem project_redelivered:
  assumes env: "undisturbed env" "undisturbed env'" "sha256 env' = sha256 env" "fetchOrder env' = fetchOrder env"
    and ok: "orderTableOk (sha256 env) rows"
    and run: "project env ev rows = (Inr (), rows')"
  shows "project env' ev rows' = (Inr (), rows')"
proof (cases "eventTopic ev \<in> set ORDER_TOPICS \<and> eventTopic ev \<noteq> ''order.deleted''")
  case False
  then show ?thesis
    using run projectDeletion_again [OF env(1-3) ok] by (auto simp: project_def split: if_splits)
next
  case True
  show ?thesis
  proof (cases "mapWooCommerceOrder (sha256 env) (eventPayload ev)")
    case (Inl e)
    with True run obtain i where "errWcOrderId e = Some i" "i \<noteq> []"
      "reconcile env 1 (eventStore ev) i rows = (Inr (), rows')"
      by (auto simp: project_def reconcileMappingFailure_def split: option.splits if_splits)
    with reconcile_again [OF env ok] True Inl env(3) show ?thesis
      by (simp add: project_def reconcileMappingFailure_def)
  next
    case (Inr p)
    from project_redelivered_mapped [OF env ok run True Inr] show ?thesis .
  qed
qed

section \<open>The newest webhook wins\<close>

fun projectAll :: "(OrderEnv \<times> ProjectableWebhookEvent) list \<Rightarrow> OrderRow list \<Rightarrow> OrderRow list" where
  "projectAll [] rows = rows"
| "projectAll ((env, ev) # rest) rows = projectAll rest (snd (project env ev rows))"

text \<open>An undisturbed creation or update webhook of order \<open>i\<close> of store \<open>s\<close> that maps to \<open>p\<close>.\<close>

definition updateOf ::
  "(string \<Rightarrow> string) \<Rightarrow> ProjectableStore \<Rightarrow> string \<Rightarrow> OrderEnv \<times> ProjectableWebhookEvent
     \<Rightarrow> OrderProjection \<Rightarrow> bool" where
  "updateOf sha s i e p \<longleftrightarrow>
     sha256 (fst e) = sha \<and> undisturbed (fst e) \<and> eventStore (snd e) = s
     \<and> eventTopic (snd e) \<in> {''order.created'', ''order.updated''}
     \<and> mapWooCommerceOrder sha (eventPayload (snd e)) = Inr p \<and> wcOrderId p = i"

definition orderVersion :: "OrderRow \<Rightarrow> version" where
  "orderVersion r = (wcModifiedAt r, projectionFingerprint r)"

definition projectionVersion :: "OrderProjection \<Rightarrow> version" where
  "projectionVersion p = (wcModifiedAt p, projectionFingerprint p)"

lemma truncate_newOrderRow: "OrderMapper.OrderProjection.truncate (newOrderRow s p fresh now) = p"
  by (cases p) (simp add: newOrderRow_def OrderMapper.OrderProjection.truncate_def)

lemma truncate_projectOnto:
  "wcOrderId r = wcOrderId p \<Longrightarrow> OrderMapper.OrderProjection.truncate (projectOnto p now r) = p"
  by (cases p) (simp add: projectOnto_def OrderMapper.OrderProjection.truncate_def)

lemma effectiveProjection_live:
  assumes "candidateOk sha p" "remoteDeletedAt p = None" "remoteDeletedAt r = None"
  shows "effectiveProjection sha p mode r = Inr p"
  using assms by (cases p) (auto simp: effectiveProjection_def withRemoteDeletedAt_def candidateOk_def)

text \<open>One update, on a table that holds the order in a live row.\<close>

lemma updateOf_project:
  assumes e: "updateOf sha s i e p" and ok: "orderTableOk sha rows"
    and r: "findOrder s i rows = Some r" "remoteDeletedAt r = None" and t: "wcModifiedAt p \<noteq> wcModifiedAt r"
  shows "\<exists>r'. findOrder s i (snd (project (fst e) (snd e) rows)) = Some r' \<and> remoteDeletedAt r' = None
    \<and> offer decideOrderProjection False (projectionVersion p) (Some (orderVersion r)) = Some (orderVersion r')
    \<and> (r' = r \<or> OrderMapper.OrderProjection.truncate r' = p)"
proof -
  note u = e [unfolded updateOf_def]
  note p = mapped_candidateOk mapped_not_deleted
  have c: "candidateOk sha p" "remoteDeletedAt p = None" using u p by auto
  let ?d = "decideOrderProjection (wcModifiedAt r) (projectionFingerprint r) (wcModifiedAt p)
    (projectionFingerprint p) False"
  have d: "?d \<noteq> Reconcile" using t order_decision.reconciled_is_tie by metis
  note q = effectiveProjection_live [OF c r(2)]
  have app: "applyProjection (fst e) 1 s p False Preserve rows =
      (Inr ?d, if ?d = Apply then replaceRow r (projectOnto p (clock (fst e) 1 1) r) rows else rows)"
    using applyProjection_Some [of "fst e" rows s p r Preserve p ?d False 1] u ok r q by simp
  have "snd (project (fst e) (snd e) rows)
      = (if ?d = Apply then replaceRow r (projectOnto p (clock (fst e) 1 1) r) rows else rows)"
    using u app d by (cases ?d) (auto simp: project_def ORDER_TOPICS_def)
  moreover have "findOrder s i (replaceRow r (projectOnto p now r) rows) = Some (projectOnto p now r)" for now
    using findOrder_Some [OF r(1)] by (intro findOrder_replaceRow [OF ok r(1)]) (simp add: orderKey_def)
  moreover have "wcOrderId r = wcOrderId p" using findOrder_Some [OF r(1)] u by simp
  ultimately show ?thesis
    using c(2) r by (auto simp: projectionVersion_def orderVersion_def truncate_projectOnto)
qed

lemma project_undisturbed_ok:
  assumes "undisturbed env" "orderTableOk (sha256 env) rows"
  shows "orderTableOk (sha256 env) (snd (project env ev rows))"
  using assms by (intro project_table_ok)
    (simp_all add: othersKeep_def undisturbed_def quiet_def quietAttempt_def keepsOk_def)

lemma updates_offered:
  assumes "list_all2 (updateOf sha s i) evs ps" and "orderTableOk sha rows"
    and "findOrder s i rows = Some r" and "remoteDeletedAt r = None"
    and "distinct (wcModifiedAt r # map wcModifiedAt ps)"
  shows "\<exists>r'. findOrder s i (projectAll evs rows) = Some r'
    \<and> fold (offer decideOrderProjection False) (map projectionVersion ps) (Some (orderVersion r)) = Some (orderVersion r')
    \<and> (r' = r \<or> OrderMapper.OrderProjection.truncate r' \<in> set ps)"
  using assms
proof (induction evs ps arbitrary: rows r rule: list_all2_induct)
  case (Cons e evs p ps)
  from updateOf_project [OF Cons.hyps(1) Cons.prems(1-3)] Cons.prems(4) obtain r1 where
    r1: "findOrder s i (snd (project (fst e) (snd e) rows)) = Some r1" "remoteDeletedAt r1 = None"
      "offer decideOrderProjection False (projectionVersion p) (Some (orderVersion r)) = Some (orderVersion r1)"
      "r1 = r \<or> OrderMapper.OrderProjection.truncate r1 = p" by auto
  have ok: "orderTableOk sha (snd (project (fst e) (snd e) rows))"
    using Cons.hyps(1) Cons.prems(1) project_undisturbed_ok [of "fst e"] by (auto simp: updateOf_def)
  have "wcModifiedAt r1 = wcModifiedAt r \<or> wcModifiedAt r1 = wcModifiedAt p"
    using r1(4) by (auto simp: OrderMapper.OrderProjection.truncate_def)
  with Cons.prems(4) have "distinct (wcModifiedAt r1 # map wcModifiedAt ps)" by auto
  from Cons.IH [OF ok r1(1,2) this] r1(3,4) show ?case by (cases e) auto
qed auto

text \<open>
  C1: creation and update webhooks of one order may arrive in any order: once all are projected, the
  stored row is the projection of the one with the newest modification time.
\<close>

theorem newest_webhook_wins:
  assumes evs: "list_all2 (updateOf sha s i) evs ps" and ne: "ps \<noteq> []"
    and distinct: "distinct (map wcModifiedAt ps)"
    and ok: "orderTableOk sha rows"
    and none: "findOrder s i rows = None"
    and free: "\<forall>r \<in> set rows. \<not> (orderStoreId r = storeId s \<and> wcOrderId r = i)"
    and fresh: "\<forall>e \<in> set evs. \<forall>r \<in> set rows. orderRowId r \<noteq> ''ord_'' @ freshId (fst e) 1 1"
  shows "\<exists>r p. findOrder s i (projectAll evs rows) = Some r \<and> p \<in> set ps
    \<and> OrderMapper.OrderProjection.truncate r = p \<and> (\<forall>q \<in> set ps. wcModifiedAt q \<le> wcModifiedAt p)"
proof -
  from ne evs obtain p qs e rest where ps: "ps = p # qs" and evs': "evs = e # rest"
    and e: "updateOf sha s i e p" and rest: "list_all2 (updateOf sha s i) rest qs"
    by (cases ps; cases evs) auto
  note u = e [unfolded updateOf_def]
  have c: "candidateOk sha p" "remoteDeletedAt p = None"
    using u mapped_candidateOk mapped_not_deleted by auto
  let ?r = "newOrderRow s p (freshId (fst e) 1 1) (clock (fst e) 1 1)"
  have app: "applyProjection (fst e) 1 s p False Preserve rows = (Inr Apply, rows @ [?r])"
    by (rule applyProjection_None) (use u none free fresh evs' in \<open>auto simp: createOrder_Inr\<close>)
  have step: "snd (project (fst e) (snd e) rows) = rows @ [?r]"
    using u app by (auto simp: project_def ORDER_TOPICS_def)
  have found: "findOrder s i (rows @ [?r]) = Some ?r"
    using none u by (simp add: findOrder_def findFirst_append orderKey_def)
  have "orderTableOk sha (rows @ [?r])"
    using project_undisturbed_ok [of "fst e" rows "snd e"] u ok step by simp
  from updates_offered [OF rest this found] c(2) distinct ps obtain r' where
    r': "findOrder s i (projectAll rest (rows @ [?r])) = Some r'"
      "fold (offer decideOrderProjection False) (map projectionVersion qs) (Some (orderVersion ?r)) = Some (orderVersion r')"
      "r' = ?r \<or> OrderMapper.OrderProjection.truncate r' \<in> set qs" by auto
  have all: "projectAll evs rows = projectAll rest (rows @ [?r])" using evs' step by (cases e) simp
  have trunc: "OrderMapper.OrderProjection.truncate r' \<in> set ps"
    using r'(3) by (auto simp: ps truncate_newOrderRow)
  have newest: "wcModifiedAt q \<le> wcModifiedAt r'" if "q \<in> set ps" for q
    using order_decision.offers_newest [OF r'(2)] that
    by (auto simp: ps projectionVersion_def orderVersion_def)
  have "wcModifiedAt (OrderMapper.OrderProjection.truncate r') = wcModifiedAt r'"
    by (simp add: OrderMapper.OrderProjection.truncate_def)
  with r'(1) all trunc newest show ?thesis by metis
qed

section \<open>Failures\<close>

lemma undisturbed_failure:
  assumes "transactionLoop left attempt quiet op db = (Inl e, db')"
  shows "db' = db"
  using assms
proof (induction left arbitrary: attempt)
  case (Suc left)
  then show ?case
    by (cases "op attempt db") (auto simp: quiet_def split: if_splits)
qed simp

lemma applyProjection_failed:
  assumes "undisturbed env" and "applyProjection env tx s p a mode rows = (Inl e, rows')"
  shows "rows' = rows \<and> (\<exists>x. e = TransactionFailed x)"
  using assms undisturbed_failure
  by (auto simp: applyProjection_def undisturbed_def withProjectionTransaction_def map_sum_def
      map_prod_def split: prod.splits sum.splits)

lemma applyProjection_kept:
  assumes "undisturbed env" and "applyProjection env tx s p a mode rows = (Inr d, rows')" and "d \<noteq> Apply"
  shows "rows' = rows"
  using applyProjection_committed [OF assms(1,2)] assms(3) by (auto elim: applyOperation_cases)

definition markedRetryable :: "OrderProjectionError \<Rightarrow> bool" where
  "markedRetryable e = (case e of OrderProjectionFailure c m b \<Rightarrow> b | TransactionFailed x \<Rightarrow> False)"

text \<open>
  The order whose state a projection asks the store for: the webhook does not map but names an order, or it
  ties with the stored row at another fingerprint.
\<close>

definition askedOrder :: "OrderEnv \<Rightarrow> ProjectableWebhookEvent \<Rightarrow> OrderRow list \<Rightarrow> string option" where
  "askedOrder env ev rows =
     (if eventTopic ev \<notin> {''order.created'', ''order.updated'', ''order.restored''} then None
      else case mapWooCommerceOrder (sha256 env) (eventPayload ev) of
             Inl e \<Rightarrow> (case errWcOrderId e of Some i \<Rightarrow> if i = [] then None else Some i | None \<Rightarrow> None)
           | Inr p \<Rightarrow>
               (case findOrder (eventStore ev) (wcOrderId p) rows of
                  None \<Rightarrow> None
                | Some r \<Rightarrow>
                    (case effectiveProjection (sha256 env) p
                        (if eventTopic ev = ''order.restored'' then Clear else Preserve) r of
                       Inl e \<Rightarrow> None
                     | Inr q \<Rightarrow>
                         if wcModifiedAt q = wcModifiedAt r \<and> projectionFingerprint q \<noteq> projectionFingerprint r
                         then Some (wcOrderId p) else None)))"

text \<open>What a failed read of the store makes of the projection.\<close>

definition storeFailure :: "FetchFailure \<Rightarrow> OrderProjectionError" where
  "storeFailure f =
     (case f of
        ClientError c \<Rightarrow> OrderProjectionFailure c (''woocommerce-'' @ categoryText c) (c \<in> {Transport, RateLimited, Timeout})
      | OtherFetchError \<Rightarrow> OrderProjectionFailure Unexpected ''woocommerce-unexpected'' False)"

lemma tie_reconciles: "decideOrderProjection t f t' f' False = Reconcile \<longleftrightarrow> t' = t \<and> f' \<noteq> f"
  by (auto simp: decideOrderProjection_def Let_def)

lemma reconcile_read_failed: "fetchOrder env s i = Inl f \<Longrightarrow> reconcile env tx s i rows = (Inl (storeFailure f), rows)"
  by (cases f) (auto simp: reconcile_def storeFailure_def retryableCategory_def)

lemma reconcile_read:
  assumes "undisturbed env" and "fetchOrder env s i = Inr v" and "reconcile env tx s i rows = (Inl e, rows')"
  shows "rows' = rows \<and> \<not> markedRetryable e"
  using assms applyProjection_failed [OF assms(1)]
  by (fastforce simp: reconcile_def reconcileAuthoritativeOrder_def markedRetryable_def map_prod_def map_sum_def
      split: sum.splits prod.splits if_splits)

lemma applyProjection_reconciles:
  assumes env: "undisturbed env" and r: "findOrder s (wcOrderId p) rows = Some r"
    and q: "effectiveProjection (sha256 env) p mode r = Inr q"
    and tie: "wcModifiedAt q = wcModifiedAt r" "projectionFingerprint q \<noteq> projectionFingerprint r"
  shows "applyProjection env tx s p False mode rows = (Inr Reconcile, rows)"
proof -
  have "decideOrderProjection (wcModifiedAt r) (projectionFingerprint r) (wcModifiedAt q)
      (projectionFingerprint q) False = Reconcile" using tie by (simp add: tie_reconciles)
  then have "applyOperation env tx s p False mode 1 rows = Inr (Reconcile, rows)"
    using r q by (simp add: applyOperation_def applyToExisting_def effectiveProjection_def [symmetric])
  from withProjectionTransaction_quiet_Inr [of "applyOperation env tx s p False mode", OF this] env
  show ?thesis by (simp add: applyProjection_def undisturbed_def)
qed

lemma project_asks:
  assumes env: "undisturbed env" and i: "askedOrder env ev rows = Some i"
  shows "\<exists>tx. project env ev rows = reconcile env tx (eventStore ev) i rows"
proof (cases "mapWooCommerceOrder (sha256 env) (eventPayload ev)")
  case (Inl e)
  with i show ?thesis
    by (auto simp: askedOrder_def project_def ORDER_TOPICS_def reconcileMappingFailure_def
        split: if_splits option.splits)
next
  case (Inr p)
  let ?mode = "if eventTopic ev = ''order.restored'' then Clear else Preserve"
  from i Inr obtain r q where "findOrder (eventStore ev) (wcOrderId p) rows = Some r"
    "effectiveProjection (sha256 env) p ?mode r = Inr q" "wcModifiedAt q = wcModifiedAt r"
    "projectionFingerprint q \<noteq> projectionFingerprint r" "i = wcOrderId p"
    by (auto simp: askedOrder_def split: if_splits option.splits sum.splits)
  with applyProjection_reconciles [OF env, of "eventStore ev" p rows r ?mode q 1] Inr i show ?thesis
    by (auto simp: askedOrder_def project_def ORDER_TOPICS_def Let_def split: if_splits)
qed

lemma project_unasked:
  assumes env: "undisturbed env" and i: "askedOrder env ev rows = None"
    and run: "project env ev rows = (Inl e, rows')"
  shows "rows' = rows \<and> \<not> markedRetryable e"
proof (cases "eventTopic ev = ''order.deleted''")
  case True
  with run show ?thesis
    using env undisturbed_failure
    by (auto simp: project_def ORDER_TOPICS_def projectDeletion_def undisturbed_def markedRetryable_def
        withProjectionTransaction_def map_prod_def map_sum_def split: sum.splits prod.splits)
next
  case False
  with run have topic: "eventTopic ev \<in> {''order.created'', ''order.updated'', ''order.restored''}"
    by (auto simp: project_def ORDER_TOPICS_def split: if_splits)
  show ?thesis
  proof (cases "mapWooCommerceOrder (sha256 env) (eventPayload ev)")
    case (Inl x)
    with run False topic i show ?thesis
      by (auto simp: askedOrder_def project_def ORDER_TOPICS_def reconcileMappingFailure_def markedRetryable_def
          split: option.splits if_splits)
  next
    case p: (Inr p)
    let ?mode = "if eventTopic ev = ''order.restored'' then Clear else Preserve"
    obtain o1 rows1 where a: "applyProjection env 1 (eventStore ev) p False ?mode rows = (o1, rows1)" by force
    have "o1 \<noteq> Inr Reconcile"
    proof
      assume "o1 = Inr Reconcile"
      with applyProjection_committed [OF env] a obtain n where
        "applyOperation env 1 (eventStore ev) p False ?mode n rows = Inr (Reconcile, rows1)" by blast
      then show False
        by (cases rule: applyOperation_cases) (use i p topic in \<open>auto simp: askedOrder_def tie_reconciles eq_commute [of Reconcile] split: if_splits\<close>)
    qed
    with run topic p a have "o1 = Inl e \<and> rows' = rows1"
      by (cases o1) (auto simp: project_def ORDER_TOPICS_def Let_def split: ProjectionDecision.splits)
    with applyProjection_failed [OF env, of 1 "eventStore ev" p False ?mode rows e rows1] a show ?thesis
      by (auto simp: markedRetryable_def)
  qed
qed

text \<open>
  C12: a projection that fails has changed nothing, and the failure says truly whether a retry can help: it is
  marked retryable exactly when the projection asked the store for the order and the store's API failed with
  the category transport, rate limit or timeout. A failed read always fails the projection, with the category
  and the code of the failure.
\<close>

theorem failed_projection_changes_nothing:
  assumes env: "undisturbed env"
  shows "(\<forall>e rows'. project env ev rows = (Inl e, rows') \<longrightarrow> rows' = rows
      \<and> (markedRetryable e \<longleftrightarrow> (\<exists>i c. askedOrder env ev rows = Some i
            \<and> fetchOrder env (eventStore ev) i = Inl (ClientError c) \<and> c \<in> {Transport, RateLimited, Timeout})))
    \<and> (\<forall>i f. askedOrder env ev rows = Some i \<and> fetchOrder env (eventStore ev) i = Inl f \<longrightarrow>
        project env ev rows = (Inl (storeFailure f), rows))"
proof (cases "askedOrder env ev rows")
  case None
  with project_unasked [OF env None] show ?thesis by auto
next
  case (Some i)
  from project_asks [OF env Some] obtain tx where tx: "project env ev rows = reconcile env tx (eventStore ev) i rows" ..
  show ?thesis
  proof (cases "fetchOrder env (eventStore ev) i")
    case (Inl f)
    with reconcile_read_failed [OF Inl] Some tx show ?thesis
      by (auto simp: storeFailure_def markedRetryable_def split: FetchFailure.splits)
  next
    case (Inr v)
    with reconcile_read [OF env Inr] Some tx show ?thesis by auto
  qed
qed

section \<open>The deletion mark\<close>

text \<open>
  C11: a newer creation, update or restoration of a stored order replaces its projection; the deletion
  mark survives a creation or update and is cleared by a restoration, and the fingerprint is
  recomputed for the mark kept.
\<close>

theorem newer_webhook_replaces:
  assumes env: "undisturbed env" and ok: "orderTableOk (sha256 env) rows"
    and t: "eventTopic ev \<in> {''order.created'', ''order.updated'', ''order.restored''}"
    and p: "mapWooCommerceOrder (sha256 env) (eventPayload ev) = Inr p"
    and r: "findOrder (eventStore ev) (wcOrderId p) rows = Some r" "wcModifiedAt r < wcModifiedAt p"
  shows "\<exists>r' h. findOrder (eventStore ev) (wcOrderId p) (snd (project env ev rows)) = Some r'
    \<and> orderRowId r' = orderRowId r
    \<and> OrderMapper.OrderProjection.truncate r' = p\<lparr>remoteDeletedAt :=
          (if eventTopic ev = ''order.restored'' then None else remoteDeletedAt r),
        projectionFingerprint := h\<rparr>
    \<and> orderProjectionFingerprint (sha256 env) r' = Inr h
    \<and> fst (project env ev rows) = Inr ()"
proof -
  let ?s = "eventStore ev" and ?mode = "if eventTopic ev = ''order.restored'' then Clear else Preserve"
  note c = mapped_candidateOk [OF p] mapped_not_deleted [OF p]
  obtain q where q: "effectiveProjection (sha256 env) p ?mode r = Inr q"
    using effectiveProjection_total [OF c(1)] by blast
  note q' = effectiveProjection_ok [OF c(1) q]
  have qf: "q = p\<lparr>remoteDeletedAt := (if eventTopic ev = ''order.restored'' then None else remoteDeletedAt r),
      projectionFingerprint := projectionFingerprint q\<rparr>"
    using q c(2) by (cases p)
      (auto simp: effectiveProjection_def withRemoteDeletedAt_def andThen_Inr_iff split: if_splits)
  have d: "Apply = decideOrderProjection (wcModifiedAt r) (projectionFingerprint r) (wcModifiedAt q)
      (projectionFingerprint q) False"
    using q' r(2) order_decision.newer by simp
  let ?r = "projectOnto q (clock env 1 1) r"
  have app: "applyProjection env 1 ?s p False ?mode rows = (Inr Apply, replaceRow r ?r rows)"
    using applyProjection_Some [OF env ok r(1) q d, of 1] by simp
  have key: "orderKey ?s (wcOrderId p) ?r" "wcOrderId r = wcOrderId q"
    using findOrder_Some [OF r(1)] q' by (simp_all add: orderKey_def)
  have "project env ev rows = (Inr (), replaceRow r ?r rows)"
    using app t p by (auto simp: project_def Let_def ORDER_TOPICS_def)
  moreover have "orderProjectionFingerprint (sha256 env) ?r = Inr (projectionFingerprint q)"
    using q' projectOnto_ok [of "sha256 env" q r] key(2) by (simp add: orderRowOk_def)
  ultimately show ?thesis
    using findOrder_replaceRow [OF ok r(1) key(1)] truncate_projectOnto [OF key(2)] qf by auto
qed

section \<open>Conflicts\<close>

lemma effectiveProjection_shape:
  assumes "candidateOk sha p" "remoteDeletedAt p = None" and "effectiveProjection sha p mode r = Inr q"
  shows "q = p\<lparr>remoteDeletedAt := (if mode = Clear then None else remoteDeletedAt r),
    projectionFingerprint := projectionFingerprint q\<rparr>"
  using assms by (cases p; cases mode)
    (auto simp: effectiveProjection_def withRemoteDeletedAt_def andThen_Inr_iff split: if_splits)

text \<open>What one attempt does to the table it sees, when no uniqueness constraint and no tie stands in its way.\<close>

lemma applyOperation_decides:
  assumes p: "candidateOk (sha256 env) p" "remoteDeletedAt p = None" and ok: "orderTableOk (sha256 env) rows"
    and fits: "\<And>r. r \<in> set rows \<Longrightarrow> orderRowId r \<noteq> ''ord_'' @ freshId env tx n
      \<and> (orderStoreId r = storeId s \<longrightarrow> orderTenantId r = storeTenantId s)"
    and noTie: "\<And>r. findOrder s (wcOrderId p) rows = Some r \<Longrightarrow> wcModifiedAt r \<noteq> wcModifiedAt p"
  shows "\<exists>d rows' r'. applyOperation env tx s p False mode n rows = Inr (d, rows') \<and> d \<noteq> Reconcile
    \<and> findOrder s (wcOrderId p) rows' = Some r'
    \<and> (case findOrder s (wcOrderId p) rows of
         None \<Rightarrow> rows' = rows @ [r'] \<and> OrderMapper.OrderProjection.truncate r' = p
       | Some r \<Rightarrow> if wcModifiedAt p < wcModifiedAt r then rows' = rows
           else rows' = replaceRow r r' rows \<and> orderRowId r' = orderRowId r \<and> (\<exists>h. OrderMapper.OrderProjection.truncate r' =
             p\<lparr>remoteDeletedAt := (if mode = Clear then None else remoteDeletedAt r), projectionFingerprint := h\<rparr>))"
proof (cases "findOrder s (wcOrderId p) rows")
  case None
  let ?r = "newOrderRow s p (freshId env tx n) (clock env tx n)"
  have "\<not> (orderStoreId r = storeId s \<and> wcOrderId r = wcOrderId p)" if "r \<in> set rows" for r
    using None fits [OF that] that by (auto simp: findOrder_def row_simps orderKey_def)
  with fits have "createOrder ?r rows = Inr (rows @ [?r])" by (auto simp: createOrder_Inr)
  moreover have "findOrder s (wcOrderId p) (rows @ [?r]) = Some ?r"
    using None by (simp add: findOrder_def findFirst_append orderKey_def)
  ultimately show ?thesis
    using None truncate_newOrderRow
    by (intro exI [of _ Apply] exI [of _ "rows @ [?r]"] exI [of _ ?r]) (simp add: applyOperation_def)
next
  case (Some r)
  obtain q where q: "effectiveProjection (sha256 env) p mode r = Inr q"
    using effectiveProjection_total [OF p(1)] by blast
  note q' = effectiveProjection_ok [OF p(1) q]
  have run: "applyOperation env tx s p False mode n rows
      = applyToExisting (sha256 env) p False mode (clock env tx n) r rows" using Some by (simp add: applyOperation_def)
  show ?thesis
  proof (cases "wcModifiedAt p < wcModifiedAt r")
    case True
    then have "Noop = decideOrderProjection (wcModifiedAt r) (projectionFingerprint r) (wcModifiedAt q)
        (projectionFingerprint q) False" using q' by (simp add: decideOrderProjection_def)
    then have "applyToExisting (sha256 env) p False mode (clock env tx n) r rows = Inr (Noop, rows)"
      unfolding applyToExisting_Inr using q by auto
    with Some True run show ?thesis by auto
  next
    case False
    with noTie [OF Some] have "Apply = decideOrderProjection (wcModifiedAt r) (projectionFingerprint r)
        (wcModifiedAt q) (projectionFingerprint q) False" using q' by (simp add: decideOrderProjection_def)
    moreover define r' where "r' = projectOnto q (clock env tx n) r"
    ultimately have "applyToExisting (sha256 env) p False mode (clock env tx n) r rows
        = Inr (Apply, replaceRow r r' rows)"
      unfolding applyToExisting_Inr using q by (auto simp: updateMany_optimistic [OF ok Some])
    moreover have "findOrder s (wcOrderId p) (replaceRow r r' rows) = Some r'"
      using findOrder_Some [OF Some] unfolding r'_def
      by (intro findOrder_replaceRow [OF ok Some]) (simp add: orderKey_def)
    moreover have "orderRowId r' = orderRowId r" by (simp add: r'_def)
    moreover have "OrderMapper.OrderProjection.truncate r' = q"
      unfolding r'_def using findOrder_Some [OF Some] q' by (intro truncate_projectOnto) simp
    ultimately show ?thesis
      using Some False run effectiveProjection_shape [OF p q]
      by (intro exI [of _ Apply] exI [of _ "replaceRow r r' rows"] exI [of _ r']) auto
  qed
qed


section \<open>Sample runs\<close>

definition demoStore :: ProjectableStore where
  "demoStore = \<lparr>storeId = ''st1'', storeTenantId = ''t1''\<rparr>"

definition demoEnv :: OrderEnv where
  "demoEnv = \<lparr>sha256 = (\<lambda>t. t), fetchOrder = (\<lambda>s i. Inl (ClientError RateLimited)),
     attemptOf = (\<lambda>tx. quiet), clock = (\<lambda>tx n. 1782990000000), freshId = (\<lambda>tx n. ''a'')\<rparr>"

definition demoEvent :: "string \<Rightarrow> json \<Rightarrow> ProjectableWebhookEvent" where
  "demoEvent topic payload = \<lparr>eventId = ''evt'', eventTopic = topic, eventPayload = payload,
     eventReceivedAt = 1782990000000, eventStore = demoStore\<rparr>"

definition earlyEvent :: ProjectableWebhookEvent where
  "earlyEvent = demoEvent ''order.created'' (JObj sampleOrder)"

definition lateEvent :: ProjectableWebhookEvent where
  "lateEvent = demoEvent ''order.updated'' (JObj (sampleOrderAt ''2026-07-02T10:05:00''))"

lemma demoEnv_simps [simp]:
  "sha256 demoEnv = (\<lambda>t. t)" "attemptOf demoEnv = (\<lambda>tx. quiet)" "freshId demoEnv tx n = ''a''"
  "undisturbed demoEnv"
  by (simp_all add: demoEnv_def undisturbed_def)

lemma demo_othersKeep: "(\<And>a. rel a a) \<Longrightarrow> othersKeep demoEnv rel"
  by (simp add: othersKeep_def quiet_def quietAttempt_def)

lemma empty_table_ok [simp]: "orderTableOk sha []"
  by (simp add: orderTableOk_def)

lemma early_created:
  "\<exists>p. updateOf (\<lambda>t. t) demoStore ''42'' (demoEnv, earlyEvent) p \<and> wcModifiedAt p = 1782900300000 \<and>
     project demoEnv earlyEvent [] = (Inr (), [newOrderRow demoStore p ''a'' (clock demoEnv 1 1)])"
proof -
  obtain p where p: "mapWooCommerceOrder (\<lambda>t. t) (JObj sampleOrder) = Inr p" "wcOrderId p = ''42''"
    "wcModifiedAt p = 1782900300000" using sampleOrder_maps by blast
  have "applyProjection demoEnv 1 demoStore p False Preserve []
      = (Inr Apply, [newOrderRow demoStore p ''a'' (clock demoEnv 1 1)])"
    by (rule applyProjection_None) (simp_all add: findOrder_def findFirst_def createOrder_Inr)
  with p show ?thesis
    by (auto simp: updateOf_def earlyEvent_def demoEvent_def project_def ORDER_TOPICS_def)
qed

lemma late_update:
  "\<exists>p. updateOf (\<lambda>t. t) demoStore ''42'' (demoEnv, lateEvent) p \<and> wcModifiedAt p = 1782986700000"
  using laterOrder_maps [of "\<lambda>t. t"] by (auto simp: updateOf_def lateEvent_def demoEvent_def)

theorem project_never_goes_back_witness:
  "\<exists>rows. rows \<noteq> [] \<and> snd (project demoEnv earlyEvent []) = rows \<and> advances rows (snd (project demoEnv lateEvent rows))"
  using early_created project_never_goes_back [OF demo_othersKeep [OF advances_refl]] by auto

theorem project_keeps_table_ok_witness:
  "orderTableOk (\<lambda>t. t) (snd (project demoEnv earlyEvent []))"
  using project_keeps_table_ok [OF demo_othersKeep, of "[]" earlyEvent] by (simp add: keepsOk_def)

theorem project_touches_own_store_only_witness:
  "otherStores demoStore (snd (project demoEnv earlyEvent [])) = []"
  using project_touches_own_store_only [OF demo_othersKeep, of earlyEvent "[]"]
  by (simp add: sameElsewhere_def earlyEvent_def demoEvent_def otherStores_def)

theorem project_redelivered_witness:
  "\<exists>rows. rows \<noteq> [] \<and> project demoEnv earlyEvent [] = (Inr (), rows)
     \<and> project demoEnv earlyEvent rows = (Inr (), rows)"
  using early_created project_redelivered [of demoEnv demoEnv "[]" earlyEvent] by auto

theorem newest_webhook_wins_witness:
  "\<exists>r p. findOrder demoStore ''42'' (projectAll [(demoEnv, lateEvent), (demoEnv, earlyEvent)] []) = Some r
     \<and> wcModifiedAt p = 1782986700000 \<and> OrderMapper.OrderProjection.truncate r = p"
proof -
  obtain p q where p: "updateOf (\<lambda>t. t) demoStore ''42'' (demoEnv, earlyEvent) p" "wcModifiedAt p = 1782900300000"
    and q: "updateOf (\<lambda>t. t) demoStore ''42'' (demoEnv, lateEvent) q" "wcModifiedAt q = 1782986700000"
    using early_created late_update by blast
  have "\<exists>r p'. findOrder demoStore ''42'' (projectAll [(demoEnv, lateEvent), (demoEnv, earlyEvent)] []) = Some r
      \<and> p' \<in> set [q, p] \<and> OrderMapper.OrderProjection.truncate r = p'
      \<and> (\<forall>x \<in> set [q, p]. wcModifiedAt x \<le> wcModifiedAt p')"
    by (rule newest_webhook_wins [where sha = "\<lambda>t. t"])
      (use p q in \<open>simp_all add: findOrder_def findFirst_def\<close>)
  with p q show ?thesis by auto
qed

definition brokenEvent :: ProjectableWebhookEvent where
  "brokenEvent = demoEvent ''order.updated'' (JObj [(''id'', JNum (NInt 42))])"

lemma broken_run:
  "project demoEnv brokenEvent [] =
     (Inl (OrderProjectionFailure RateLimited ''woocommerce-rate-limited'' True), [])"
  by (simp add: brokenEvent_def demoEvent_def project_def ORDER_TOPICS_def mapWooCommerceOrder_def
      readWooCommerceOrderId_def requireRecord_def normalizeWcId_def wcIdPattern_def mapOrderBody_def
      TOTAL_FIELDS_def reconcileMappingFailure_def reconcile_def retryableCategory_def demoEnv_def
      eval_simps)

theorem failed_projection_changes_nothing_witness:
  "undisturbed demoEnv \<and> (\<exists>e. project demoEnv brokenEvent [] = (Inl e, []) \<and> markedRetryable e)
     \<and> (\<exists>i c. askedOrder demoEnv brokenEvent [] = Some i \<and> c \<in> {Transport, RateLimited, Timeout}
         \<and> fetchOrder demoEnv (eventStore brokenEvent) i = Inl (ClientError c))"
  using failed_projection_changes_nothing [of demoEnv brokenEvent "[]"] broken_run
  by (auto simp: markedRetryable_def)

text \<open>Two serialisation failures, between them another process stores the order, then an attempt that runs.\<close>

definition busyEnv :: OrderEnv where
  "busyEnv = demoEnv\<lparr>freshId := (\<lambda>tx n. ''b''), attemptOf := (\<lambda>tx n.
     \<lparr>interference = (\<lambda>rows. if n = 2 then snd (project demoEnv earlyEvent rows) else rows),
      databaseFault = (if n < 3 then Some ''P2034'' else None)\<rparr>)\<rparr>"

lemma busyEnv_seen: "seenAt (attemptOf busyEnv 1) [] 3 = snd (project demoEnv earlyEvent [])"
  by (simp add: busyEnv_def numeral_3_eq_3)


theorem newer_webhook_replaces_witness:
  "\<exists>rows r'. project demoEnv earlyEvent [] = (Inr (), rows) \<and>
     findOrder demoStore ''42'' (snd (project demoEnv lateEvent rows)) = Some r' \<and> wcModifiedAt r' = 1782986700000"
proof -
  obtain p where p: "updateOf (\<lambda>t. t) demoStore ''42'' (demoEnv, earlyEvent) p" "wcModifiedAt p = 1782900300000"
    "project demoEnv earlyEvent [] = (Inr (), [newOrderRow demoStore p ''a'' (clock demoEnv 1 1)])"
    using early_created by blast
  obtain q where q: "updateOf (\<lambda>t. t) demoStore ''42'' (demoEnv, lateEvent) q" "wcModifiedAt q = 1782986700000"
    using late_update by blast
  let ?r = "newOrderRow demoStore p ''a'' (clock demoEnv 1 1)"
  have st: "eventStore lateEvent = demoStore" by (simp add: lateEvent_def demoEvent_def)
  have "orderTableOk (\<lambda>t. t) [?r]" using project_table_ok [OF demo_othersKeep, of "[]" earlyEvent] p(3)
    by (simp add: keepsOk_def)
  moreover have "findOrder demoStore (wcOrderId q) [?r] = Some ?r"
    using p(1) q(1) by (simp add: findOrder_def orderKey_def updateOf_def)
  ultimately have "\<exists>r' h. findOrder demoStore (wcOrderId q) (snd (project demoEnv lateEvent [?r])) = Some r'
      \<and> orderRowId r' = orderRowId ?r
      \<and> OrderMapper.OrderProjection.truncate r' = q\<lparr>remoteDeletedAt :=
          (if eventTopic lateEvent = ''order.restored'' then None else remoteDeletedAt ?r),
        projectionFingerprint := h\<rparr>
      \<and> orderProjectionFingerprint (sha256 demoEnv) r' = Inr h
      \<and> fst (project demoEnv lateEvent [?r]) = Inr ()"
    unfolding st [symmetric] by (intro newer_webhook_replaces) (use p q in \<open>auto simp: updateOf_def\<close>)
  then obtain r' h where "findOrder demoStore (wcOrderId q) (snd (project demoEnv lateEvent [?r])) = Some r'"
    "OrderMapper.OrderProjection.truncate r' = q\<lparr>remoteDeletedAt :=
          (if eventTopic lateEvent = ''order.restored'' then None else remoteDeletedAt ?r),
        projectionFingerprint := h\<rparr>" by blast
  moreover from this(2) have "wcModifiedAt (OrderMapper.OrderProjection.truncate r') = wcModifiedAt q" by simp
  then have "wcModifiedAt r' = wcModifiedAt q" by (simp add: OrderMapper.OrderProjection.truncate_def)
  moreover have "wcOrderId q = ''42''" using q(1) by (simp add: updateOf_def)
  ultimately show ?thesis using p(3) q(2) by auto
qed

end
