(* ===== verification/WebhookProcessor.thy ===== *)
theory WebhookProcessor
  imports OrderProjection InventoryProjection
begin

text \<open>
  \<open>backend/src/queue/woocommerce-webhook.processor.ts\<close>: the worker that claims a stored webhook event
  under a lease, projects it, and records the outcome. The first part is the handler, statement by
  statement, with what other processes commit before each statement as a parameter (\<open>others\<close>); the
  projections and the schedulers it calls are the fields of \<open>Work\<close>. The second part lets any number of
  workers, the ingestion and the dead-letter handler interleave, as a step relation over the events table.
\<close>

datatype WebhookEventStatus = RECEIVED | QUEUED | PROCESSING | COMPLETED | FAILED

record EventRow =
  evId :: string
  evTenantId :: string
  evStoreId :: string
  evWebhookId :: string
  evDeliveryId :: string
  evDedupeKey :: string
  evTopic :: string
  evPayload :: json
  evStatus :: WebhookEventStatus
  evReceivedAt :: date
  evQueuedAt :: "date option"
  evProcessingStartedAt :: "date option"
  evAttemptCount :: nat
  evFailureCategory :: "WooCommerceErrorCategory option"
  evFailureMessage :: "string option"
  evLastFailureAt :: "date option"
  evCompletedAt :: "date option"
  evFailedAt :: "date option"

record StoreRow =
  stId :: string
  stTenantId :: string
  stActive :: bool
  stDeletedAt :: "date option"
  stTenantDeletedAt :: "date option"
  stEndpointKey :: "string option"
  stWebhookSecret :: "string option"

record EventDb =
  events :: "EventRow list"
  storeRows :: "StoreRow list"

datatype JobError = UnrecoverableError string | JobError string

record JobResult =
  resultEventId :: string
  resultTenantId :: string
  resultStoreId :: string

text \<open>What a projection or a scheduler throws: a projection failure, or anything else.\<close>

datatype WorkError = ProjectionFailure WooCommerceErrorCategory string bool | OtherWorkError string

section \<open>Job data\<close>

definition identityPattern :: "string \<Rightarrow> string \<Rightarrow> bool" where
  "identityPattern prefix s \<longleftrightarrow> startsWith prefix s \<and> 1 \<le> length (drop (length prefix) s)
     \<and> length (drop (length prefix) s) \<le> 60
     \<and> list_all (\<lambda>c. isAlnum c \<or> c = CHR ''-'') (drop (length prefix) s)"

definition identityField :: "jsobject \<Rightarrow> string \<Rightarrow> string \<Rightarrow> string \<Rightarrow> JobError + string" where
  "identityField r key prefix message =
     (case field r key of
        Some (JStr s) \<Rightarrow> if identityPattern prefix s then Inr s else Inl (UnrecoverableError message)
      | _ \<Rightarrow> Inl (UnrecoverableError message))"

text \<open>An array has no such members, so it fails at the first of them.\<close>

definition validateWooCommerceWebhookJobData :: "json \<Rightarrow> JobError + JobResult" where
  "validateWooCommerceWebhookJobData v =
     andThen (case v of
        JObj r \<Rightarrow> Inr r
      | JArr xs \<Rightarrow> Inr []
      | _ \<Rightarrow> Inl (UnrecoverableError ''WooCommerce webhook job payload must be an object'')) (\<lambda>r.
     andThen (identityField r ''webhookEventId'' ''evt_''
       ''WooCommerce webhook event identity is required and must be valid'') (\<lambda>e.
     andThen (identityField r ''tenantId'' ''ten_''
       ''WooCommerce webhook tenant identity is required and must be valid'') (\<lambda>t.
     andThen (identityField r ''storeId'' ''sto_''
       ''WooCommerce webhook Store identity is required and must be valid'') (\<lambda>s.
     Inr \<lparr>resultEventId = e, resultTenantId = t, resultStoreId = s\<rparr>))))"

section \<open>The statements of the handler\<close>

definition WEBHOOK_PROCESSING_LEASE_TTL_MS :: int where
  "WEBHOOK_PROCESSING_LEASE_TTL_MS = 30000"

definition storeUsable :: "string \<Rightarrow> string \<Rightarrow> StoreRow list \<Rightarrow> bool" where
  "storeUsable s t rows \<longleftrightarrow> list_ex (\<lambda>r. stId r = s \<and> stTenantId r = t \<and> stActive r
     \<and> stDeletedAt r = None \<and> stTenantDeletedAt r = None) rows"

definition claimable :: "date \<Rightarrow> EventRow \<Rightarrow> bool" where
  "claimable claimedAt r \<longleftrightarrow> evStatus r = RECEIVED \<or> evStatus r = QUEUED
     \<or> (evStatus r = PROCESSING \<and> (case evProcessingStartedAt r of
          Some t \<Rightarrow> t \<le> claimedAt - WEBHOOK_PROCESSING_LEASE_TTL_MS | None \<Rightarrow> False))"

text \<open>The claim also requires the event's own store, by its foreign key, to be usable.\<close>

definition claimWhere :: "JobResult \<Rightarrow> date \<Rightarrow> StoreRow list \<Rightarrow> EventRow \<Rightarrow> bool" where
  "claimWhere d claimedAt sts r \<longleftrightarrow> evId r = resultEventId d \<and> evTenantId r = resultTenantId d
     \<and> evStoreId r = resultStoreId d
     \<and> list_ex (\<lambda>s. stId s = evStoreId r \<and> stActive s \<and> stDeletedAt s = None \<and> stTenantDeletedAt s = None) sts
     \<and> claimable claimedAt r"

definition claimRow :: "date \<Rightarrow> EventRow \<Rightarrow> EventRow" where
  "claimRow claimedAt r = r\<lparr>evStatus := PROCESSING, evProcessingStartedAt := Some claimedAt,
     evAttemptCount := evAttemptCount r + 1\<rparr>"

definition leaseWhere :: "string \<Rightarrow> date \<Rightarrow> EventRow \<Rightarrow> bool" where
  "leaseWhere i claimedAt r \<longleftrightarrow> evId r = i \<and> evStatus r = PROCESSING \<and> evProcessingStartedAt r = Some claimedAt"

definition completeRow :: "date \<Rightarrow> EventRow \<Rightarrow> EventRow" where
  "completeRow now r = r\<lparr>evStatus := COMPLETED, evProcessingStartedAt := None, evCompletedAt := Some now,
     evFailureCategory := None, evFailureMessage := None, evLastFailureAt := None\<rparr>"

definition releaseRow :: "WooCommerceErrorCategory \<times> string \<Rightarrow> date \<Rightarrow> EventRow \<Rightarrow> EventRow" where
  "releaseRow diagnostic now r = r\<lparr>evStatus := QUEUED, evProcessingStartedAt := None,
     evFailureCategory := Some (fst diagnostic), evFailureMessage := Some (snd diagnostic),
     evLastFailureAt := Some now\<rparr>"

definition failRow :: "WooCommerceErrorCategory \<times> string \<Rightarrow> date \<Rightarrow> EventRow \<Rightarrow> EventRow" where
  "failRow diagnostic now r = r\<lparr>evStatus := FAILED, evProcessingStartedAt := None,
     evFailureCategory := Some (fst diagnostic), evFailureMessage := Some (snd diagnostic),
     evLastFailureAt := Some now, evFailedAt := Some now\<rparr>"

definition unfinished :: "EventRow \<Rightarrow> bool" where
  "unfinished r \<longleftrightarrow> evStatus r = RECEIVED \<or> evStatus r = QUEUED \<or> evStatus r = PROCESSING"

definition failureDiagnostic :: "WorkError option \<Rightarrow> WooCommerceErrorCategory \<times> string" where
  "failureDiagnostic e =
     (case e of
        Some (ProjectionFailure c m b) \<Rightarrow> (c, take 191 m)
      | _ \<Rightarrow> (Unexpected, ''webhook-processing-failed''))"

definition updateEvents :: "(EventRow \<Rightarrow> bool) \<Rightarrow> (EventRow \<Rightarrow> EventRow) \<Rightarrow> EventDb \<Rightarrow> nat \<times> EventDb" where
  "updateEvents P f db = map_prod id (\<lambda>rows. db\<lparr>events := rows\<rparr>) (updateMany P f (events db))"

definition failClaimed :: "string \<Rightarrow> date \<Rightarrow> WooCommerceErrorCategory \<times> string \<Rightarrow> date \<Rightarrow> EventDb \<Rightarrow> EventDb" where
  "failClaimed i claimedAt diagnostic now db = snd (updateEvents (leaseWhere i claimedAt) (failRow diagnostic now) db)"

definition releaseForRetry :: "string \<Rightarrow> date \<Rightarrow> WooCommerceErrorCategory \<times> string \<Rightarrow> date \<Rightarrow> EventDb \<Rightarrow> EventDb" where
  "releaseForRetry i claimedAt diagnostic now db =
     snd (updateEvents (leaseWhere i claimedAt) (releaseRow diagnostic now) db)"

definition markFailed :: "json \<Rightarrow> WorkError option \<Rightarrow> date \<Rightarrow> EventDb \<Rightarrow> (JobError + unit) \<times> EventDb" where
  "markFailed v e now db =
     (case validateWooCommerceWebhookJobData v of
        Inl x \<Rightarrow> (Inl x, db)
      | Inr d \<Rightarrow> (Inr (), snd (updateEvents (\<lambda>r. evId r = resultEventId d \<and> unfinished r)
                    (failRow (failureDiagnostic e) now) db)))"

definition eventResult :: "EventRow \<Rightarrow> JobResult" where
  "eventResult r = \<lparr>resultEventId = evId r, resultTenantId = evTenantId r, resultStoreId = evStoreId r\<rparr>"

definition resolveUnclaimed :: "string \<Rightarrow> date \<Rightarrow> EventDb \<Rightarrow> JobError + JobResult" where
  "resolveUnclaimed i now db =
     (case findFirst (\<lambda>r. evId r = i) (events db) of
        None \<Rightarrow> Inl (UnrecoverableError ''WooCommerce webhook event is unavailable for processing'')
      | Some r \<Rightarrow>
          if evStatus r = COMPLETED \<or> (evStatus r = PROCESSING \<and>
               (case evProcessingStartedAt r of
                  Some t \<Rightarrow> now - WEBHOOK_PROCESSING_LEASE_TTL_MS < t | None \<Rightarrow> False))
          then Inr (eventResult r)
          else if evStatus r = RECEIVED
          then Inl (JobError ''WooCommerce webhook event is not queued yet'')
          else Inl (UnrecoverableError ''WooCommerce webhook event is unavailable for processing''))"

section \<open>The handler\<close>

text \<open>\<open>'w\<close> is the part of the database the projections and the schedulers work on.\<close>

record 'w Work =
  workOrder :: "EventRow \<Rightarrow> 'w \<Rightarrow> (WorkError + unit) \<times> 'w"
  workOrderSchedule :: "EventRow \<Rightarrow> 'w \<Rightarrow> (WorkError + unit) \<times> 'w"
  workInventory :: "EventRow \<Rightarrow> 'w \<Rightarrow> (WorkError + InventoryAlertSignal list) \<times> 'w"
  workInventorySchedule :: "string \<Rightarrow> string \<Rightarrow> InventoryAlertSignal \<Rightarrow> 'w \<Rightarrow> (WorkError + unit) \<times> 'w"

record ProcessEnv =
  clockAt :: "nat \<Rightarrow> date"
  others :: "nat \<Rightarrow> EventDb \<Rightarrow> EventDb"

fun scheduleAll ::
  "'w Work \<Rightarrow> EventRow \<Rightarrow> InventoryAlertSignal list \<Rightarrow> 'w \<Rightarrow> (WorkError + unit) \<times> 'w" where
  "scheduleAll wk r [] w = (Inr (), w)"
| "scheduleAll wk r (sg # rest) w =
     (case workInventorySchedule wk (evTenantId r) (evStoreId r) sg w of
        (Inl e, w') \<Rightarrow> (Inl e, w')
      | (Inr _, w') \<Rightarrow> scheduleAll wk r rest w')"

definition runWork :: "'w Work \<Rightarrow> EventRow \<Rightarrow> 'w \<Rightarrow> (WorkError + unit) \<times> 'w" where
  "runWork wk r w =
     (if startsWith ''order.'' (evTopic r)
      then (case workOrder wk r w of
              (Inl e, w') \<Rightarrow> (Inl e, w')
            | (Inr _, w') \<Rightarrow> workOrderSchedule wk r w')
      else if startsWith ''product.'' (evTopic r)
      then (case workInventory wk r w of
              (Inl e, w') \<Rightarrow> (Inl e, w')
            | (Inr sgs, w') \<Rightarrow> scheduleAll wk r sgs w')
      else (Inr (), w))"

definition workRetryable :: "WorkError \<Rightarrow> bool" where
  "workRetryable e = (case e of ProjectionFailure c m b \<Rightarrow> b | OtherWorkError m \<Rightarrow> True)"

definition workMessage :: "WorkError \<Rightarrow> string" where
  "workMessage e = (case e of ProjectionFailure c m b \<Rightarrow> m | OtherWorkError m \<Rightarrow> m)"

definition processClaimed ::
  "ProcessEnv \<Rightarrow> 'w Work \<Rightarrow> EventRow \<Rightarrow> date \<Rightarrow> EventDb \<Rightarrow> 'w \<Rightarrow> (JobError + JobResult) \<times> EventDb \<times> 'w" where
  "processClaimed env wk r claimedAt db w =
     (case runWork wk r w of
        (Inl e, w') \<Rightarrow>
          let db' = others env 4 db
          in if workRetryable e
             then (Inl (JobError (workMessage e)),
                   releaseForRetry (evId r) claimedAt (failureDiagnostic (Some e)) (clockAt env 4) db', w')
             else (Inl (UnrecoverableError (snd (failureDiagnostic (Some e)))),
                   failClaimed (evId r) claimedAt (failureDiagnostic (Some e)) (clockAt env 4) db', w')
      | (Inr _, w') \<Rightarrow>
          let completed = updateEvents (leaseWhere (evId r) claimedAt) (completeRow (clockAt env 4)) (others env 4 db)
          in if fst completed \<noteq> 1
             then (Inl (JobError ''WooCommerce webhook lifecycle update failed''), snd completed, w')
             else (Inr (eventResult r), snd completed, w'))"

definition process ::
  "ProcessEnv \<Rightarrow> 'w Work \<Rightarrow> json \<Rightarrow> EventDb \<Rightarrow> 'w \<Rightarrow> (JobError + JobResult) \<times> EventDb \<times> 'w" where
  "process env wk v db0 w =
     (case validateWooCommerceWebhookJobData v of
        Inl e \<Rightarrow> (Inl e, db0, w)
      | Inr d \<Rightarrow>
          let claimedAt = clockAt env 0;
              db1 = others env 0 db0;
              claimed = updateEvents (claimWhere d claimedAt (storeRows db1)) (claimRow claimedAt) db1;
              db2 = others env 1 (snd claimed)
          in if fst claimed \<noteq> 1
             then (resolveUnclaimed (resultEventId d) (clockAt env 1) db2, db2, w)
             else case findFirst (\<lambda>r. evId r = resultEventId d) (events db2) of
                    None \<Rightarrow> (Inl (UnrecoverableError
                              ''WooCommerce webhook event is unavailable for processing''), db2, w)
                  | Some r \<Rightarrow>
                      let db3 = others env 2 db2
                      in if \<not> storeUsable (resultStoreId d) (resultTenantId d) (storeRows db3)
                         then (Inl (UnrecoverableError ''Store is disconnected''),
                               failClaimed (evId r) claimedAt (Unexpected, ''store-disconnected'')
                                 (clockAt env 3) (others env 3 db3), w)
                         else processClaimed env wk r claimedAt db3 w)"

section \<open>Workers, ingestion and dead letters, interleaved\<close>

text \<open>
  \<open>worldWork x w\<close> is the event a worker holds and the time of its claim. \<open>worldNow\<close> is the clock all processes
  read, which never goes back.
\<close>

record World =
  worldRows :: "EventRow list"
  worldNow :: date
  worldWork :: "nat \<Rightarrow> (string \<times> date) option"

inductive workerStep :: "World \<Rightarrow> World \<Rightarrow> bool" where
  tick: "worldNow x \<le> t \<Longrightarrow> workerStep x (x\<lparr>worldNow := t\<rparr>)"
| claim: "worldWork x w = None \<Longrightarrow> updateMany (claimWhere d (worldNow x) sts) (claimRow (worldNow x)) (worldRows x) = (1, rs)
    \<Longrightarrow> workerStep x (x\<lparr>worldRows := rs, worldWork := (worldWork x)(w := Some (resultEventId d, worldNow x))\<rparr>)"
| complete: "worldWork x w = Some (i, c) \<Longrightarrow>
    workerStep x (x\<lparr>worldRows := snd (updateMany (leaseWhere i c) (completeRow (worldNow x)) (worldRows x)),
      worldWork := (worldWork x)(w := None)\<rparr>)"
| release: "worldWork x w = Some (i, c) \<Longrightarrow>
    workerStep x (x\<lparr>worldRows := snd (updateMany (leaseWhere i c) (releaseRow diag (worldNow x)) (worldRows x)),
      worldWork := (worldWork x)(w := None)\<rparr>)"
| fail: "worldWork x w = Some (i, c) \<Longrightarrow>
    workerStep x (x\<lparr>worldRows := snd (updateMany (leaseWhere i c) (failRow diag (worldNow x)) (worldRows x)),
      worldWork := (worldWork x)(w := None)\<rparr>)"
| crash: "workerStep x (x\<lparr>worldWork := (worldWork x)(w := None)\<rparr>)"
| deadLetter: "workerStep x (x\<lparr>worldRows :=
    snd (updateMany (\<lambda>r. evId r = i \<and> unfinished r) (failRow diag (worldNow x)) (worldRows x))\<rparr>)"
| receive: "evId r \<notin> evId ` set (worldRows x) \<Longrightarrow> evStatus r = RECEIVED \<Longrightarrow> evProcessingStartedAt r = None
    \<Longrightarrow> (\<forall>w c. worldWork x w \<noteq> Some (evId r, c)) \<Longrightarrow> workerStep x (x\<lparr>worldRows := worldRows x @ [r]\<rparr>)"
| acknowledge: "workerStep x (x\<lparr>worldRows := snd (updateMany (\<lambda>r. evId r = i \<and> evStatus r = RECEIVED)
    (\<lambda>r. r\<lparr>evStatus := QUEUED, evQueuedAt := Some (worldNow x)\<rparr>) (worldRows x))\<rparr>)"

inductive reachable :: "World \<Rightarrow> bool" where
  start: "reachable \<lparr>worldRows = [], worldNow = t, worldWork = (\<lambda>w. None)\<rparr>"
| step: "reachable x \<Longrightarrow> workerStep x y \<Longrightarrow> reachable y"

inductive_cases workerStepE: "workerStep x y"

section \<open>Fencing\<close>

text \<open>
  What the lease guarantees: a worker's claim is the time on the row, or the lease had run out before
  the row was claimed again or given back; and two workers never share a claim.
\<close>

definition claimBound :: "string \<Rightarrow> date \<Rightarrow> date \<Rightarrow> EventRow \<Rightarrow> bool" where
  "claimBound i c t r \<longleftrightarrow> evId r = i \<longrightarrow>
     (case evStatus r of
        PROCESSING \<Rightarrow> (\<exists>p. evProcessingStartedAt r = Some p \<and> p \<le> t
          \<and> (p = c \<or> c + WEBHOOK_PROCESSING_LEASE_TTL_MS \<le> p))
      | RECEIVED \<Rightarrow> c + WEBHOOK_PROCESSING_LEASE_TTL_MS \<le> t
      | QUEUED \<Rightarrow> c + WEBHOOK_PROCESSING_LEASE_TTL_MS \<le> t
      | _ \<Rightarrow> True)"

definition worldOk :: "World \<Rightarrow> bool" where
  "worldOk x \<longleftrightarrow> distinct (map evId (worldRows x))
     \<and> (\<forall>w i c. worldWork x w = Some (i, c) \<longrightarrow> c \<le> worldNow x
          \<and> (\<forall>r \<in> set (worldRows x). claimBound i c (worldNow x) r))
     \<and> (\<forall>w w' i c. worldWork x w = Some (i, c) \<longrightarrow> worldWork x w' = Some (i, c) \<longrightarrow> w = w')"

lemma event_row_ids [simp]:
  "evId (claimRow t r) = evId r" "evId (completeRow t r) = evId r" "evId (releaseRow d t r) = evId r"
  "evId (failRow d t r) = evId r"
  by (simp_all add: claimRow_def completeRow_def releaseRow_def failRow_def)

lemma map_evId_updateMany:
  "(\<And>r. evId (f r) = evId r) \<Longrightarrow> map evId (snd (updateMany P f rs)) = map evId rs"
  by (simp add: updateMany_rows)

lemma set_updateMany:
  "r' \<in> set (snd (updateMany P f rs)) \<longleftrightarrow> (\<exists>r \<in> set rs. r' = (if P r then f r else r))"
  by (auto simp: updateMany_rows)

lemma claimBound_later: "claimBound i c t r \<Longrightarrow> t \<le> t' \<Longrightarrow> claimBound i c t' r"
  by (fastforce simp: claimBound_def split: WebhookEventStatus.splits)

text \<open>A worker's own write releases the row; every other worker had lost it.\<close>

lemma worldOk_write:
  assumes ok: "worldOk x" and w: "worldWork x w = Some (i, c)"
    and f: "\<And>r. evId (f r) = evId r \<and> evStatus (f r) \<in> {QUEUED, COMPLETED, FAILED}"
  shows "worldOk (x\<lparr>worldRows := snd (updateMany (leaseWhere i c) f (worldRows x)),
    worldWork := (worldWork x)(w := None)\<rparr>)"
proof -
  have "claimBound i' c' (worldNow x) (f r)"
    if "worldWork x w' = Some (i', c')" "w' \<noteq> w" "r \<in> set (worldRows x)" "leaseWhere i c r" for w' i' c' r
  proof (cases "i' = i")
    case True
    with that(1,2) ok w have "c' \<noteq> c" unfolding worldOk_def by blast
    moreover have "claimBound i' c' (worldNow x) r" using ok that unfolding worldOk_def by blast
    moreover have "c \<le> worldNow x" using ok w unfolding worldOk_def by blast
    ultimately show ?thesis using f [of r] that(4) True
      by (auto simp: claimBound_def leaseWhere_def)
  next
    case False
    with f [of r] that(4) show ?thesis by (auto simp: claimBound_def leaseWhere_def)
  qed
  moreover have "distinct (map evId (snd (updateMany (leaseWhere i c) f (worldRows x))))"
    using ok f by (simp add: worldOk_def map_evId_updateMany)
  ultimately show ?thesis
    using ok unfolding worldOk_def by (auto simp: set_updateMany split: if_splits)
qed

lemma worldOk_claim:
  assumes ok: "worldOk x" and idle: "worldWork x w = None"
    and run: "updateMany (claimWhere d (worldNow x) sts) (claimRow (worldNow x)) (worldRows x) = (1, rs)"
  shows "worldOk (x\<lparr>worldRows := rs, worldWork := (worldWork x)(w := Some (resultEventId d, worldNow x))\<rparr>)"
proof -
  let ?P = "claimWhere d (worldNow x) sts" and ?t = "worldNow x" and ?i = "resultEventId d"
  have rs: "rs = snd (updateMany ?P (claimRow ?t) (worldRows x))" using run by simp
  have dist: "distinct (map evId (worldRows x))" using ok by (simp add: worldOk_def)
  from run have "length (filter ?P (worldRows x)) = 1" by (simp add: updateMany_def)
  then obtain r0 where "filter ?P (worldRows x) = [r0]" by (auto simp: length_Suc_conv)
  then have "r0 \<in> set (filter ?P (worldRows x))" by simp
  then have r0: "r0 \<in> set (worldRows x)" "?P r0" "evId r0 = ?i" by (auto simp: claimWhere_def)
  have only: "r = r0" if "r \<in> set (worldRows x)" "evId r = ?i" for r
    using distinct_key_eq [OF dist that(1) r0(1)] that(2) r0(3) by simp
  have lost: "c + WEBHOOK_PROCESSING_LEASE_TTL_MS \<le> ?t" if "worldWork x w' = Some (?i, c)" for w' c
  proof -
    have "claimBound ?i c ?t r0" using ok that r0(1) unfolding worldOk_def by blast
    with r0(2,3) show ?thesis
      by (auto simp: claimBound_def claimWhere_def claimable_def split: WebhookEventStatus.splits option.splits)
  qed
  have bound: "claimBound i c ?t r'" if w': "((worldWork x)(w := Some (?i, ?t))) w' = Some (i, c)"
    and r': "r' \<in> set rs" for w' i c r'
  proof -
    from r' obtain r where r: "r \<in> set (worldRows x)" "r' = (if ?P r then claimRow ?t r else r)"
      by (auto simp: rs updateMany_rows)
    show ?thesis
    proof (cases "i = ?i \<and> evId r = ?i")
      case True
      with only r r0(2) have "r' = claimRow ?t r0" by auto
      then show ?thesis using True w' lost
        by (auto simp: claimBound_def claimRow_def split: if_splits)
    next
      case False
      then have "claimBound i c ?t r"
        using ok w' r(1) unfolding worldOk_def by (cases "w' = w") (auto simp: claimBound_def)
      then show ?thesis using False r(2) by (auto simp: claimBound_def claimWhere_def)
    qed
  qed
  have new: "worldWork x w' \<noteq> Some (?i, ?t)" for w'
    using lost [of w' ?t] by (auto simp: WEBHOOK_PROCESSING_LEASE_TTL_MS_def)
  have unique: "\<forall>w1 w2 i c. ((worldWork x)(w := Some (?i, ?t))) w1 = Some (i, c) \<longrightarrow>
      ((worldWork x)(w := Some (?i, ?t))) w2 = Some (i, c) \<longrightarrow> w1 = w2"
  proof (intro allI impI)
    fix w1 w2 i c
    assume a: "((worldWork x)(w := Some (?i, ?t))) w1 = Some (i, c)"
      and b: "((worldWork x)(w := Some (?i, ?t))) w2 = Some (i, c)"
    show "w1 = w2"
    proof (cases "w1 = w \<or> w2 = w")
      case True
      with a b new [of w1] new [of w2] show ?thesis by (cases "w1 = w"; cases "w2 = w") auto
    next
      case False
      with a b have "worldWork x w1 = Some (i, c)" "worldWork x w2 = Some (i, c)" by simp_all
      with ok show ?thesis unfolding worldOk_def by blast
    qed
  qed
  have d: "distinct (map evId rs)" unfolding rs using dist by (simp add: map_evId_updateMany)
  have le: "c \<le> ?t" if "((worldWork x)(w := Some (?i, ?t))) w' = Some (i, c)" for w' i c
  proof (cases "w' = w")
    case False
    with that have "worldWork x w' = Some (i, c)" by simp
    with ok show ?thesis unfolding worldOk_def by blast
  qed (use that in simp)
  obtain W where W: "W = (worldWork x)(w := Some (?i, ?t))" by simp
  show ?thesis
    unfolding worldOk_def W [symmetric]
    using d unique [folded W] le [folded W] bound [folded W] by simp
qed

lemma worldOk_status:
  assumes ok: "worldOk x"
    and f: "\<And>r. P r \<Longrightarrow> evId (f r) = evId r \<and> (evStatus (f r) = FAILED \<or> (evStatus r = RECEIVED \<and> evStatus (f r) = QUEUED))"
  shows "worldOk (x\<lparr>worldRows := snd (updateMany P f (worldRows x))\<rparr>)"
proof -
  have "map evId (snd (updateMany P f (worldRows x))) = map evId (worldRows x)"
    using f by (simp add: updateMany_rows)
  moreover have "claimBound i c t (f r)" if "claimBound i c t r" "P r" for i c t r
    using f [OF that(2)] that(1) by (auto simp: claimBound_def)
  ultimately show ?thesis
    using ok unfolding worldOk_def by (auto simp: set_updateMany split: if_splits)
qed

lemma workerStep_ok: "workerStep x y \<Longrightarrow> worldOk x \<Longrightarrow> worldOk y"
proof (induction rule: workerStep.induct)
  case (tick x t)
  then show ?case unfolding worldOk_def by (fastforce intro: claimBound_later)
next
  case (claim x w d sts rs)
  then show ?case by (intro worldOk_claim)
next
  case (complete x w i c)
  then show ?case by (intro worldOk_write) (simp_all add: completeRow_def)
next
  case (release x w i c diag)
  then show ?case by (intro worldOk_write) (simp_all add: releaseRow_def)
next
  case (fail x w i c diag)
  then show ?case by (intro worldOk_write) (simp_all add: failRow_def)
next
  case (crash x w)
  then show ?case unfolding worldOk_def by auto
next
  case (deadLetter x i diag)
  then show ?case by (rule worldOk_status) (simp add: failRow_def)
next
  case (receive r x)
  then show ?case unfolding worldOk_def by (auto simp: claimBound_def)
next
  case (acknowledge x i)
  then show ?case by (rule worldOk_status) simp
qed

lemma reachable_ok: "reachable x \<Longrightarrow> worldOk x"
proof (induction rule: reachable.induct)
  case (start t)
  show ?case by (simp add: worldOk_def)
qed (rule workerStep_ok)

text \<open>
  C3: the lease fences workers: whenever two workers hold the same event, their claims differ, and the
  row never carries the earlier claim, so whatever the earlier worker still writes (completion, release
  or failure) matches no row and changes nothing, at any interleaving of workers, ingestion,
  dead letters and crashes.
\<close>

theorem stale_worker_writes_nothing:
  assumes "reachable x" and "worldWork x w1 = Some (i, c1)" and "worldWork x w2 = Some (i, c2)"
    and "w1 \<noteq> w2" and "c1 \<le> c2"
  shows "c1 < c2 \<and> updateMany (leaseWhere i c1) f (worldRows x) = (0, worldRows x)"
proof -
  have ok: "worldOk x" using assms(1) by (rule reachable_ok)
  with assms(2-4) have "c1 \<noteq> c2" unfolding worldOk_def by blast
  with assms(5) have lt: "c1 < c2" by simp
  have none: "\<not> leaseWhere i c1 r" if "r \<in> set (worldRows x)" for r
  proof -
    have "claimBound i c2 (worldNow x) r" using ok assms(3) that unfolding worldOk_def by blast
    with lt show ?thesis
      by (auto simp: claimBound_def leaseWhere_def WEBHOOK_PROCESSING_LEASE_TTL_MS_def)
  qed
  have "filter (leaseWhere i c1) (worldRows x) = []" using none by (simp add: filter_empty_conv)
  moreover have "map (\<lambda>r. if leaseWhere i c1 r then f r else r) (worldRows x) = worldRows x"
    using none by (intro map_idI) simp
  ultimately show ?thesis using lt by (simp add: updateMany_def)
qed

text \<open>
  C10: a completed or failed event is final: no step of any worker, of the ingestion or of the
  dead-letter handler changes its row or removes it.
\<close>

theorem finished_events_are_final:
  assumes "workerStep x y" and "r \<in> set (worldRows x)" and "evStatus r = COMPLETED \<or> evStatus r = FAILED"
  shows "r \<in> set (worldRows y)"
proof -
  have keep: "r \<in> set (snd (updateMany P f (worldRows x)))" if "\<not> P r" for P f
    using assms(2) that by (auto simp: updateMany_rows image_iff intro!: bexI [of _ r])
  show ?thesis
    using assms(1)
  proof (cases rule: workerStep.cases)
    case (claim w d sts rs)
    have "\<not> claimWhere d (worldNow x) sts r" using assms(3) by (auto simp: claimWhere_def claimable_def)
    then have "r \<in> set (snd (updateMany (claimWhere d (worldNow x) sts) (claimRow (worldNow x)) (worldRows x)))"
      by (rule keep)
    with claim show ?thesis by simp
  next
    case (complete w i c)
    with keep assms(3) show ?thesis by (auto simp: leaseWhere_def)
  next
    case (release w i c diag)
    with keep assms(3) show ?thesis by (auto simp: leaseWhere_def)
  next
    case (fail w i c diag)
    with keep assms(3) show ?thesis by (auto simp: leaseWhere_def)
  next
    case (deadLetter i diag)
    with keep assms(3) show ?thesis by (auto simp: unfinished_def)
  next
    case (acknowledge i)
    with keep assms(3) show ?thesis by auto
  qed (use assms(2) in auto)
qed

section \<open>The outcome of one job\<close>

lemma findFirst_updated:
  assumes "distinct (map evId rs)" "r \<in> set rs" "evId r = i" "P r" "\<And>r. evId (f r) = evId r"
  shows "findFirst (\<lambda>r. evId r = i) (snd (updateMany P f rs)) = Some (f r)"
proof (rule findFirst_unique)
  show "distinct (map evId (snd (updateMany P f rs)))" using assms(1,5) by (simp add: map_evId_updateMany)
  show "f r \<in> set (snd (updateMany P f rs))" using assms(2,4) by (auto simp: set_updateMany intro!: bexI [of _ r])
qed (use assms in auto)

lemma updateMany_one:
  assumes "distinct (map evId rs)" "r \<in> set rs" "P r" "\<And>r'. P r' \<Longrightarrow> evId r' = evId r"
  shows "fst (updateMany P f rs) = 1"
proof -
  have "filter P rs = [r]"
    by (rule filter_single_key [where k = evId and P = P, OF assms(1-3)]) (rule assms(4))
  then show ?thesis by (simp add: updateMany_def)
qed

definition jobOutcome :: "WorkError option \<Rightarrow> EventRow \<Rightarrow> JobError + JobResult" where
  "jobOutcome e r = (case e of
     None \<Rightarrow> Inr (eventResult r)
   | Some x \<Rightarrow> if workRetryable x then Inl (JobError (workMessage x))
              else Inl (UnrecoverableError (snd (failureDiagnostic (Some x)))))"

definition finishedRow :: "WorkError option \<Rightarrow> date \<Rightarrow> EventRow \<Rightarrow> EventRow" where
  "finishedRow e t r = (case e of
     None \<Rightarrow> completeRow t r
   | Some x \<Rightarrow> if workRetryable x then releaseRow (failureDiagnostic e) t r
              else failRow (failureDiagnostic e) t r)"

definition workError :: "WorkError + unit \<Rightarrow> WorkError option" where
  "workError o1 = (case o1 of Inl e \<Rightarrow> Some e | Inr _ \<Rightarrow> None)"

lemma finishedRow_id [simp]: "evId (finishedRow e t r) = evId r"
  by (simp add: finishedRow_def split: option.splits)

lemma eventResult_claimRow [simp]: "eventResult (claimRow t r) = eventResult r"
  by (simp add: eventResult_def claimRow_def)

lemma processClaimed_outcome:
  assumes quiet: "others env = (\<lambda>n db. db)" and dist: "distinct (map evId (events db))"
    and r: "r \<in> set (events db)" "evStatus r = PROCESSING" "evProcessingStartedAt r = Some c"
  shows "\<exists>db'. processClaimed env wk r c db w = (jobOutcome (workError (fst (runWork wk r w))) r, db', snd (runWork wk r w))
    \<and> findFirst (\<lambda>x. evId x = evId r) (events db') = Some (finishedRow (workError (fst (runWork wk r w))) (clockAt env 4) r)"
proof -
  have lease: "leaseWhere (evId r) c r" using r by (simp add: leaseWhere_def)
  have one: "fst (updateMany (leaseWhere (evId r) c) f (events db)) = 1" for f
    by (rule updateMany_one [where P = "leaseWhere (evId r) c", OF dist r(1) lease]) (simp add: leaseWhere_def)
  have upd: "findFirst (\<lambda>x. evId x = evId r) (snd (updateMany (leaseWhere (evId r) c) f (events db))) = Some (f r)"
    if "\<And>r. evId (f r) = evId r" for f
    using that by (rule findFirst_updated [where P = "leaseWhere (evId r) c", OF dist r(1) refl lease])
  obtain o1 w' where o1: "runWork wk r w = (o1, w')" by force
  show ?thesis
    using one upd o1 quiet
    by (cases o1) (auto simp: processClaimed_def Let_def jobOutcome_def finishedRow_def workError_def
        releaseForRetry_def failClaimed_def updateEvents_def)
qed


section \<open>Sample runs\<close>

definition demoRow :: EventRow where
  "demoRow = \<lparr>evId = ''evt_1'', evTenantId = ''ten_1'', evStoreId = ''sto_1'', evWebhookId = ''9'',
     evDeliveryId = ''d1'', evDedupeKey = ''d1'', evTopic = ''order.created'', evPayload = JNull,
     evStatus = RECEIVED, evReceivedAt = 0, evQueuedAt = None, evProcessingStartedAt = None,
     evAttemptCount = 0, evFailureCategory = None, evFailureMessage = None, evLastFailureAt = None,
     evCompletedAt = None, evFailedAt = None\<rparr>"

definition demoStores :: "StoreRow list" where
  "demoStores = [\<lparr>stId = ''sto_1'', stTenantId = ''ten_1'', stActive = True, stDeletedAt = None,
     stTenantDeletedAt = None, stEndpointKey = Some ''key'', stWebhookSecret = Some ''secret''\<rparr>]"

definition demoJob :: JobResult where
  "demoJob = \<lparr>resultEventId = ''evt_1'', resultTenantId = ''ten_1'', resultStoreId = ''sto_1''\<rparr>"

definition demoJobData :: json where
  "demoJobData = JObj [(''webhookEventId'', JStr ''evt_1''), (''tenantId'', JStr ''ten_1''),
     (''storeId'', JStr ''sto_1'')]"

lemma demoJobData_valid: "validateWooCommerceWebhookJobData demoJobData = Inr demoJob"
  by (simp add: validateWooCommerceWebhookJobData_def demoJobData_def demoJob_def identityField_def
      identityPattern_def eval_simps)

text \<open>A worker stalls, its lease runs out, a second worker claims the event.\<close>

lemma stalled_world:
  "\<exists>x. reachable x \<and> worldWork x 1 = Some (''evt_1'', 0) \<and> worldWork x 2 = Some (''evt_1'', 30000)
     \<and> worldRows x \<noteq> []"
proof -
  let ?x0 = "\<lparr>worldRows = [], worldNow = 0, worldWork = (\<lambda>w. None)\<rparr>"
  let ?x1 = "?x0\<lparr>worldRows := [demoRow]\<rparr>"
  let ?r2 = "claimRow 0 demoRow"
  let ?x2 = "?x1\<lparr>worldRows := [?r2], worldWork := (worldWork ?x1)(1 := Some (resultEventId demoJob, 0))\<rparr>"
  let ?x3 = "?x2\<lparr>worldNow := 30000\<rparr>"
  let ?r4 = "claimRow 30000 ?r2"
  let ?x4 = "?x3\<lparr>worldRows := [?r4], worldWork := (worldWork ?x3)(2 := Some (resultEventId demoJob, 30000))\<rparr>"
  note defs = demoRow_def demoStores_def demoJob_def claimWhere_def claimable_def claimRow_def
    updateMany_def WEBHOOK_PROCESSING_LEASE_TTL_MS_def
  have s1: "workerStep ?x0 ?x1" using workerStep.receive [of demoRow ?x0] by (simp add: demoRow_def)
  have s2: "workerStep ?x1 ?x2"
    using workerStep.claim [of ?x1 1 demoJob demoStores "[?r2]"] by (simp add: defs)
  have s3: "workerStep ?x2 ?x3" using workerStep.tick [of ?x2 30000] by simp
  have s4: "workerStep ?x3 ?x4"
    using workerStep.claim [of ?x3 2 demoJob demoStores "[?r4]"] by (simp add: defs)
  have "reachable ?x4"
    by (rule reachable.step [OF reachable.step [OF reachable.step [OF reachable.step [OF reachable.start s1] s2] s3] s4])
  then show ?thesis by (intro exI [of _ ?x4] conjI) (simp_all add: demoJob_def)
qed

theorem stale_worker_writes_nothing_witness:
  "\<exists>x. reachable x \<and> worldRows x \<noteq> [] \<and>
     updateMany (leaseWhere ''evt_1'' 0) (completeRow 5) (worldRows x) = (0, worldRows x)"
proof -
  from stalled_world obtain x where x: "reachable x" "worldWork x 1 = Some (''evt_1'', 0)"
    "worldWork x 2 = Some (''evt_1'', 30000)" "worldRows x \<noteq> []" by blast
  from stale_worker_writes_nothing [OF x(1-3), of "completeRow 5"] x show ?thesis by auto
qed

theorem finished_events_are_final_witness:
  "completeRow 5 demoRow \<in> set (worldRows (\<lparr>worldRows = [completeRow 5 demoRow], worldNow = 9,
     worldWork = (\<lambda>w. None)\<rparr>))"
proof -
  let ?x = "\<lparr>worldRows = [completeRow 5 demoRow], worldNow = 7, worldWork = (\<lambda>w. None)\<rparr>"
  have "workerStep ?x (?x\<lparr>worldNow := 9\<rparr>)" by (rule workerStep.tick) simp
  from finished_events_are_final [OF this] show ?thesis by (simp add: completeRow_def)
qed

definition quietProcess :: ProcessEnv where
  "quietProcess = \<lparr>clockAt = (\<lambda>n. int n), others = (\<lambda>n db. db)\<rparr>"

definition rateLimitedWork :: "nat Work" where
  "rateLimitedWork = \<lparr>workOrder = (\<lambda>r w. (Inl (ProjectionFailure RateLimited ''woocommerce-rate-limited'' True), w + 1)),
     workOrderSchedule = (\<lambda>r w. (Inr (), w)), workInventory = (\<lambda>r w. (Inr [], w)),
     workInventorySchedule = (\<lambda>t s sg w. (Inr (), w))\<rparr>"


end
