(* ===== verification/Calendar.thy ===== *)
theory Calendar
  imports Json
begin

text \<open>
  The calendar of \<open>Date\<close>: the civil date of a day number is inverse to the day number of a civil date,
  so the text \<open>toISOString\<close> prints for an instant of the years 0 to 9999 reads back as that instant.
\<close>

section \<open>Years of an era\<close>

definition yearOfEra :: "int \<Rightarrow> int" where
  "yearOfEra doe = (doe - doe div 1460 + doe div 36524 - doe div 146096) div 365"

definition yearStart :: "int \<Rightarrow> int" where
  "yearStart y = 365 * y + y div 4 - y div 100"

lemma div_Suc_le:
  assumes "0 < (k::int)"
  shows "(d + 1) div k \<le> d div k + 1"
proof -
  have "(d + 1) div k \<le> (d + k) div k" using assms by (intro zdiv_mono1) auto
  with assms show ?thesis by (simp add: div_add_self2)
qed

lemma quarter_le: "a \<le> b \<Longrightarrow> b div 4 - a div 4 \<le> b - (a::int)"
  by presburger

lemma yearOfEra_mono: "a \<le> b \<Longrightarrow> yearOfEra a \<le> yearOfEra b"
proof (induction b rule: int_ge_induct)
  case (step b)
  let ?m = "\<lambda>d::int. d div 36524"
  have quarter: "d div 146096 = ?m d div 4" for d :: int
    using zdiv_zmult2_eq [of 4 d 36524] by simp
  have m: "?m b \<le> ?m (b + 1)" by (intro zdiv_mono1) auto
  have "?m (b + 1) div 4 - ?m b div 4 \<le> ?m (b + 1) - ?m b" using m by (rule quarter_le)
  moreover have "(b + 1) div 1460 \<le> b div 1460 + 1" by (rule div_Suc_le) simp
  ultimately have "yearOfEra b \<le> yearOfEra (b + 1)"
    unfolding yearOfEra_def quarter by (intro zdiv_mono1) auto
  with step.IH show ?case by simp
qed simp

lemma year_table:
  "list_all (\<lambda>y. yearOfEra (yearStart y) = y \<and> yearOfEra (yearStart (y + 1) - 1 + (if y = 399 then 1 else 0)) = y)
     (map int [0..<400])"
  by code_simp

lemma year_at:
  assumes "0 \<le> y" "y \<le> 399"
  shows "yearOfEra (yearStart y) = y"
    and "yearOfEra (yearStart (y + 1) - 1 + (if y = 399 then 1 else 0)) = y"
proof -
  from assms have "nat y \<in> set [0..<400]" by auto
  then have "y \<in> set (map int [0..<400])" using assms(1) by (metis image_eqI list.set_map nat_0_le)
  with year_table show "yearOfEra (yearStart y) = y"
    "yearOfEra (yearStart (y + 1) - 1 + (if y = 399 then 1 else 0)) = y"
    unfolding list_all_iff by blast+
qed

lemma yearStart_step: "yearStart (y + 1) - yearStart y \<le> 366"
proof -
  have "(y + 1) div 4 \<le> y div 4 + 1" "y div 100 \<le> (y + 1) div 100"
    by (simp_all add: div_Suc_le zdiv_mono1)
  then show ?thesis by (simp add: yearStart_def)
qed

lemma year_bounds:
  assumes "0 \<le> doe" "doe \<le> 146096"
  shows "0 \<le> yearOfEra doe \<and> yearOfEra doe \<le> 399
    \<and> 0 \<le> doe - yearStart (yearOfEra doe) \<and> doe - yearStart (yearOfEra doe) \<le> 365"
proof -
  let ?y = "yearOfEra doe"
  have "yearOfEra 0 \<le> ?y" "?y \<le> yearOfEra 146096" using assms by (auto intro: yearOfEra_mono)
  then have y: "0 \<le> ?y" "?y \<le> 399" by (simp_all add: yearOfEra_def)
  have low: "yearStart ?y \<le> doe"
  proof (rule ccontr)
    assume less: "\<not> yearStart ?y \<le> doe"
    then have "?y \<noteq> 0" using assms(1) by (auto simp: yearStart_def)
    then have "yearOfEra (yearStart ?y - 1) = ?y - 1" using year_at(2) [of "?y - 1"] y by simp
    moreover have "?y \<le> yearOfEra (yearStart ?y - 1)" using less by (intro yearOfEra_mono) simp
    ultimately show False by simp
  qed
  have high: "doe < yearStart (?y + 1) + (if ?y = 399 then 1 else 0)"
  proof (cases "?y = 399")
    case False
    show ?thesis
    proof (rule ccontr)
      assume "\<not> ?thesis"
      with False have "yearOfEra (yearStart (?y + 1)) \<le> ?y" by (intro yearOfEra_mono) simp
      with year_at(1) [of "?y + 1"] y False show False by simp
    qed
  qed (use assms in \<open>simp add: yearStart_def\<close>)
  have "doe - yearStart ?y \<le> 365"
  proof (cases "?y = 399")
    case True
    then show ?thesis using assms by (simp add: yearStart_def)
  next
    case False
    with high yearStart_step [of ?y] show ?thesis by simp
  qed
  with y low show ?thesis by simp
qed

section \<open>Days\<close>

lemma civilOfYear_inverse:
  assumes "0 \<le> yoe" "yoe \<le> 399" "0 \<le> doe - yearStart yoe" "doe - yearStart yoe \<le> 365"
    and "civilOfYear era yoe doe = (y, m, d)"
  shows "daysFromCivil y m d = era * 146097 + doe - 719468 \<and> 1 \<le> m \<and> m \<le> 12 \<and> 1 \<le> d \<and> d \<le> 31"
proof -
  define doy where "doy = doe - yearStart yoe"
  define mp where "mp = (5 * doy + 2) div 153"
  have doy: "0 \<le> doy" "doy \<le> 365" using assms(3,4) by (simp_all add: doy_def)
  then have mp: "0 \<le> mp" "mp \<le> 11" by (auto simp: mp_def)
  have day: "1 \<le> doy - (153 * mp + 2) div 5 + 1" "doy - (153 * mp + 2) div 5 + 1 \<le> 31"
  proof -
    have "153 * mp \<le> 5 * doy + 2" "5 * doy + 2 < 153 * mp + 153"
      using pos_mod_sign [of 153 "5 * doy + 2"] pos_mod_bound [of 153 "5 * doy + 2"]
        mult_div_mod_eq [of 153 "5 * doy + 2"] unfolding mp_def by linarith+
    moreover have "mp \<in> {0, 1, 2, 3, 4, 5, 6, 7, 8, 9, 10, 11}" using mp by simp presburger
    ultimately show "1 \<le> doy - (153 * mp + 2) div 5 + 1" "doy - (153 * mp + 2) div 5 + 1 \<le> 31"
      using doy by auto
  qed
  have eq: "civilOfMonth (yoe + era * 400) mp doy = (y, m, d)"
    using assms(5) by (simp add: civilOfYear_def civilOfDay_def doy_def mp_def yearStart_def algebra_simps)
  have year: "(yoe + era * 400) div 400 = era" "(yoe + era * 400) mod 400 = yoe" using assms(1,2) by auto
  have start: "365 * yoe + yoe div 4 - yoe div 100 + doy = doe" by (simp add: doy_def yearStart_def)
  show ?thesis
  proof (cases "mp < 10")
    case True
    with eq have e: "y = yoe + era * 400" "m = mp + 3" "d = doy - (153 * mp + 2) div 5 + 1"
      by (auto simp: civilOfMonth_def)
    with mp True have "\<not> m \<le> 2" "2 < m" "m - 3 = mp" by auto
    with e year start day mp True show ?thesis by (simp add: daysFromCivil_def Let_def)
  next
    case False
    with eq have e: "y = yoe + era * 400 + 1" "m = mp - 9" "d = doy - (153 * mp + 2) div 5 + 1"
      by (auto simp: civilOfMonth_def)
    with mp False have "m \<le> 2" "\<not> 2 < m" "m + 9 = mp" "y - 1 = yoe + era * 400" by auto
    with e year start day mp False show ?thesis by (simp add: daysFromCivil_def Let_def)
  qed
qed

theorem days_round_trip:
  assumes "civilFromDays z = (y, m, d)"
  shows "daysFromCivil y m d = z \<and> 1 \<le> m \<and> m \<le> 12 \<and> 1 \<le> d \<and> d \<le> 31"
proof -
  let ?era = "(z + 719468) div 146097" and ?doe = "(z + 719468) mod 146097"
  have "0 \<le> ?doe" "?doe \<le> 146096" using pos_mod_bound [of 146097 "z + 719468"] by auto
  from year_bounds [OF this] assms have
    "daysFromCivil y m d = ?era * 146097 + ?doe - 719468 \<and> 1 \<le> m \<and> m \<le> 12 \<and> 1 \<le> d \<and> d \<le> 31"
    by (intro civilOfYear_inverse [of "yearOfEra ?doe"])
      (simp_all add: civilFromDays_def civilOfEra_def yearOfEra_def)
  moreover have "?era * 146097 + ?doe = z + 719468" by simp
  ultimately show ?thesis by simp
qed

section \<open>Texts\<close>

lemma readNat_zeros: "readNat (replicate k (CHR ''0'') @ s) = readNat s"
  by (induction k) (simp_all add: readNat_def codeUnit_def)

lemma padZeros_digits: "list_all isDigit (padZeros w i)"
  using showNat_digits [of "nat i"] by (auto simp: padZeros_def list_all_iff isDigit_def codeUnit_def)

lemma length_padZeros: "0 < w \<Longrightarrow> 0 \<le> i \<Longrightarrow> i < 10 ^ w \<Longrightarrow> length (padZeros w i) = w"
proof -
  assume a: "0 < w" "0 \<le> i" "i < 10 ^ w"
  then have "nat i < 10 ^ w" by (simp add: nat_less_iff)
  with length_showNat [OF a(1) this] show ?thesis by (simp add: padZeros_def)
qed

lemma readNat_padZeros: "readNat (padZeros w i) = nat i"
  by (simp add: padZeros_def readNat_zeros)

definition plainInstant :: "date \<Rightarrow> bool" where
  "plainInstant t \<longleftrightarrow> (case civilFromDays (t div 86400000) of (y, m, d) \<Rightarrow> 0 \<le> y \<and> y \<le> 9999)"

lemma list_of_length:
  "length s = 2 \<Longrightarrow> \<exists>a b. s = [a, b]"
  "length s = 3 \<Longrightarrow> \<exists>a b c. s = [a, b, c]"
  "length s = 4 \<Longrightarrow> \<exists>a b c d. s = [a, b, c, d]"
  by (auto simp: numeral_eq_Suc length_Suc_conv)

text \<open>The fields of a printed instant are where the reader looks for them.\<close>

lemma printed_fields:
  fixes Y M D h mi se ms :: string
  assumes len: "length Y = 4" "length M = 2" "length D = 2" "length h = 2" "length mi = 2" "length se = 2"
    "length ms = 3"
    and digits: "list_all isDigit (Y @ M @ D @ h @ mi @ se @ ms)"
  defines "s \<equiv> Y @ ''-'' @ M @ ''-'' @ D @ ''T'' @ h @ '':'' @ mi @ '':'' @ se @ ''.'' @ ms @ ''Z''"
  shows "gmtDatePattern s" "s \<noteq> []" "last s = CHR ''Z''"
    "numAt s 0 4 = int (readNat Y)" "numAt s 5 2 = int (readNat M)" "numAt s 8 2 = int (readNat D)"
    "numAt s 11 2 = int (readNat h)" "numAt s 14 2 = int (readNat mi)" "numAt s 17 2 = int (readNat se)"
    "withoutZ s = butlast s" "numAt (butlast s) i n = numAt s i (min n (23 - i))" "tl (drop 19 (butlast s)) = ms"
    "numAt s 20 3 = int (readNat ms)" "isDigit (hd s)"
proof -
  from len(1) list_of_length(3) obtain y1 y2 y3 y4 where Y: "Y = [y1, y2, y3, y4]" by blast
  from len(2) list_of_length(1) obtain m1 m2 where M: "M = [m1, m2]" by blast
  from len(3) list_of_length(1) obtain d1 d2 where D: "D = [d1, d2]" by blast
  from len(4) list_of_length(1) obtain h1 h2 where h: "h = [h1, h2]" by blast
  from len(5) list_of_length(1) obtain i1 i2 where i: "mi = [i1, i2]" by blast
  from len(6) list_of_length(1) obtain s1 s2 where se: "se = [s1, s2]" by blast
  from len(7) list_of_length(2) obtain t1 t2 t3 where ms: "ms = [t1, t2, t3]" by blast
  note parts = Y M D h i se ms
  show "gmtDatePattern s" "s \<noteq> []" "last s = CHR ''Z''"
    "numAt s 0 4 = int (readNat Y)" "numAt s 5 2 = int (readNat M)" "numAt s 8 2 = int (readNat D)"
    "numAt s 11 2 = int (readNat h)" "numAt s 14 2 = int (readNat mi)" "numAt s 17 2 = int (readNat se)"
    "withoutZ s = butlast s" "tl (drop 19 (butlast s)) = ms" "numAt s 20 3 = int (readNat ms)" "isDigit (hd s)"
    using digits unfolding s_def
    by (simp_all add: parts numAt_def withoutZ_def gmtDatePattern_def Let_def shape_def)
  have "length s = 24" using len by (simp add: s_def)
  then have "butlast s = take 23 s" by (simp add: butlast_conv_take)
  then show "numAt (butlast s) i n = numAt s i (min n (23 - i))"
    by (simp only: numAt_def drop_take take_take)
qed

lemma toISOString_fields:
  assumes "plainInstant t"
  obtains y m d where "civilFromDays (t div 86400000) = (y, m, d)" and "0 \<le> y" "y \<le> 9999"
    and "daysFromCivil y m d = t div 86400000" "1 \<le> m" "m \<le> 12" "1 \<le> d" "d \<le> 31"
proof -
  obtain y m d where c: "civilFromDays (t div 86400000) = (y, m, d)" by (metis prod_cases3)
  with assms days_round_trip [OF c] that show thesis by (auto simp: plainInstant_def)
qed

theorem parse_toISOString:
  assumes "plainInstant t"
  shows "parseInstant (toISOString t) = Some t" and "gmtDatePattern (toISOString t)"
    and "toISOString t \<noteq> []" and "last (toISOString t) = CHR ''Z''"
    and "civilFromDays (t div 86400000) = (numAt (toISOString t) 0 4, numAt (toISOString t) 5 2, numAt (toISOString t) 8 2)"
    and "numAt (toISOString t) 11 2 = t mod 86400000 div 3600000"
    and "numAt (toISOString t) 14 2 = t mod 86400000 div 60000 mod 60"
    and "numAt (toISOString t) 17 2 = t mod 86400000 div 1000 mod 60"
    and "isDigit (hd (toISOString t))"
    and "(daysFromCivil (numAt (toISOString t) 0 4) (numAt (toISOString t) 5 2) (numAt (toISOString t) 8 2) * 86400
        + numAt (toISOString t) 11 2 * 3600 + numAt (toISOString t) 14 2 * 60 + numAt (toISOString t) 17 2) * 1000
      + numAt (toISOString t) 20 3 = t"
proof -
  from toISOString_fields [OF assms] obtain y m d where c: "civilFromDays (t div 86400000) = (y, m, d)"
    and b: "0 \<le> y" "y \<le> 9999" "1 \<le> m" "m \<le> 12" "1 \<le> d" "d \<le> 31"
    and days: "daysFromCivil y m d = t div 86400000" by metis
  define r where "r = t mod 86400000"
  define h where "h = r div 3600000"
  define mi where "mi = r div 60000 mod 60"
  define se where "se = r div 1000 mod 60"
  define ms where "ms = r mod 1000"
  have r: "0 \<le> r" "r < 86400000" by (simp_all add: r_def)
  then have "0 \<le> h" "h < 24" unfolding h_def by (simp, linarith)
  moreover have "0 \<le> mi" "mi < 60" "0 \<le> se" "se < 60" "0 \<le> ms" "ms < 1000"
    by (simp_all add: mi_def se_def ms_def)
  ultimately have range: "0 \<le> h" "h < 24" "0 \<le> mi" "mi < 60" "0 \<le> se" "se < 60" "0 \<le> ms" "ms < 1000"
    by auto
  have printed: "toISOString t = padZeros 4 y @ ''-'' @ padZeros 2 m @ ''-'' @ padZeros 2 d @ ''T'' @ padZeros 2 h
      @ '':'' @ padZeros 2 mi @ '':'' @ padZeros 2 se @ ''.'' @ padZeros 3 ms @ ''Z''"
    using c b by (simp add: toISOString_def h_def mi_def se_def ms_def r_def)
  have digits: "list_all isDigit (padZeros 4 y @ padZeros 2 m @ padZeros 2 d @ padZeros 2 h @ padZeros 2 mi
      @ padZeros 2 se @ padZeros 3 ms)"
    by (simp add: padZeros_digits)
  have len: "length (padZeros 4 y) = 4" "length (padZeros 2 m) = 2" "length (padZeros 2 d) = 2"
    "length (padZeros 2 h) = 2" "length (padZeros 2 mi) = 2" "length (padZeros 2 se) = 2" "length (padZeros 3 ms) = 3"
    using b range by (simp_all add: length_padZeros)
  note f = printed_fields [OF len digits, folded printed]
  from f(1-3) show "gmtDatePattern (toISOString t)" "toISOString t \<noteq> []" "last (toISOString t) = CHR ''Z''"
    by simp_all
  have nums: "numAt (toISOString t) 0 4 = y" "numAt (toISOString t) 5 2 = m" "numAt (toISOString t) 8 2 = d"
    "numAt (toISOString t) 11 2 = h" "numAt (toISOString t) 14 2 = mi" "numAt (toISOString t) 17 2 = se"
    using f(4-9) b range by (simp_all add: readNat_padZeros)
  with c show "civilFromDays (t div 86400000) = (numAt (toISOString t) 0 4, numAt (toISOString t) 5 2, numAt (toISOString t) 8 2)"
    "numAt (toISOString t) 11 2 = t mod 86400000 div 3600000"
    "numAt (toISOString t) 14 2 = t mod 86400000 div 60000 mod 60"
    "numAt (toISOString t) 17 2 = t mod 86400000 div 1000 mod 60"
    by (simp_all only: h_def mi_def se_def r_def)
  have frac: "int (readNat (tl (drop 19 (butlast (toISOString t))))) = ms" "padZeros 3 ms \<noteq> []"
    using len(7) range by (auto simp: f(12) readNat_padZeros)
  have day: "daysFromCivil y m d * 86400000 + r = t" by (simp add: days r_def)
  have sec: "h * 3600 + mi * 60 + se = r div 1000"
  proof -
    have split: "r div 60000 = r div 1000 div 60" "r div 3600000 = r div 1000 div 60 div 60"
      using zdiv_zmult2_eq [of 60 r 1000] zdiv_zmult2_eq [of 60 "r div 1000" 60]
        zdiv_zmult2_eq [of 3600 r 1000] by simp_all
    have "a div 60 div 60 * 3600 + a div 60 mod 60 * 60 + a mod 60 = a" for a :: int
      using mult_div_mod_eq [of 60 a] mult_div_mod_eq [of 60 "a div 60"] by linarith
    then show ?thesis by (simp only: split h_def mi_def se_def)
  qed
  have "(daysFromCivil y m d * 86400 + h * 3600 + mi * 60 + se) * 1000 + ms
      = daysFromCivil y m d * 86400000 + ((h * 3600 + mi * 60 + se) * 1000 + ms)"
    by (simp only: algebra_simps)
  also have "\<dots> = t" unfolding sec ms_def using day by simp
  finally have whole: "(daysFromCivil y m d * 86400 + h * 3600 + mi * 60 + se) * 1000 + ms = t" .
  have "numAt (toISOString t) 20 3 = ms" using f(13) range by (simp add: readNat_padZeros)
  with nums whole show "(daysFromCivil (numAt (toISOString t) 0 4) (numAt (toISOString t) 5 2) (numAt (toISOString t) 8 2) * 86400
        + numAt (toISOString t) 11 2 * 3600 + numAt (toISOString t) 14 2 * 60 + numAt (toISOString t) 17 2) * 1000
      + numAt (toISOString t) 20 3 = t" by simp
  show "isDigit (hd (toISOString t))" by (rule f(14))
  show "parseInstant (toISOString t) = Some t"
    using frac nums whole b range len(7)
    by (simp add: parseInstant_def Let_def f(10) f(11) f(12))
qed
end
