(* ===== verification/Entitlements.thy ===== *)
theory Entitlements
  imports WebhookProcessor Calendar
begin

text \<open>
  \<open>backend/src/entitlements\<close>: the state of a tenant's entitlement at a moment, the operator's change of
  it with its audit row, and the arguments of the operator's command. The type of the errors the HTTP
  services throw is here too, because the entitlement is the first thing each of them asks for.
\<close>

datatype TenantPlan = FREE | PRO | AGENCY
datatype TenantEntitlementStatus = ACTIVE | SUSPENDED
datatype TenantLanguage = FA | EN
datatype EffectiveState = EffActive | EffSuspended | EffExpired

datatype ServiceError =
    NotFoundException string
  | EntitlementInactiveException EffectiveState
  | ForbiddenException string
  | BadRequestException string
  | UnauthorizedException string
  | ConflictException string
  | ServiceUnavailableException string
  | TooManyRequests string
  | DatabaseError string

record TenantRow =
  tnId :: string
  tnName :: string
  tnPlan :: TenantPlan
  tnEntitlementStatus :: TenantEntitlementStatus
  tnEntitlementExpiresAt :: "date option"
  tnTimezone :: string
  tnLanguage :: TenantLanguage
  tnDeletedAt :: "date option"

record AuditRow =
  auId :: string
  auTenantId :: string
  auUserId :: "string option"
  auAction :: string
  auEntityType :: string
  auEntityId :: "string option"
  auMetadata :: "json option"

record TenantDb =
  tenantRows :: "TenantRow list"
  auditRows :: "AuditRow list"

record TenantEntitlementSummary =
  esPlan :: TenantPlan
  esStatus :: TenantEntitlementStatus
  esEffectiveState :: EffectiveState
  esExpiresAt :: "string option"

section \<open>The entitlement at a moment\<close>

definition effectiveTenantEntitlementState :: "TenantEntitlementStatus \<Rightarrow> date option \<Rightarrow> date \<Rightarrow> EffectiveState" where
  "effectiveTenantEntitlementState st expiresAt now =
     (if st = SUSPENDED then EffSuspended
      else case expiresAt of
             Some t \<Rightarrow> if t \<le> now then EffExpired else EffActive
           | None \<Rightarrow> EffActive)"

definition toSummary :: "TenantPlan \<Rightarrow> TenantEntitlementStatus \<Rightarrow> date option \<Rightarrow> date \<Rightarrow> TenantEntitlementSummary" where
  "toSummary plan st expiresAt now =
     \<lparr>esPlan = plan, esStatus = st,
      esEffectiveState = effectiveTenantEntitlementState st expiresAt now,
      esExpiresAt = map_option toISOString expiresAt\<rparr>"

definition tenantWhere :: "string \<Rightarrow> TenantRow \<Rightarrow> bool" where
  "tenantWhere tenantId r \<longleftrightarrow> tnId r = tenantId \<and> tnDeletedAt r = None"

definition rowSummary :: "TenantRow \<Rightarrow> date \<Rightarrow> TenantEntitlementSummary" where
  "rowSummary r now = toSummary (tnPlan r) (tnEntitlementStatus r) (tnEntitlementExpiresAt r) now"

definition resolveTenant :: "string \<Rightarrow> date \<Rightarrow> TenantRow list \<Rightarrow> ServiceError + TenantEntitlementSummary" where
  "resolveTenant tenantId now rows =
     (case findFirst (tenantWhere tenantId) rows of
        None \<Rightarrow> Inl (NotFoundException ''Tenant was not found'')
      | Some r \<Rightarrow> Inr (rowSummary r now))"

definition assertActive :: "string \<Rightarrow> date \<Rightarrow> TenantRow list \<Rightarrow> ServiceError + TenantEntitlementSummary" where
  "assertActive tenantId now rows =
     andThen (resolveTenant tenantId now rows) (\<lambda>s.
       if esEffectiveState s \<noteq> EffActive then Inl (EntitlementInactiveException (esEffectiveState s)) else Inr s)"

definition isActive :: "string \<Rightarrow> date \<Rightarrow> TenantRow list \<Rightarrow> ServiceError + bool" where
  "isActive tenantId now rows =
     andThen (resolveTenant tenantId now rows) (\<lambda>s. Inr (esEffectiveState s = EffActive))"

section \<open>The operator's change\<close>

text \<open>An absent member of the input is \<open>None\<close>; \<open>expiresAt: null\<close> is \<open>Some None\<close>.\<close>

record ManageTenantEntitlementInput =
  miTenantId :: string
  miStatus :: "TenantEntitlementStatus option"
  miExpiresAt :: "date option option"
  miCorrelationId :: string

definition statusText :: "TenantEntitlementStatus \<Rightarrow> string" where
  "statusText s = (case s of ACTIVE \<Rightarrow> ''ACTIVE'' | SUSPENDED \<Rightarrow> ''SUSPENDED'')"

definition effectiveText :: "EffectiveState \<Rightarrow> string" where
  "effectiveText s = (case s of EffActive \<Rightarrow> ''ACTIVE'' | EffSuspended \<Rightarrow> ''SUSPENDED'' | EffExpired \<Rightarrow> ''EXPIRED'')"

definition mutating :: "ManageTenantEntitlementInput \<Rightarrow> bool" where
  "mutating i \<longleftrightarrow> miStatus i \<noteq> None \<or> miExpiresAt i \<noteq> None"

definition updateTenant :: "ManageTenantEntitlementInput \<Rightarrow> TenantRow \<Rightarrow> TenantRow" where
  "updateTenant i r =
     r\<lparr>tnEntitlementStatus := (case miStatus i of Some s \<Rightarrow> s | None \<Rightarrow> tnEntitlementStatus r),
       tnEntitlementExpiresAt := (case miExpiresAt i of Some e \<Rightarrow> e | None \<Rightarrow> tnEntitlementExpiresAt r)\<rparr>"

definition entitlementAudit ::
  "ManageTenantEntitlementInput \<Rightarrow> string \<Rightarrow> TenantEntitlementSummary \<Rightarrow> TenantEntitlementSummary \<Rightarrow> string \<Rightarrow> AuditRow" where
  "entitlementAudit i tid oldS newS newId =
     \<lparr>auId = ''aud_'' @ newId, auTenantId = tid, auUserId = None,
      auAction = ''tenant.entitlement.changed'', auEntityType = ''Tenant'', auEntityId = Some tid,
      auMetadata = Some (JObj
        [(''operatorContext'', JStr ''entitlement:manage''), (''correlationId'', JStr (miCorrelationId i)),
         (''previousStatus'', JStr (statusText (esStatus oldS))), (''newStatus'', JStr (statusText (esStatus newS))),
         (''previousExpiryPresent'', JBool (esExpiresAt oldS \<noteq> None)),
         (''newExpiryPresent'', JBool (esExpiresAt newS \<noteq> None)),
         (''effectiveState'', JStr (effectiveText (esEffectiveState newS)))])\<rparr>"

definition manageOperation ::
  "ManageTenantEntitlementInput \<Rightarrow> date \<Rightarrow> string \<Rightarrow> TenantDb
     \<Rightarrow> ServiceError TransactionError + TenantEntitlementSummary \<times> TenantDb" where
  "manageOperation i now newId db =
     (case findFirst (tenantWhere (miTenantId i)) (tenantRows db) of
        None \<Rightarrow> Inl (Thrown (NotFoundException ''Tenant was not found''))
      | Some r \<Rightarrow>
          let oldS = rowSummary r now
          in if mutating i
             then let newS = rowSummary (updateTenant i r) now
                  in Inr (newS, db\<lparr>tenantRows := snd (updateMany (\<lambda>t. tnId t = tnId r) (updateTenant i) (tenantRows db)),
                          auditRows := auditRows db @ [entitlementAudit i (tnId r) oldS newS newId]\<rparr>)
             else Inr (oldS, db))"

text \<open>The transaction is attempted once.\<close>

definition manage ::
  "TenantDb Attempt \<Rightarrow> ManageTenantEntitlementInput \<Rightarrow> date \<Rightarrow> string \<Rightarrow> TenantDb
     \<Rightarrow> (ServiceError TransactionError + TenantEntitlementSummary) \<times> TenantDb" where
  "manage a i now newId db = runTransaction a (manageOperation i now newId) db"

definition fingerprint :: "(string \<Rightarrow> string) \<Rightarrow> string \<Rightarrow> string" where
  "fingerprint digest tenantId = take 12 (digest tenantId)"

section \<open>The operator's arguments\<close>

text \<open>
  \<open>new Date(value)\<close> and the comparison of every field with the text: an instant that the engine would
  carry into the next day or month is refused. The year of a \<open>Date\<close> is the first component of its civil date.
\<close>

definition exactUtcPattern :: "string \<Rightarrow> bool" where
  "exactUtcPattern s \<longleftrightarrow> s \<noteq> [] \<and> last s = CHR ''Z'' \<and> gmtDatePattern s"

definition parseExactUtcTimestamp :: "string \<Rightarrow> date option" where
  "parseExactUtcTimestamp s =
     (if \<not> exactUtcPattern s then None
      else case parseInstant s of
             None \<Rightarrow> None
           | Some t \<Rightarrow>
               if civilFromDays (t div 86400000) = (numAt s 0 4, numAt s 5 2, numAt s 8 2)
                  \<and> t mod 86400000 div 3600000 = numAt s 11 2
                  \<and> t mod 86400000 div 60000 mod 60 = numAt s 14 2
                  \<and> t mod 86400000 div 1000 mod 60 = numAt s 17 2
               then Some t else None)"

record ParsedEntitlementArguments =
  paTenantId :: "string option"
  paStatus :: "TenantEntitlementStatus option"
  paExpiresAt :: "date option option"

definition statusOf :: "string \<Rightarrow> TenantEntitlementStatus option" where
  "statusOf s = (if s = ''ACTIVE'' then Some ACTIVE else if s = ''SUSPENDED'' then Some SUSPENDED else None)"

text \<open>\<open>argument === '--tenant' && value\<close> needs a following argument that is not empty.\<close>

fun readArguments :: "ParsedEntitlementArguments \<Rightarrow> string list \<Rightarrow> string + ParsedEntitlementArguments" where
  "readArguments p [] = Inr p"
| "readArguments p [a] =
     (if a = ''--clear-expiry''
      then if paExpiresAt p \<noteq> None then Inl ''Expiry options are contradictory''
           else Inr (p\<lparr>paExpiresAt := Some None\<rparr>)
      else Inl ''Unsupported entitlement option'')"
| "readArguments p (a # v # rest) =
     (if a = ''--tenant'' \<and> v \<noteq> []
      then if paTenantId p \<noteq> None then Inl ''Tenant option must be provided exactly once''
           else readArguments (p\<lparr>paTenantId := Some v\<rparr>) rest
      else if a = ''--status'' \<and> v \<noteq> []
      then if paStatus p \<noteq> None then Inl ''Status option must be provided at most once''
           else (case statusOf v of
                   None \<Rightarrow> Inl ''Status must be ACTIVE or SUSPENDED''
                 | Some st \<Rightarrow> readArguments (p\<lparr>paStatus := Some st\<rparr>) rest)
      else if a = ''--expires-at'' \<and> v \<noteq> []
      then if paExpiresAt p \<noteq> None then Inl ''Expiry options are contradictory''
           else (case parseExactUtcTimestamp v of
                   None \<Rightarrow> Inl ''Expiry must be an explicit ISO-8601 UTC timestamp''
                 | Some t \<Rightarrow> readArguments (p\<lparr>paExpiresAt := Some (Some t)\<rparr>) rest)
      else if a = ''--clear-expiry''
      then if paExpiresAt p \<noteq> None then Inl ''Expiry options are contradictory''
           else readArguments (p\<lparr>paExpiresAt := Some None\<rparr>) (v # rest)
      else Inl ''Unsupported entitlement option'')"

definition parseEntitlementArguments :: "string list \<Rightarrow> string + ParsedEntitlementArguments" where
  "parseEntitlementArguments args =
     andThen (readArguments \<lparr>paTenantId = None, paStatus = None, paExpiresAt = None\<rparr> args) (\<lambda>p.
       case paTenantId p of
         None \<Rightarrow> Inl ''An explicit --tenant identifier is required''
       | Some t \<Rightarrow> if trim t = [] then Inl ''An explicit --tenant identifier is required'' else Inr p)"

section \<open>Reading what was printed\<close>

lemma parseExact_toISOString: "plainInstant t \<Longrightarrow> parseExactUtcTimestamp (toISOString t) = Some t"
  by (simp add: parseExactUtcTimestamp_def exactUtcPattern_def parse_toISOString)

definition manageArguments :: "string \<Rightarrow> TenantEntitlementSummary \<Rightarrow> string list" where
  "manageArguments tenantId s =
     [''--tenant'', tenantId, ''--status'', statusText (esStatus s)]
     @ (case esExpiresAt s of Some e \<Rightarrow> [''--expires-at'', e] | None \<Rightarrow> [''--clear-expiry''])"

text \<open>
  The command reads back the texts the service prints: the status and the expiry of a summary, given
  as arguments for a tenant, parse to exactly the status and the expiry the summary was made of.
\<close>

theorem summary_arguments_round_trip:
  assumes "trim tenantId \<noteq> []" and "\<And>t. e = Some t \<Longrightarrow> plainInstant t"
  shows "parseEntitlementArguments (manageArguments tenantId (toSummary plan st e now)) =
    Inr \<lparr>paTenantId = Some tenantId, paStatus = Some st, paExpiresAt = Some e\<rparr>"
proof -
  have "tenantId \<noteq> []" using assms(1) by (auto simp: trim_def trimStart_def)
  then show ?thesis
    using assms parse_toISOString(3)
    by (cases st; cases e)
      (auto simp: parseEntitlementArguments_def manageArguments_def toSummary_def statusText_def statusOf_def
        parseExact_toISOString)
qed

theorem summary_arguments_round_trip_witness:
  "trim ''ten_1'' \<noteq> [] \<and> plainInstant 1735689600000
   \<and> parseEntitlementArguments (manageArguments ''ten_1'' (toSummary PRO ACTIVE (Some 1735689600000) 0)) =
     Inr \<lparr>paTenantId = Some ''ten_1'', paStatus = Some ACTIVE, paExpiresAt = Some (Some 1735689600000)\<rparr>"
proof -
  have a: "trim ''ten_1'' \<noteq> []" by (simp add: eval_simps)
  have b: "plainInstant 1735689600000" by (simp add: plainInstant_def eval_simps)
  have "parseEntitlementArguments (manageArguments ''ten_1'' (toSummary PRO ACTIVE (Some 1735689600000) 0)) =
     Inr \<lparr>paTenantId = Some ''ten_1'', paStatus = Some ACTIVE, paExpiresAt = Some (Some 1735689600000)\<rparr>"
    by (rule summary_arguments_round_trip [OF a]) (simp add: b)
  with a b show ?thesis by simp
qed

section \<open>What a change does\<close>

lemma findFirst_update_tenant:
  assumes found: "findFirst (tenantWhere t) rows = Some r"
  shows "findFirst (tenantWhere t') (snd (updateMany (\<lambda>s. tnId s = tnId r) (updateTenant i) rows))
    = (if t' = t then Some (updateTenant i r) else findFirst (tenantWhere t') rows)"
proof -
  have key: "tenantWhere k (updateTenant i s) = tenantWhere k s" for k s
    by (simp add: tenantWhere_def updateTenant_def)
  have r: "tnId r = t" "r \<in> set rows" using findFirst_Some [OF found] by (auto simp: tenantWhere_def)
  have "findFirst (tenantWhere t') (snd (updateMany (\<lambda>s. tnId s = tnId r) (updateTenant i) rows))
    = map_option (\<lambda>s. if tnId s = tnId r then updateTenant i s else s) (findFirst (tenantWhere t') rows)"
    unfolding updateMany_rows findFirst_map by (rule arg_cong [where f = "map_option _"])
      (rule findFirst_cong, simp add: key)
  also have "\<dots> = (if t' = t then Some (updateTenant i r) else findFirst (tenantWhere t') rows)"
  proof (cases "t' = t")
    case False
    with r(1) show ?thesis
      by (cases "findFirst (tenantWhere t') rows") (auto dest!: findFirst_Some simp: tenantWhere_def)
  qed (simp add: found)
  finally show ?thesis .
qed

text \<open>
  What the input asks for, read off the columns of the tenant's row: a member that is present replaces the
  column, an absent one leaves it, and \<open>expiresAt: null\<close> clears the expiry.
\<close>

definition requestedStatus :: "ManageTenantEntitlementInput \<Rightarrow> TenantRow \<Rightarrow> TenantEntitlementStatus" where
  "requestedStatus i r = (case miStatus i of Some st \<Rightarrow> st | None \<Rightarrow> tnEntitlementStatus r)"

definition requestedExpiry :: "ManageTenantEntitlementInput \<Rightarrow> TenantRow \<Rightarrow> date option" where
  "requestedExpiry i r = (case miExpiresAt i of Some e \<Rightarrow> e | None \<Rightarrow> tnEntitlementExpiresAt r)"

definition activeAt :: "TenantEntitlementStatus \<Rightarrow> date option \<Rightarrow> date \<Rightarrow> bool" where
  "activeAt st e later \<longleftrightarrow> st = ACTIVE \<and> (case e of None \<Rightarrow> True | Some t \<Rightarrow> later < t)"

definition changeMetadata ::
  "ManageTenantEntitlementInput \<Rightarrow> TenantRow \<Rightarrow> TenantEntitlementStatus \<Rightarrow> date option \<Rightarrow> date \<Rightarrow> json" where
  "changeMetadata i r st e now = JObj
     [(''operatorContext'', JStr ''entitlement:manage''), (''correlationId'', JStr (miCorrelationId i)),
      (''previousStatus'', JStr (if tnEntitlementStatus r = ACTIVE then ''ACTIVE'' else ''SUSPENDED'')),
      (''newStatus'', JStr (if st = ACTIVE then ''ACTIVE'' else ''SUSPENDED'')),
      (''previousExpiryPresent'', JBool (tnEntitlementExpiresAt r \<noteq> None)),
      (''newExpiryPresent'', JBool (e \<noteq> None)),
      (''effectiveState'', JStr (if activeAt st e now then ''ACTIVE''
         else if st = SUSPENDED then ''SUSPENDED'' else ''EXPIRED''))]"

lemma effective_active:
  "effectiveTenantEntitlementState st e later = EffActive \<longleftrightarrow> activeAt st e later"
  by (cases st; cases e) (auto simp: effectiveTenantEntitlementState_def activeAt_def)

lemma updated_summary: "rowSummary (updateTenant i r) later = toSummary (tnPlan r) (requestedStatus i r) (requestedExpiry i r) later"
  by (simp add: rowSummary_def updateTenant_def requestedStatus_def requestedExpiry_def)

lemma unchanged_summary:
  "\<not> mutating i \<Longrightarrow> rowSummary r later = toSummary (tnPlan r) (requestedStatus i r) (requestedExpiry i r) later"
  by (simp add: rowSummary_def mutating_def requestedStatus_def requestedExpiry_def)

lemma audit_metadata:
  "auMetadata (entitlementAudit i tid (rowSummary r now) (toSummary plan st e now) newId)
     = Some (changeMetadata i r st e now)"
  using effective_active [of st e now]
  by (cases st; cases e; cases "tnEntitlementStatus r")
    (auto simp: entitlementAudit_def changeMetadata_def rowSummary_def toSummary_def statusText_def effectiveText_def
      effectiveTenantEntitlementState_def activeAt_def)

lemma update_keeps_others:
  "filter (\<lambda>t. tnId t \<noteq> k) (snd (updateMany (\<lambda>t. tnId t = k) (updateTenant i) rows)) = filter (\<lambda>t. tnId t \<noteq> k) rows"
  by (induction rows) (simp_all add: updateMany_rows updateTenant_def)

text \<open>
  C26: a committed change of an entitlement is what every later reading sees: a status or expiry the input
  gives (an expiry cleared to null included) replaces the tenant's, one it leaves out stays, and from then on
  the tenant is active exactly while its status is active and its expiry, if it has one, lies ahead. The
  returned summary is the reading at the moment of the change. When the input asks for a change, exactly one
  audit row is appended, with the state before and after it; when it asks for none, the database stays as it
  is. The rows of all other tenants stay as they are.
\<close>

theorem manage_then_resolve:
  assumes "manage a i now newId db = (Inr s, db')"
  shows "\<exists>r st e. findFirst (tenantWhere (miTenantId i)) (tenantRows (interference a db)) = Some r
    \<and> st = (case miStatus i of Some x \<Rightarrow> x | None \<Rightarrow> tnEntitlementStatus r)
    \<and> e = (case miExpiresAt i of Some x \<Rightarrow> x | None \<Rightarrow> tnEntitlementExpiresAt r)
    \<and> s = toSummary (tnPlan r) st e now
    \<and> (\<forall>later. resolveTenant (miTenantId i) later (tenantRows db') = Inr (toSummary (tnPlan r) st e later)
        \<and> isActive (miTenantId i) later (tenantRows db') = Inr (activeAt st e later))
    \<and> filter (\<lambda>t. tnId t \<noteq> miTenantId i) (tenantRows db') =
        filter (\<lambda>t. tnId t \<noteq> miTenantId i) (tenantRows (interference a db))
    \<and> (if miStatus i = None \<and> miExpiresAt i = None then db' = interference a db
       else auditRows db' = auditRows (interference a db) @
         [\<lparr>auId = ''aud_'' @ newId, auTenantId = miTenantId i, auUserId = None,
           auAction = ''tenant.entitlement.changed'', auEntityType = ''Tenant'', auEntityId = Some (miTenantId i),
           auMetadata = Some (changeMetadata i r st e now)\<rparr>])"
proof -
  let ?db = "interference a db"
  from assms have op: "manageOperation i now newId ?db = Inr (s, db')"
    by (auto simp: manage_def runTransaction_def Let_def split: option.splits sum.splits)
  then obtain r where r: "findFirst (tenantWhere (miTenantId i)) (tenantRows ?db) = Some r"
    by (auto simp: manageOperation_def split: option.splits)
  then have rid: "tnId r = miTenantId i" using findFirst_Some by (fastforce simp: tenantWhere_def)
  let ?st = "requestedStatus i r" and ?e = "requestedExpiry i r"
  have reading: "resolveTenant (miTenantId i) later (tenantRows db') = Inr (toSummary (tnPlan r) ?st ?e later)"
    and summary: "s = toSummary (tnPlan r) ?st ?e now" for later
    using op r findFirst_update_tenant [OF r, of "miTenantId i" i] unchanged_summary [of i r]
    by (auto simp: manageOperation_def resolveTenant_def Let_def updated_summary split: if_splits)
  have others: "filter (\<lambda>t. tnId t \<noteq> miTenantId i) (tenantRows db')
      = filter (\<lambda>t. tnId t \<noteq> miTenantId i) (tenantRows ?db)"
    using op r update_keeps_others [of "miTenantId i" i] rid
    by (auto simp: manageOperation_def Let_def split: if_splits)
  have audit: "entitlementAudit i tid (rowSummary r now) (toSummary plan st e now) newId =
      \<lparr>auId = ''aud_'' @ newId, auTenantId = tid, auUserId = None, auAction = ''tenant.entitlement.changed'',
       auEntityType = ''Tenant'', auEntityId = Some tid, auMetadata = Some (changeMetadata i r st e now)\<rparr>"
    for tid plan st e
    using audit_metadata [of i tid r now plan st e newId] by (simp add: entitlementAudit_def)
  have effect: "if miStatus i = None \<and> miExpiresAt i = None then db' = ?db
      else auditRows db' = auditRows ?db @ [entitlementAudit i (miTenantId i) (rowSummary r now) s newId]"
    using op r rid by (auto simp: manageOperation_def mutating_def Let_def split: if_splits)
  have active: "isActive (miTenantId i) later (tenantRows db') = Inr (activeAt ?st ?e later)" for later
    using reading [of later] effective_active [of ?st ?e later]
    by (simp add: isActive_def andThen_def toSummary_def)
  show ?thesis
    by (intro exI [of _ r] exI [of _ ?st] exI [of _ ?e] conjI r summary others allI reading active)
      (use effect audit summary in \<open>simp_all add: requestedStatus_def requestedExpiry_def split: if_splits\<close>)
qed

definition twoTenants :: TenantDb where
  "twoTenants = \<lparr>tenantRows =
     [\<lparr>tnId = ''ten_1'', tnName = ''A'', tnPlan = FREE, tnEntitlementStatus = ACTIVE,
       tnEntitlementExpiresAt = None, tnTimezone = ''UTC'', tnLanguage = FA, tnDeletedAt = None\<rparr>,
      \<lparr>tnId = ''ten_2'', tnName = ''B'', tnPlan = PRO, tnEntitlementStatus = ACTIVE,
       tnEntitlementExpiresAt = Some 50, tnTimezone = ''UTC'', tnLanguage = EN, tnDeletedAt = None\<rparr>], auditRows = []\<rparr>"

definition suspendSecond :: ManageTenantEntitlementInput where
  "suspendSecond = \<lparr>miTenantId = ''ten_2'', miStatus = Some SUSPENDED, miExpiresAt = None, miCorrelationId = ''c''\<rparr>"

theorem manage_then_resolve_witness:
  "\<exists>s db'. manage quietAttempt suspendSecond 10 ''1'' twoTenants = (Inr s, db')
     \<and> s = toSummary PRO SUSPENDED (Some 50) 10 \<and> length (auditRows db') = 1
     \<and> isActive ''ten_2'' 20 (tenantRows db') = Inr False"
proof -
  have quiet: "interference quietAttempt db = db" for db :: TenantDb by (simp add: quietAttempt_def)
  have second: "findFirst (tenantWhere ''ten_2'') (tenantRows twoTenants) =
     Some \<lparr>tnId = ''ten_2'', tnName = ''B'', tnPlan = PRO, tnEntitlementStatus = ACTIVE,
       tnEntitlementExpiresAt = Some 50, tnTimezone = ''UTC'', tnLanguage = EN, tnDeletedAt = None\<rparr>"
    by (simp add: twoTenants_def findFirst_def tenantWhere_def)
  obtain s db' where run: "manage quietAttempt suspendSecond 10 ''1'' twoTenants = (Inr s, db')"
    using second by (simp add: manage_def manageOperation_def suspendSecond_def mutating_def Let_def)
  have i: "miTenantId suspendSecond = ''ten_2''" "miStatus suspendSecond = Some SUSPENDED"
    "miExpiresAt suspendSecond = None" by (simp_all add: suspendSecond_def)
  have none: "auditRows twoTenants = []" by (simp add: twoTenants_def)
  from manage_then_resolve [OF run] run show ?thesis
    by (auto simp: quiet second i none activeAt_def)
qed

end
