(* ===== verification/Base64.thy ===== *)
theory Base64
  imports Prelude
begin

text \<open>
  \<open>Buffer.toString('base64url')\<close> and \<open>Buffer.from(s, 'base64url')\<close> for lengths without padding, which is how
  the services write ids and signatures into tokens. A byte is a number below 256.
\<close>

definition base64Digit :: "nat \<Rightarrow> char" where
  "base64Digit n = char_of (if n < 26 then n + 65 else if n < 52 then n + 71
     else if n < 62 then n - 4 else if n = 62 then 45 else 95)"

definition base64Value :: "char \<Rightarrow> nat" where
  "base64Value c =
     (let u = codeUnit c
      in if 65 \<le> u \<and> u \<le> 90 then u - 65
         else if 97 \<le> u \<and> u \<le> 122 then u - 71
         else if 48 \<le> u \<and> u \<le> 57 then u + 4
         else if u = 45 then 62 else 63)"

definition isBase64 :: "char \<Rightarrow> bool" where
  "isBase64 c \<longleftrightarrow> isAlnum c \<or> c = CHR ''-'' \<or> c = CHR ''_''"

fun toBase64 :: "nat list \<Rightarrow> string" where
  "toBase64 (a # b # c # bs) =
     (let n = a * 65536 + b * 256 + c
      in base64Digit (n div 262144) # base64Digit (n div 4096 mod 64) # base64Digit (n div 64 mod 64)
         # base64Digit (n mod 64) # toBase64 bs)"
| "toBase64 bs = []"

fun fromBase64 :: "string \<Rightarrow> nat list" where
  "fromBase64 (w # x # y # z # cs) =
     (let n = base64Value w * 262144 + base64Value x * 4096 + base64Value y * 64 + base64Value z
      in (n div 65536) # (n div 256 mod 256) # (n mod 256) # fromBase64 cs)"
| "fromBase64 cs = []"

lemma codeUnit_char_of: "n < 256 \<Longrightarrow> codeUnit (char_of n) = n"
  by (simp add: codeUnit_def)

lemma isBase64_unit:
  "isBase64 c \<longleftrightarrow> (let u = codeUnit c in (48 \<le> u \<and> u \<le> 57) \<or> (65 \<le> u \<and> u \<le> 90) \<or> (97 \<le> u \<and> u \<le> 122) \<or> u = 45 \<or> u = 95)"
proof -
  have "codeUnit c = codeUnit d \<longleftrightarrow> c = d" for d by (simp add: codeUnit_def)
  moreover have "codeUnit (CHR ''-'') = 45" "codeUnit (CHR ''_'') = 95" by (simp_all add: codeUnit_def)
  ultimately have "c = CHR ''-'' \<longleftrightarrow> codeUnit c = 45" "c = CHR ''_'' \<longleftrightarrow> codeUnit c = 95" by metis+
  then show ?thesis by (auto simp: isBase64_def isAlnum_def isDigit_def Let_def)
qed

lemma base64_digit:
  assumes "n < 64"
  shows "base64Value (base64Digit n) = n" and "isBase64 (base64Digit n)"
  using assms by (auto simp: base64Digit_def base64Value_def isBase64_unit codeUnit_char_of Let_def)

lemma base64Value_bound: "isBase64 c \<Longrightarrow> base64Value c < 64"
  by (auto simp: isBase64_unit base64Value_def Let_def)

lemma base64_char: "isBase64 c \<Longrightarrow> base64Digit (base64Value c) = c"
proof -
  assume c: "isBase64 c"
  have "char_of (codeUnit c) = c" by (simp add: codeUnit_def)
  with c show ?thesis by (auto simp: isBase64_unit base64Value_def base64Digit_def Let_def)
qed

text \<open>Encoding whole groups of three bytes and decoding whole groups of four characters are inverse.\<close>

lemma sextets:
  fixes n :: nat
  shows "n div 262144 * 262144 + n div 4096 mod 64 * 4096 + n div 64 mod 64 * 64 + n mod 64 = n"
proof -
  define p q r where "p = n div 64" and "q = p div 64" and "r = q div 64"
  have "n div 4096 = q" "n div 262144 = r" "n div 64 = p"
    by (simp_all add: p_def q_def r_def div_mult2_eq [symmetric])
  moreover have "p * 64 + n mod 64 = n" "q * 64 + p mod 64 = p" "r * 64 + q mod 64 = q"
    unfolding p_def q_def r_def by (rule div_mult_mod_eq)+
  ultimately show ?thesis by simp
qed

lemma fromBase64_toBase64:
  "list_all (\<lambda>b. b < 256) bs \<Longrightarrow> 3 dvd length bs \<Longrightarrow> fromBase64 (toBase64 bs) = bs"
proof (induction bs rule: toBase64.induct)
  case (1 a b c bs)
  define n where "n = a * 65536 + b * 256 + c"
  have abc: "a < 256" "b < 256" "c < 256" using 1 by auto
  then have "n < 16777216" unfolding n_def by simp
  then have "n div 262144 < 64" by (simp add: less_mult_imp_div_less)
  moreover have "n mod 256 = c" "n div 256 mod 256 = b" "n div 65536 = a"
  proof -
    define m where "m = a * 256 + b"
    have n: "n = m * 256 + c" by (simp add: n_def m_def)
    show "n mod 256 = c" using abc by (simp add: n)
    have "n div 256 = m" using abc by (simp add: n)
    then have d: "n div 256 = a * 256 + b" by (simp add: m_def)
    then show "n div 256 mod 256 = b" using abc by simp
    have "n div 65536 = n div 256 div 256" by (simp add: div_mult2_eq [symmetric])
    then show "n div 65536 = a" using d abc by simp
  qed
  moreover have "fromBase64 (toBase64 bs) = bs"
  proof (rule "1.IH" [OF refl])
    show "3 dvd length bs" using 1(3) by (simp add: dvd_def) presburger
  qed (use 1(2) in simp)
  ultimately show ?case
    by (simp add: Let_def base64_digit sextets n_def [symmetric])
qed (auto dest: dvd_imp_le)

lemma toBase64_fromBase64:
  "list_all isBase64 cs \<Longrightarrow> 4 dvd length cs \<Longrightarrow> toBase64 (fromBase64 cs) = cs"
proof (induction cs rule: fromBase64.induct)
  case (1 w x y z cs)
  define n where "n = base64Value w * 262144 + base64Value x * 4096 + base64Value y * 64 + base64Value z"
  have b: "base64Value w < 64" "base64Value x < 64" "base64Value y < 64" "base64Value z < 64"
    using 1(2) by (simp_all add: base64Value_bound)
  define p q where "p = base64Value w * 64 + base64Value x" and "q = p * 64 + base64Value y"
  have n: "n = q * 64 + base64Value z" by (simp add: n_def p_def q_def)
  then have d: "n div 64 = q" "n mod 64 = base64Value z" using b by simp_all
  have q: "q div 64 = p" "q mod 64 = base64Value y" using b by (simp_all add: q_def)
  have p: "p div 64 = base64Value w" "p mod 64 = base64Value x" using b by (simp_all add: p_def)
  have "n div 4096 = p" "n div 262144 = base64Value w"
    using d q p by (simp_all add: div_mult2_eq [of n 64 64, simplified] div_mult2_eq [of n 64 4096, simplified]
        div_mult2_eq [of q 64 64, simplified])
  then have sextet: "n div 262144 = base64Value w" "n div 4096 mod 64 = base64Value x"
    "n div 64 mod 64 = base64Value y" "n mod 64 = base64Value z"
    using d q p by simp_all
  have joined: "n div 65536 * 65536 + n div 256 mod 256 * 256 + n mod 256 = n"
  proof -
    define e where "e = n div 256"
    define g where "g = e div 256"
    have "e * 256 + n mod 256 = n" unfolding e_def by (rule div_mult_mod_eq)
    moreover have "g * 256 + e mod 256 = e" unfolding g_def by (rule div_mult_mod_eq)
    moreover have "n div 65536 = g" using div_mult2_eq [of n 256 256] by (simp add: e_def g_def)
    ultimately show ?thesis unfolding e_def [symmetric] by linarith
  qed
  have "toBase64 (fromBase64 cs) = cs"
  proof (rule "1.IH" [OF refl])
    show "4 dvd length cs" using 1(3) by (simp add: dvd_def) presburger
  qed (use 1(2) in simp)
  then show ?case
    using 1(2) joined sextet by (simp add: Let_def n_def [symmetric] base64_char)
qed (auto dest: dvd_imp_le)

lemma length_toBase64: "3 dvd length bs \<Longrightarrow> length (toBase64 bs) = 4 * (length bs div 3)"
proof (induction bs rule: toBase64.induct)
  case (1 a b c bs)
  have "3 dvd length bs" using 1(2) by (simp add: dvd_def) presburger
  with "1.IH" [OF refl] show ?case by (simp add: Let_def)
qed (auto dest: dvd_imp_le)

lemma toBase64_chars: "list_all (\<lambda>b. b < 256) bs \<Longrightarrow> list_all isBase64 (toBase64 bs)"
proof (induction bs rule: toBase64.induct)
  case (1 a b c bs)
  then have "a * 65536 + b * 256 + c < 16777216" by simp
  then have "(a * 65536 + b * 256 + c) div 262144 < 64" by (simp add: less_mult_imp_div_less)
  with 1 show ?case by (simp add: Let_def base64_digit)
qed auto

end
