(* ===== verification/TelegramContext.thy ===== *)
theory TelegramContext
  imports Entitlements Base64
begin

text \<open>
  What every Telegram operation of the backend starts from (\<open>backend/src/telegram/telegram-order.service.ts\<close>
  and \<open>telegram-presentation.service.ts\<close>): the rows that bind a Telegram account to a user, a tenant and a
  store, the resolution of the caller's context, the signed tokens that name stored references, and the
  functions that turn stored snapshots into the texts the bot shows.
\<close>

datatype StoreStatus = StorePending | StoreActive | StoreDisconnected | StoreDisabled
datatype MembershipRole = OWNER | ADMIN | MEMBER
datatype NotificationCategory = OrderCreatedCategory | LowStockCategory
datatype NotificationRecipientMode = ALL_ELIGIBLE | SELECTED
datatype TelegramChatType = PRIVATE
datatype InventorySyncState = UNINITIALIZED | SYNCING | READY | SyncFailed

record ShopRow =
  shId :: string
  shTenantId :: string
  shName :: string
  shBaseUrl :: string
  shStatus :: StoreStatus
  shLowStockThreshold :: "int option"
  shEnabledCategories :: "NotificationCategory list"
  shRecipientMode :: NotificationRecipientMode
  shPolicyVersion :: int
  shSyncState :: InventorySyncState
  shBootstrapStartedAt :: "date option"
  shBootstrapCompletedAt :: "date option"
  shBootstrapFailedAt :: "date option"
  shBootstrapFailureCode :: "string option"
  shBootstrapProductPage :: nat
  shBootstrapVariationPage :: nat
  shBootstrapParentIds :: "string list"
  shBootstrapProductsDone :: bool
  shBootstrapRevision :: nat
  shBootstrapLeaseAt :: "date option"
  shDeletedAt :: "date option"

record MembershipRow =
  mbId :: string
  mbTenantId :: string
  mbUserId :: string
  mbRole :: MembershipRole
  mbDeletedAt :: "date option"

record AccountRow =
  acId :: string
  acTelegramUserId :: int
  acUserId :: string
  acDeletedAt :: "date option"

record ChatRow =
  chId :: string
  chAccountId :: string
  chChatId :: int
  chType :: TelegramChatType
  chActiveTenantId :: "string option"
  chRevokedAt :: "date option"
  chUpdatedAt :: date

record RecipientRow =
  rcStoreId :: string
  rcMembershipId :: string

datatype CallbackPurpose = LIST_PAGE | ORDER_DETAIL | STATUS_WRITE | NOTE_INPUT | NOTE_CONFIRM
datatype CallbackDirection = CURRENT | NEXT | PREVIOUS
datatype NoteVisibility = INTERNAL | CUSTOMER

record ReferenceRow =
  rfId :: string
  rfAccountId :: string
  rfChatId :: int
  rfTenantId :: string
  rfStoreId :: string
  rfPurpose :: CallbackPurpose
  rfDirection :: "CallbackDirection option"
  rfBoundaryWcCreatedAt :: "date option"
  rfBoundaryWcOrderId :: "string option"
  rfTargetWcOrderId :: "string option"
  rfReachableOffset :: "int option"
  rfBackReferenceId :: "string option"
  rfAllowedTargetStatuses :: "string list"
  rfClaimedTargetStatus :: "string option"
  rfNoteVisibility :: "NoteVisibility option"
  rfNoteBodyEncrypted :: "string option"
  rfNoteContentFingerprint :: "string option"
  rfNoteClaimedAt :: "date option"
  rfExpiresAt :: date

record TelegramDb =
  tgTenants :: "TenantRow list"
  tgShops :: "ShopRow list"
  tgMemberships :: "MembershipRow list"
  tgAccounts :: "AccountRow list"
  tgChats :: "ChatRow list"
  tgRecipients :: "RecipientRow list"
  tgOrders :: "OrderRow list"
  tgReferences :: "ReferenceRow list"

text \<open>The identity the bot sends; its two decimal strings are read with \<open>BigInt\<close>.\<close>

record TelegramIdentity =
  tiUserId :: int
  tiChatId :: int

record TelegramOrderContext =
  cxAccountId :: string
  cxUserId :: string
  cxMembershipId :: string
  cxChatId :: int
  cxTenantId :: string
  cxStoreId :: string
  cxRole :: MembershipRole

datatype ContextResolution = ContextOk TelegramOrderContext | NoActiveStore | Unauthorized

section \<open>The caller's context\<close>

definition tenantAlive :: "'x TelegramDb_scheme \<Rightarrow> string \<Rightarrow> bool" where
  "tenantAlive db t \<longleftrightarrow> list_ex (\<lambda>r. tnId r = t \<and> tnDeletedAt r = None) (tgTenants db)"

definition shopAlive :: "'x TelegramDb_scheme \<Rightarrow> string \<Rightarrow> bool" where
  "shopAlive db s \<longleftrightarrow> list_ex (\<lambda>r. shId r = s \<and> shStatus r = StoreActive \<and> shDeletedAt r = None) (tgShops db)"

definition activeChat :: "AccountRow \<Rightarrow> int \<Rightarrow> ChatRow \<Rightarrow> bool" where
  "activeChat a chat c \<longleftrightarrow> chAccountId c = acId a \<and> chChatId c = chat \<and> chRevokedAt c = None"

definition membershipWhere :: "'x TelegramDb_scheme \<Rightarrow> string \<Rightarrow> MembershipRow \<Rightarrow> bool" where
  "membershipWhere db user m \<longleftrightarrow> mbUserId m = user \<and> mbDeletedAt m = None \<and> tenantAlive db (mbTenantId m)
     \<and> mbRole m \<in> {OWNER, ADMIN, MEMBER}"

definition activeShopWhere :: "'x TelegramDb_scheme \<Rightarrow> string \<Rightarrow> ShopRow \<Rightarrow> bool" where
  "activeShopWhere db tenant s \<longleftrightarrow> shTenantId s = tenant \<and> shStatus s = StoreActive \<and> shDeletedAt s = None
     \<and> tenantAlive db tenant"

definition resolveMembership :: "'x TelegramDb_scheme \<Rightarrow> AccountRow \<Rightarrow> int \<Rightarrow> ContextResolution" where
  "resolveMembership db a chat =
     (case take 2 (findMany (membershipWhere db (acUserId a)) (tgMemberships db)) of
        [] \<Rightarrow> Unauthorized
      | [m] \<Rightarrow>
          (case take 2 (findMany (activeShopWhere db (mbTenantId m)) (tgShops db)) of
             [s] \<Rightarrow> ContextOk \<lparr>cxAccountId = acId a, cxUserId = acUserId a, cxMembershipId = mbId m, cxChatId = chat,
                      cxTenantId = mbTenantId m, cxStoreId = shId s, cxRole = mbRole m\<rparr>
           | _ \<Rightarrow> NoActiveStore)
      | _ \<Rightarrow> NoActiveStore)"

definition resolveContext :: "'x TelegramDb_scheme \<Rightarrow> TelegramIdentity \<Rightarrow> ContextResolution" where
  "resolveContext db identity =
     (case findFirst (\<lambda>a. acTelegramUserId a = tiUserId identity) (tgAccounts db) of
        None \<Rightarrow> Unauthorized
      | Some a \<Rightarrow>
          if acDeletedAt a \<noteq> None \<or> length (findMany (activeChat a (tiChatId identity)) (tgChats db)) \<noteq> 1
          then Unauthorized else resolveMembership db a (tiChatId identity))"

record Recipient =
  rpMembershipId :: "string option"
  rpAccountId :: string
  rpChatAuthorizationId :: string
  rpTelegramUserId :: int
  rpTelegramChatId :: int

text \<open>An unrevoked private chat whose account's user has a membership of the tenant.\<close>

definition candidateAccount :: "'x TelegramDb_scheme \<Rightarrow> string \<Rightarrow> ChatRow \<Rightarrow> AccountRow \<Rightarrow> bool" where
  "candidateAccount db tenant c a \<longleftrightarrow> chType c = PRIVATE \<and> chRevokedAt c = None \<and> acId a = chAccountId c
     \<and> acDeletedAt a = None
     \<and> list_ex (\<lambda>m. mbUserId m = acUserId a \<and> mbTenantId m = tenant \<and> mbDeletedAt m = None
          \<and> tenantAlive db tenant) (tgMemberships db)"

definition candidates :: "'x TelegramDb_scheme \<Rightarrow> string \<Rightarrow> (ChatRow \<times> AccountRow) list" where
  "candidates db tenant = concat (map (\<lambda>c. map (\<lambda>a. (c, a)) (filter (candidateAccount db tenant c) (tgAccounts db))) (tgChats db))"

definition recipientOf :: "'x TelegramDb_scheme \<Rightarrow> string \<Rightarrow> string \<Rightarrow> ChatRow \<times> AccountRow \<Rightarrow> Recipient list" where
  "recipientOf db tenant store p =
     (case resolveContext db \<lparr>tiUserId = acTelegramUserId (snd p), tiChatId = chChatId (fst p)\<rparr> of
        ContextOk cx \<Rightarrow>
          if cxAccountId cx = chAccountId (fst p) \<and> cxTenantId cx = tenant \<and> cxStoreId cx = store
          then [\<lparr>rpMembershipId = Some (cxMembershipId cx), rpAccountId = chAccountId (fst p),
                 rpChatAuthorizationId = chId (fst p), rpTelegramUserId = acTelegramUserId (snd p),
                 rpTelegramChatId = chChatId (fst p)\<rparr>]
          else []
      | _ \<Rightarrow> [])"

definition eligibleNotificationRecipients :: "'x TelegramDb_scheme \<Rightarrow> string \<Rightarrow> string \<Rightarrow> Recipient list" where
  "eligibleNotificationRecipients db tenant store = concat (map (recipientOf db tenant store) (candidates db tenant))"

lemma take_two_single: "take 2 xs = [x] \<Longrightarrow> xs = [x]"
  by (cases xs; cases "tl xs") (auto simp: numeral_2_eq_2)


text \<open>One tenant with one store, whose owner talks to the bot in one chat.\<close>

definition sampleTelegram :: TelegramDb where
  "sampleTelegram = \<lparr>
     tgTenants = [\<lparr>tnId = ''ten_1'', tnName = ''A'', tnPlan = FREE, tnEntitlementStatus = ACTIVE,
       tnEntitlementExpiresAt = None, tnTimezone = ''UTC'', tnLanguage = EN, tnDeletedAt = None\<rparr>],
     tgShops = [\<lparr>shId = ''sto_1'', shTenantId = ''ten_1'', shName = ''S'', shBaseUrl = ''https://s.example'',
       shStatus = StoreActive, shLowStockThreshold = Some 5, shEnabledCategories = [OrderCreatedCategory],
       shRecipientMode = ALL_ELIGIBLE, shPolicyVersion = 0, shSyncState = READY, shBootstrapStartedAt = None,
       shBootstrapCompletedAt = None, shBootstrapFailedAt = None, shBootstrapFailureCode = None,
       shBootstrapProductPage = 1, shBootstrapVariationPage = 1, shBootstrapParentIds = [],
       shBootstrapProductsDone = True, shBootstrapRevision = 1, shBootstrapLeaseAt = None, shDeletedAt = None\<rparr>],
     tgMemberships = [\<lparr>mbId = ''mem_1'', mbTenantId = ''ten_1'', mbUserId = ''usr_1'', mbRole = OWNER, mbDeletedAt = None\<rparr>],
     tgAccounts = [\<lparr>acId = ''tac_1'', acTelegramUserId = 77, acUserId = ''usr_1'', acDeletedAt = None\<rparr>],
     tgChats = [\<lparr>chId = ''tca_1'', chAccountId = ''tac_1'', chChatId = 77, chType = PRIVATE,
       chActiveTenantId = Some ''ten_1'', chRevokedAt = None, chUpdatedAt = 0\<rparr>],
     tgRecipients = [], tgOrders = [], tgReferences = []\<rparr>"

definition sampleIdentity :: TelegramIdentity where
  "sampleIdentity = \<lparr>tiUserId = 77, tiChatId = 77\<rparr>"

definition sampleContext :: TelegramOrderContext where
  "sampleContext = \<lparr>cxAccountId = ''tac_1'', cxUserId = ''usr_1'', cxMembershipId = ''mem_1'', cxChatId = 77,
     cxTenantId = ''ten_1'', cxStoreId = ''sto_1'', cxRole = OWNER\<rparr>"

lemma sample_resolves: "resolveContext sampleTelegram sampleIdentity = ContextOk sampleContext"
  by (simp add: resolveContext_def resolveMembership_def sampleTelegram_def sampleIdentity_def sampleContext_def
      findFirst_def findMany_def membershipWhere_def activeShopWhere_def activeChat_def tenantAlive_def)


section \<open>Signed tokens\<close>

text \<open>\<open>s.split('.')\<close>.\<close>

fun splitDots :: "string \<Rightarrow> string list" where
  "splitDots [] = [[]]"
| "splitDots (c # cs) =
     (if c = CHR ''.'' then [] # splitDots cs
      else case splitDots cs of p # ps \<Rightarrow> (c # p) # ps | [] \<Rightarrow> [[c]])"

definition CALLBACK_SIGNATURE_BYTES :: nat where
  "CALLBACK_SIGNATURE_BYTES = 12"

definition shortIdPattern :: "string \<Rightarrow> bool" where
  "shortIdPattern s \<longleftrightarrow> length s = 16 \<and> list_all isBase64 s"

definition signedValue :: "char \<Rightarrow> string \<Rightarrow> string" where
  "signedValue p shortId = p # CHR ''.'' # shortId"

text \<open>
  \<open>mac\<close> is the HMAC of the configured signing key, as bytes. Each service writes its own prefix before the
  random part of the ids of its references (\<open>tcr_\<close> for orders, \<open>tir_\<close> for inventory).
\<close>

definition issueToken :: "string \<Rightarrow> (string \<Rightarrow> nat list) \<Rightarrow> char \<Rightarrow> string \<Rightarrow> string" where
  "issueToken idPrefix mac p referenceId =
     (let shortId = (if startsWith idPrefix referenceId then drop (length idPrefix) referenceId else referenceId)
      in signedValue p shortId @ ''.'' @ toBase64 (take CALLBACK_SIGNATURE_BYTES (mac (signedValue p shortId))))"

definition verifyToken :: "string \<Rightarrow> (string \<Rightarrow> nat list) \<Rightarrow> string \<Rightarrow> char \<Rightarrow> string option" where
  "verifyToken idPrefix mac token expectedPrefix =
     (case splitDots token of
        [p, shortId, signature] \<Rightarrow>
          if p \<noteq> [expectedPrefix] \<or> \<not> shortIdPattern shortId \<or> \<not> shortIdPattern signature then None
          else if fromBase64 signature \<noteq> take CALLBACK_SIGNATURE_BYTES (mac (signedValue expectedPrefix shortId))
          then None else Some (idPrefix @ shortId)
      | _ \<Rightarrow> None)"

definition tokenForReferenceId :: "(string \<Rightarrow> nat list) \<Rightarrow> char \<Rightarrow> string \<Rightarrow> string" where
  "tokenForReferenceId = issueToken ''tcr_''"

definition parseAndVerifyToken :: "(string \<Rightarrow> nat list) \<Rightarrow> string \<Rightarrow> char \<Rightarrow> string option" where
  "parseAndVerifyToken = verifyToken ''tcr_''"

lemma splitDots_not_Nil [simp]: "splitDots s \<noteq> []"
  by (induction s) (auto split: list.splits)

lemma splitDots_plain: "CHR ''.'' \<notin> set s \<Longrightarrow> splitDots s = [s]"
  by (induction s) auto

lemma splitDots_append: "CHR ''.'' \<notin> set s \<Longrightarrow> splitDots (s @ CHR ''.'' # t) = s # splitDots t"
  by (induction s) auto

lemma splitDots_single: "splitDots t = [a] \<Longrightarrow> t = a"
proof (induction t arbitrary: a)
  case (Cons c t)
  then show ?case by (auto split: if_splits list.splits)
qed simp

lemma splitDots_Cons: "splitDots t = a # b # ps \<Longrightarrow> \<exists>u. t = a @ CHR ''.'' # u \<and> splitDots u = b # ps"
proof (induction t arbitrary: a)
  case (Cons c t)
  show ?case
  proof (cases "c = CHR ''.''")
    case True
    with Cons.prems show ?thesis by auto
  next
    case False
    with Cons.prems obtain a' where "a = c # a'" "splitDots t = a' # b # ps" by (auto split: list.splits)
    with Cons.IH [of a'] show ?thesis by auto
  qed
qed simp

lemma base64_no_dot: "list_all isBase64 s \<Longrightarrow> CHR ''.'' \<notin> set s"
  by (auto simp: list_all_iff isBase64_unit codeUnit_def Let_def)

text \<open>
  The contract of a token codec, which every service relies on: it accepts its own tokens, and nothing else.
\<close>

definition goodMac :: "(string \<Rightarrow> nat list) \<Rightarrow> bool" where
  "goodMac mac \<longleftrightarrow> (\<forall>v. length (mac v) = 32 \<and> list_all (\<lambda>b. b < 256) (mac v))"

locale token_codec =
  fixes issue :: "char \<Rightarrow> string \<Rightarrow> string" and verify :: "string \<Rightarrow> char \<Rightarrow> string option" and idPrefix :: string
    and okPrefix :: "char \<Rightarrow> bool"
  assumes accepts: "okPrefix p \<Longrightarrow> shortIdPattern s \<Longrightarrow> verify (issue p (idPrefix @ s)) p = Some (idPrefix @ s)"
    and accepts_only: "verify t p = Some i \<Longrightarrow> \<exists>s. shortIdPattern s \<and> i = idPrefix @ s \<and> t = issue p i"
begin

lemma exact:
  "okPrefix p \<Longrightarrow> verify t p = Some i \<longleftrightarrow> (\<exists>s. shortIdPattern s \<and> i = idPrefix @ s \<and> t = issue p i)"
  using accepts accepts_only by blast

lemma issue_injective:
  assumes "okPrefix p" "shortIdPattern s" "shortIdPattern s'" "issue p (idPrefix @ s) = issue p (idPrefix @ s')"
  shows "s = s'"
  using accepts [OF assms(1,2)] accepts [OF assms(1,3)] assms(4) by (metis option.inject same_append_eq)

lemma one_token_per_reference:
  "verify t p = Some i \<Longrightarrow> verify t' p = Some i \<Longrightarrow> t = t'"
  using accepts_only by blast

end

lemma verify_issue:
  assumes mac: "goodMac mac" and "p \<noteq> CHR ''.''" and s: "shortIdPattern s"
  shows "verifyToken idPrefix mac (issueToken idPrefix mac p (idPrefix @ s)) p = Some (idPrefix @ s)"
proof -
  define bytes where "bytes = take CALLBACK_SIGNATURE_BYTES (mac (signedValue p s))"
  have len: "length bytes = 12" using mac by (simp add: goodMac_def bytes_def CALLBACK_SIGNATURE_BYTES_def)
  have bytes: "list_all (\<lambda>b. b < 256) bytes"
    using mac set_take_subset [of 12 "mac (signedValue p s)"]
    by (auto simp: goodMac_def bytes_def list_all_iff CALLBACK_SIGNATURE_BYTES_def)
  have sig: "shortIdPattern (toBase64 bytes)" "fromBase64 (toBase64 bytes) = bytes"
    using len bytes by (simp_all add: shortIdPattern_def length_toBase64 toBase64_chars fromBase64_toBase64)
  have "issueToken idPrefix mac p (idPrefix @ s) = [p] @ CHR ''.'' # s @ CHR ''.'' # toBase64 bytes"
    by (simp add: issueToken_def startsWith_def signedValue_def bytes_def)
  moreover have "splitDots \<dots> = [[p], s, toBase64 bytes]"
    using assms(2) base64_no_dot s sig(1)
    by (subst splitDots_append; simp add: splitDots_append splitDots_plain shortIdPattern_def)
  ultimately show ?thesis using s sig by (simp add: verifyToken_def bytes_def)
qed

lemma verify_only:
  assumes "verifyToken idPrefix mac token p = Some i"
  shows "\<exists>s. shortIdPattern s \<and> i = idPrefix @ s \<and> token = issueToken idPrefix mac p i"
proof -
  from assms obtain s g where parts: "splitDots token = [[p], s, g]" "shortIdPattern s" "shortIdPattern g"
    "fromBase64 g = take CALLBACK_SIGNATURE_BYTES (mac (signedValue p s))" "i = idPrefix @ s"
    by (auto simp: verifyToken_def split: list.splits if_splits)
  from splitDots_Cons [OF parts(1)] obtain u where u: "token = [p] @ CHR ''.'' # u" "splitDots u = [s, g]" by blast
  from splitDots_Cons [OF u(2)] obtain v where v: "u = s @ CHR ''.'' # v" "splitDots v = [g]" by blast
  from splitDots_single [OF v(2)] have "v = g" .
  moreover have "toBase64 (fromBase64 g) = g"
    using parts(3) by (intro toBase64_fromBase64) (simp_all add: shortIdPattern_def)
  ultimately have "token = issueToken idPrefix mac p i"
    using u(1) v(1) parts(4,5) by (simp add: issueToken_def startsWith_def signedValue_def)
  with parts show ?thesis by blast
qed

text \<open>The prefix of a token must not be the separator; \<open>goodMac\<close> is what HMAC-SHA-256 returns.\<close>

interpretation order_tokens: token_codec "tokenForReferenceId mac" "\<lambda>t p. parseAndVerifyToken mac t p" "''tcr_''"
  "\<lambda>p. goodMac mac \<and> p \<noteq> CHR ''.''"
  unfolding tokenForReferenceId_def parseAndVerifyToken_def
  by unfold_locales (blast intro: verify_issue, rule verify_only)

text \<open>
  C23: tokens round trip and nothing else is accepted: a text verifies under a prefix and yields a reference
  id exactly when it is the token issued for that id under that prefix, with an id of the issued form; so a
  changed, truncated, re-encoded or re-purposed token never verifies unless its signature is recomputed.
\<close>

theorem token_round_trip:
  assumes "goodMac mac" and "p \<noteq> CHR ''.''"
  shows "parseAndVerifyToken mac token p = Some i \<longleftrightarrow>
    (\<exists>shortId. shortIdPattern shortId \<and> i = ''tcr_'' @ shortId \<and> token = tokenForReferenceId mac p i)"
  by (rule order_tokens.exact) (simp add: assms)

theorem token_round_trip_witness:
  "parseAndVerifyToken (\<lambda>v. replicate 32 7)
     (tokenForReferenceId (\<lambda>v. replicate 32 7) (CHR ''p'') ''tcr_ABCDabcd01234-_z'') (CHR ''p'')
   = Some ''tcr_ABCDabcd01234-_z''"
proof -
  have "shortIdPattern ''ABCDabcd01234-_z''"
    by (simp add: shortIdPattern_def isBase64_def eval_simps)
  moreover have "''tcr_ABCDabcd01234-_z'' = ''tcr_'' @ ''ABCDabcd01234-_z''" by simp
  moreover have "goodMac (\<lambda>v. replicate 32 7)"
    by (simp add: goodMac_def list_all_iff)
  ultimately show ?thesis by (subst token_round_trip) blast+
qed

section \<open>References\<close>

text \<open>
  What an operation reads from outside the database: the clock at its successive readings, the random
  short ids in the order it draws them, the signing key, and two settings in seconds.
\<close>

record TelegramEnv =
  teClock :: "nat \<Rightarrow> date"
  teShortId :: "nat \<Rightarrow> string"
  teMac :: "string \<Rightarrow> nat list"
  teReferenceTtlSeconds :: int
  teFreshnessThresholdSeconds :: int

definition contextReference :: "TelegramOrderContext \<Rightarrow> CallbackPurpose \<Rightarrow> string \<Rightarrow> date \<Rightarrow> ReferenceRow" where
  "contextReference cx purpose shortId expiresAt =
     \<lparr>rfId = ''tcr_'' @ shortId, rfAccountId = cxAccountId cx, rfChatId = cxChatId cx, rfTenantId = cxTenantId cx,
      rfStoreId = cxStoreId cx, rfPurpose = purpose, rfDirection = None, rfBoundaryWcCreatedAt = None,
      rfBoundaryWcOrderId = None, rfTargetWcOrderId = None, rfReachableOffset = None, rfBackReferenceId = None,
      rfAllowedTargetStatuses = [], rfClaimedTargetStatus = None, rfNoteVisibility = None,
      rfNoteBodyEncrypted = None, rfNoteContentFingerprint = None, rfNoteClaimedAt = None,
      rfExpiresAt = expiresAt\<rparr>"

definition referenceToken :: "TelegramEnv \<Rightarrow> char \<Rightarrow> ReferenceRow \<Rightarrow> string" where
  "referenceToken env p r = tokenForReferenceId (teMac env) p (rfId r)"

definition listReference :: "TelegramOrderContext \<Rightarrow> string \<Rightarrow> date \<Rightarrow> ReferenceRow" where
  "listReference cx shortId expiresAt =
     (contextReference cx LIST_PAGE shortId expiresAt)\<lparr>rfDirection := Some CURRENT, rfReachableOffset := Some 0\<rparr>"

definition detailReference :: "TelegramOrderContext \<Rightarrow> string \<Rightarrow> string \<Rightarrow> string \<Rightarrow> date \<Rightarrow> ReferenceRow" where
  "detailReference cx wcId back shortId expiresAt =
     (contextReference cx ORDER_DETAIL shortId expiresAt)\<lparr>rfTargetWcOrderId := Some wcId, rfBackReferenceId := Some back\<rparr>"

definition referenceMatchesContext :: "ReferenceRow \<Rightarrow> TelegramOrderContext \<Rightarrow> bool" where
  "referenceMatchesContext r cx \<longleftrightarrow> rfAccountId r = cxAccountId cx \<and> rfChatId r = cxChatId cx
     \<and> rfTenantId r = cxTenantId cx \<and> rfStoreId r = cxStoreId cx"

definition referencePrefix :: "CallbackPurpose \<Rightarrow> char" where
  "referencePrefix purpose = (if purpose = LIST_PAGE then CHR ''p'' else CHR ''d'')"

definition findReference :: "'x TelegramDb_scheme \<Rightarrow> string \<Rightarrow> ReferenceRow option" where
  "findReference db i = findFirst (\<lambda>r. rfId r = i) (tgReferences db)"

definition validateReference ::
  "TelegramEnv \<Rightarrow> date \<Rightarrow> 'x TelegramDb_scheme \<Rightarrow> string \<Rightarrow> CallbackPurpose \<Rightarrow> TelegramOrderContext \<Rightarrow> ReferenceRow option" where
  "validateReference env now db token purpose cx =
     (case parseAndVerifyToken (teMac env) token (referencePrefix purpose) of
        None \<Rightarrow> None
      | Some i \<Rightarrow>
          (case findReference db i of
             None \<Rightarrow> None
           | Some r \<Rightarrow>
               if rfExpiresAt r \<le> now \<or> rfPurpose r \<noteq> purpose \<or> \<not> referenceMatchesContext r cx then None
               else Some r))"

section \<open>Texts for the bot\<close>

text \<open>\<open>None\<close> is the text \<open>\<emdash>\<close>, which lies outside the code units of \<open>string\<close>.\<close>

definition jsonRecord :: "json option \<Rightarrow> jsobject option" where
  "jsonRecord v = (case v of Some (JObj r) \<Rightarrow> Some r | _ \<Rightarrow> None)"

definition recordField :: "jsobject option \<Rightarrow> string \<Rightarrow> json option" where
  "recordField r key = (case r of Some o1 \<Rightarrow> field o1 key | None \<Rightarrow> None)"

definition scalarText :: "json option \<Rightarrow> string option" where
  "scalarText v = (case v of Some (JStr s) \<Rightarrow> Some s | Some (JNum n) \<Rightarrow> Some (numberToString n) | _ \<Rightarrow> None)"

definition totalValue :: "json \<Rightarrow> string option" where
  "totalValue v = scalarText (recordField (jsonRecord (Some v)) ''total'')"

definition trimmedText :: "json option \<Rightarrow> string" where
  "trimmedText v = (case v of Some (JStr s) \<Rightarrow> trim s | _ \<Rightarrow> [])"

definition customerDisplayName :: "json \<Rightarrow> string" where
  "customerDisplayName v =
     (let billing = jsonRecord (recordField (jsonRecord (Some v)) ''billing'');
          fullName = joinWith '' '' (filter (\<lambda>s. s \<noteq> [])
            [trimmedText (recordField billing ''first_name''), trimmedText (recordField billing ''last_name'')]);
          company = trimmedText (recordField billing ''company'')
      in if fullName \<noteq> [] then fullName else if company \<noteq> [] then company else ''Guest'')"

definition safeTotals :: "json \<Rightarrow> jsobject" where
  "safeTotals v = (case v of JObj r \<Rightarrow> filter (\<lambda>p. scalarText (Some (snd p)) \<noteq> None) r | _ \<Rightarrow> [])"

record LineItem =
  liName :: string
  liQuantity :: json
  liTotal :: string

definition safeLineItem :: "json \<Rightarrow> LineItem list" where
  "safeLineItem item =
     (let r = jsonRecord (Some item)
      in case (recordField r ''name'', recordField r ''quantity'', scalarText (recordField r ''total'')) of
           (Some (JStr n), Some q, Some t) \<Rightarrow>
             if scalarText (Some q) \<noteq> None then [\<lparr>liName = n, liQuantity = q, liTotal = t\<rparr>] else []
         | _ \<Rightarrow> [])"

definition safeLineItems :: "json \<Rightarrow> LineItem list" where
  "safeLineItems v = (case v of JArr xs \<Rightarrow> concat (map safeLineItem xs) | _ \<Rightarrow> [])"

definition isControl :: "char \<Rightarrow> bool" where
  "isControl c \<longleftrightarrow> codeUnit c \<le> 31 \<or> codeUnit c = 127"

definition safeContextLine :: "json option \<Rightarrow> string" where
  "safeContextLine v =
     (case v of
        Some (JStr s) \<Rightarrow> take 191 (trim (map (\<lambda>c. if isControl c then CHR '' '' else c) s))
      | _ \<Rightarrow> [])"

record PaymentView =
  pvMethod :: "string option"
  pvPaid :: bool

definition safePayment :: "json \<Rightarrow> PaymentView" where
  "safePayment v =
     (let r = jsonRecord (Some v);
          title = safeContextLine (recordField r ''method_title'');
          method = safeContextLine (recordField r ''method'')
      in \<lparr>pvMethod = (if title \<noteq> [] then Some title else if method \<noteq> [] then Some method else None),
          pvPaid = (recordField r ''paid'' = Some (JBool True))\<rparr>)"

record ShippingView =
  svMethods :: "string list"
  svAddressLines :: "string list"

definition shippingMethod :: "json \<Rightarrow> string list" where
  "shippingMethod line =
     (let r = jsonRecord (Some line);
          title = safeContextLine (recordField r ''method_title'');
          i = safeContextLine (recordField r ''method_id'')
      in if title \<noteq> [] then [title] else if i \<noteq> [] then [i] else [])"

text \<open>\<open>[...new Set(methods)]\<close> keeps the first of equal texts.\<close>

definition safeShipping :: "json \<Rightarrow> json \<Rightarrow> ShippingView" where
  "safeShipping customer shippingLines =
     (let r = jsonRecord (recordField (jsonRecord (Some customer)) ''shipping'');
          line = (\<lambda>key. safeContextLine (recordField r key));
          city = joinWith '', '' (filter (\<lambda>s. s \<noteq> []) [line ''city'', line ''state'', line ''postcode'']);
          methods = (case shippingLines of JArr xs \<Rightarrow> concat (map shippingMethod xs) | _ \<Rightarrow> [])
      in \<lparr>svMethods = rev (remdups (rev methods)),
          svAddressLines = filter (\<lambda>s. s \<noteq> []) [line ''company'', line ''address_1'', line ''address_2'', city, line ''country'']\<rparr>)"

record OrderSummary =
  smRef :: string
  smOrderNumber :: string
  smStatus :: string
  smCurrency :: string
  smTotal :: "string option"
  smCustomer :: string
  smCreatedAt :: string
  smRemoteDeleted :: bool

definition toOrderSummary :: "OrderRow \<Rightarrow> string \<Rightarrow> OrderSummary" where
  "toOrderSummary r ref =
     \<lparr>smRef = ref, smOrderNumber = orderNumber r, smStatus = status r, smCurrency = currency r,
      smTotal = totalValue (totals r), smCustomer = customerDisplayName (customerSnapshot r),
      smCreatedAt = toISOString (wcCreatedAt r), smRemoteDeleted = (remoteDeletedAt r \<noteq> None)\<rparr>"

record OrderDetail =
  odOrderNumber :: string
  odStatus :: string
  odCurrency :: string
  odTotals :: jsobject
  odCustomer :: string
  odLineItems :: "LineItem list"
  odPayment :: PaymentView
  odShipping :: ShippingView
  odCreatedAt :: string
  odModifiedAt :: string

definition toDetail :: "OrderRow \<Rightarrow> OrderDetail" where
  "toDetail r =
     \<lparr>odOrderNumber = orderNumber r, odStatus = status r, odCurrency = currency r, odTotals = safeTotals (totals r),
      odCustomer = customerDisplayName (customerSnapshot r), odLineItems = safeLineItems (lineItemsSnapshot r),
      odPayment = safePayment (paymentSnapshot r),
      odShipping = safeShipping (customerSnapshot r) (shippingLinesSnapshot r),
      odCreatedAt = toISOString (wcCreatedAt r), odModifiedAt = toISOString (wcModifiedAt r)\<rparr>"

record Freshness =
  frAsOf :: string
  frDelayed :: bool

definition freshness :: "TelegramEnv \<Rightarrow> date \<Rightarrow> date option \<Rightarrow> Freshness" where
  "freshness env now asOf =
     (let effective = (case asOf of Some t \<Rightarrow> t | None \<Rightarrow> 0)
      in \<lparr>frAsOf = toISOString effective,
          frDelayed = (asOf = None \<or> now - effective > teFreshnessThresholdSeconds env * 1000)\<rparr>)"

section \<open>Language and time zone of a chat\<close>

record TelegramPresentation =
  prLanguage :: TenantLanguage
  prTimezone :: string
  prEntitlement :: "TenantEntitlementSummary option"

definition DEFAULT_TELEGRAM_PRESENTATION :: TelegramPresentation where
  "DEFAULT_TELEGRAM_PRESENTATION = \<lparr>prLanguage = FA, prTimezone = ''UTC'', prEntitlement = None\<rparr>"

definition presentedTenant :: "'x TelegramDb_scheme \<Rightarrow> AccountRow \<Rightarrow> string \<Rightarrow> TenantRow option" where
  "presentedTenant db a tenant =
     (if list_ex (\<lambda>m. mbUserId m = acUserId a \<and> mbTenantId m = tenant \<and> mbDeletedAt m = None) (tgMemberships db)
      then findFirst (\<lambda>t. tnId t = tenant \<and> tnDeletedAt t = None) (tgTenants db) else None)"

text \<open>\<open>validTimezone\<close> asks the \<open>Intl\<close> library, which is a parameter.\<close>

definition tenantPresentation :: "(string \<Rightarrow> bool) \<Rightarrow> date \<Rightarrow> TenantRow \<Rightarrow> TelegramPresentation" where
  "tenantPresentation validTimezone now t =
     \<lparr>prLanguage = tnLanguage t, prTimezone = (if validTimezone (tnTimezone t) then tnTimezone t else ''UTC''),
      prEntitlement = Some (rowSummary t now)\<rparr>"

definition resolvePresentation ::
  "(string \<Rightarrow> bool) \<Rightarrow> date \<Rightarrow> 'x TelegramDb_scheme \<Rightarrow> TelegramIdentity \<Rightarrow> TelegramPresentation" where
  "resolvePresentation validTimezone now db identity =
     (case findFirst (\<lambda>a. acTelegramUserId a = tiUserId identity) (tgAccounts db) of
        None \<Rightarrow> DEFAULT_TELEGRAM_PRESENTATION
      | Some a \<Rightarrow>
          if acDeletedAt a \<noteq> None then DEFAULT_TELEGRAM_PRESENTATION
          else (case findFirst (activeChat a (tiChatId identity)) (tgChats db) of
                  None \<Rightarrow> DEFAULT_TELEGRAM_PRESENTATION
                | Some c \<Rightarrow>
                    (case chActiveTenantId c of
                       None \<Rightarrow> DEFAULT_TELEGRAM_PRESENTATION
                     | Some tenant \<Rightarrow>
                         if tenant = [] then DEFAULT_TELEGRAM_PRESENTATION
                         else (case presentedTenant db a tenant of
                                 None \<Rightarrow> DEFAULT_TELEGRAM_PRESENTATION
                               | Some t \<Rightarrow> tenantPresentation validTimezone now t))))"

end
