(* ===== verification/InventoryBootstrap.thy ===== *)
theory InventoryBootstrap
  imports InventoryProjection WebhookProcessor TelegramContext
begin

text \<open>
  The first scan of a shop's catalogue (\<open>backend/src/queue/inventory-bootstrap.scheduler.ts\<close> and
  \<open>inventory-bootstrap.processor.ts\<close>). The scan is cut into jobs: one job reads one page of 25 products, or
  one page of 25 variations of one product, projects what it read, moves the cursor in the store's row and
  enqueues the job of the next revision. A lease in the row keeps two jobs of one revision apart. What other
  processes commit between the statements of a handler is the parameter \<open>beBetween\<close>.
\<close>

record BootstrapJobData =
  bjTenantId :: string
  bjStoreId :: string
  bjRevision :: nat

record BootstrapJobResult =
  brTenantId :: string
  brStoreId :: string
  brReady :: bool

record BootDb =
  btTenants :: "TenantRow list"
  btShops :: "ShopRow list"
  btItems :: "ItemRow list"
  btJobs :: "(BootstrapJobData \<times> string) list"

text \<open>
  What a job can throw: a failure of the projection service, an error of the WooCommerce client, BullMQ's
  \<open>UnrecoverableError\<close>, or any other error.
\<close>

datatype BootError =
    BootProjection InventoryFailure
  | BootClient WooCommerceErrorCategory
  | BootUnrecoverable string
  | BootOther string

record BootEnv =
  beClock :: "nat \<Rightarrow> date"
  beProducts :: "ProjectableStore \<Rightarrow> nat \<Rightarrow> nat \<Rightarrow> FetchFailure + json"
  beVariations :: "ProjectableStore \<Rightarrow> string \<Rightarrow> nat \<Rightarrow> nat \<Rightarrow> FetchFailure + json"
  beInventory :: InventoryEnv
  beQueueUp :: bool
  beBetween :: "nat \<Rightarrow> BootDb \<Rightarrow> BootDb"

section \<open>Job data\<close>

definition revisionField :: "jsobject \<Rightarrow> BootError + nat" where
  "revisionField r =
     (case field r ''revision'' of
        Some (JNum (NInt i)) \<Rightarrow>
          if isSafeInteger (NInt i) \<and> 0 \<le> i then Inr (nat i)
          else Inl (BootUnrecoverable ''Inventory bootstrap revision is required and must be valid'')
      | _ \<Rightarrow> Inl (BootUnrecoverable ''Inventory bootstrap revision is required and must be valid''))"

definition bootIdentity :: "jsobject \<Rightarrow> string \<Rightarrow> string \<Rightarrow> string \<Rightarrow> BootError + string" where
  "bootIdentity r key prefix message =
     map_sum (\<lambda>e. BootUnrecoverable message) id (identityField r key prefix message)"

definition validateInventoryBootstrapJobData :: "json \<Rightarrow> BootError + BootstrapJobData" where
  "validateInventoryBootstrapJobData v =
     andThen (case v of
        JObj r \<Rightarrow> Inr r
      | JArr xs \<Rightarrow> Inr []
      | _ \<Rightarrow> Inl (BootUnrecoverable ''Inventory bootstrap job payload must be an object'')) (\<lambda>r.
     andThen (bootIdentity r ''tenantId'' ''ten_''
       ''Inventory bootstrap tenant identity is required and must be valid'') (\<lambda>t.
     andThen (bootIdentity r ''storeId'' ''sto_''
       ''Inventory bootstrap Store identity is required and must be valid'') (\<lambda>s.
     andThen (revisionField r) (\<lambda>n.
     Inr \<lparr>bjTenantId = t, bjStoreId = s, bjRevision = n\<rparr>))))"

definition bootstrapJobJson :: "BootstrapJobData \<Rightarrow> json" where
  "bootstrapJobJson d = JObj [(''tenantId'', JStr (bjTenantId d)), (''storeId'', JStr (bjStoreId d)),
     (''revision'', JNum (NInt (int (bjRevision d))))]"

section \<open>The scheduler\<close>

definition inventoryBootstrapJobId :: "string \<Rightarrow> nat \<Rightarrow> string" where
  "inventoryBootstrapJobId store n = ''inventory-bootstrap-'' @ store @ ''-'' @ showNat n"

definition enqueueBootstrap :: "BootEnv \<Rightarrow> BootstrapJobData \<Rightarrow> BootDb \<Rightarrow> (BootError + unit) \<times> BootDb" where
  "enqueueBootstrap env d db =
     (case validateInventoryBootstrapJobData (bootstrapJobJson d) of
        Inl e \<Rightarrow> (Inl e, db)
      | Inr d' \<Rightarrow>
          if beQueueUp env
          then (Inr (), db\<lparr>btJobs := btJobs db @ [(d, inventoryBootstrapJobId (bjStoreId d) (bjRevision d))]\<rparr>)
          else (Inl (BootOther ''queue''), db))"

definition bootTenantAlive :: "BootDb \<Rightarrow> string \<Rightarrow> bool" where
  "bootTenantAlive db tenant \<longleftrightarrow> list_ex (\<lambda>t. tnId t = tenant \<and> tnDeletedAt t = None) (btTenants db)"

definition liveShopWhere :: "string \<Rightarrow> string \<Rightarrow> ShopRow \<Rightarrow> bool" where
  "liveShopWhere tenant store s \<longleftrightarrow> shId s = store \<and> shTenantId s = tenant \<and> shStatus s = StoreActive
     \<and> shDeletedAt s = None"

definition loadShop :: "string \<Rightarrow> string \<Rightarrow> BootDb \<Rightarrow> ShopRow option" where
  "loadShop tenant store db =
     findFirst (\<lambda>s. liveShopWhere tenant store s \<and> bootTenantAlive db tenant) (btShops db)"

definition updateShops :: "(ShopRow \<Rightarrow> bool) \<Rightarrow> (ShopRow \<Rightarrow> ShopRow) \<Rightarrow> BootDb \<Rightarrow> nat \<times> BootDb" where
  "updateShops P f db = map_prod id (\<lambda>rows. db\<lparr>btShops := rows\<rparr>) (updateMany P f (btShops db))"

definition startSync :: "InventorySyncState \<Rightarrow> date \<Rightarrow> ShopRow \<Rightarrow> ShopRow" where
  "startSync previous now s =
     s\<lparr>shSyncState := SYNCING,
       shBootstrapStartedAt := (if previous = UNINITIALIZED then Some now else shBootstrapStartedAt s),
       shBootstrapFailedAt := None, shBootstrapFailureCode := None, shBootstrapLeaseAt := None,
       shBootstrapRevision := shBootstrapRevision s + 1\<rparr>"

definition ENQUEUE_FAILED :: string where
  "ENQUEUE_FAILED = ''bootstrap-enqueue-failed''"

definition syncingAt :: "string \<Rightarrow> string \<Rightarrow> nat \<Rightarrow> ShopRow \<Rightarrow> bool" where
  "syncingAt tenant store n s \<longleftrightarrow> shId s = store \<and> shTenantId s = tenant \<and> shSyncState s = SYNCING
     \<and> shBootstrapRevision s = n"

record InitOutcome =
  ioPrevious :: InventorySyncState
  ioState :: InventorySyncState
  ioEnqueueFailed :: bool

definition startSyncing :: "BootEnv \<Rightarrow> string \<Rightarrow> string \<Rightarrow> InventorySyncState \<Rightarrow> BootDb \<Rightarrow> BootDb" where
  "startSyncing env tenant store previous db =
     (if previous = UNINITIALIZED \<or> previous = SyncFailed
      then snd (updateShops (\<lambda>s. liveShopWhere tenant store s \<and> shSyncState s = previous)
                  (startSync previous (beClock env 0)) db)
      else db)"

definition enqueueInitial ::
  "BootEnv \<Rightarrow> string \<Rightarrow> string \<Rightarrow> InventorySyncState \<Rightarrow> nat \<Rightarrow> BootDb \<Rightarrow> (BootError + InitOutcome) \<times> BootDb" where
  "enqueueInitial env tenant store previous n db =
     (case enqueueBootstrap env \<lparr>bjTenantId = tenant, bjStoreId = store, bjRevision = n\<rparr> db of
        (Inr _, db') \<Rightarrow>
          (Inr \<lparr>ioPrevious = previous, ioState = SYNCING, ioEnqueueFailed = False\<rparr>,
           snd (updateShops (\<lambda>s. syncingAt tenant store n s \<and> shBootstrapFailureCode s = Some ENQUEUE_FAILED)
                  (\<lambda>s. s\<lparr>shBootstrapFailedAt := None, shBootstrapFailureCode := None\<rparr>) (beBetween env 2 db')))
      | (Inl _, db') \<Rightarrow>
          (Inr \<lparr>ioPrevious = previous, ioState = SYNCING, ioEnqueueFailed = True\<rparr>,
           snd (updateShops (syncingAt tenant store n)
                  (\<lambda>s. s\<lparr>shBootstrapFailedAt := Some (beClock env 1), shBootstrapFailureCode := Some ENQUEUE_FAILED,
                         shBootstrapLeaseAt := None\<rparr>) (beBetween env 2 db'))))"

definition ensureInitialized :: "BootEnv \<Rightarrow> string \<Rightarrow> string \<Rightarrow> BootDb \<Rightarrow> (BootError + InitOutcome) \<times> BootDb" where
  "ensureInitialized env tenant store db =
     (case loadShop tenant store db of
        None \<Rightarrow> (Inl (BootOther ''Inventory Store context is unavailable''), db)
      | Some s \<Rightarrow>
          let previous = shSyncState s
          in if previous = READY
             then (Inr \<lparr>ioPrevious = previous, ioState = READY, ioEnqueueFailed = False\<rparr>, db)
             else
               let db2 = beBetween env 1 (startSyncing env tenant store previous (beBetween env 0 db))
               in case findFirst (liveShopWhere tenant store) (btShops db2) of
                    None \<Rightarrow> (Inl (BootOther ''Inventory Store context is unavailable''), db2)
                  | Some current \<Rightarrow>
                      if shSyncState current \<noteq> SYNCING
                      then (Inr \<lparr>ioPrevious = previous, ioState = shSyncState current, ioEnqueueFailed = False\<rparr>, db2)
                      else enqueueInitial env tenant store previous (shBootstrapRevision current) db2)"

section \<open>The worker\<close>

definition BOOTSTRAP_PAGE_SIZE :: nat where
  "BOOTSTRAP_PAGE_SIZE = 25"

definition BOOTSTRAP_LEASE_MS :: int where
  "BOOTSTRAP_LEASE_MS = 30000"

definition leaseFree :: "date \<Rightarrow> ShopRow \<Rightarrow> bool" where
  "leaseFree claimedAt s \<longleftrightarrow>
     (case shBootstrapLeaseAt s of None \<Rightarrow> True | Some t \<Rightarrow> t \<le> claimedAt - BOOTSTRAP_LEASE_MS)"

definition bootClaimWhere :: "BootstrapJobData \<Rightarrow> date \<Rightarrow> ShopRow \<Rightarrow> bool" where
  "bootClaimWhere d claimedAt s \<longleftrightarrow> liveShopWhere (bjTenantId d) (bjStoreId d) s
     \<and> syncingAt (bjTenantId d) (bjStoreId d) (bjRevision d) s \<and> leaseFree claimedAt s"

definition leasedAt :: "string \<Rightarrow> string \<Rightarrow> nat \<Rightarrow> date \<Rightarrow> ShopRow \<Rightarrow> bool" where
  "leasedAt tenant store n claimedAt s \<longleftrightarrow> syncingAt tenant store n s \<and> shBootstrapLeaseAt s = Some claimedAt"

definition bootFailureCode :: "BootError option \<Rightarrow> string" where
  "bootFailureCode e =
     (case e of
        Some (BootProjection (InventoryProjectionFailure c k r)) \<Rightarrow> take 191 k
      | Some (BootClient c) \<Rightarrow> ''woocommerce-'' @ categoryText c
      | Some (BootUnrecoverable m) \<Rightarrow> take 191 m
      | _ \<Rightarrow> ''inventory-bootstrap-failed'')"

datatype BootErrorType = ProjectionErrorType | ClientErrorType | UnrecoverableErrorType | UnexpectedErrorType

definition bootFailureDiagnostic :: "BootError \<Rightarrow> WooCommerceErrorCategory \<times> string \<times> BootErrorType" where
  "bootFailureDiagnostic e =
     (case e of
        BootProjection (InventoryProjectionFailure c k r) \<Rightarrow> (c, bootFailureCode (Some e), ProjectionErrorType)
      | BootClient c \<Rightarrow> (c, bootFailureCode (Some e), ClientErrorType)
      | BootUnrecoverable m \<Rightarrow> (Unexpected, bootFailureCode (Some e), UnrecoverableErrorType)
      | BootOther m \<Rightarrow> (Unexpected, ''inventory-bootstrap-failed'', UnexpectedErrorType))"

definition bootIsRetryable :: "BootError \<Rightarrow> bool" where
  "bootIsRetryable e =
     (case e of
        BootClient c \<Rightarrow> retryableCategory c
      | BootProjection (InventoryProjectionFailure c k r) \<Rightarrow> r
      | _ \<Rightarrow> False)"

text \<open>
  The projection service sees the same rows: the settings it reads come from the rows of the stores. An
  error it does not turn into its own failure (a conflict that outlived the attempts, a database error) is
  any other error here.
\<close>

definition shopSettings :: "BootDb \<Rightarrow> ShopRow \<Rightarrow> StoreSettings" where
  "shopSettings db s =
     \<lparr>settingsStoreId = shId s, settingsTenantId = shTenantId s, lowStockThreshold = shLowStockThreshold s,
      settingsDeletedAt = shDeletedAt s,
      settingsTenantDeletedAt = (if bootTenantAlive db (shTenantId s) then None else Some 0)\<rparr>"

definition inventoryView :: "BootDb \<Rightarrow> InventoryDb" where
  "inventoryView db = \<lparr>inventoryItems = btItems db, stores = map (shopSettings db) (btShops db)\<rparr>"

definition bootErrorOf :: "InventoryError \<Rightarrow> BootError" where
  "bootErrorOf e =
     (case e of Thrown f \<Rightarrow> BootProjection f | ConcurrentProjectionError \<Rightarrow> BootOther ''conflict'' | PrismaError c \<Rightarrow> BootOther c)"

definition projectBootItem :: "BootEnv \<Rightarrow> nat \<Rightarrow> ProjectableStore \<Rightarrow> json \<Rightarrow> BootDb \<Rightarrow> (BootError + unit) \<times> BootDb" where
  "projectBootItem env tx s item db =
     (let done = projectBootstrapPayload (beInventory env) tx s item (inventoryView db)
      in (map_sum bootErrorOf id (fst done), db\<lparr>btItems := inventoryItems (snd done)\<rparr>))"

fun projectVariations ::
  "BootEnv \<Rightarrow> nat \<Rightarrow> ProjectableStore \<Rightarrow> json list \<Rightarrow> BootDb \<Rightarrow> (BootError + unit) \<times> BootDb" where
  "projectVariations env tx s [] db = (Inr (), db)"
| "projectVariations env tx s (item # page) db =
     (case projectBootItem env tx s item db of
        (Inl e, db') \<Rightarrow> (Inl e, db')
      | (Inr _, db') \<Rightarrow> projectVariations env (Suc tx) s page db')"

definition parentOf :: "json \<Rightarrow> BootError + string list" where
  "parentOf item =
     map_sum (\<lambda>e. BootOther (invCode e)) id
       (andThen (productRequiresVariationScan item) (\<lambda>scan.
          if scan then map_sum id (\<lambda>i. [i]) (readWooCommerceInventoryItemId item) else Inr []))"

fun projectProducts ::
  "BootEnv \<Rightarrow> nat \<Rightarrow> ProjectableStore \<Rightarrow> json list \<Rightarrow> BootDb \<Rightarrow> (BootError + string list) \<times> BootDb" where
  "projectProducts env tx s [] db = (Inr [], db)"
| "projectProducts env tx s (item # page) db =
     (case projectBootItem env tx s item db of
        (Inl e, db') \<Rightarrow> (Inl e, db')
      | (Inr _, db') \<Rightarrow>
          (case parentOf item of
             Inl e \<Rightarrow> (Inl e, db')
           | Inr ids \<Rightarrow> map_prod (map_sum id (append ids)) id (projectProducts env (Suc tx) s page db')))"

definition requirePage :: "json \<Rightarrow> BootError + json list" where
  "requirePage v =
     (case v of
        JArr page \<Rightarrow>
          if BOOTSTRAP_PAGE_SIZE < length page
          then Inl (BootProjection (InventoryProjectionFailure Unexpected ''malformed-inventory-bootstrap-page'' False))
          else Inr page
      | _ \<Rightarrow> Inl (BootProjection (InventoryProjectionFailure Unexpected ''malformed-inventory-bootstrap-page'' False)))"

definition fetchError :: "FetchFailure \<Rightarrow> BootError" where
  "fetchError e = (case e of ClientError c \<Rightarrow> BootClient c | OtherFetchError \<Rightarrow> BootOther ''fetch'')"

definition finishRow :: "bool \<Rightarrow> date \<Rightarrow> ShopRow \<Rightarrow> ShopRow" where
  "finishRow ready now s =
     s\<lparr>shSyncState := (if ready then READY else SYNCING),
       shBootstrapCompletedAt := (if ready then Some now else shBootstrapCompletedAt s),
       shBootstrapFailedAt := None, shBootstrapFailureCode := None, shBootstrapLeaseAt := None,
       shBootstrapRevision := shBootstrapRevision s + 1\<rparr>"

definition advance ::
  "BootEnv \<Rightarrow> ShopRow \<Rightarrow> date \<Rightarrow> (ShopRow \<Rightarrow> ShopRow) \<Rightarrow> bool \<Rightarrow> BootDb \<Rightarrow> (BootError + bool) \<times> BootDb" where
  "advance env s claimedAt progress ready db =
     (let advanced = updateShops (leasedAt (shTenantId s) (shId s) (shBootstrapRevision s) claimedAt)
            (finishRow ready (beClock env 1) \<circ> progress) db
      in (if fst advanced \<noteq> 1 then Inl (BootOther ''Inventory bootstrap progress could not be persisted'') else Inr ready,
          snd advanced))"

definition variationProgress :: "string list \<Rightarrow> nat \<Rightarrow> ShopRow \<Rightarrow> ShopRow" where
  "variationProgress parents page s = s\<lparr>shBootstrapParentIds := parents, shBootstrapVariationPage := page\<rparr>"

definition productProgress :: "nat \<Rightarrow> bool \<Rightarrow> string list \<Rightarrow> ShopRow \<Rightarrow> ShopRow" where
  "productProgress page productsDone parents s =
     s\<lparr>shBootstrapProductPage := page, shBootstrapProductsDone := productsDone,
       shBootstrapParentIds := parents, shBootstrapVariationPage := 1\<rparr>"

definition storeRef :: "ShopRow \<Rightarrow> ProjectableStore" where
  "storeRef s = \<lparr>storeId = shId s, storeTenantId = shTenantId s\<rparr>"

text \<open>A product that vanished during the scan counts as one without variations.\<close>

definition fetchVariations :: "BootEnv \<Rightarrow> ShopRow \<Rightarrow> string \<Rightarrow> BootError + json" where
  "fetchVariations env s parent =
     (case beVariations env (storeRef s) parent (shBootstrapVariationPage s) BOOTSTRAP_PAGE_SIZE of
        Inl (ClientError NotFound) \<Rightarrow> Inr (JArr [])
      | Inl e \<Rightarrow> Inl (fetchError e)
      | Inr v \<Rightarrow> Inr v)"

definition variationUnit ::
  "BootEnv \<Rightarrow> ShopRow \<Rightarrow> date \<Rightarrow> string \<Rightarrow> string list \<Rightarrow> BootDb \<Rightarrow> (BootError + bool) \<times> BootDb" where
  "variationUnit env s claimedAt parent siblings db =
     (case andThen (fetchVariations env s parent) requirePage of
        Inl e \<Rightarrow> (Inl e, db)
      | Inr page \<Rightarrow>
          (case projectVariations env 0 (storeRef s) page db of
             (Inl e, db') \<Rightarrow> (Inl e, db')
           | (Inr _, db') \<Rightarrow>
               let parentComplete = length page < BOOTSTRAP_PAGE_SIZE;
                   remaining = (if parentComplete then siblings else parent # siblings);
                   ready = (shBootstrapProductsDone s \<and> remaining = [])
               in advance env s claimedAt
                    (variationProgress remaining (if parentComplete then 1 else shBootstrapVariationPage s + 1))
                    ready (beBetween env 2 db')))"

definition distinctIds :: "string list \<Rightarrow> string list" where
  "distinctIds xs = rev (remdups (rev xs))"

definition productUnit :: "BootEnv \<Rightarrow> ShopRow \<Rightarrow> date \<Rightarrow> BootDb \<Rightarrow> (BootError + bool) \<times> BootDb" where
  "productUnit env s claimedAt db =
     (case andThen (map_sum fetchError id (beProducts env (storeRef s) (shBootstrapProductPage s) BOOTSTRAP_PAGE_SIZE))
             requirePage of
        Inl e \<Rightarrow> (Inl e, db)
      | Inr page \<Rightarrow>
          (case projectProducts env 0 (storeRef s) page db of
             (Inl e, db') \<Rightarrow> (Inl e, db')
           | (Inr parentIds, db') \<Rightarrow>
               let productsDone = length page < BOOTSTRAP_PAGE_SIZE;
                   ready = (productsDone \<and> parentIds = [])
               in advance env s claimedAt
                    (productProgress (shBootstrapProductPage s + 1) productsDone (distinctIds parentIds))
                    ready (beBetween env 2 db')))"

definition processOneUnit :: "BootEnv \<Rightarrow> ShopRow \<Rightarrow> date \<Rightarrow> BootDb \<Rightarrow> (BootError + bool) \<times> BootDb" where
  "processOneUnit env s claimedAt db =
     (case shBootstrapParentIds s of
        parent # siblings \<Rightarrow> variationUnit env s claimedAt parent siblings db
      | [] \<Rightarrow>
          if shBootstrapProductsDone s then advance env s claimedAt id True db
          else productUnit env s claimedAt db)"

text \<open>What follows a finished unit: the job of the revision the row has now.\<close>

definition enqueueNext :: "BootEnv \<Rightarrow> BootstrapJobData \<Rightarrow> bool \<Rightarrow> BootDb \<Rightarrow> (BootError + unit) \<times> BootDb" where
  "enqueueNext env d ready db =
     (if ready then (Inr (), db)
      else
        (case loadShop (bjTenantId d) (bjStoreId d) db of
           Some current \<Rightarrow>
             if bjRevision d < shBootstrapRevision current
             then enqueueBootstrap env \<lparr>bjTenantId = shTenantId current, bjStoreId = shId current,
                    bjRevision = shBootstrapRevision current\<rparr> (beBetween env 4 db)
             else (Inr (), db)
         | None \<Rightarrow> (Inr (), db)))"

definition bootResult :: "BootstrapJobData \<Rightarrow> bool \<Rightarrow> BootstrapJobResult" where
  "bootResult d ready = \<lparr>brTenantId = bjTenantId d, brStoreId = bjStoreId d, brReady = ready\<rparr>"

definition releaseLease :: "BootstrapJobData \<Rightarrow> date \<Rightarrow> BootDb \<Rightarrow> BootDb" where
  "releaseLease d claimedAt db =
     snd (updateShops (leasedAt (bjTenantId d) (bjStoreId d) (bjRevision d) claimedAt)
            (\<lambda>s. s\<lparr>shBootstrapLeaseAt := None\<rparr>) db)"

definition bootFailed ::
  "BootEnv \<Rightarrow> BootstrapJobData \<Rightarrow> date \<Rightarrow> BootError \<Rightarrow> BootDb \<Rightarrow> (BootError + BootstrapJobResult) \<times> BootDb" where
  "bootFailed env d claimedAt e db =
     (Inl (if bootIsRetryable e then e else BootUnrecoverable (bootFailureCode (Some e))),
      releaseLease d claimedAt (beBetween env 5 db))"

definition bootUnavailable :: BootError where
  "bootUnavailable = BootUnrecoverable ''Inventory bootstrap Store is unavailable for processing''"

definition bootRunUnit ::
  "BootEnv \<Rightarrow> BootstrapJobData \<Rightarrow> date \<Rightarrow> ShopRow \<Rightarrow> BootDb \<Rightarrow> (BootError + BootstrapJobResult) \<times> BootDb" where
  "bootRunUnit env d claimedAt s db =
     (case processOneUnit env s claimedAt (beBetween env 1 db) of
        (Inl e, db') \<Rightarrow> bootFailed env d claimedAt e db'
      | (Inr ready, db') \<Rightarrow>
          (case enqueueNext env d ready (beBetween env 3 db') of
             (Inl e, db'') \<Rightarrow> bootFailed env d claimedAt e db''
           | (Inr _, db'') \<Rightarrow> (Inr (bootResult d ready), db'')))"

definition bootResolveUnclaimed :: "BootEnv \<Rightarrow> BootstrapJobData \<Rightarrow> BootDb \<Rightarrow> (BootError + BootstrapJobResult) \<times> BootDb" where
  "bootResolveUnclaimed env d db =
     (case loadShop (bjTenantId d) (bjStoreId d) db of
        None \<Rightarrow> (Inl bootUnavailable, db)
      | Some s \<Rightarrow>
          if shSyncState s = READY then (Inr (bootResult d True), db)
          else if bjRevision d < shBootstrapRevision s
          then (case enqueueBootstrap env \<lparr>bjTenantId = shTenantId s, bjStoreId = shId s,
                       bjRevision = shBootstrapRevision s\<rparr> (beBetween env 1 db) of
                  (Inl e, db') \<Rightarrow> (Inl e, db')
                | (Inr _, db') \<Rightarrow> (Inr (bootResult d False), db'))
          else if shBootstrapRevision s = bjRevision d \<and> shBootstrapLeaseAt s \<noteq> None
          then (Inl (BootOther ''Inventory bootstrap revision is already leased''), db)
          else (Inl (BootUnrecoverable ''Inventory bootstrap job is no longer active''), db))"

definition bootstrapProcess :: "BootEnv \<Rightarrow> json \<Rightarrow> BootDb \<Rightarrow> (BootError + BootstrapJobResult) \<times> BootDb" where
  "bootstrapProcess env v db =
     (case validateInventoryBootstrapJobData v of
        Inl e \<Rightarrow> (Inl e, db)
      | Inr d \<Rightarrow>
          let claimedAt = beClock env 0;
              claimed = updateShops (bootClaimWhere d claimedAt) (\<lambda>s. s\<lparr>shBootstrapLeaseAt := Some claimedAt\<rparr>) db;
              db1 = beBetween env 0 (snd claimed)
          in if fst claimed \<noteq> 1 then bootResolveUnclaimed env d db1
             else (case loadShop (bjTenantId d) (bjStoreId d) db1 of
                     None \<Rightarrow> (Inl bootUnavailable, db1)
                   | Some s \<Rightarrow> bootRunUnit env d claimedAt s db1))"

definition bootMarkFailed :: "json \<Rightarrow> BootError option \<Rightarrow> date \<Rightarrow> BootDb \<Rightarrow> (BootError + unit) \<times> BootDb" where
  "bootMarkFailed v e now db =
     (case validateInventoryBootstrapJobData v of
        Inl x \<Rightarrow> (Inl x, db)
      | Inr d \<Rightarrow>
          (Inr (), snd (updateShops (syncingAt (bjTenantId d) (bjStoreId d) (bjRevision d))
             (\<lambda>s. s\<lparr>shSyncState := SyncFailed, shBootstrapFailedAt := Some now,
                    shBootstrapFailureCode := Some (bootFailureCode e), shBootstrapLeaseAt := None\<rparr>) db)))"

section \<open>The fence\<close>

text \<open>
  The cursor of a store moves only together with its revision, and the revision never goes back. A table
  follows another when this holds of every store.
\<close>

definition cursorOf :: "ShopRow \<Rightarrow> nat \<times> nat \<times> string list \<times> bool" where
  "cursorOf s = (shBootstrapProductPage s, shBootstrapVariationPage s, shBootstrapParentIds s, shBootstrapProductsDone s)"

definition shopFollows :: "ShopRow \<Rightarrow> ShopRow \<Rightarrow> bool" where
  "shopFollows r r' \<longleftrightarrow> shId r' = shId r \<and> shTenantId r' = shTenantId r
     \<and> (shBootstrapRevision r < shBootstrapRevision r'
        \<or> shBootstrapRevision r = shBootstrapRevision r' \<and> cursorOf r = cursorOf r')"

definition shopAt :: "BootDb \<Rightarrow> string \<Rightarrow> ShopRow option" where
  "shopAt db i = findFirst (\<lambda>s. shId s = i) (btShops db)"

definition shopsFollow :: "BootDb \<Rightarrow> BootDb \<Rightarrow> bool" where
  "shopsFollow db db' \<longleftrightarrow> (distinct (map shId (btShops db)) \<longrightarrow> distinct (map shId (btShops db')))
     \<and> (\<forall>i r. shopAt db i = Some r \<longrightarrow> (\<exists>r'. shopAt db' i = Some r' \<and> shopFollows r r'))"

lemma shopFollows_refl [simp]: "shopFollows r r"
  by (simp add: shopFollows_def)

lemma shopFollows_trans: "shopFollows a b \<Longrightarrow> shopFollows b c \<Longrightarrow> shopFollows a c"
  by (auto simp: shopFollows_def)

lemma shopsFollow_trans: "shopsFollow a b \<Longrightarrow> shopsFollow b c \<Longrightarrow> shopsFollow a c"
  unfolding shopsFollow_def by (meson shopFollows_trans)

lemma shopsFollow_same: "btShops db' = btShops db \<Longrightarrow> shopsFollow db db'"
  by (simp add: shopsFollow_def shopAt_def)

lemma shops_updateShops [simp]: "btShops (snd (updateShops P f db)) = snd (updateMany P f (btShops db))"
  "fst (updateShops P f db) = fst (updateMany P f (btShops db))"
  by (simp_all add: updateShops_def)

lemma shopsFollow_update:
  assumes "\<And>r. P r \<Longrightarrow> shopFollows r (f r)"
  shows "shopsFollow db (snd (updateShops P f db))"
proof -
  have key: "shId (if P r then f r else r) = shId r" for r
    using assms [of r] by (simp add: shopFollows_def)
  have "map shId (snd (updateMany P f (btShops db))) = map shId (btShops db)"
    by (simp add: updateMany_rows key)
  moreover have "shopAt (snd (updateShops P f db)) i = map_option (\<lambda>r. if P r then f r else r) (shopAt db i)" for i
    unfolding shopAt_def shops_updateShops updateMany_rows findFirst_map
    by (rule arg_cong [where f = "map_option _"]) (rule findFirst_cong, simp add: key)
  ultimately show ?thesis using assms by (auto simp: shopsFollow_def)
qed

lemma follow_claim: "shopsFollow db (snd (updateShops P (\<lambda>s. s\<lparr>shBootstrapLeaseAt := x\<rparr>) db))"
  by (rule shopsFollow_update) (simp add: shopFollows_def cursorOf_def)

lemma follow_failures:
  "shopsFollow db (snd (updateShops P (\<lambda>s. s\<lparr>shBootstrapFailedAt := a, shBootstrapFailureCode := b\<rparr>) db))"
  "shopsFollow db (snd (updateShops P (\<lambda>s. s\<lparr>shBootstrapFailedAt := a, shBootstrapFailureCode := b,
     shBootstrapLeaseAt := c\<rparr>) db))"
  "shopsFollow db (snd (updateShops P (\<lambda>s. s\<lparr>shSyncState := y, shBootstrapFailedAt := a,
     shBootstrapFailureCode := b, shBootstrapLeaseAt := c\<rparr>) db))"
  by (rule shopsFollow_update, simp add: shopFollows_def cursorOf_def)+

lemma follow_start: "shopsFollow db (snd (updateShops P (startSync previous now) db))"
  by (rule shopsFollow_update) (simp add: shopFollows_def startSync_def)

definition keepsRow :: "(ShopRow \<Rightarrow> ShopRow) \<Rightarrow> bool" where
  "keepsRow progress \<longleftrightarrow> (\<forall>s. shId (progress s) = shId s \<and> shTenantId (progress s) = shTenantId s
     \<and> shBootstrapRevision (progress s) = shBootstrapRevision s \<and> shDeletedAt (progress s) = shDeletedAt s
     \<and> shStatus (progress s) = shStatus s)"

lemma keepsRow_progress [simp]:
  "keepsRow id" "keepsRow (variationProgress ps n)" "keepsRow (productProgress n b ps)"
  by (simp_all add: keepsRow_def variationProgress_def productProgress_def)

lemma follow_finish: "keepsRow progress \<Longrightarrow> shopsFollow db (snd (updateShops P (finishRow ready now \<circ> progress) db))"
  by (rule shopsFollow_update) (simp add: shopFollows_def finishRow_def keepsRow_def)

lemma projectBootItem_shops: "btShops (snd (projectBootItem env tx s item db)) = btShops db"
  "btJobs (snd (projectBootItem env tx s item db)) = btJobs db"
  "btTenants (snd (projectBootItem env tx s item db)) = btTenants db"
  by (simp_all add: projectBootItem_def Let_def)

definition sameShops :: "BootDb \<Rightarrow> BootDb \<Rightarrow> bool" where
  "sameShops db db' \<longleftrightarrow> btShops db' = btShops db \<and> btJobs db' = btJobs db \<and> btTenants db' = btTenants db"

lemma sameShops_refl [simp]: "sameShops db db"
  by (simp add: sameShops_def)

lemma sameShops_trans: "sameShops a b \<Longrightarrow> sameShops b c \<Longrightarrow> sameShops a c"
  by (simp add: sameShops_def)

lemma sameShops_item: "sameShops db (snd (projectBootItem env tx s item db))"
  by (simp add: sameShops_def projectBootItem_shops)

lemma projectVariations_shops: "sameShops db (snd (projectVariations env tx s page db))"
proof (induction page arbitrary: tx db)
  case (Cons item page)
  obtain x db' where item: "projectBootItem env tx s item db = (x, db')" by force
  with sameShops_item [of db env tx s item] Cons.IH [of db' "Suc tx"] show ?case
    by (cases x) (auto intro: sameShops_trans)
qed simp

lemma projectProducts_shops: "sameShops db (snd (projectProducts env tx s page db))"
proof (induction page arbitrary: tx db)
  case (Cons item page)
  obtain x db' where item: "projectBootItem env tx s item db = (x, db')" by force
  with sameShops_item [of db env tx s item] Cons.IH [of db' "Suc tx"] show ?case
    by (cases x; cases "parentOf item") (auto intro: sameShops_trans)
qed simp

lemma enqueue_shops: "btShops (snd (enqueueBootstrap env d db)) = btShops db"
  by (simp add: enqueueBootstrap_def split: sum.splits)

lemma enqueue_ok: "enqueueBootstrap env d db = (Inr u, db') \<Longrightarrow>
    db' = db\<lparr>btJobs := btJobs db @ [(d, inventoryBootstrapJobId (bjStoreId d) (bjRevision d))]\<rparr>"
  by (auto simp: enqueueBootstrap_def split: sum.splits if_splits)

lemma sameShops_follow: "sameShops db db' \<Longrightarrow> shopsFollow db db'"
  by (simp add: sameShops_def shopsFollow_same)

lemma follow_advance: "keepsRow p \<Longrightarrow> shopsFollow db (snd (advance env s t p ready db))"
  by (simp add: advance_def Let_def follow_finish)

lemma follow_enqueue: "shopsFollow db (snd (enqueueBootstrap env d db))"
  by (rule shopsFollow_same) (rule enqueue_shops)

lemma follow_variationUnit:
  assumes b: "\<And>n db. shopsFollow db (beBetween env n db)"
  shows "shopsFollow db (snd (variationUnit env s t parent siblings db))"
proof (cases "andThen (fetchVariations env s parent) requirePage")
  case (Inr page)
  obtain x db' where run: "projectVariations env 0 (storeRef s) page db = (x, db')" by force
  with projectVariations_shops [of db env 0 "storeRef s" page] have same: "shopsFollow db db'"
    by (auto intro: sameShops_follow)
  show ?thesis
  proof (cases x)
    case (Inl e) with Inr run same show ?thesis by (simp add: variationUnit_def)
  next
    case (Inr u)
    have "shopsFollow db' (snd (advance env s t (variationProgress ps n) ready (beBetween env 2 db')))" for ps n ready
      using b follow_advance shopsFollow_trans keepsRow_progress(2) by blast
    with \<open>_ = Inr page\<close> run Inr same show ?thesis
      by (auto simp: variationUnit_def Let_def intro: shopsFollow_trans)
  qed
qed (simp add: variationUnit_def shopsFollow_same)

lemma follow_productUnit:
  assumes b: "\<And>n db. shopsFollow db (beBetween env n db)"
  shows "shopsFollow db (snd (productUnit env s t db))"
proof (cases "andThen (map_sum fetchError id (beProducts env (storeRef s) (shBootstrapProductPage s)
    BOOTSTRAP_PAGE_SIZE)) requirePage")
  case (Inr page)
  obtain x db' where run: "projectProducts env 0 (storeRef s) page db = (x, db')" by force
  with projectProducts_shops [of db env 0 "storeRef s" page] have same: "shopsFollow db db'"
    by (auto intro: sameShops_follow)
  show ?thesis
  proof (cases x)
    case (Inl e) with Inr run same show ?thesis by (simp add: productUnit_def)
  next
    case (Inr u)
    have "shopsFollow db' (snd (advance env s t (productProgress n c ps) ready (beBetween env 2 db')))" for ps n c ready
      using b follow_advance shopsFollow_trans keepsRow_progress(3) by blast
    with \<open>_ = Inr page\<close> run Inr same show ?thesis
      by (auto simp: productUnit_def Let_def intro: shopsFollow_trans)
  qed
qed (simp add: productUnit_def shopsFollow_same)

lemma follow_unit:
  assumes b: "\<And>n db. shopsFollow db (beBetween env n db)"
  shows "shopsFollow db (snd (processOneUnit env s t db))"
  using follow_variationUnit [of env, OF b] follow_productUnit [of env, OF b] follow_advance [of id]
  by (simp add: processOneUnit_def split: list.split)

lemma follow_next:
  assumes b: "\<And>n db. shopsFollow db (beBetween env n db)"
  shows "shopsFollow db (snd (enqueueNext env d ready db))"
  by (auto simp: enqueueNext_def shopsFollow_same split: option.splits intro: shopsFollow_trans [OF b follow_enqueue])

lemma follow_failed:
  assumes b: "\<And>n db. shopsFollow db (beBetween env n db)"
  shows "shopsFollow db (snd (bootFailed env d t e db))"
  unfolding bootFailed_def releaseLease_def snd_conv by (rule shopsFollow_trans [OF b follow_claim])

lemma follow_runUnit:
  assumes b: "\<And>n db. shopsFollow db (beBetween env n db)"
  shows "shopsFollow db (snd (bootRunUnit env d t s db))"
proof -
  obtain x db1 where unit: "processOneUnit env s t (beBetween env 1 db) = (x, db1)" by force
  with follow_unit [of env "beBetween env 1 db", OF b] b have one: "shopsFollow db db1"
    by (metis shopsFollow_trans snd_conv)
  show ?thesis
  proof (cases x)
    case (Inl e)
    with unit one follow_failed [of env, OF b] show ?thesis
      by (auto simp: bootRunUnit_def intro: shopsFollow_trans)
  next
    case (Inr ready)
    obtain y db2 where q: "enqueueNext env d ready (beBetween env 3 db1) = (y, db2)" by force
    with follow_next [of env "beBetween env 3 db1", OF b] b one have "shopsFollow db db2"
      by (metis shopsFollow_trans snd_conv)
    with unit Inr q follow_failed [of env, OF b] show ?thesis
      by (auto simp: bootRunUnit_def split: sum.split intro: shopsFollow_trans)
  qed
qed

lemma follow_unclaimed:
  assumes b: "\<And>n db. shopsFollow db (beBetween env n db)"
  shows "shopsFollow db (snd (bootResolveUnclaimed env d db))"
proof -
  have "shopsFollow db (snd (enqueueBootstrap env d' (beBetween env 1 db)))" for d'
    by (rule shopsFollow_trans [OF b follow_enqueue])
  then show ?thesis
    by (auto simp: bootResolveUnclaimed_def shopsFollow_same split: option.splits sum.splits prod.splits)
      (metis snd_conv)+
qed

lemma follow_process:
  assumes b: "\<And>n db. shopsFollow db (beBetween env n db)"
  shows "shopsFollow db (snd (bootstrapProcess env v db))"
proof (cases "validateInventoryBootstrapJobData v")
  case (Inr d)
  let ?db1 = "beBetween env 0 (snd (updateShops (bootClaimWhere d (beClock env 0))
      (\<lambda>s. s\<lparr>shBootstrapLeaseAt := Some (beClock env 0)\<rparr>) db))"
  have one: "shopsFollow db ?db1" by (rule shopsFollow_trans [OF follow_claim b])
  with Inr follow_unclaimed [of env, OF b] follow_runUnit [of env, OF b] show ?thesis
    by (auto simp: bootstrapProcess_def Let_def split: option.split intro: shopsFollow_trans)
qed (simp add: bootstrapProcess_def shopsFollow_same)

lemma follow_markFailed: "shopsFollow db (snd (bootMarkFailed v e now db))"
  by (simp add: bootMarkFailed_def shopsFollow_same follow_failures split: sum.split)

lemma follow_initial:
  assumes b: "\<And>n db. shopsFollow db (beBetween env n db)"
  shows "shopsFollow db (snd (enqueueInitial env tenant store previous n db))"
proof -
  obtain x db' where "enqueueBootstrap env \<lparr>bjTenantId = tenant, bjStoreId = store, bjRevision = n\<rparr> db = (x, db')"
    by force
  moreover from this follow_enqueue [of db env] b have "shopsFollow db (beBetween env 2 db')"
    by (metis shopsFollow_trans snd_conv)
  ultimately show ?thesis
    by (auto simp: enqueueInitial_def split: sum.split intro: shopsFollow_trans [OF _ follow_failures(1)]
        shopsFollow_trans [OF _ follow_failures(2)])
qed

lemma follow_ensure:
  assumes b: "\<And>n db. shopsFollow db (beBetween env n db)"
  shows "shopsFollow db (snd (ensureInitialized env tenant store db))"
proof -
  have "shopsFollow db (beBetween env 1 (startSyncing env tenant store p (beBetween env 0 db)))" for p
    unfolding startSyncing_def
    using shopsFollow_trans [OF b b] shopsFollow_trans [OF shopsFollow_trans [OF b follow_start] b] by simp
  moreover from this follow_initial [of env, OF b] have "shopsFollow db (snd (enqueueInitial env tenant store p n
      (beBetween env 1 (startSyncing env tenant store p (beBetween env 0 db)))))" for p n
    using shopsFollow_trans by blast
  ultimately show ?thesis
    by (simp add: ensureInitialized_def Let_def shopsFollow_same split: option.split)
qed

text \<open>An acknowledged unit: the row is ready, or its revision is above the one of the job.\<close>

definition unitDone :: "BootstrapJobData \<Rightarrow> BootDb \<Rightarrow> bool" where
  "unitDone d db \<longleftrightarrow> (\<exists>s. shopAt db (bjStoreId d) = Some s \<and> shTenantId s = bjTenantId d
     \<and> (shSyncState s = READY \<or> bjRevision d < shBootstrapRevision s))"

definition unitPassed :: "BootstrapJobData \<Rightarrow> BootDb \<Rightarrow> bool" where
  "unitPassed d db \<longleftrightarrow> (\<exists>s. shopAt db (bjStoreId d) = Some s \<and> shTenantId s = bjTenantId d
     \<and> bjRevision d < shBootstrapRevision s)"

lemma unitPassed_follow: "unitPassed d db \<Longrightarrow> shopsFollow db db' \<Longrightarrow> unitPassed d db'"
  by (fastforce simp: unitPassed_def shopsFollow_def shopFollows_def)

lemma unitPassed_done: "unitPassed d db \<Longrightarrow> unitDone d db"
  by (auto simp: unitPassed_def unitDone_def)

lemma shopAt_unique: "distinct (map shId (btShops db)) \<Longrightarrow> s \<in> set (btShops db) \<Longrightarrow> shopAt db (shId s) = Some s"
  unfolding shopAt_def by (rule findFirst_unique [where k = shId]) auto

lemma advance_done:
  assumes d: "distinct (map shId (btShops db))" and p: "keepsRow p"
    and run: "advance env s t p ready db = (Inr r, db')"
    and s: "shId s = bjStoreId d" "shTenantId s = bjTenantId d" "bjRevision d \<le> shBootstrapRevision s"
  shows "unitPassed d db'" and "distinct (map shId (btShops db'))"
proof -
  let ?P = "leasedAt (shTenantId s) (shId s) (shBootstrapRevision s) t"
  let ?f = "finishRow ready (beClock env 1) \<circ> p"
  have db': "db' = snd (updateShops ?P ?f db)" and "length (filter ?P (btShops db)) = 1"
    using run by (auto simp: advance_def Let_def updateMany_count split: if_splits)
  then obtain row where "row \<in> set (filter ?P (btShops db))" by (cases "filter ?P (btShops db)") auto
  then have row: "row \<in> set (btShops db)" "?P row" by simp_all
  have keep: "shId (?f x) = shId x" for x using p by (simp add: keepsRow_def finishRow_def)
  have "shopAt db' (shId row) = Some (?f row)"
    unfolding shopAt_def db' shops_updateShops
    by (rule updateMany_single(2) [where k = shId and P = ?P and f = ?f and r = row, OF d row _ keep]) (use row(2) in \<open>simp add: leasedAt_def syncingAt_def\<close>)
  with row(2) p s show "unitPassed d db'"
    by (simp add: unitPassed_def leasedAt_def syncingAt_def finishRow_def keepsRow_def)
  show "distinct (map shId (btShops db'))"
    using d follow_advance [OF p, of db env s t ready] by (simp add: run shopsFollow_def)
qed

lemma variationUnit_done:
  assumes b: "\<And>n db. shopsFollow db (beBetween env n db)" and d: "distinct (map shId (btShops db))"
    and run: "variationUnit env s t parent siblings db = (Inr r, db')"
    and s: "shId s = bjStoreId d" "shTenantId s = bjTenantId d" "bjRevision d \<le> shBootstrapRevision s"
  shows "unitPassed d db'"
proof -
  from run obtain page where page: "andThen (fetchVariations env s parent) requirePage = Inr page"
    by (auto simp: variationUnit_def split: sum.splits)
  obtain x db1 where v: "projectVariations env 0 (storeRef s) page db = (x, db1)" by force
  with projectVariations_shops [of db env 0 "storeRef s" page] d b [of "db1" 2]
  have "distinct (map shId (btShops (beBetween env 2 db1)))" by (simp add: sameShops_def shopsFollow_def)
  from advance_done(1) [OF this keepsRow_progress(2) _ s] run page v show ?thesis
    by (cases x) (simp_all add: variationUnit_def Let_def)
qed

lemma productUnit_done:
  assumes b: "\<And>n db. shopsFollow db (beBetween env n db)" and d: "distinct (map shId (btShops db))"
    and run: "productUnit env s t db = (Inr r, db')"
    and s: "shId s = bjStoreId d" "shTenantId s = bjTenantId d" "bjRevision d \<le> shBootstrapRevision s"
  shows "unitPassed d db'"
proof -
  from run obtain page where page: "andThen (map_sum fetchError id (beProducts env (storeRef s)
      (shBootstrapProductPage s) BOOTSTRAP_PAGE_SIZE)) requirePage = Inr page"
    by (auto simp: productUnit_def split: sum.splits)
  obtain x db1 where v: "projectProducts env 0 (storeRef s) page db = (x, db1)" by force
  with projectProducts_shops [of db env 0 "storeRef s" page] d b [of "db1" 2]
  have "distinct (map shId (btShops (beBetween env 2 db1)))" by (simp add: sameShops_def shopsFollow_def)
  from advance_done(1) [OF this keepsRow_progress(3) _ s] run page v show ?thesis
    by (cases x) (simp_all add: productUnit_def Let_def)
qed

lemma unit_done:
  assumes b: "\<And>n db. shopsFollow db (beBetween env n db)" and d: "distinct (map shId (btShops db))"
    and run: "processOneUnit env s t db = (Inr r, db')"
    and s: "shId s = bjStoreId d" "shTenantId s = bjTenantId d" "bjRevision d \<le> shBootstrapRevision s"
  shows "unitPassed d db'"
  using run variationUnit_done [OF b d _ s] productUnit_done [OF b d _ s] advance_done(1) [OF d keepsRow_progress(1) _ s]
  by (auto simp: processOneUnit_def split: list.splits if_splits)

lemma loadShop_Some: "loadShop tenant store db = Some s \<Longrightarrow>
    shId s = store \<and> shTenantId s = tenant \<and> s \<in> set (btShops db)"
  using findFirst_Some by (fastforce simp: loadShop_def liveShopWhere_def)

lemma claim_reached:
  assumes d: "distinct (map shId (btShops db))"
    and "fst (updateShops (bootClaimWhere d t) f db) = 1" and f: "f = (\<lambda>s. s\<lparr>shBootstrapLeaseAt := Some t\<rparr>)"
    and fol: "shopsFollow (snd (updateShops (bootClaimWhere d t) f db)) db1"
    and load: "loadShop (bjTenantId d) (bjStoreId d) db1 = Some s"
  shows "bjRevision d \<le> shBootstrapRevision s" and "distinct (map shId (btShops db1))"
proof -
  let ?P = "bootClaimWhere d t"
  from assms(2) obtain row where "row \<in> set (filter ?P (btShops db))"
    by (cases "filter ?P (btShops db)") (auto simp: updateMany_count)
  then have row: "row \<in> set (btShops db)" "?P row" by simp_all
  have "shopAt (snd (updateShops ?P f db)) (shId row) = Some (f row)"
    unfolding shopAt_def shops_updateShops
    by (rule updateMany_single(2) [where k = shId and P = ?P and f = f and r = row, OF d row])
      (use row(2) in \<open>simp_all add: bootClaimWhere_def syncingAt_def f\<close>)
  with fol obtain r' where r': "shopAt db1 (shId row) = Some r'" "shopFollows (f row) r'"
    by (auto simp: shopsFollow_def)
  have "map shId (btShops (snd (updateShops ?P f db))) = map shId (btShops db)"
    by (simp add: updateMany_rows f)
  with fol d show d1: "distinct (map shId (btShops db1))" by (simp add: shopsFollow_def)
  from loadShop_Some [OF load] shopAt_unique [OF d1] have "shopAt db1 (bjStoreId d) = Some s" by metis
  with r' row(2) show "bjRevision d \<le> shBootstrapRevision s"
    by (auto simp: bootClaimWhere_def syncingAt_def shopFollows_def f)
qed

lemma runUnit_done:
  assumes b: "\<And>n db. shopsFollow db (beBetween env n db)" and d: "distinct (map shId (btShops db))"
    and run: "bootRunUnit env d t s db = (Inr r, db')"
    and s: "shId s = bjStoreId d" "shTenantId s = bjTenantId d" "bjRevision d \<le> shBootstrapRevision s"
  shows "unitPassed d db'"
proof -
  have d1: "distinct (map shId (btShops (beBetween env 1 db)))"
    using b [of db 1] d by (simp add: shopsFollow_def)
  obtain x db1 where unit: "processOneUnit env s t (beBetween env 1 db) = (x, db1)" by force
  with run obtain ready where x: "x = Inr ready" by (cases x) (auto simp: bootRunUnit_def bootFailed_def)
  with unit_done [OF b d1 _ s] unit have one: "unitPassed d db1" by simp
  obtain y db2 where q: "enqueueNext env d ready (beBetween env 3 db1) = (y, db2)" by force
  with run unit x have "db' = db2" by (cases y) (auto simp: bootRunUnit_def bootFailed_def)
  with q follow_next [OF b, of "beBetween env 3 db1" d ready] b [of db1 3] one show ?thesis
    using unitPassed_follow by (metis snd_conv)
qed

lemma unclaimed_done:
  assumes b: "\<And>n db. shopsFollow db (beBetween env n db)" and d: "distinct (map shId (btShops db))"
    and run: "bootResolveUnclaimed env d db = (Inr r, db')"
  shows "unitDone d db'"
proof -
  from run obtain s where load: "loadShop (bjTenantId d) (bjStoreId d) db = Some s"
    by (auto simp: bootResolveUnclaimed_def split: option.splits)
  note s = loadShop_Some [OF load]
  with shopAt_unique [OF d] have at: "shopAt db (bjStoreId d) = Some s" by metis
  show ?thesis
  proof (cases "shSyncState s = READY")
    case True
    with run load at s show ?thesis by (auto simp: bootResolveUnclaimed_def unitDone_def)
  next
    case False
    with run load have rev: "bjRevision d < shBootstrapRevision s"
      by (auto simp: bootResolveUnclaimed_def split: if_splits)
    obtain y db2 where q: "enqueueBootstrap env \<lparr>bjTenantId = shTenantId s, bjStoreId = shId s,
        bjRevision = shBootstrapRevision s\<rparr> (beBetween env 1 db) = (y, db2)" by force
    with run load False rev have "db' = db2" by (cases y) (auto simp: bootResolveUnclaimed_def)
    moreover have "shopsFollow db db2" using q b follow_enqueue shopsFollow_trans by (metis snd_conv)
    moreover from at s rev have "unitPassed d db" by (simp add: unitPassed_def)
    ultimately show ?thesis by (blast intro: unitPassed_done unitPassed_follow)
  qed
qed

text \<open>
  C28: the fence of the catalogue scan. Whatever other processes commit in between, provided they follow the
  same rule, no operation of the scan moves a store's cursor without raising its revision or lowers a
  revision; and a job is acknowledged only when its unit of the scan is persisted: the store is ready or its
  revision is past the one of the job.
\<close>

theorem bootstrap_fenced:
  assumes b: "\<And>n db. shopsFollow db (beBetween env n db)" and d: "distinct (map shId (btShops db))"
  shows "shopsFollow db (snd (bootstrapProcess env v db)) \<and> shopsFollow db (snd (bootMarkFailed v e now db))
    \<and> shopsFollow db (snd (ensureInitialized env tenant store db))
    \<and> (fst (bootstrapProcess env v db) = Inr r \<longrightarrow>
        (\<exists>d. validateInventoryBootstrapJobData v = Inr d \<and> unitDone d (snd (bootstrapProcess env v db))))"
proof (intro conjI impI follow_process follow_markFailed follow_ensure b)
  assume r: "fst (bootstrapProcess env v db) = Inr r"
  then obtain d where v: "validateInventoryBootstrapJobData v = Inr d"
    by (auto simp: bootstrapProcess_def split: sum.splits)
  let ?t = "beClock env 0"
  let ?c = "updateShops (bootClaimWhere d ?t) (\<lambda>s. s\<lparr>shBootstrapLeaseAt := Some ?t\<rparr>) db"
  let ?db1 = "beBetween env 0 (snd ?c)"
  have fol: "shopsFollow (snd ?c) ?db1" by (rule b)
  have "unitDone d (snd (bootstrapProcess env v db))"
  proof (cases "fst ?c = 1")
    case True
    from r v True obtain s where s: "loadShop (bjTenantId d) (bjStoreId d) ?db1 = Some s"
      by (auto simp: bootstrapProcess_def Let_def split: option.splits)
    note c = claim_reached [OF \<open>distinct (map shId (btShops db))\<close> True refl fol s]
    obtain db' where run: "bootRunUnit env d ?t s ?db1 = (Inr r, db')"
      using r v True s by (cases "bootRunUnit env d ?t s ?db1") (auto simp: bootstrapProcess_def Let_def)
    from runUnit_done [OF b c(2) run] loadShop_Some [OF s] c(1) v True s run show ?thesis
      by (simp add: bootstrapProcess_def Let_def unitPassed_done)
  next
    case False
    have "distinct (map shId (btShops ?db1))"
      using shopsFollow_trans [OF follow_claim fol] \<open>distinct (map shId (btShops db))\<close> by (simp add: shopsFollow_def)
    moreover obtain db' where run: "bootResolveUnclaimed env d ?db1 = (Inr r, db')"
      using r v False by (cases "bootResolveUnclaimed env d ?db1") (auto simp: bootstrapProcess_def Let_def)
    ultimately show ?thesis using unclaimed_done [OF b] v False by (simp add: bootstrapProcess_def Let_def)
  qed
  with v show "\<exists>d. validateInventoryBootstrapJobData v = Inr d \<and> unitDone d (snd (bootstrapProcess env v db))" by blast
qed

end
