(* ===== verification/Deliveries.thy ===== *)
theory Deliveries
  imports Entitlements
begin

text \<open>
  What the two Telegram notification processors share: the delivery row and its life cycle, the writes
  they make to it, the client that hands a message to the bot
  (\<open>backend/src/telegram/telegram-delivery.client.ts\<close>), the cleaning of texts, and the life cycle as an
  abstract machine. The processors themselves are \<open>OrderNotifications\<close> and \<open>InventoryNotifications\<close>.
\<close>

datatype DeliveryState = PENDING | IN_FLIGHT | DELIVERED | RETRYABLE_FAILURE | TERMINAL_FAILURE | AMBIGUOUS

record Delivery =
  dlId :: string
  dlTenantId :: string
  dlStoreId :: string
  dlTelegramAccountId :: string
  dlTelegramChatAuthorizationId :: string
  dlSourceWebhookEventId :: string
  dlState :: DeliveryState
  dlAttemptCount :: nat
  dlLastAttemptAt :: "date option"
  dlTelegramMessageId :: "int option"
  dlFailureCategory :: "string option"
  dlFailureCode :: "string option"
  dlDeliveredAt :: "date option"
  dlCreatedAt :: date

record DeliveryJobData =
  jdDeliveryId :: string
  jdTenantId :: string
  jdStoreId :: string

datatype DeliveryOutcome = Delivered | TerminalFailure | Ambiguous | AlreadyFinal

type_synonym DeliveryJobResult = "DeliveryJobData \<times> DeliveryOutcome"

section \<open>The writes\<close>

definition jobWhere :: "DeliveryJobData \<Rightarrow> 'x Delivery_scheme \<Rightarrow> bool" where
  "jobWhere d r \<longleftrightarrow> dlId r = jdDeliveryId d \<and> dlTenantId r = jdTenantId d \<and> dlStoreId r = jdStoreId d"

definition claimableDelivery :: "DeliveryJobData \<Rightarrow> 'x Delivery_scheme \<Rightarrow> bool" where
  "claimableDelivery d r \<longleftrightarrow> jobWhere d r \<and> (dlState r = PENDING \<or> dlState r = RETRYABLE_FAILURE)"

definition claimDelivery :: "date \<Rightarrow> 'x Delivery_scheme \<Rightarrow> 'x Delivery_scheme" where
  "claimDelivery claimedAt r = r\<lparr>dlState := IN_FLIGHT, dlAttemptCount := dlAttemptCount r + 1,
     dlLastAttemptAt := Some claimedAt, dlFailureCategory := None, dlFailureCode := None\<rparr>"

definition inFlight :: "DeliveryJobData \<Rightarrow> 'x Delivery_scheme \<Rightarrow> bool" where
  "inFlight d r \<longleftrightarrow> jobWhere d r \<and> dlState r = IN_FLIGHT"

definition claimedDelivery :: "DeliveryJobData \<Rightarrow> date \<Rightarrow> 'x Delivery_scheme \<Rightarrow> bool" where
  "claimedDelivery d claimedAt r \<longleftrightarrow> inFlight d r \<and> dlLastAttemptAt r = Some claimedAt"

definition deliveredRow :: "string \<Rightarrow> date \<Rightarrow> 'x Delivery_scheme \<Rightarrow> 'x Delivery_scheme" where
  "deliveredRow messageId now r = r\<lparr>dlState := DELIVERED,
     dlTelegramMessageId := Some (int (readNat messageId)), dlDeliveredAt := Some now\<rparr>"

definition failedRow :: "DeliveryState \<Rightarrow> string \<Rightarrow> string \<Rightarrow> 'x Delivery_scheme \<Rightarrow> 'x Delivery_scheme" where
  "failedRow st cat reason r = r\<lparr>dlState := st,
     dlFailureCategory := Some (take 32 cat), dlFailureCode := Some (take 191 reason)\<rparr>"

definition retryable :: "DeliveryJobData \<Rightarrow> 'x Delivery_scheme \<Rightarrow> bool" where
  "retryable d r \<longleftrightarrow> jobWhere d r \<and> dlState r = RETRYABLE_FAILURE"

definition exhaustedRow :: "'x Delivery_scheme \<Rightarrow> 'x Delivery_scheme" where
  "exhaustedRow r = r\<lparr>dlState := TERMINAL_FAILURE,
     dlFailureCategory := Some ''retry-exhausted'', dlFailureCode := Some ''telegram-retry-exhausted''\<rparr>"

text \<open>\<open>persistFailure\<close> with the error text of the processor: the row must still be in flight.\<close>

definition persistDeliveryState ::
  "string \<Rightarrow> DeliveryJobData \<Rightarrow> DeliveryState \<Rightarrow> string \<Rightarrow> string \<Rightarrow> 'x Delivery_scheme list
     \<Rightarrow> (JobError + unit) \<times> 'x Delivery_scheme list" where
  "persistDeliveryState message d st cat reason rows =
     (let persisted = updateMany (inFlight d) (failedRow st cat reason) rows
      in (if fst persisted \<noteq> 1 then Inl (JobError message) else Inr (), snd persisted))"

definition persistDeliveryFailure ::
  "string \<Rightarrow> DeliveryJobData \<Rightarrow> DeliveryState \<Rightarrow> string \<Rightarrow> string \<Rightarrow> 'x Delivery_scheme list
     \<Rightarrow> (JobError + DeliveryJobResult) \<times> 'x Delivery_scheme list" where
  "persistDeliveryFailure message d st cat reason rows =
     map_prod (\<lambda>r. andThen r (\<lambda>u. Inr (d, if st = AMBIGUOUS then Ambiguous else TerminalFailure))) id
       (persistDeliveryState message d st cat reason rows)"

section \<open>The delivery client\<close>

datatype DeliveryResult =
    DeliveredAs string
  | RetryableFailure string string
  | TerminalResult string string
  | AmbiguousResult string string

definition ambiguousResult :: DeliveryResult where
  "ambiguousResult = AmbiguousResult ''transport'' ''bot-outcome-unknown''"

definition messageIdPattern :: "string \<Rightarrow> bool" where
  "messageIdPattern s \<longleftrightarrow> s \<noteq> [] \<and> hd s \<noteq> CHR ''0'' \<and> list_all isDigit s \<and> length s \<le> 19"

definition isLower :: "char \<Rightarrow> bool" where
  "isLower c \<longleftrightarrow> 97 \<le> codeUnit c \<and> codeUnit c \<le> 122"

definition categoryPattern :: "string \<Rightarrow> bool" where
  "categoryPattern s \<longleftrightarrow> s \<noteq> [] \<and> length s \<le> 32 \<and> list_all (\<lambda>c. isLower c \<or> c = CHR ''-'') s"

definition codePattern :: "string \<Rightarrow> bool" where
  "codePattern s \<longleftrightarrow> s \<noteq> [] \<and> length s \<le> 191 \<and> list_all (\<lambda>c. isLower c \<or> isDigit c \<or> c = CHR ''-'') s"

definition failureResult :: "string \<Rightarrow> string \<Rightarrow> string \<Rightarrow> DeliveryResult option" where
  "failureResult verdict cat reason =
     (if \<not> (categoryPattern cat \<and> codePattern reason) then None
      else if verdict = ''retryable_failure'' then Some (RetryableFailure cat reason)
      else if verdict = ''terminal_failure'' then Some (TerminalResult cat reason)
      else if verdict = ''ambiguous'' then Some (AmbiguousResult cat reason)
      else None)"

definition deliveredId :: "jsobject \<Rightarrow> string option" where
  "deliveredId r =
     (case (field r ''outcome'', field r ''messageId'') of
        (Some (JStr verdict), Some (JStr m)) \<Rightarrow>
          if verdict = ''delivered'' \<and> messageIdPattern m then Some m else None
      | _ \<Rightarrow> None)"

definition parseDeliveryResult :: "json \<Rightarrow> DeliveryResult" where
  "parseDeliveryResult v =
     (case v of
        JObj r \<Rightarrow>
          (case deliveredId r of
             Some m \<Rightarrow> DeliveredAs m
           | None \<Rightarrow>
             (case (field r ''outcome'', field r ''category'', field r ''code'') of
                (Some (JStr verdict), Some (JStr cat), Some (JStr reason)) \<Rightarrow>
                  (case failureResult verdict cat reason of Some x \<Rightarrow> x | None \<Rightarrow> ambiguousResult)
              | _ \<Rightarrow> ambiguousResult))
      | _ \<Rightarrow> ambiguousResult)"

text \<open>
  What the bot's endpoint does with a request: it answers with a status and a body, the body \<open>None\<close> when it
  is not JSON, or the call itself fails (no connection, or the abort after the timeout).
\<close>

datatype BotReply = BotAnswer int "json option" | BotUnreachable

definition sendMessage :: "BotReply \<Rightarrow> DeliveryResult" where
  "sendMessage reply =
     (case reply of
        BotUnreachable \<Rightarrow> ambiguousResult
      | BotAnswer httpStatus body \<Rightarrow>
          if httpStatus = 401 \<or> httpStatus = 403 then TerminalResult ''authentication'' ''bot-authentication-failed''
          else if httpStatus = 400 then TerminalResult ''request'' ''bot-request-rejected''
          else if \<not> (200 \<le> httpStatus \<and> httpStatus \<le> 299) then ambiguousResult
          else (case body of Some v \<Rightarrow> parseDeliveryResult v | None \<Rightarrow> ambiguousResult))"

section \<open>Texts\<close>

text \<open>
  A text here is the list of its UTF-16 code units. The code points the filter drops are all single units,
  and no unit of a surrogate pair is among them, so filtering units is filtering code points.
\<close>

type_synonym utf16 = "nat list"

definition utf16 :: "string \<Rightarrow> utf16" where
  "utf16 s = map codeUnit s"

definition whiteUnit :: "nat \<Rightarrow> bool" where
  "whiteUnit u \<longleftrightarrow> (9 \<le> u \<and> u \<le> 13) \<or> u = 32 \<or> u = 160 \<or> u = 0x1680 \<or> (0x2000 \<le> u \<and> u \<le> 0x200a)
     \<or> u = 0x2028 \<or> u = 0x2029 \<or> u = 0x202f \<or> u = 0x205f \<or> u = 0x3000 \<or> u = 0xfeff"

fun collapseUnits :: "utf16 \<Rightarrow> utf16" where
  "collapseUnits [] = []"
| "collapseUnits (u # us) =
     (if whiteUnit u then 32 # collapseUnits (dropWhile whiteUnit us) else u # collapseUnits us)"

definition presentable :: "nat \<Rightarrow> bool" where
  "presentable u \<longleftrightarrow> 32 \<le> u \<and> u \<noteq> 127 \<and> \<not> (0x202a \<le> u \<and> u \<le> 0x202e) \<and> \<not> (0x2066 \<le> u \<and> u \<le> 0x2069)"

definition trimUnits :: "utf16 \<Rightarrow> utf16" where
  "trimUnits us = rev (dropWhile whiteUnit (rev (dropWhile whiteUnit us)))"

text \<open>The text \<open>\<emdash>\<close> stands in for a text that becomes empty.\<close>

definition safePresentationValue :: "utf16 \<Rightarrow> nat \<Rightarrow> utf16" where
  "safePresentationValue value maximumLength =
     (let kept = take maximumLength (trimUnits (filter presentable (collapseUnits value)))
      in if kept = [] then [0x2014] else kept)"



section \<open>What the bot may answer\<close>

text \<open>
  C24: only an explicit answer of the bot ends in delivered or retryable: a message counts as delivered only
  when the bot returned status 2xx and a message id of at most 19 digits; every transport failure, every
  status other than 2xx, 400, 401 and 403, and every body of a 2xx answer that is no object is ambiguous, its
  outcome unknown; and the category and the code that reach the database always fit their columns.
\<close>

theorem send_is_conservative:
  "(\<forall>m. sendMessage reply = DeliveredAs m \<longrightarrow>
      (\<exists>s r. reply = BotAnswer s (Some (JObj r)) \<and> 200 \<le> s \<and> s \<le> 299 \<and> messageIdPattern m
        \<and> field r ''outcome'' = Some (JStr ''delivered'') \<and> field r ''messageId'' = Some (JStr m)))
   \<and> (\<forall>c k. sendMessage reply = RetryableFailure c k \<longrightarrow>
      (\<exists>s r. reply = BotAnswer s (Some (JObj r)) \<and> 200 \<le> s \<and> s \<le> 299
        \<and> field r ''outcome'' = Some (JStr ''retryable_failure'')))
   \<and> sendMessage BotUnreachable = AmbiguousResult ''transport'' ''bot-outcome-unknown''
   \<and> (\<forall>s b. s \<notin> {400, 401, 403} \<and> (s < 200 \<or> 299 < s \<or> (\<forall>r. b \<noteq> Some (JObj r))) \<longrightarrow>
      sendMessage (BotAnswer s b) = AmbiguousResult ''transport'' ''bot-outcome-unknown'')
   \<and> (\<forall>c k. sendMessage reply \<in> {RetryableFailure c k, TerminalResult c k, AmbiguousResult c k} \<longrightarrow>
      length c \<le> 32 \<and> length k \<le> 191)"
proof -
  have f: "x \<noteq> DeliveredAs m \<and> (x = RetryableFailure c k \<longrightarrow> v = ''retryable_failure'')
      \<and> (x \<in> {RetryableFailure c k, TerminalResult c k, AmbiguousResult c k} \<longrightarrow> length c \<le> 32 \<and> length k \<le> 191)"
    if "failureResult v a b = Some x" for v a b x m c k
    using that by (auto simp: failureResult_def categoryPattern_def codePattern_def split: if_splits)
  have ambiguous: "sendMessage (BotAnswer s b) = ambiguousResult"
    if "s \<notin> {400, 401, 403}" and "s < 200 \<or> 299 < s \<or> (\<forall>r. b \<noteq> Some (JObj r))" for s b
    using that by (auto simp: sendMessage_def parseDeliveryResult_def split: option.splits json.splits)
  have "sendMessage BotUnreachable = ambiguousResult" by (simp add: sendMessage_def)
  moreover have "(\<forall>m. sendMessage reply = DeliveredAs m \<longrightarrow>
        (\<exists>s r. reply = BotAnswer s (Some (JObj r)) \<and> 200 \<le> s \<and> s \<le> 299 \<and> messageIdPattern m
          \<and> field r ''outcome'' = Some (JStr ''delivered'') \<and> field r ''messageId'' = Some (JStr m)))
     \<and> (\<forall>c k. sendMessage reply = RetryableFailure c k \<longrightarrow>
        (\<exists>s r. reply = BotAnswer s (Some (JObj r)) \<and> 200 \<le> s \<and> s \<le> 299
          \<and> field r ''outcome'' = Some (JStr ''retryable_failure'')))
     \<and> (\<forall>c k. sendMessage reply \<in> {RetryableFailure c k, TerminalResult c k, AmbiguousResult c k} \<longrightarrow>
        length c \<le> 32 \<and> length k \<le> 191)"
    by (auto simp: sendMessage_def parseDeliveryResult_def deliveredId_def ambiguousResult_def
        split: BotReply.splits option.splits json.splits if_splits dest: f)
  moreover have "\<forall>s b. s \<notin> {400, 401, 403} \<and> (s < 200 \<or> 299 < s \<or> (\<forall>r. b \<noteq> Some (JObj r))) \<longrightarrow>
      sendMessage (BotAnswer s b) = ambiguousResult"
    using ambiguous by metis
  ultimately show ?thesis unfolding ambiguousResult_def by (elim conjE) (intro conjI)
qed

section \<open>The life cycle\<close>

text \<open>
  The abstract machine of one delivery: its state and the number of its attempts. A table follows another
  when every delivery of the first went a number of its steps.
\<close>

type_synonym life = "DeliveryState \<times> nat"

inductive lifeStep :: "life \<Rightarrow> life \<Rightarrow> bool" where
  attempt: "s = PENDING \<or> s = RETRYABLE_FAILURE \<Longrightarrow> lifeStep (s, n) (IN_FLIGHT, Suc n)"
| settle: "s \<noteq> PENDING \<Longrightarrow> s \<noteq> IN_FLIGHT \<Longrightarrow> lifeStep (IN_FLIGHT, n) (s, n)"
| exhaust: "lifeStep (RETRYABLE_FAILURE, n) (TERMINAL_FAILURE, n)"

inductive_cases lifeStepE: "lifeStep a b"

definition lifeOf :: "'x Delivery_scheme \<Rightarrow> life" where
  "lifeOf r = (dlState r, dlAttemptCount r)"

definition lives :: "'x Delivery_scheme list \<Rightarrow> string \<Rightarrow> life option" where
  "lives rows i = map_option lifeOf (findFirst (\<lambda>r. dlId r = i) rows)"

definition follows :: "'x Delivery_scheme list \<Rightarrow> 'x Delivery_scheme list \<Rightarrow> bool" where
  "follows rows rows' \<longleftrightarrow>
     (\<forall>i l. lives rows i = Some l \<longrightarrow> (\<exists>l'. lives rows' i = Some l' \<and> lifeStep\<^sup>*\<^sup>* l l'))"

definition finalState :: "DeliveryState \<Rightarrow> bool" where
  "finalState s \<longleftrightarrow> s = DELIVERED \<or> s = TERMINAL_FAILURE \<or> s = AMBIGUOUS"

lemma follows_refl [simp]: "follows rows rows"
  by (simp add: follows_def)

lemma follows_trans: "follows a b \<Longrightarrow> follows b c \<Longrightarrow> follows a c"
  unfolding follows_def by (meson rtranclp_trans)

lemma follows_update:
  assumes "\<And>r. P r \<Longrightarrow> dlId (f r) = dlId r \<and> lifeStep (lifeOf r) (lifeOf (f r))"
  shows "follows rows (snd (updateMany P f rows))"
proof -
  have "lives (snd (updateMany P f rows)) i =
      map_option lifeOf (map_option (\<lambda>r. if P r then f r else r) (findFirst (\<lambda>r. dlId r = i) rows))" for i
    unfolding lives_def updateMany_rows findFirst_map
    by (rule arg_cong [where f = "\<lambda>r. map_option lifeOf (map_option _ r)"]) (rule findFirst_cong, simp add: assms)
  note upd = this
  show ?thesis
    unfolding follows_def
  proof (intro allI impI)
    fix i l
    assume "lives rows i = Some l"
    then obtain r where "findFirst (\<lambda>r. dlId r = i) rows = Some r" "l = lifeOf r" by (auto simp: lives_def)
    with assms [of r] show "\<exists>l'. lives (snd (updateMany P f rows)) i = Some l' \<and> lifeStep\<^sup>*\<^sup>* l l'"
      by (simp add: upd r_into_rtranclp)
  qed
qed

lemma follows_append: "follows rows (rows @ new)"
  by (auto simp: follows_def lives_def findFirst_append split: option.splits)

lemma follows_claim: "follows rows (snd (updateMany (claimableDelivery d) (claimDelivery t) rows))"
  by (rule follows_update) (auto simp: claimableDelivery_def claimDelivery_def lifeOf_def intro: lifeStep.intros)

lemma follows_persist:
  "st \<noteq> PENDING \<Longrightarrow> st \<noteq> IN_FLIGHT \<Longrightarrow> follows rows (snd (updateMany (inFlight d) (failedRow st c k) rows))"
  by (rule follows_update) (auto simp: inFlight_def failedRow_def lifeOf_def intro: lifeStep.intros)

lemma follows_delivered: "follows rows (snd (updateMany (claimedDelivery d t) (deliveredRow m now) rows))"
  by (rule follows_update) (auto simp: claimedDelivery_def inFlight_def deliveredRow_def lifeOf_def intro: lifeStep.intros)

lemma follows_exhausted: "follows rows (snd (updateMany (retryable d) exhaustedRow rows))"
  by (rule follows_update) (auto simp: retryable_def exhaustedRow_def lifeOf_def intro: lifeStep.intros)

lemmas follows_writes = follows_claim follows_persist follows_delivered follows_exhausted

lemma life_final: "lifeStep\<^sup>*\<^sup>* l l' \<Longrightarrow> finalState (fst l) \<Longrightarrow> l' = l"
  by (induction rule: converse_rtranclp_induct) (auto simp: finalState_def elim!: lifeStepE)

lemma life_attempts: "lifeStep\<^sup>*\<^sup>* l l' \<Longrightarrow> snd l \<le> snd l'"
  by (induction rule: rtranclp_induct) (auto elim!: lifeStepE)

text \<open>
  What a processor promises about the deliveries, however other processes interleave with it: its
  processing and its dead-letter handler are runs of the life cycle.
\<close>

locale delivery_processor =
  fixes handle :: "(nat \<Rightarrow> 'db \<Rightarrow> 'db) \<Rightarrow> 'db \<Rightarrow> 'db"
    and exhaust :: "'db \<Rightarrow> 'db"
    and deliveries :: "'db \<Rightarrow> 'x Delivery_scheme list"
  assumes handle_follows: "(\<And>n db. follows (deliveries db) (deliveries (between n db)))
      \<Longrightarrow> follows (deliveries db) (deliveries (handle between db))"
    and exhaust_follows: "follows (deliveries db) (deliveries (exhaust db))"
begin

lemma handle_keeps_final:
  assumes "\<And>n db. follows (deliveries db) (deliveries (between n db))"
    and "lives (deliveries db) i = Some (s, n)" and "finalState s"
  shows "lives (deliveries (handle between db)) i = Some (s, n)"
  using handle_follows [of between db, OF assms(1)] assms(2,3) life_final [of "(s, n)"]
  unfolding follows_def by fastforce

lemma exhaust_keeps_final:
  assumes "lives (deliveries db) i = Some (s, n)" and "finalState s"
  shows "lives (deliveries (exhaust db)) i = Some (s, n)"
  using exhaust_follows [of db] assms life_final [of "(s, n)"] unfolding follows_def by fastforce

lemma handle_counts_attempts:
  assumes "\<And>n db. follows (deliveries db) (deliveries (between n db))"
    and "lives (deliveries db) i = Some (s, n)"
  shows "\<exists>s' n'. lives (deliveries (handle between db)) i = Some (s', n') \<and> n \<le> n'"
  using handle_follows [of between db, OF assms(1)] assms(2) life_attempts
  unfolding follows_def by fastforce

end

section \<open>Holding a claim\<close>

text \<open>The one row a worker claimed: the writes that end its attempt find it, and only it.\<close>

definition heldClaim :: "DeliveryJobData \<Rightarrow> date \<Rightarrow> 'x Delivery_scheme list \<Rightarrow> 'x Delivery_scheme \<Rightarrow> bool" where
  "heldClaim d t rows r \<longleftrightarrow> distinct (map dlId rows) \<and> r \<in> set rows \<and> claimedDelivery d t r"

lemma dlId_writes [simp]:
  "dlId (claimDelivery t r) = dlId r" "dlId (failedRow st c k r) = dlId r"
  "dlId (deliveredRow m now r) = dlId r" "dlId (exhaustedRow r) = dlId r"
  by (simp_all add: claimDelivery_def failedRow_def deliveredRow_def exhaustedRow_def)

lemma dlState_writes [simp]:
  "dlState (claimDelivery t r) = IN_FLIGHT" "dlState (failedRow st c k r) = st"
  "dlState (deliveredRow m now r) = DELIVERED" "dlState (exhaustedRow r) = TERMINAL_FAILURE"
  by (simp_all add: claimDelivery_def failedRow_def deliveredRow_def exhaustedRow_def)

lemma claimed_key: "claimedDelivery d t r \<Longrightarrow> inFlight d s \<Longrightarrow> dlId s = dlId r"
  by (simp add: claimedDelivery_def inFlight_def jobWhere_def)

lemma heldClaim_writes:
  assumes "heldClaim d t rows r"
  shows "fst (updateMany (inFlight d) (failedRow st c k) rows) = 1"
    and "findFirst (\<lambda>q. dlId q = dlId r) (snd (updateMany (inFlight d) (failedRow st c k) rows)) = Some (failedRow st c k r)"
    and "fst (updateMany (claimedDelivery d t) (deliveredRow m now) rows) = 1"
    and "findFirst (\<lambda>q. dlId q = dlId r) (snd (updateMany (claimedDelivery d t) (deliveredRow m now) rows))
      = Some (deliveredRow m now r)"
    and "findFirst (\<lambda>q. dlId q = dlId r) rows = Some r" and "findFirst (inFlight d) rows = Some r"
proof -
  have h: "distinct (map dlId rows)" "r \<in> set rows" "claimedDelivery d t r" "inFlight d r"
    using assms by (auto simp: heldClaim_def claimedDelivery_def)
  have key: "inFlight d s \<Longrightarrow> dlId s = dlId r" "claimedDelivery d t s \<Longrightarrow> dlId s = dlId r" for s
    using claimed_key [OF h(3)] by (auto simp: claimedDelivery_def)
  show "fst (updateMany (inFlight d) (failedRow st c k) rows) = 1"
    "findFirst (\<lambda>q. dlId q = dlId r) (snd (updateMany (inFlight d) (failedRow st c k) rows)) = Some (failedRow st c k r)"
    using updateMany_single [where k = dlId and P = "inFlight d" and f = "failedRow st c k", OF h(1,2,4) key(1)]
    by simp_all
  show "fst (updateMany (claimedDelivery d t) (deliveredRow m now) rows) = 1"
    "findFirst (\<lambda>q. dlId q = dlId r) (snd (updateMany (claimedDelivery d t) (deliveredRow m now) rows))
      = Some (deliveredRow m now r)"
    using updateMany_single [where k = dlId and P = "claimedDelivery d t" and f = "deliveredRow m now", OF h(1,2,3) key(2)]
    by simp_all
  show "findFirst (\<lambda>q. dlId q = dlId r) rows = Some r"
    by (rule findFirst_unique [where k = dlId]) (use h in auto)
  show "findFirst (inFlight d) rows = Some r"
    by (rule findFirst_unique [where k = dlId]) (use h key in auto)
qed

lemma claim_is_held:
  assumes "distinct (map dlId rows)" "r \<in> set rows" "claimableDelivery d r"
  shows "fst (updateMany (claimableDelivery d) (claimDelivery t) rows) = 1"
    and "heldClaim d t (snd (updateMany (claimableDelivery d) (claimDelivery t) rows)) (claimDelivery t r)"
proof -
  have key: "claimableDelivery d s \<Longrightarrow> dlId s = dlId r" for s
    using assms(3) by (simp add: claimableDelivery_def jobWhere_def)
  note upd = updateMany_single [where k = dlId and P = "claimableDelivery d" and f = "claimDelivery t", OF assms key]
  show "fst (updateMany (claimableDelivery d) (claimDelivery t) rows) = 1" using upd(1) by simp
  have "claimedDelivery d t (claimDelivery t r)"
    using assms(3) by (simp add: claimedDelivery_def inFlight_def claimableDelivery_def jobWhere_def claimDelivery_def)
  with upd assms(1) show "heldClaim d t (snd (updateMany (claimableDelivery d) (claimDelivery t) rows)) (claimDelivery t r)"
    by (simp add: heldClaim_def)
qed

lemma dlState_attempts [simp]:
  "dlAttemptCount (failedRow st c k r) = dlAttemptCount r" "dlAttemptCount (deliveredRow m now r) = dlAttemptCount r"
  "dlTelegramMessageId (deliveredRow m now r) = Some (int (readNat m))"
  by (simp_all add: failedRow_def deliveredRow_def)

section \<open>Workers, interleaved\<close>

text \<open>
  Any number of workers, the dead-letter handler and the schedulers, one write at a time. \<open>dwHeld x w\<close> is what
  worker \<open>w\<close> holds: the job, the time of its claim, and the result of its send once it has one. \<open>dwSent\<close> is the
  log of all sends with the delivery they belong to, which no process reads. A worker that finds a delivery
  in flight does not know whether its holder is alive: it may write \<open>AMBIGUOUS\<close> at any time (\<open>giveUp\<close>).
\<close>

record 'x DeliveryWorld =
  dwRows :: "'x Delivery_scheme list"
  dwNow :: date
  dwHeld :: "nat \<Rightarrow> (DeliveryJobData \<times> date \<times> DeliveryResult option) option"
  dwSent :: "(string \<times> DeliveryResult) list"

definition settledAs :: "DeliveryResult \<Rightarrow> (DeliveryState \<times> string \<times> string) option" where
  "settledAs r =
     (case r of
        DeliveredAs m \<Rightarrow> None
      | RetryableFailure c k \<Rightarrow> Some (RETRYABLE_FAILURE, c, k)
      | TerminalResult c k \<Rightarrow> Some (TERMINAL_FAILURE, c, k)
      | AmbiguousResult c k \<Rightarrow> Some (AMBIGUOUS, c, k))"

inductive deliveryStep :: "'x DeliveryWorld \<Rightarrow> 'x DeliveryWorld \<Rightarrow> bool" where
  tick: "dwNow x \<le> t \<Longrightarrow> deliveryStep x (x\<lparr>dwNow := t\<rparr>)"
| claim: "dwHeld x w = None \<Longrightarrow> updateMany (claimableDelivery d) (claimDelivery (dwNow x)) (dwRows x) = (1, rs)
    \<Longrightarrow> deliveryStep x (x\<lparr>dwRows := rs, dwHeld := (dwHeld x)(w := Some (d, dwNow x, None))\<rparr>)"
| reject: "dwHeld x w = Some (d, c, None)
    \<Longrightarrow> deliveryStep x (x\<lparr>dwRows := snd (persistDeliveryState msg d TERMINAL_FAILURE cat why (dwRows x)),
          dwHeld := (dwHeld x)(w := None)\<rparr>)"
| send: "dwHeld x w = Some (d, c, None)
    \<Longrightarrow> deliveryStep x (x\<lparr>dwHeld := (dwHeld x)(w := Some (d, c, Some (sendMessage reply))),
          dwSent := dwSent x @ [(jdDeliveryId d, sendMessage reply)]\<rparr>)"
| confirm: "dwHeld x w = Some (d, c, Some (DeliveredAs m))
    \<Longrightarrow> deliveryStep x (x\<lparr>dwRows := snd (updateMany (claimedDelivery d c) (deliveredRow m (dwNow x)) (dwRows x)),
          dwHeld := (dwHeld x)(w := None)\<rparr>)"
| settle: "dwHeld x w = Some (d, c, Some r) \<Longrightarrow> settledAs r = Some (st, cat, why)
    \<Longrightarrow> deliveryStep x (x\<lparr>dwRows := snd (persistDeliveryState msg d st cat why (dwRows x)),
          dwHeld := (dwHeld x)(w := None)\<rparr>)"
| crash: "deliveryStep x (x\<lparr>dwHeld := (dwHeld x)(w := None)\<rparr>)"
| giveUp: "deliveryStep x (x\<lparr>dwRows := snd (persistDeliveryState msg d AMBIGUOUS cat why (dwRows x))\<rparr>)"
| exhaust: "deliveryStep x (x\<lparr>dwRows := snd (updateMany (retryable d) exhaustedRow (dwRows x))\<rparr>)"
| schedule: "dlState r = PENDING \<Longrightarrow> dlId r \<notin> dlId ` set (dwRows x) \<Longrightarrow> deliveryStep x (x\<lparr>dwRows := dwRows x @ [r]\<rparr>)"

inductive deliveryReachable :: "'x DeliveryWorld \<Rightarrow> bool" where
  start: "deliveryReachable \<lparr>dwRows = [], dwNow = t, dwHeld = (\<lambda>w. None), dwSent = []\<rparr>"
| step: "deliveryReachable x \<Longrightarrow> deliveryStep x y \<Longrightarrow> deliveryReachable y"

definition isRetryable :: "DeliveryResult \<Rightarrow> bool" where
  "isRetryable r \<longleftrightarrow> (\<exists>c k. r = RetryableFailure c k)"

definition sendsOf :: "(string \<times> DeliveryResult) list \<Rightarrow> string \<Rightarrow> DeliveryResult list" where
  "sendsOf l i = map snd (filter (\<lambda>p. fst p = i) l)"

text \<open>What a row says about the sends of its delivery, and what the worker that holds it knows.\<close>

definition rowKnows :: "DeliveryState \<Rightarrow> DeliveryResult list \<Rightarrow> bool" where
  "rowKnows s l \<longleftrightarrow> list_all isRetryable (butlast l)
     \<and> (s = PENDING \<or> s = RETRYABLE_FAILURE \<longrightarrow> list_all isRetryable l)"

definition holderKnows :: "DeliveryResult option \<Rightarrow> DeliveryState \<Rightarrow> DeliveryResult list \<Rightarrow> bool" where
  "holderKnows h s l \<longleftrightarrow> s \<noteq> PENDING \<and> s \<noteq> RETRYABLE_FAILURE
     \<and> (case h of None \<Rightarrow> list_all isRetryable l | Some r \<Rightarrow> l \<noteq> [] \<and> last l = r)"

definition deliveriesOk :: "'x DeliveryWorld \<Rightarrow> bool" where
  "deliveriesOk x \<longleftrightarrow> distinct (map dlId (dwRows x))
     \<and> (\<forall>p \<in> set (dwSent x). fst p \<in> dlId ` set (dwRows x))
     \<and> (\<forall>r \<in> set (dwRows x). rowKnows (dlState r) (sendsOf (dwSent x) (dlId r)))
     \<and> (\<forall>w d c h. dwHeld x w = Some (d, c, h) \<longrightarrow>
          (\<exists>r \<in> set (dwRows x). dlId r = jdDeliveryId d
             \<and> holderKnows h (dlState r) (sendsOf (dwSent x) (dlId r))))
     \<and> (\<forall>w w' d d' p p'. dwHeld x w = Some (d, p) \<longrightarrow> dwHeld x w' = Some (d', p') \<longrightarrow>
          jdDeliveryId d = jdDeliveryId d' \<longrightarrow> w = w')"

lemma map_dlId_updateMany: "(\<And>r. dlId (f r) = dlId r) \<Longrightarrow> map dlId (snd (updateMany P f rows)) = map dlId rows"
  by (simp add: updateMany_rows)

lemma deliveriesOkD:
  assumes "deliveriesOk x"
  shows "distinct (map dlId (dwRows x))"
    and "p \<in> set (dwSent x) \<Longrightarrow> fst p \<in> dlId ` set (dwRows x)"
    and "r \<in> set (dwRows x) \<Longrightarrow> rowKnows (dlState r) (sendsOf (dwSent x) (dlId r))"
    and "dwHeld x w = Some (d, c, h) \<Longrightarrow>
      \<exists>r \<in> set (dwRows x). dlId r = jdDeliveryId d \<and> holderKnows h (dlState r) (sendsOf (dwSent x) (dlId r))"
    and "dwHeld x w = Some (d, q) \<Longrightarrow> dwHeld x w' = Some (d', q') \<Longrightarrow> jdDeliveryId d = jdDeliveryId d' \<Longrightarrow> w = w'"
  using assms unfolding deliveriesOk_def by blast+

lemma deliveriesOkI:
  assumes "distinct (map dlId (dwRows x))"
    and "\<And>p. p \<in> set (dwSent x) \<Longrightarrow> fst p \<in> dlId ` set (dwRows x)"
    and "\<And>r. r \<in> set (dwRows x) \<Longrightarrow> rowKnows (dlState r) (sendsOf (dwSent x) (dlId r))"
    and "\<And>w d c h. dwHeld x w = Some (d, c, h) \<Longrightarrow>
      \<exists>r \<in> set (dwRows x). dlId r = jdDeliveryId d \<and> holderKnows h (dlState r) (sendsOf (dwSent x) (dlId r))"
    and "\<And>w w' d d' q q'. dwHeld x w = Some (d, q) \<Longrightarrow> dwHeld x w' = Some (d', q')
      \<Longrightarrow> jdDeliveryId d = jdDeliveryId d' \<Longrightarrow> w = w'"
  shows "deliveriesOk x"
  using assms unfolding deliveriesOk_def by blast

text \<open>A write to the rows of a table is sound when the rows it changes still know what was sent.\<close>

lemma ok_write:
  assumes ok: "deliveriesOk x" and ids: "\<And>r. dlId (f r) = dlId r"
    and sub: "\<And>w q. held w = Some q \<Longrightarrow> dwHeld x w = Some q"
    and row: "\<And>r. r \<in> set (dwRows x) \<Longrightarrow> P r \<Longrightarrow> rowKnows (dlState (f r)) (sendsOf (dwSent x) (dlId r))"
    and hold: "\<And>r w d c h. r \<in> set (dwRows x) \<Longrightarrow> P r \<Longrightarrow> held w = Some (d, c, h) \<Longrightarrow> jdDeliveryId d = dlId r
      \<Longrightarrow> dlState (f r) \<noteq> PENDING \<and> dlState (f r) \<noteq> RETRYABLE_FAILURE"
  shows "deliveriesOk (x\<lparr>dwRows := snd (updateMany P f (dwRows x)), dwHeld := held\<rparr>)"
proof -
  have ids': "map dlId (snd (updateMany P f (dwRows x))) = map dlId (dwRows x)"
    using ids by (rule map_dlId_updateMany)
  then have set_ids: "dlId ` set (snd (updateMany P f (dwRows x))) = dlId ` set (dwRows x)"
    by (metis list.set_map)
  have known: "rowKnows (dlState r') (sendsOf (dwSent x) (dlId r'))"
    if "r' \<in> set (snd (updateMany P f (dwRows x)))" for r'
    using that row ids deliveriesOkD(3) [OF ok] by (auto simp: updateMany_rows)
  have held: "\<exists>r' \<in> set (snd (updateMany P f (dwRows x))). dlId r' = jdDeliveryId d
      \<and> holderKnows h (dlState r') (sendsOf (dwSent x) (dlId r'))" if h: "held w = Some (d, c, h)" for w d c h
  proof -
    from deliveriesOkD(4) [OF ok sub [OF h]] obtain r where r: "r \<in> set (dwRows x)" "dlId r = jdDeliveryId d"
      "holderKnows h (dlState r) (sendsOf (dwSent x) (dlId r))" by blast
    with hold [OF r(1) _ h] have "holderKnows h (dlState (if P r then f r else r)) (sendsOf (dwSent x) (dlId r))"
      by (auto simp: holderKnows_def)
    moreover have "(if P r then f r else r) \<in> set (snd (updateMany P f (dwRows x)))"
      using r(1) by (auto simp: set_updateMany)
    moreover have "dlId (if P r then f r else r) = dlId r" using ids by simp
    ultimately show ?thesis using r(2) by metis
  qed
  show ?thesis
  proof (rule deliveriesOkI, goal_cases)
    case (5 w w' d d' q q')
    then show ?case using deliveriesOkD(5) [OF ok sub sub] by simp
  qed (use ids' set_ids known held deliveriesOkD(1,2) [OF ok] in simp_all)
qed

text \<open>A write of a final state.\<close>

lemma ok_final:
  assumes "deliveriesOk x" and "\<And>r. dlId (f r) = dlId r" and "\<And>r. finalState (dlState (f r))"
    and "\<And>w q. held w = Some q \<Longrightarrow> dwHeld x w = Some q"
  shows "deliveriesOk (x\<lparr>dwRows := snd (updateMany P f (dwRows x)), dwHeld := held\<rparr>)"
proof -
  have not: "dlState (f r) \<noteq> PENDING \<and> dlState (f r) \<noteq> RETRYABLE_FAILURE" for r
    using assms(3) [of r] by (auto simp: finalState_def)
  show ?thesis
  proof (rule ok_write [OF assms(1,2,4)])
    fix r assume "r \<in> set (dwRows x)"
    with deliveriesOkD(3) [OF assms(1)] not [of r] show "rowKnows (dlState (f r)) (sendsOf (dwSent x) (dlId r))"
      by (auto simp: rowKnows_def)
  qed (use not in simp_all)
qed

lemma sendsOf_snoc: "sendsOf (l @ [(j, r)]) i = (if i = j then sendsOf l i @ [r] else sendsOf l i)"
  by (simp add: sendsOf_def)

lemma ok_retryable:
  assumes ok: "deliveriesOk x" and w: "dwHeld x w = Some (d, c, Some (RetryableFailure a b))"
  shows "deliveriesOk (x\<lparr>dwRows := snd (updateMany (inFlight d) (failedRow RETRYABLE_FAILURE cat why) (dwRows x)),
    dwHeld := (dwHeld x)(w := None)\<rparr>)"
proof (rule ok_write [OF ok])
  fix r assume r: "r \<in> set (dwRows x)" "inFlight d r"
  from deliveriesOkD(4) [OF ok w] r(2) have l: "sendsOf (dwSent x) (dlId r) \<noteq> []"
    "last (sendsOf (dwSent x) (dlId r)) = RetryableFailure a b"
    by (auto simp: holderKnows_def inFlight_def jobWhere_def)
  have "list_all isRetryable (butlast (sendsOf (dwSent x) (dlId r)))"
    using deliveriesOkD(3) [OF ok r(1)] by (simp add: rowKnows_def)
  with l have "list_all isRetryable (butlast (sendsOf (dwSent x) (dlId r)) @ [last (sendsOf (dwSent x) (dlId r))])"
    by (auto simp: isRetryable_def)
  with l(1) have "list_all isRetryable (sendsOf (dwSent x) (dlId r))" by simp
  with deliveriesOkD(3) [OF ok r(1)]
  show "rowKnows (dlState (failedRow RETRYABLE_FAILURE cat why r)) (sendsOf (dwSent x) (dlId r))"
    by (simp add: rowKnows_def)
next
  fix r w' d' c' h'
  assume "inFlight d r" "((dwHeld x)(w := None)) w' = Some (d', c', h')" "jdDeliveryId d' = dlId r"
  with deliveriesOkD(5) [OF ok w, of w' d'] show
    "dlState (failedRow RETRYABLE_FAILURE cat why r) \<noteq> PENDING \<and> dlState (failedRow RETRYABLE_FAILURE cat why r) \<noteq> RETRYABLE_FAILURE"
    by (auto simp: inFlight_def jobWhere_def split: if_splits)
qed (auto split: if_splits)

lemma ok_claim:
  assumes ok: "deliveriesOk x" and idle: "dwHeld x w = None"
    and run: "updateMany (claimableDelivery d) (claimDelivery t) (dwRows x) = (1, rs)"
  shows "deliveriesOk (x\<lparr>dwRows := rs, dwHeld := (dwHeld x)(w := Some (d, c, None))\<rparr>)"
proof -
  let ?y = "x\<lparr>dwRows := snd (updateMany (claimableDelivery d) (claimDelivery t) (dwRows x)), dwHeld := dwHeld x\<rparr>"
  have rs: "rs = snd (updateMany (claimableDelivery d) (claimDelivery t) (dwRows x))" using run by simp
  have "length (filter (claimableDelivery d) (dwRows x)) = 1" using run by (simp add: updateMany_def)
  then obtain r0 where "filter (claimableDelivery d) (dwRows x) = [r0]" by (auto simp: length_Suc_conv)
  then have "r0 \<in> set (filter (claimableDelivery d) (dwRows x))" by simp
  then have r0: "r0 \<in> set (dwRows x)" "claimableDelivery d r0" by simp_all
  then have id0: "dlId r0 = jdDeliveryId d" and st0: "dlState r0 = PENDING \<or> dlState r0 = RETRYABLE_FAILURE"
    by (auto simp: claimableDelivery_def jobWhere_def)
  have free: "jdDeliveryId d' \<noteq> jdDeliveryId d" if "dwHeld x w' = Some (d', q)" for w' d' q
  proof
    assume same: "jdDeliveryId d' = jdDeliveryId d"
    obtain c' h where "q = (c', h)" by force
    with deliveriesOkD(4) [OF ok, of w' d' c' h] that obtain r where r: "r \<in> set (dwRows x)"
      "dlId r = jdDeliveryId d'" "holderKnows h (dlState r) (sendsOf (dwSent x) (dlId r))" by auto
    then have "r = r0" using distinct_key_eq [OF deliveriesOkD(1) [OF ok] r(1) r0(1)] same id0 by simp
    with r(3) st0 show False by (auto simp: holderKnows_def)
  qed
  have y: "deliveriesOk ?y"
  proof (rule ok_write [OF ok])
    fix r assume "r \<in> set (dwRows x)" "claimableDelivery d r"
    with deliveriesOkD(3) [OF ok] show "rowKnows (dlState (claimDelivery t r)) (sendsOf (dwSent x) (dlId r))"
      by (auto simp: rowKnows_def)
  qed simp_all
  have mine: "\<exists>r \<in> set (dwRows ?y). dlId r = jdDeliveryId d
      \<and> holderKnows None (dlState r) (sendsOf (dwSent x) (dlId r))"
  proof (rule bexI [of _ "claimDelivery t r0"])
    show "dlId (claimDelivery t r0) = jdDeliveryId d
        \<and> holderKnows None (dlState (claimDelivery t r0)) (sendsOf (dwSent x) (dlId (claimDelivery t r0)))"
      using id0 st0 deliveriesOkD(3) [OF ok r0(1)] by (auto simp: holderKnows_def rowKnows_def)
    show "claimDelivery t r0 \<in> set (dwRows ?y)" using r0 by (auto simp: updateMany_rows)
  qed
  have held: "\<exists>r \<in> set (dwRows ?y). dlId r = jdDeliveryId d'
      \<and> holderKnows h (dlState r) (sendsOf (dwSent x) (dlId r))"
    if "((dwHeld x)(w := Some (d, c, None))) w' = Some (d', c', h)" for w' d' c' h
    using that mine deliveriesOkD(4) [OF y, of w' d' c' h] by (cases "w' = w") auto
  have unique: "w1 = w2"
    if "((dwHeld x)(w := Some (d, c, None))) w1 = Some (d1, q1)" "((dwHeld x)(w := Some (d, c, None))) w2 = Some (d2, q2)"
      "jdDeliveryId d1 = jdDeliveryId d2" for w1 w2 d1 d2 q1 q2
    using that free deliveriesOkD(5) [OF ok, of w1 d1 q1 w2 d2 q2]
    by (cases "w1 = w"; cases "w2 = w") (auto dest: free)
  show ?thesis
    unfolding rs
  proof (rule deliveriesOkI, goal_cases)
    case (4 w' d' c' h)
    then show ?case using held [of w' d' c' h] by simp
  next
    case (5 w1 w2 d1 d2 q1 q2)
    then show ?case using unique [of w1 d1 q1 w2 d2 q2] by simp
  qed (use deliveriesOkD(1-3) [OF y] in simp_all)
qed

lemma ok_send:
  assumes ok: "deliveriesOk x" and w: "dwHeld x w = Some (d, c, None)"
  shows "deliveriesOk (x\<lparr>dwHeld := (dwHeld x)(w := Some (d, c, Some r)), dwSent := dwSent x @ [(jdDeliveryId d, r)]\<rparr>)"
proof -
  let ?l = "dwSent x @ [(jdDeliveryId d, r)]"
  from deliveriesOkD(4) [OF ok w] obtain r0 where r0: "r0 \<in> set (dwRows x)" "dlId r0 = jdDeliveryId d"
    "holderKnows None (dlState r0) (sendsOf (dwSent x) (dlId r0))" by blast
  have rows: "rowKnows (dlState q) (sendsOf ?l (dlId q))" if "q \<in> set (dwRows x)" for q
  proof (cases "dlId q = jdDeliveryId d")
    case True
    with distinct_key_eq [OF deliveriesOkD(1) [OF ok] that r0(1)] r0(2) have "q = r0" by simp
    with r0 show ?thesis by (auto simp: sendsOf_snoc rowKnows_def holderKnows_def)
  next
    case False
    with deliveriesOkD(3) [OF ok that] show ?thesis by (simp add: sendsOf_snoc)
  qed
  have held: "\<exists>q \<in> set (dwRows x). dlId q = jdDeliveryId d' \<and> holderKnows h (dlState q) (sendsOf ?l (dlId q))"
    if "((dwHeld x)(w := Some (d, c, Some r))) w' = Some (d', c', h)" for w' d' c' h
  proof (cases "w' = w")
    case True
    with that r0 show ?thesis by (auto simp: holderKnows_def sendsOf_snoc intro!: bexI [of _ r0])
  next
    case False
    with that have h: "dwHeld x w' = Some (d', c', h)" by simp
    with deliveriesOkD(5) [OF ok w, of w' d'] False have "jdDeliveryId d' \<noteq> jdDeliveryId d" by metis
    moreover from deliveriesOkD(4) [OF ok h] obtain q where q: "q \<in> set (dwRows x)" "dlId q = jdDeliveryId d'"
      "holderKnows h (dlState q) (sendsOf (dwSent x) (dlId q))" by blast
    ultimately have "sendsOf ?l (dlId q) = sendsOf (dwSent x) (dlId q)" by (simp add: sendsOf_snoc)
    with q show ?thesis by (intro bexI [of _ q]) simp_all
  qed
  have unique: "w1 = w2"
    if "((dwHeld x)(w := Some (d, c, Some r))) w1 = Some (d1, q1)" "((dwHeld x)(w := Some (d, c, Some r))) w2 = Some (d2, q2)"
      "jdDeliveryId d1 = jdDeliveryId d2" for w1 w2 d1 d2 q1 q2
  proof -
    have other: "jdDeliveryId d' \<noteq> jdDeliveryId d" if "dwHeld x w' = Some (d', q')" "w' \<noteq> w" for w' d' q'
      using deliveriesOkD(5) [OF ok w that(1)] that(2) by auto
    show ?thesis
    proof (cases "w1 = w \<or> w2 = w")
      case True
      with that other [of w1 d1 q1] other [of w2 d2 q2] show ?thesis by (auto split: if_splits)
    next
      case False
      with that deliveriesOkD(5) [OF ok] show ?thesis by simp
    qed
  qed
  have logged: "\<forall>q \<in> set ?l. fst q \<in> dlId ` set (dwRows x)"
    using deliveriesOkD(2) [OF ok] r0 by (auto simp: image_iff intro!: bexI [of _ r0])
  show ?thesis
  proof (rule deliveriesOkI, goal_cases)
    case (4 w' d' c' h)
    then show ?case using held [of w' d' c' h] by simp
  next
    case (5 w1 w2 d1 d2 q1 q2)
    then show ?case using unique [of w1 d1 q1 w2 d2 q2] by simp
  next
    case (2 q)
    then show ?case using logged by auto
  qed (use deliveriesOkD(1) [OF ok] rows in simp_all)
qed

lemma ok_schedule:
  assumes ok: "deliveriesOk x" and r: "dlState r = PENDING" "dlId r \<notin> dlId ` set (dwRows x)"
  shows "deliveriesOk (x\<lparr>dwRows := dwRows x @ [r]\<rparr>)"
proof (rule deliveriesOkI, goal_cases)
  case (3 q)
  have "sendsOf (dwSent x) (dlId r) = []"
    using deliveriesOkD(2) [OF ok] r(2) by (auto simp: sendsOf_def filter_empty_conv)
  with 3 deliveriesOkD(3) [OF ok] show ?case by (auto simp: rowKnows_def)
next
  case (4 w d c h)
  then show ?case using deliveriesOkD(4) [OF ok, of w d c h] by auto
next
  case (5 w w' d d' q q')
  then show ?case using deliveriesOkD(5) [OF ok] by simp
qed (use r deliveriesOkD(1,2) [OF ok] in auto)

lemma deliveryStep_ok: "deliveryStep x y \<Longrightarrow> deliveriesOk x \<Longrightarrow> deliveriesOk y"
proof (induction rule: deliveryStep.induct)
  case (tick x t)
  then show ?case by (simp add: deliveriesOk_def)
next
  case (claim x w d rs)
  then show ?case by (intro ok_claim)
next
  case (reject x w d c msg cat why)
  then show ?case unfolding persistDeliveryState_def Let_def snd_conv
    by (intro ok_final) (auto simp: finalState_def split: if_splits)
next
  case (send x w d c reply)
  then show ?case by (intro ok_send)
next
  case (confirm x w d c m)
  then show ?case by (intro ok_final) (auto simp: finalState_def split: if_splits)
next
  case (settle x w d c r st cat why msg)
  show ?case
  proof (cases r)
    case (RetryableFailure a b)
    with settle show ?thesis unfolding persistDeliveryState_def Let_def snd_conv
      by (auto simp: settledAs_def intro: ok_retryable)
  next
    case (TerminalResult a b)
    with settle show ?thesis unfolding persistDeliveryState_def Let_def snd_conv
      by (intro ok_final) (auto simp: settledAs_def finalState_def split: if_splits)
  next
    case (AmbiguousResult a b)
    with settle show ?thesis unfolding persistDeliveryState_def Let_def snd_conv
      by (intro ok_final) (auto simp: settledAs_def finalState_def split: if_splits)
  qed (use settle in \<open>simp add: settledAs_def\<close>)
next
  case (crash x w)
  show ?case
  proof (rule deliveriesOkI, goal_cases)
    case (4 w' d c h)
    then show ?case using deliveriesOkD(4) [OF crash, of w' d c h] by (simp split: if_splits)
  next
    case (5 w1 w2 d d' q q')
    then show ?case using deliveriesOkD(5) [OF crash, of w1 d q w2 d' q'] by (simp split: if_splits)
  qed (use deliveriesOkD(1-3) [OF crash] in simp_all)
next
  case (giveUp x msg d cat why)
  have "deliveriesOk (x\<lparr>dwRows := snd (updateMany (inFlight d) (failedRow AMBIGUOUS cat why) (dwRows x)),
      dwHeld := dwHeld x\<rparr>)"
    using giveUp by (rule ok_final) (simp_all add: finalState_def)
  then show ?case by (simp add: persistDeliveryState_def Let_def)
next
  case (exhaust x d)
  have "deliveriesOk (x\<lparr>dwRows := snd (updateMany (retryable d) exhaustedRow (dwRows x)), dwHeld := dwHeld x\<rparr>)"
    using exhaust by (rule ok_final) (simp_all add: finalState_def)
  then show ?case by simp
next
  case (schedule r x)
  then show ?case by (intro ok_schedule)
qed

lemma deliveryReachable_ok: "deliveryReachable x \<Longrightarrow> deliveriesOk x"
proof (induction rule: deliveryReachable.induct)
  case (start t)
  show ?case by (simp add: deliveriesOk_def)
qed (rule deliveryStep_ok)

lemma butlast_member: "l = ys @ a # zs \<Longrightarrow> zs \<noteq> [] \<Longrightarrow> a \<in> set (butlast l)"
  by (simp add: butlast_append)

text \<open>
  C18: a notification is not sent twice on a guess: in every interleaving of workers, crashes, give-ups and
  dead letters, a delivery is sent again only after the bot explicitly reported every earlier send of it
  as retryable, so at most one send of a delivery, the last one, is delivered, refused or of unknown outcome.
\<close>

theorem resend_only_after_retryable:
  assumes "deliveryReachable x" and "dwSent x = before @ (i, r) # after" and "i \<in> fst ` set after"
  shows "\<exists>c k. r = RetryableFailure c k"
proof -
  have ok: "deliveriesOk x" using assms(1) by (rule deliveryReachable_ok)
  have "(i, r) \<in> set (dwSent x)" using assms(2) by simp
  with deliveriesOkD(2) [OF ok] obtain row where "row \<in> set (dwRows x)" "dlId row = i" by fastforce
  with deliveriesOkD(3) [OF ok] have "list_all isRetryable (butlast (sendsOf (dwSent x) i))"
    by (auto simp: rowKnows_def)
  moreover have "sendsOf (dwSent x) i = sendsOf before i @ r # sendsOf after i"
    by (simp add: assms(2) sendsOf_def)
  moreover have "sendsOf after i \<noteq> []" using assms(3) by (auto simp: sendsOf_def filter_empty_conv)
  ultimately have "isRetryable r" using butlast_member by (metis list_all_iff)
  then show ?thesis by (simp add: isRetryable_def)
qed

text \<open>A delivery whose first send is refused for a while and whose second send is confirmed.\<close>

definition sampleJob :: DeliveryJobData where
  "sampleJob = \<lparr>jdDeliveryId = ''ton_1'', jdTenantId = ''ten_1'', jdStoreId = ''sto_1''\<rparr>"

definition sampleRow :: "DeliveryState \<Rightarrow> nat \<Rightarrow> string option \<Rightarrow> string option \<Rightarrow> date option \<Rightarrow> Delivery" where
  "sampleRow st n c k t = \<lparr>dlId = ''ton_1'', dlTenantId = ''ten_1'', dlStoreId = ''sto_1'', dlTelegramAccountId = ''tac_1'',
     dlTelegramChatAuthorizationId = ''tca_1'', dlSourceWebhookEventId = ''evt_1'', dlState = st, dlAttemptCount = n,
     dlLastAttemptAt = t, dlTelegramMessageId = None, dlFailureCategory = c, dlFailureCode = k,
     dlDeliveredAt = None, dlCreatedAt = 0\<rparr>"

definition busyReply :: BotReply where
  "busyReply = BotAnswer 200 (Some (JObj [(''outcome'', JStr ''retryable_failure''),
     (''category'', JStr ''telegram''), (''code'', JStr ''busy'')]))"

definition okReply :: BotReply where
  "okReply = BotAnswer 200 (Some (JObj [(''outcome'', JStr ''delivered''), (''messageId'', JStr ''17'')]))"

lemma sample_replies:
  "sendMessage busyReply = RetryableFailure ''telegram'' ''busy''"
  "sendMessage okReply = DeliveredAs ''17''"
  by (simp_all add: busyReply_def okReply_def sendMessage_def parseDeliveryResult_def deliveredId_def field_def
      failureResult_def categoryPattern_def codePattern_def messageIdPattern_def isLower_def eval_simps)

lemma sample_world:
  "deliveryReachable \<lparr>dwRows = [sampleRow IN_FLIGHT 2 None None (Some 0)], dwNow = 0,
     dwHeld = (\<lambda>w. None)(0 := Some (sampleJob, 0, Some (DeliveredAs ''17''))),
     dwSent = [(''ton_1'', RetryableFailure ''telegram'' ''busy''), (''ton_1'', DeliveredAs ''17'')]\<rparr>"
proof -
  let ?w = "\<lambda>rs h l. \<lparr>dwRows = rs, dwNow = 0, dwHeld = (\<lambda>w. None)(0 := h), dwSent = l\<rparr> :: unit DeliveryWorld"
  let ?r = "RetryableFailure ''telegram'' ''busy''"
  have idle: "(\<lambda>w. None)(0 := None) = (\<lambda>w. None)" by simp
  have "deliveryReachable (?w [] None [])"
    unfolding idle by (rule deliveryReachable.start)
  from deliveryReachable.step [OF this deliveryStep.schedule [of "sampleRow PENDING 0 None None None"]]
  have "deliveryReachable (?w [sampleRow PENDING 0 None None None] None [])"
    by (simp add: sampleRow_def)
  from deliveryReachable.step [OF this deliveryStep.claim [of _ 0 sampleJob "[sampleRow IN_FLIGHT 1 None None (Some 0)]"]]
  have "deliveryReachable (?w [sampleRow IN_FLIGHT 1 None None (Some 0)] (Some (sampleJob, 0, None)) [])"
    by (simp add: sampleRow_def sampleJob_def updateMany_def claimableDelivery_def jobWhere_def claimDelivery_def)
  from deliveryReachable.step [OF this deliveryStep.send [of _ 0 sampleJob 0 busyReply]]
  have "deliveryReachable (?w [sampleRow IN_FLIGHT 1 None None (Some 0)] (Some (sampleJob, 0, Some ?r)) [(''ton_1'', ?r)])"
    by (simp add: sample_replies) (simp add: sampleJob_def)
  from deliveryReachable.step [OF this deliveryStep.settle [of _ 0 sampleJob 0 ?r RETRYABLE_FAILURE "''telegram''" "''busy''"]]
  have "deliveryReachable (?w [sampleRow RETRYABLE_FAILURE 1 (Some ''telegram'') (Some ''busy'') (Some 0)] None [(''ton_1'', ?r)])"
    by (simp add: settledAs_def sampleRow_def sampleJob_def persistDeliveryState_def Let_def updateMany_def inFlight_def
        jobWhere_def failedRow_def)
  from deliveryReachable.step [OF this deliveryStep.claim [of _ 0 sampleJob "[sampleRow IN_FLIGHT 2 None None (Some 0)]"]]
  have "deliveryReachable (?w [sampleRow IN_FLIGHT 2 None None (Some 0)] (Some (sampleJob, 0, None)) [(''ton_1'', ?r)])"
    by (simp add: sampleRow_def sampleJob_def updateMany_def claimableDelivery_def jobWhere_def claimDelivery_def)
  from deliveryReachable.step [OF this deliveryStep.send [of _ 0 sampleJob 0 okReply]]
  show ?thesis by (simp add: sample_replies) (simp add: sampleJob_def)
qed

theorem resend_only_after_retryable_witness:
  "\<exists>c k. RetryableFailure ''telegram'' ''busy'' = RetryableFailure c k"
  by (rule resend_only_after_retryable
      [where before = "[]" and i = "''ton_1''" and after = "[(''ton_1'', DeliveredAs ''17'')]", OF sample_world]) simp_all

theorem send_is_conservative_witness:
  "messageIdPattern ''17'' \<and> sendMessage (BotAnswer 502 None) = AmbiguousResult ''transport'' ''bot-outcome-unknown''"
proof
  have "\<forall>m. sendMessage okReply = DeliveredAs m \<longrightarrow> messageIdPattern m"
    using conjunct1 [OF send_is_conservative [of okReply]] by blast
  then show "messageIdPattern ''17''" by (simp only: sample_replies)
  have "sendMessage (BotAnswer s b) = AmbiguousResult ''transport'' ''bot-outcome-unknown''" if "299 < s" "s \<notin> {400, 401, 403}" for s b
    using send_is_conservative [of okReply] that by meson
  then show "sendMessage (BotAnswer 502 None) = AmbiguousResult ''transport'' ''bot-outcome-unknown''" by simp
qed

end
