(* ===== verification/OrderNotifications.thy ===== *)
theory OrderNotifications
  imports Deliveries TelegramContext
begin

text \<open>
  The Telegram notification of a new order: the preparation of its text and links
  (\<open>prepareOrderNotification\<close> of \<open>backend/src/telegram/telegram-order.service.ts\<close>), the worker that sends it
  (\<open>backend/src/queue/order-notification.processor.ts\<close>) and the scheduler that creates the deliveries
  (\<open>order-notification.scheduler.ts\<close>). What other processes commit before each statement of the worker is
  the parameter \<open>between\<close>.
\<close>

record OrderDelivery = Delivery +
  dlOrderId :: string

record OrderNotifyDb = TelegramDb +
  onDeliveries :: "OrderDelivery list"

section \<open>Which status changes are offered\<close>

definition CORE_STATUS_TRANSITIONS :: "string \<Rightarrow> string list" where
  "CORE_STATUS_TRANSITIONS s =
     (if s = ''pending'' then [''processing'', ''on-hold'', ''cancelled'']
      else if s = ''processing'' then [''on-hold'', ''completed'', ''cancelled'', ''refunded'']
      else if s = ''on-hold'' then [''processing'', ''completed'', ''cancelled'', ''refunded'']
      else if s = ''completed'' then [''processing'', ''refunded'']
      else if s = ''cancelled'' then [''pending'']
      else if s = ''failed'' then [''pending'', ''on-hold'', ''cancelled'']
      else [])"

section \<open>Preparing the notification\<close>

record PreparedOrder =
  poOrderNumber :: string
  poStatus :: string
  poCurrency :: string
  poTotal :: "string option"
  poCustomer :: string
  poViewOrderRef :: string
  poChangeStatusAvailable :: bool

datatype PreparedNotification =
  PreparedUnauthorized | PreparedNotFound | PreparedDeleted | PreparedDisabled | PreparedOk PreparedOrder

definition recipientMatches :: "Recipient \<Rightarrow> string \<Rightarrow> string \<Rightarrow> TelegramOrderContext \<Rightarrow> bool" where
  "recipientMatches rp tenant store cx \<longleftrightarrow> cxAccountId cx = rpAccountId rp
     \<and> (\<forall>m \<in> set_option (rpMembershipId rp). cxMembershipId cx = m)
     \<and> cxTenantId cx = tenant \<and> cxStoreId cx = store"

definition policyWhere :: "'x TelegramDb_scheme \<Rightarrow> string \<Rightarrow> string \<Rightarrow> ShopRow \<Rightarrow> bool" where
  "policyWhere db tenant store s \<longleftrightarrow> shId s = store \<and> shTenantId s = tenant \<and> shDeletedAt s = None
     \<and> shStatus s = StoreActive \<and> tenantAlive db tenant"

definition recipientSelected :: "'x TelegramDb_scheme \<Rightarrow> ShopRow \<Rightarrow> string \<Rightarrow> bool" where
  "recipientSelected db s membership \<longleftrightarrow> shRecipientMode s \<noteq> SELECTED
     \<or> list_ex (\<lambda>r. rcStoreId r = shId s \<and> rcMembershipId r = membership) (tgRecipients db)"

definition orderWhere :: "'x TelegramDb_scheme \<Rightarrow> string \<Rightarrow> string \<Rightarrow> string \<Rightarrow> OrderRow \<Rightarrow> bool" where
  "orderWhere db tenant store wcId r \<longleftrightarrow> orderTenantId r = tenant \<and> orderStoreId r = store \<and> wcOrderId r = wcId
     \<and> tenantAlive db tenant \<and> shopAlive db store"

definition prepareForOrder ::
  "TelegramEnv \<Rightarrow> TelegramOrderContext \<Rightarrow> OrderRow \<Rightarrow> 'x TelegramDb_scheme \<Rightarrow> PreparedNotification \<times> 'x TelegramDb_scheme" where
  "prepareForOrder env cx r db =
     (let expiresAt = teClock env 1 + teReferenceTtlSeconds env * 1000;
          l = listReference cx (teShortId env 0) expiresAt;
          d = detailReference cx (wcOrderId r) (rfId l) (teShortId env 1) expiresAt;
          s = toOrderSummary r (referenceToken env (CHR ''d'') d)
      in (PreparedOk \<lparr>poOrderNumber = smOrderNumber s, poStatus = smStatus s, poCurrency = smCurrency s,
            poTotal = smTotal s, poCustomer = smCustomer s, poViewOrderRef = smRef s,
            poChangeStatusAvailable = (cxRole cx \<noteq> MEMBER \<and> CORE_STATUS_TRANSITIONS (status r) \<noteq> [])\<rparr>,
          db\<lparr>tgReferences := tgReferences db @ [l, d]\<rparr>))"

definition prepareOrderNotification ::
  "TelegramEnv \<Rightarrow> Recipient \<Rightarrow> string \<Rightarrow> string \<Rightarrow> string \<Rightarrow> 'x TelegramDb_scheme
     \<Rightarrow> (ServiceError + PreparedNotification) \<times> 'x TelegramDb_scheme" where
  "prepareOrderNotification env rp tenant store wcId db =
     (case resolveContext db \<lparr>tiUserId = rpTelegramUserId rp, tiChatId = rpTelegramChatId rp\<rparr> of
        ContextOk cx \<Rightarrow>
          if \<not> recipientMatches rp tenant store cx then (Inr PreparedUnauthorized, db)
          else (case assertActive (cxTenantId cx) (teClock env 0) (tgTenants db) of
                  Inl e \<Rightarrow> (Inl e, db)
                | Inr _ \<Rightarrow>
                    (case findFirst (policyWhere db tenant store) (tgShops db) of
                       None \<Rightarrow> (Inr PreparedDisabled, db)
                     | Some s \<Rightarrow>
                         if OrderCreatedCategory \<notin> set (shEnabledCategories s)
                            \<or> \<not> recipientSelected db s (cxMembershipId cx)
                         then (Inr PreparedDisabled, db)
                         else (case findFirst (orderWhere db tenant store wcId) (tgOrders db) of
                                 None \<Rightarrow> (Inr PreparedNotFound, db)
                               | Some r \<Rightarrow>
                                   if remoteDeletedAt r \<noteq> None then (Inr PreparedDeleted, db)
                                   else map_prod Inr id (prepareForOrder env cx r db))))
      | _ \<Rightarrow> (Inr PreparedUnauthorized, db))"

section \<open>Job data\<close>

definition validateOrderNotificationJobData :: "json \<Rightarrow> JobError + DeliveryJobData" where
  "validateOrderNotificationJobData v =
     andThen (case v of
        JObj r \<Rightarrow> Inr r
      | JArr xs \<Rightarrow> Inr []
      | _ \<Rightarrow> Inl (UnrecoverableError ''Order notification job payload must be an object'')) (\<lambda>r.
     andThen (identityField r ''deliveryId'' ''ton_''
       ''Order notification delivery identity is required and must be valid'') (\<lambda>d.
     andThen (identityField r ''tenantId'' ''ten_''
       ''Order notification tenant identity is required and must be valid'') (\<lambda>t.
     andThen (identityField r ''storeId'' ''sto_''
       ''Order notification Store identity is required and must be valid'') (\<lambda>s.
     Inr \<lparr>jdDeliveryId = d, jdTenantId = t, jdStoreId = s\<rparr>))))"

section \<open>The statements of the worker\<close>

definition orderPersistMessage :: string where
  "orderPersistMessage = ''Notification delivery outcome persistence failed''"

text \<open>\<open>writeDeliveries\<close> runs a write of the delivery table on the database.\<close>

definition writeDeliveries ::
  "(OrderDelivery list \<Rightarrow> 'a \<times> OrderDelivery list) \<Rightarrow> OrderNotifyDb \<Rightarrow> 'a \<times> OrderNotifyDb" where
  "writeDeliveries f db = map_prod id (\<lambda>rows. db\<lparr>onDeliveries := rows\<rparr>) (f (onDeliveries db))"

definition orderPersistState ::
  "DeliveryJobData \<Rightarrow> DeliveryState \<Rightarrow> string \<Rightarrow> string \<Rightarrow> OrderNotifyDb \<Rightarrow> (JobError + unit) \<times> OrderNotifyDb" where
  "orderPersistState d st cat why = writeDeliveries (persistDeliveryState orderPersistMessage d st cat why)"

definition orderPersistFailure ::
  "DeliveryJobData \<Rightarrow> DeliveryState \<Rightarrow> string \<Rightarrow> string \<Rightarrow> OrderNotifyDb \<Rightarrow> (JobError + DeliveryJobResult) \<times> OrderNotifyDb" where
  "orderPersistFailure d st cat why = writeDeliveries (persistDeliveryFailure orderPersistMessage d st cat why)"

definition orderMarkFailed :: "json \<Rightarrow> OrderNotifyDb \<Rightarrow> (JobError + unit) \<times> OrderNotifyDb" where
  "orderMarkFailed v db =
     (case validateOrderNotificationJobData v of
        Inl e \<Rightarrow> (Inl e, db)
      | Inr d \<Rightarrow> (Inr (), snd (writeDeliveries (updateMany (retryable d) exhaustedRow) db)))"

definition orderResolveUnclaimed ::
  "(nat \<Rightarrow> OrderNotifyDb \<Rightarrow> OrderNotifyDb) \<Rightarrow> DeliveryJobData \<Rightarrow> OrderNotifyDb
     \<Rightarrow> (JobError + DeliveryJobResult) \<times> OrderNotifyDb" where
  "orderResolveUnclaimed between d db =
     (case findFirst (jobWhere d) (onDeliveries db) of
        None \<Rightarrow> (Inl (UnrecoverableError ''Order notification delivery is unavailable for processing''), db)
      | Some r \<Rightarrow>
          if dlState r = IN_FLIGHT
          then orderPersistFailure d AMBIGUOUS ''dispatch'' ''in-flight-outcome-unknown'' (between 2 db)
          else if dlState r = DELIVERED \<or> dlState r = TERMINAL_FAILURE \<or> dlState r = AMBIGUOUS
          then (Inr (d, AlreadyFinal), db)
          else (Inl (JobError ''Order notification delivery could not be claimed''), db))"

section \<open>The worker\<close>

record OrderMessage =
  omChatId :: int
  omPresentation :: TelegramPresentation
  omOrderNumber :: utf16
  omStatus :: utf16
  omCurrency :: utf16
  omTotal :: utf16
  omCustomer :: utf16
  omViewOrderRef :: string
  omChangeStatusAvailable :: bool

text \<open>
  \<open>neReply m\<close> is what the bot answers to message \<open>m\<close>. \<open>nePresentation\<close> is \<open>None\<close> when the worker runs without
  the presentation service.
\<close>

record OrderNotifyEnv =
  neClock :: "nat \<Rightarrow> date"
  neBetween :: "nat \<Rightarrow> OrderNotifyDb \<Rightarrow> OrderNotifyDb"
  neTelegram :: TelegramEnv
  nePresentation :: "(string \<Rightarrow> bool) option"
  neReply :: "OrderMessage \<Rightarrow> BotReply"

type_synonym orderRun = "(JobError + DeliveryJobResult) \<times> OrderNotifyDb \<times> OrderMessage list"

definition serviceMessage :: "ServiceError \<Rightarrow> string" where
  "serviceMessage e =
     (case e of
        NotFoundException m \<Rightarrow> m | EntitlementInactiveException s \<Rightarrow> ''Tenant entitlement is inactive''
      | ForbiddenException m \<Rightarrow> m | BadRequestException m \<Rightarrow> m | UnauthorizedException m \<Rightarrow> m
      | ConflictException m \<Rightarrow> m | ServiceUnavailableException m \<Rightarrow> m | TooManyRequests m \<Rightarrow> m
      | DatabaseError m \<Rightarrow> m)"

text \<open>A text that is \<open>None\<close> is \<open>\<emdash>\<close>, see \<open>totalValue\<close>.\<close>

definition orDash :: "string option \<Rightarrow> utf16" where
  "orDash s = (case s of Some t \<Rightarrow> utf16 t | None \<Rightarrow> [0x2014])"

definition orderMessage :: "int \<Rightarrow> TelegramPresentation \<Rightarrow> PreparedOrder \<Rightarrow> OrderMessage" where
  "orderMessage chat pr p =
     \<lparr>omChatId = chat, omPresentation = pr,
      omOrderNumber = safePresentationValue (utf16 (poOrderNumber p)) 191,
      omStatus = safePresentationValue (utf16 (poStatus p)) 64,
      omCurrency = safePresentationValue (utf16 (poCurrency p)) 16,
      omTotal = safePresentationValue (orDash (poTotal p)) 64,
      omCustomer = safePresentationValue (utf16 (poCustomer p)) 255,
      omViewOrderRef = poViewOrderRef p, omChangeStatusAvailable = poChangeStatusAvailable p\<rparr>"

definition orderRecordOutcome ::
  "DeliveryJobData \<Rightarrow> date \<Rightarrow> date \<Rightarrow> DeliveryResult \<Rightarrow> OrderNotifyDb \<Rightarrow> (JobError + DeliveryJobResult) \<times> OrderNotifyDb" where
  "orderRecordOutcome d claimedAt now result db =
     (case result of
        DeliveredAs m \<Rightarrow>
          let persisted = writeDeliveries (updateMany (claimedDelivery d claimedAt) (deliveredRow m now)) db
          in (if fst persisted \<noteq> 1 then Inl (JobError orderPersistMessage) else Inr (d, Delivered), snd persisted)
      | RetryableFailure c k \<Rightarrow>
          (case orderPersistState d RETRYABLE_FAILURE c k db of
             (Inl e, db') \<Rightarrow> (Inl e, db')
           | (Inr _, db') \<Rightarrow> (Inl (JobError ''Telegram notification delivery is retryable''), db'))
      | TerminalResult c k \<Rightarrow> orderPersistFailure d TERMINAL_FAILURE c k db
      | AmbiguousResult c k \<Rightarrow> orderPersistFailure d AMBIGUOUS c k db)"

definition quietRun :: "(JobError + DeliveryJobResult) \<times> OrderNotifyDb \<Rightarrow> orderRun" where
  "quietRun p = (fst p, snd p, [])"

definition currentlyActive :: "date \<Rightarrow> DeliveryJobData \<Rightarrow> 'x TelegramDb_scheme \<Rightarrow> JobError + bool" where
  "currentlyActive now d db =
     (case isActive (jdTenantId d) now (tgTenants db) of
        Inl e \<Rightarrow> Inl (JobError (serviceMessage e)) | Inr b \<Rightarrow> Inr b)"

definition orderSend ::
  "OrderNotifyEnv \<Rightarrow> DeliveryJobData \<Rightarrow> date \<Rightarrow> Recipient \<Rightarrow> PreparedOrder \<Rightarrow> OrderNotifyDb \<Rightarrow> orderRun" where
  "orderSend env d claimedAt rp p db =
     (let db5 = neBetween env 5 db;
          pr = (case nePresentation env of
                  Some valid \<Rightarrow> resolvePresentation valid (neClock env 3) db5
                    \<lparr>tiUserId = rpTelegramUserId rp, tiChatId = rpTelegramChatId rp\<rparr>
                | None \<Rightarrow> DEFAULT_TELEGRAM_PRESENTATION\<lparr>prLanguage := EN\<rparr>);
          db6 = neBetween env 6 db5
      in case currentlyActive (neClock env 4) d db6 of
           Inl e \<Rightarrow> (Inl e, db6, [])
         | Inr active \<Rightarrow>
             if \<not> active
             then quietRun (orderPersistFailure d TERMINAL_FAILURE ''policy'' ''entitlement-inactive'' (neBetween env 7 db6))
             else let m = orderMessage (rpTelegramChatId rp) pr p;
                      done = orderRecordOutcome d claimedAt (neClock env 5) (sendMessage (neReply env m)) (neBetween env 7 db6)
                  in (fst done, snd done, [m]))"

definition preparedFailure :: "PreparedNotification \<Rightarrow> string \<times> string" where
  "preparedFailure s =
     (case s of
        PreparedUnauthorized \<Rightarrow> (''authorization'', ''notification-unauthorized'')
      | PreparedDisabled \<Rightarrow> (''policy'', ''notification-disabled'')
      | PreparedNotFound \<Rightarrow> (''order'', ''notification-not_found'')
      | PreparedDeleted \<Rightarrow> (''order'', ''notification-deleted'')
      | PreparedOk p \<Rightarrow> ([], []))"

definition orderPrepare ::
  "OrderNotifyEnv \<Rightarrow> DeliveryJobData \<Rightarrow> date \<Rightarrow> Recipient \<Rightarrow> OrderDelivery \<Rightarrow> string \<Rightarrow> OrderNotifyDb \<Rightarrow> orderRun" where
  "orderPrepare env d claimedAt rp r wcId db =
     (case prepareOrderNotification (neTelegram env) rp (dlTenantId r) (dlStoreId r) wcId (neBetween env 3 db) of
        (Inl e, db') \<Rightarrow> (Inl (JobError (serviceMessage e)), db', [])
      | (Inr (PreparedOk p), db') \<Rightarrow> orderSend env d claimedAt rp p db'
      | (Inr s, db') \<Rightarrow>
          quietRun (orderPersistFailure d TERMINAL_FAILURE (fst (preparedFailure s)) (snd (preparedFailure s))
            (neBetween env 4 db')))"

text \<open>
  The delivery with its order, account and chat. Foreign keys make the three relations exist; a missing one
  is the error the database client raises for an inconsistent result.
\<close>

definition orderContext ::
  "OrderNotifyEnv \<Rightarrow> DeliveryJobData \<Rightarrow> date \<Rightarrow> OrderNotifyDb \<Rightarrow> orderRun" where
  "orderContext env d claimedAt db =
     (case findFirst (inFlight d) (onDeliveries db) of
        None \<Rightarrow> quietRun (orderPersistFailure d TERMINAL_FAILURE ''authorization'' ''recipient-context-invalid'' (neBetween env 3 db))
      | Some r \<Rightarrow>
          (case (findFirst (\<lambda>q. orderRowId q = dlOrderId r) (tgOrders db),
                 findFirst (\<lambda>a. acId a = dlTelegramAccountId r) (tgAccounts db),
                 findFirst (\<lambda>c. chId c = dlTelegramChatAuthorizationId r) (tgChats db)) of
             (Some q, Some a, Some c) \<Rightarrow>
               if chId c \<noteq> dlTelegramChatAuthorizationId r \<or> chAccountId c \<noteq> dlTelegramAccountId r
               then quietRun (orderPersistFailure d TERMINAL_FAILURE ''authorization'' ''recipient-context-invalid'' (neBetween env 3 db))
               else orderPrepare env d claimedAt
                      \<lparr>rpMembershipId = None, rpAccountId = dlTelegramAccountId r,
                       rpChatAuthorizationId = dlTelegramChatAuthorizationId r,
                       rpTelegramUserId = acTelegramUserId a, rpTelegramChatId = chChatId c\<rparr>
                      r (wcOrderId q) db
           | _ \<Rightarrow> (Inl (JobError ''Inconsistent query result''), db, [])))"

definition orderNotificationProcess :: "OrderNotifyEnv \<Rightarrow> json \<Rightarrow> OrderNotifyDb \<Rightarrow> orderRun" where
  "orderNotificationProcess env v db =
     (case validateOrderNotificationJobData v of
        Inl e \<Rightarrow> (Inl e, db, [])
      | Inr d \<Rightarrow>
          let claimedAt = neClock env 0;
              claimed = writeDeliveries (updateMany (claimableDelivery d) (claimDelivery claimedAt)) (neBetween env 0 db);
              db1 = neBetween env 1 (snd claimed)
          in if fst claimed \<noteq> 1 then quietRun (orderResolveUnclaimed (neBetween env) d db1)
             else case currentlyActive (neClock env 1) d db1 of
                    Inl e \<Rightarrow> (Inl e, db1, [])
                  | Inr active \<Rightarrow>
                      if \<not> active
                      then quietRun (orderPersistFailure d TERMINAL_FAILURE ''policy'' ''entitlement-inactive'' (neBetween env 2 db1))
                      else orderContext env d claimedAt (neBetween env 2 db1))"

section \<open>The worker follows the life cycle\<close>

lemma deliveries_write [simp]: "onDeliveries (snd (writeDeliveries f db)) = snd (f (onDeliveries db))"
  by (simp add: writeDeliveries_def)

lemma follows_failure:
  "st \<noteq> PENDING \<Longrightarrow> st \<noteq> IN_FLIGHT \<Longrightarrow>
     follows (onDeliveries db) (onDeliveries (snd (orderPersistFailure d st c k db)))"
  by (simp add: orderPersistFailure_def persistDeliveryFailure_def persistDeliveryState_def Let_def follows_persist)

lemma follows_state:
  "st \<noteq> PENDING \<Longrightarrow> st \<noteq> IN_FLIGHT \<Longrightarrow>
     follows (onDeliveries db) (onDeliveries (snd (orderPersistState d st c k db)))"
  by (simp add: orderPersistState_def persistDeliveryState_def Let_def follows_persist)

lemma follows_record: "follows (onDeliveries db) (onDeliveries (snd (orderRecordOutcome d t now r db)))"
proof (cases r)
  case (RetryableFailure c k)
  then show ?thesis
    using follows_state [of RETRYABLE_FAILURE db d c k]
    by (auto simp: orderRecordOutcome_def split: prod.splits sum.splits)
qed (auto simp: orderRecordOutcome_def Let_def follows_delivered follows_failure)

lemma prepare_keeps_deliveries:
  "onDeliveries (snd (prepareOrderNotification env rp t s w db)) = onDeliveries db"
  by (auto simp: prepareOrderNotification_def prepareForOrder_def Let_def
      split: ContextResolution.splits sum.splits option.splits)

lemma fst_snd_quietRun [simp]: "fst (snd (quietRun p)) = snd p"
  by (simp add: quietRun_def)

text \<open>The other processes keep to the life cycle too.\<close>

definition cooperative :: "OrderNotifyEnv \<Rightarrow> bool" where
  "cooperative env \<longleftrightarrow> (\<forall>n db. follows (onDeliveries db) (onDeliveries (neBetween env n db)))"

lemma follows_between: "cooperative env \<Longrightarrow> follows (onDeliveries db) (onDeliveries (neBetween env n db))"
  by (simp add: cooperative_def)

lemma follows_then_between:
  "cooperative env \<Longrightarrow> follows a (onDeliveries db) \<Longrightarrow> follows a (onDeliveries (neBetween env n db))"
  using follows_between follows_trans by blast

lemma follows_send:
  assumes ok: "cooperative env"
  shows "follows (onDeliveries db) (onDeliveries (fst (snd (orderSend env d t rp p db))))"
proof -
  have "follows (onDeliveries db) (onDeliveries (neBetween env n (neBetween env 5 db)))"
    "follows (onDeliveries db) (onDeliveries (neBetween env 7 (neBetween env 6 (neBetween env 5 db))))" for n
    by (intro follows_then_between [OF ok] follows_refl)+
  then show ?thesis
    by (auto simp: orderSend_def Let_def split: sum.splits intro: follows_trans follows_failure follows_record)
qed

lemma follows_prepare:
  assumes ok: "cooperative env"
  shows "follows (onDeliveries db) (onDeliveries (fst (snd (orderPrepare env d t rp r w db))))"
proof -
  obtain x db' where run: "prepareOrderNotification (neTelegram env) rp (dlTenantId r) (dlStoreId r) w (neBetween env 3 db) = (x, db')"
    by force
  with prepare_keeps_deliveries have "onDeliveries db' = onDeliveries (neBetween env 3 db)" by (metis snd_conv)
  with follows_between [OF ok] have db': "follows (onDeliveries db) (onDeliveries db')" by metis
  have after: "follows (onDeliveries db) (onDeliveries (neBetween env 4 db'))"
    using db' by (rule follows_then_between [OF ok])
  show ?thesis
  proof (cases x)
    case (Inr s)
    then show ?thesis
      using run db' after by (cases s) (auto simp: orderPrepare_def intro: follows_trans follows_failure follows_send [OF ok])
  qed (use run db' in \<open>simp add: orderPrepare_def\<close>)
qed

lemma follows_context:
  assumes ok: "cooperative env"
  shows "follows (onDeliveries db) (onDeliveries (fst (snd (orderContext env d t db))))"
proof -
  have "follows (onDeliveries db) (onDeliveries (neBetween env 3 db))" by (rule follows_between [OF ok])
  then show ?thesis
    by (auto simp: orderContext_def split: option.splits intro: follows_trans follows_failure follows_prepare [OF ok])
qed

lemma follows_unclaimed:
  assumes ok: "cooperative env"
  shows "follows (onDeliveries db) (onDeliveries (snd (orderResolveUnclaimed (neBetween env) d db)))"
proof -
  have "follows (onDeliveries db) (onDeliveries (neBetween env 2 db))" by (rule follows_between [OF ok])
  then show ?thesis
    by (auto simp: orderResolveUnclaimed_def split: option.splits intro: follows_trans follows_failure)
qed

lemma follows_process:
  assumes ok: "cooperative env"
  shows "follows (onDeliveries db) (onDeliveries (fst (snd (orderNotificationProcess env v db))))"
proof (cases "validateOrderNotificationJobData v")
  case (Inr d)
  let ?t = "neClock env 0"
  let ?claimed = "writeDeliveries (updateMany (claimableDelivery d) (claimDelivery ?t)) (neBetween env 0 db)"
  let ?db1 = "neBetween env 1 (snd ?claimed)"
  have db1: "follows (onDeliveries db) (onDeliveries ?db1)"
    by (rule follows_then_between [OF ok]) (metis follows_between [OF ok] deliveries_write follows_claim follows_trans)
  then have "follows (onDeliveries db) (onDeliveries (neBetween env 2 ?db1))" by (rule follows_then_between [OF ok])
  with Inr db1 show ?thesis
    by (auto simp: orderNotificationProcess_def Let_def split: sum.splits
        intro: follows_trans follows_unclaimed [OF ok] follows_failure follows_context [OF ok])
qed (simp add: orderNotificationProcess_def)

interpretation order_worker: delivery_processor
  "\<lambda>between db. fst (snd (orderNotificationProcess (env\<lparr>neBetween := between\<rparr>) v db))"
  "\<lambda>db. snd (orderMarkFailed v db)" onDeliveries
proof
  show "follows (onDeliveries db) (onDeliveries (fst (snd (orderNotificationProcess (env\<lparr>neBetween := between\<rparr>) v db))))"
    if "\<And>n db. follows (onDeliveries db) (onDeliveries (between n db))" for between db
    using that by (intro follows_process) (simp add: cooperative_def)
  show "follows (onDeliveries db) (onDeliveries (snd (orderMarkFailed v db)))" for db
    by (simp add: orderMarkFailed_def follows_exhausted split: sum.splits)
qed

text \<open>
  C19: the order worker refines the life cycle of a delivery: whatever happens between its statements, as
  long as other processes keep to the life cycle, every delivery goes a number of abstract steps (attempt,
  settle, exhaust), so no delivery disappears, attempts never decrease, and a delivered, terminal or
  ambiguous delivery stays exactly as it is; the dead-letter handler refines it too.
\<close>

theorem order_worker_refines_life_cycle:
  assumes "\<And>n db. follows (onDeliveries db) (onDeliveries (neBetween env n db))"
  shows "follows (onDeliveries db) (onDeliveries (fst (snd (orderNotificationProcess env v db))))
    \<and> follows (onDeliveries db) (onDeliveries (snd (orderMarkFailed v db)))
    \<and> (\<forall>i s n. lives (onDeliveries db) i = Some (s, n) \<and> finalState s \<longrightarrow>
        lives (onDeliveries (fst (snd (orderNotificationProcess env v db)))) i = Some (s, n)
        \<and> lives (onDeliveries (snd (orderMarkFailed v db))) i = Some (s, n))"
  using order_worker.handle_follows [of "neBetween env" db env v, OF assms] order_worker.exhaust_follows [of db v]
    order_worker.handle_keeps_final [of "neBetween env" db _ _ _ env v, OF assms]
    order_worker.exhaust_keeps_final [of db _ _ _ v]
  by simp

section \<open>The outcome of one attempt\<close>

text \<open>
  What an undisturbed attempt does, as a decision on the database it starts from: it fails and leaves the
  delivery in flight, refuses the delivery with a category and a code, or sends one message. \<open>entitledAt\<close>
  is \<open>None\<close> when the tenant does not exist.
\<close>

datatype AttemptPlan = Fails string | Refuses string string | Sends OrderMessage

definition entitledAt :: "date \<Rightarrow> DeliveryJobData \<Rightarrow> OrderNotifyDb \<Rightarrow> bool option" where
  "entitledAt now d db = map_option (\<lambda>t. activeAt (tnEntitlementStatus t) (tnEntitlementExpiresAt t) now)
     (findFirst (tenantWhere (jdTenantId d)) (tgTenants db))"

definition whenEntitled :: "date \<Rightarrow> DeliveryJobData \<Rightarrow> OrderNotifyDb \<Rightarrow> AttemptPlan \<Rightarrow> AttemptPlan" where
  "whenEntitled now d db plan =
     (case entitledAt now d db of
        None \<Rightarrow> Fails ''Tenant was not found''
      | Some False \<Rightarrow> Refuses ''policy'' ''entitlement-inactive''
      | Some True \<Rightarrow> plan)"

definition planPrepared ::
  "(PreparedOrder \<Rightarrow> AttemptPlan) \<Rightarrow> ServiceError + PreparedNotification \<Rightarrow> AttemptPlan" where
  "planPrepared deliver x =
     (case x of
        Inl e \<Rightarrow> Fails (serviceMessage e)
      | Inr PreparedUnauthorized \<Rightarrow> Refuses ''authorization'' ''notification-unauthorized''
      | Inr PreparedDisabled \<Rightarrow> Refuses ''policy'' ''notification-disabled''
      | Inr PreparedNotFound \<Rightarrow> Refuses ''order'' ''notification-not_found''
      | Inr PreparedDeleted \<Rightarrow> Refuses ''order'' ''notification-deleted''
      | Inr (PreparedOk p) \<Rightarrow> deliver p)"

definition shownPresentation :: "OrderNotifyEnv \<Rightarrow> AccountRow \<Rightarrow> ChatRow \<Rightarrow> OrderNotifyDb \<Rightarrow> TelegramPresentation" where
  "shownPresentation env a c db =
     (case nePresentation env of
        Some valid \<Rightarrow> resolvePresentation valid (neClock env 3) db \<lparr>tiUserId = acTelegramUserId a, tiChatId = chChatId c\<rparr>
      | None \<Rightarrow> DEFAULT_TELEGRAM_PRESENTATION\<lparr>prLanguage := EN\<rparr>)"

definition attemptPlan :: "OrderNotifyEnv \<Rightarrow> DeliveryJobData \<Rightarrow> OrderDelivery \<Rightarrow> OrderNotifyDb \<Rightarrow> AttemptPlan" where
  "attemptPlan env d r db = whenEntitled (neClock env 1) d db
     (case (findFirst (\<lambda>q. orderRowId q = dlOrderId r) (tgOrders db),
            findFirst (\<lambda>a. acId a = dlTelegramAccountId r) (tgAccounts db),
            findFirst (\<lambda>c. chId c = dlTelegramChatAuthorizationId r) (tgChats db)) of
        (Some q, Some a, Some c) \<Rightarrow>
          if chAccountId c \<noteq> dlTelegramAccountId r then Refuses ''authorization'' ''recipient-context-invalid''
          else planPrepared (\<lambda>p. whenEntitled (neClock env 4) d db
                 (Sends (orderMessage (chChatId c) (shownPresentation env a c db) p)))
               (fst (prepareOrderNotification (neTelegram env)
                 \<lparr>rpMembershipId = None, rpAccountId = dlTelegramAccountId r,
                  rpChatAuthorizationId = dlTelegramChatAuthorizationId r,
                  rpTelegramUserId = acTelegramUserId a, rpTelegramChatId = chChatId c\<rparr>
                 (dlTenantId r) (dlStoreId r) (wcOrderId q) db))
      | _ \<Rightarrow> Fails ''Inconsistent query result'')"

text \<open>The result, the row and the messages a decision leads to; a sent message is settled by the bot's answer.\<close>

definition claimedRow :: "OrderNotifyEnv \<Rightarrow> OrderDelivery \<Rightarrow> OrderDelivery" where
  "claimedRow env r = r\<lparr>dlState := IN_FLIGHT, dlAttemptCount := dlAttemptCount r + 1,
     dlLastAttemptAt := Some (neClock env 0), dlFailureCategory := None, dlFailureCode := None\<rparr>"

definition closedRow :: "DeliveryState \<Rightarrow> string \<Rightarrow> string \<Rightarrow> OrderDelivery \<Rightarrow> OrderDelivery" where
  "closedRow st c k r = r\<lparr>dlState := st, dlFailureCategory := Some c, dlFailureCode := Some k\<rparr>"

type_synonym settlement = "(JobError + DeliveryJobResult) \<times> OrderDelivery \<times> OrderMessage list"

definition settledBy :: "OrderNotifyEnv \<Rightarrow> DeliveryJobData \<Rightarrow> OrderDelivery \<Rightarrow> OrderMessage \<Rightarrow> settlement" where
  "settledBy env d c m =
     (case sendMessage (neReply env m) of
        DeliveredAs i \<Rightarrow> (Inr (d, Delivered), c\<lparr>dlState := DELIVERED, dlTelegramMessageId := Some (int (readNat i)),
          dlDeliveredAt := Some (neClock env 5)\<rparr>, [m])
      | RetryableFailure x k \<Rightarrow>
          (Inl (JobError ''Telegram notification delivery is retryable''), closedRow RETRYABLE_FAILURE x k c, [m])
      | TerminalResult x k \<Rightarrow> (Inr (d, TerminalFailure), closedRow TERMINAL_FAILURE x k c, [m])
      | AmbiguousResult x k \<Rightarrow> (Inr (d, Ambiguous), closedRow AMBIGUOUS x k c, [m]))"

definition carriedOut :: "OrderNotifyEnv \<Rightarrow> DeliveryJobData \<Rightarrow> OrderDelivery \<Rightarrow> AttemptPlan \<Rightarrow> settlement" where
  "carriedOut env d c plan =
     (case plan of
        Fails m \<Rightarrow> (Inl (JobError m), c, [])
      | Refuses x k \<Rightarrow> (Inr (d, TerminalFailure), closedRow TERMINAL_FAILURE x k c, [])
      | Sends m \<Rightarrow> settledBy env d c m)"

definition replaceDelivery :: "OrderDelivery \<Rightarrow> OrderDelivery list \<Rightarrow> OrderDelivery list" where
  "replaceDelivery r rows = map (\<lambda>q. if dlId q = dlId r then r else q) rows"

definition leaves :: "OrderDelivery list \<Rightarrow> orderRun \<Rightarrow> settlement \<Rightarrow> bool" where
  "leaves rows run x \<longleftrightarrow> (\<exists>db'. run = (fst x, db', snd (snd x))
     \<and> onDeliveries db' = replaceDelivery (fst (snd x)) rows)"

lemma held_writes:
  assumes "heldClaim d t rows c"
  shows "updateMany (inFlight d) (failedRow st x k) rows = (1, replaceDelivery (failedRow st x k c) rows)"
    and "updateMany (claimedDelivery d t) (deliveredRow m now) rows = (1, replaceDelivery (deliveredRow m now c) rows)"
    and "findFirst (inFlight d) rows = Some c" and "replaceDelivery c rows = rows"
proof -
  have h: "distinct (map dlId rows)" "c \<in> set rows" "claimedDelivery d t c" "inFlight d c"
    using assms by (auto simp: heldClaim_def claimedDelivery_def)
  have key: "inFlight d s \<Longrightarrow> dlId s = dlId c" "claimedDelivery d t s \<Longrightarrow> dlId s = dlId c" for s
    using claimed_key [OF h(3)] by (auto simp: claimedDelivery_def)
  show "updateMany (inFlight d) (failedRow st x k) rows = (1, replaceDelivery (failedRow st x k c) rows)"
    unfolding replaceDelivery_def by (simp add: updateMany_keyed [where k = dlId and P = "inFlight d", OF h(1,2,4) key(1)])
  show "updateMany (claimedDelivery d t) (deliveredRow m now) rows = (1, replaceDelivery (deliveredRow m now c) rows)"
    unfolding replaceDelivery_def by (simp add: updateMany_keyed [where k = dlId and P = "claimedDelivery d t", OF h(1,2,3) key(2)])
  show "findFirst (inFlight d) rows = Some c" by (rule heldClaim_writes(6) [OF assms])
  show "replaceDelivery c rows = rows"
    unfolding replaceDelivery_def by (rule map_idI) (use distinct_key_eq [OF h(1) _ h(2)] in auto)
qed

lemma failedRow_closed: "length x \<le> 32 \<Longrightarrow> length k \<le> 191 \<Longrightarrow> failedRow st x k c = closedRow st x k c"
  by (simp add: failedRow_def closedRow_def)

lemma failure_leaves:
  assumes "heldClaim d t (onDeliveries db) c" and "length x \<le> 32" "length k \<le> 191"
  shows "orderPersistFailure d st x k db = (Inr (d, if st = AMBIGUOUS then Ambiguous else TerminalFailure),
      db\<lparr>onDeliveries := replaceDelivery (closedRow st x k c) (onDeliveries db)\<rparr>)"
    and "orderPersistState d st x k db = (Inr (), db\<lparr>onDeliveries := replaceDelivery (closedRow st x k c) (onDeliveries db)\<rparr>)"
  using assms held_writes(1) [OF assms(1), of st x k]
  by (simp_all add: orderPersistFailure_def orderPersistState_def persistDeliveryFailure_def persistDeliveryState_def
      writeDeliveries_def failedRow_closed Let_def)

lemma refuse_leaves:
  assumes "heldClaim d t (onDeliveries db) c" and "length x \<le> 32" "length k \<le> 191"
  shows "leaves (onDeliveries db) (quietRun (orderPersistFailure d TERMINAL_FAILURE x k db)) (carriedOut env d c (Refuses x k))"
  by (simp add: leaves_def quietRun_def carriedOut_def failure_leaves [OF assms])

lemma fail_leaves:
  "heldClaim d t (onDeliveries db) c \<Longrightarrow>
     leaves (onDeliveries db) (Inl (JobError m), db, []) (carriedOut env d c (Fails m))"
  by (simp add: leaves_def carriedOut_def held_writes(4))

lemma sendMessage_fits:
  "sendMessage reply \<in> {RetryableFailure x k, TerminalResult x k, AmbiguousResult x k} \<Longrightarrow>
     length x \<le> 32 \<and> length k \<le> 191"
  by (auto simp: sendMessage_def parseDeliveryResult_def deliveredId_def ambiguousResult_def failureResult_def
      categoryPattern_def codePattern_def split: BotReply.splits option.splits json.splits if_splits)

lemma record_leaves:
  assumes h: "heldClaim d t (onDeliveries db) c"
  shows "leaves (onDeliveries db)
    (fst (orderRecordOutcome d t (neClock env 5) (sendMessage (neReply env m)) db),
     snd (orderRecordOutcome d t (neClock env 5) (sendMessage (neReply env m)) db), [m])
    (carriedOut env d c (Sends m))"
proof (cases "sendMessage (neReply env m)")
  case (DeliveredAs i)
  then show ?thesis
    by (simp add: leaves_def carriedOut_def settledBy_def orderRecordOutcome_def writeDeliveries_def Let_def
        held_writes(2) [OF h] deliveredRow_def)
qed (use sendMessage_fits [of "neReply env m"] failure_leaves [OF h] in
  \<open>simp_all add: leaves_def carriedOut_def settledBy_def orderRecordOutcome_def\<close>)

text \<open>The reads do not depend on the deliveries, and preparing a message only adds references.\<close>

lemma reads_other_tables:
  fixes db db' :: OrderNotifyDb
  assumes "tgTenants db' = tgTenants db" "tgShops db' = tgShops db" "tgMemberships db' = tgMemberships db"
    "tgAccounts db' = tgAccounts db" "tgChats db' = tgChats db" "tgRecipients db' = tgRecipients db"
    "tgOrders db' = tgOrders db"
  shows "fst (prepareOrderNotification e rp t s w db') = fst (prepareOrderNotification e rp t s w db)"
    and "shownPresentation env a c db' = shownPresentation env a c db" and "entitledAt now d db' = entitledAt now d db"
proof -
  have alive: "tenantAlive db' = tenantAlive db" "shopAlive db' = shopAlive db"
    using assms by (auto simp: tenantAlive_def shopAlive_def)
  have where_same: "membershipWhere db' = membershipWhere db" "activeShopWhere db' = activeShopWhere db"
    "policyWhere db' = policyWhere db" "orderWhere db' = orderWhere db" "recipientSelected db' = recipientSelected db"
    using assms alive by (auto simp: membershipWhere_def activeShopWhere_def policyWhere_def orderWhere_def
        recipientSelected_def fun_eq_iff)
  have context_same: "resolveContext db' = resolveContext db"
    by (intro ext) (simp only: resolveContext_def resolveMembership_def assms where_same)
  have "fst (prepareForOrder e cx r db') = fst (prepareForOrder e cx r db)" for cx r
    by (simp add: prepareForOrder_def Let_def)
  with assms where_same context_same show "fst (prepareOrderNotification e rp t s w db')
      = fst (prepareOrderNotification e rp t s w db)"
    by (auto simp: prepareOrderNotification_def split: ContextResolution.splits sum.splits option.splits)
  have "presentedTenant db' = presentedTenant db" by (intro ext) (simp only: presentedTenant_def assms)
  then show "shownPresentation env a c db' = shownPresentation env a c db"
    by (simp only: shownPresentation_def resolvePresentation_def assms)
  show "entitledAt now d db' = entitledAt now d db" using assms by (simp add: entitledAt_def)
qed

lemma prepare_keeps_tables:
  fixes db :: OrderNotifyDb
  assumes "prepareOrderNotification e rp t s w db = (x, db')"
  shows "tgTenants db' = tgTenants db" "tgShops db' = tgShops db" "tgMemberships db' = tgMemberships db"
    "tgAccounts db' = tgAccounts db" "tgChats db' = tgChats db" "tgRecipients db' = tgRecipients db"
    "tgOrders db' = tgOrders db" "onDeliveries db' = onDeliveries db"
  using assms by (auto simp: prepareOrderNotification_def prepareForOrder_def Let_def
      split: ContextResolution.splits sum.splits option.splits if_splits)

lemma currentlyActive_entitled:
  "currentlyActive now d db = (case entitledAt now d db of
     None \<Rightarrow> Inl (JobError ''Tenant was not found'') | Some b \<Rightarrow> Inr b)"
  using effective_active
  by (auto simp: currentlyActive_def isActive_def resolveTenant_def andThen_def entitledAt_def serviceMessage_def
      rowSummary_def toSummary_def split: option.splits)

lemma entitled_leaves:
  assumes h: "heldClaim d t (onDeliveries db) c"
    and go: "entitledAt now d db = Some True \<Longrightarrow> leaves (onDeliveries db) run (carriedOut env d c plan)"
  shows "leaves (onDeliveries db)
    (case currentlyActive now d db of
       Inl e \<Rightarrow> (Inl e, db, [])
     | Inr active \<Rightarrow> if \<not> active
         then quietRun (orderPersistFailure d TERMINAL_FAILURE ''policy'' ''entitlement-inactive'' db) else run)
    (carriedOut env d c (whenEntitled now d db plan))"
proof (cases "entitledAt now d db")
  case None
  with fail_leaves [OF h] show ?thesis by (simp add: currentlyActive_entitled whenEntitled_def)
next
  case (Some active)
  with go refuse_leaves [OF h, of "''policy''" "''entitlement-inactive''" env] show ?thesis
    by (cases active) (simp_all add: currentlyActive_entitled whenEntitled_def)
qed

lemma send_leaves:
  assumes quiet: "neBetween env = (\<lambda>n db. db)" and h: "heldClaim d t (onDeliveries db) c"
    and rp: "rpTelegramUserId rp = acTelegramUserId a" "rpTelegramChatId rp = chChatId ch"
  shows "leaves (onDeliveries db) (orderSend env d t rp p db)
    (carriedOut env d c (whenEntitled (neClock env 4) d db
      (Sends (orderMessage (chChatId ch) (shownPresentation env a ch db) p))))"
proof -
  have "orderSend env d t rp p db = (case currentlyActive (neClock env 4) d db of
       Inl e \<Rightarrow> (Inl e, db, [])
     | Inr active \<Rightarrow> if \<not> active
         then quietRun (orderPersistFailure d TERMINAL_FAILURE ''policy'' ''entitlement-inactive'' db)
         else (let m = orderMessage (chChatId ch) (shownPresentation env a ch db) p;
                   done = orderRecordOutcome d t (neClock env 5) (sendMessage (neReply env m)) db
               in (fst done, snd done, [m])))"
    unfolding orderSend_def quiet rp shownPresentation_def Let_def by (rule refl)
  with entitled_leaves [OF h] record_leaves [OF h] show ?thesis by (simp add: Let_def)
qed

lemma prepare_leaves:
  assumes quiet: "neBetween env = (\<lambda>n db. db)" and h: "heldClaim d t (onDeliveries db) c"
    and rp: "rpTelegramUserId rp = acTelegramUserId a" "rpTelegramChatId rp = chChatId ch"
  shows "leaves (onDeliveries db) (orderPrepare env d t rp r w db)
    (carriedOut env d c (planPrepared (\<lambda>p. whenEntitled (neClock env 4) d db
        (Sends (orderMessage (chChatId ch) (shownPresentation env a ch db) p)))
      (fst (prepareOrderNotification (neTelegram env) rp (dlTenantId r) (dlStoreId r) w db))))"
proof -
  obtain x db1 where run: "prepareOrderNotification (neTelegram env) rp (dlTenantId r) (dlStoreId r) w db = (x, db1)"
    by force
  note kept = prepare_keeps_tables [OF run]
  note same = reads_other_tables [of db1 db, OF kept(1-7)]
  have h1: "heldClaim d t (onDeliveries db1) c" using h kept(8) by simp
  note refuse = refuse_leaves [OF h1, unfolded kept(8)] and fails = fail_leaves [OF h1, unfolded kept(8)]
  have sends: "leaves (onDeliveries db) (orderSend env d t rp p db1)
      (carriedOut env d c (whenEntitled (neClock env 4) d db
        (Sends (orderMessage (chChatId ch) (shownPresentation env a ch db) p))))" for p
    using send_leaves [OF quiet h1 rp, of p] by (simp add: kept(8) same whenEntitled_def)
  show ?thesis
  proof (cases x)
    case (Inl e)
    with run fails show ?thesis by (simp add: orderPrepare_def quiet planPrepared_def)
  next
    case (Inr s)
    with run refuse sends show ?thesis
      by (cases s) (simp_all add: orderPrepare_def quiet planPrepared_def preparedFailure_def)
  qed
qed

lemma context_leaves:
  assumes quiet: "neBetween env = (\<lambda>n db. db)" and h: "heldClaim d t (onDeliveries db) c"
    and active: "entitledAt (neClock env 1) d db = Some True"
  shows "leaves (onDeliveries db) (orderContext env d t db) (carriedOut env d c (attemptPlan env d c db))"
proof -
  note found = held_writes(3) [OF h]
  let ?o = "findFirst (\<lambda>q. orderRowId q = dlOrderId c) (tgOrders db)"
  let ?a = "findFirst (\<lambda>a. acId a = dlTelegramAccountId c) (tgAccounts db)"
  let ?ch = "findFirst (\<lambda>x. chId x = dlTelegramChatAuthorizationId c) (tgChats db)"
  show ?thesis
  proof (cases "\<exists>q a ch. ?o = Some q \<and> ?a = Some a \<and> ?ch = Some ch")
    case True
    then obtain q a ch where reads: "?o = Some q" "?a = Some a" "?ch = Some ch" by blast
    from findFirst_Some [OF reads(3)] have "chId ch = dlTelegramChatAuthorizationId c" by simp
    with reads active found refuse_leaves [OF h, of "''authorization''" "''recipient-context-invalid''" env]
      prepare_leaves [OF quiet h]
    show ?thesis
      by (simp add: orderContext_def attemptPlan_def whenEntitled_def quiet)
  next
    case False
    with active found fail_leaves [OF h] show ?thesis
      by (auto simp: orderContext_def attemptPlan_def whenEntitled_def split: option.splits)
  qed
qed

text \<open>What holds in the database when the worker decides to send.\<close>

definition orderJustified :: "OrderNotifyEnv \<Rightarrow> DeliveryJobData \<Rightarrow> OrderDelivery \<Rightarrow> OrderNotifyDb \<Rightarrow> bool" where
  "orderJustified env d r db \<longleftrightarrow>
     entitledAt (neClock env 1) d db = Some True \<and> entitledAt (neClock env 4) d db = Some True
     \<and> (\<exists>a \<in> set (tgAccounts db). \<exists>c \<in> set (tgChats db). \<exists>cx. \<exists>s \<in> set (tgShops db).
         \<exists>o1 \<in> set (tgOrders db). \<exists>o2 \<in> set (tgOrders db).
           acId a = dlTelegramAccountId r \<and> chId c = dlTelegramChatAuthorizationId r \<and> chAccountId c = dlTelegramAccountId r
         \<and> resolveContext db \<lparr>tiUserId = acTelegramUserId a, tiChatId = chChatId c\<rparr> = ContextOk cx
         \<and> cxAccountId cx = dlTelegramAccountId r \<and> cxTenantId cx = dlTenantId r \<and> cxStoreId cx = dlStoreId r
         \<and> shId s = dlStoreId r \<and> shTenantId s = dlTenantId r \<and> shStatus s = StoreActive \<and> shDeletedAt s = None
         \<and> OrderCreatedCategory \<in> set (shEnabledCategories s) \<and> recipientSelected db s (cxMembershipId cx)
         \<and> orderRowId o1 = dlOrderId r \<and> wcOrderId o2 = wcOrderId o1
         \<and> orderTenantId o2 = dlTenantId r \<and> orderStoreId o2 = dlStoreId r \<and> remoteDeletedAt o2 = None)"

lemma prepared_justified:
  assumes "fst (prepareOrderNotification e rp tenant store w db) = Inr (PreparedOk p)"
  shows "\<exists>cx. \<exists>s \<in> set (tgShops db). \<exists>q \<in> set (tgOrders db).
    resolveContext db \<lparr>tiUserId = rpTelegramUserId rp, tiChatId = rpTelegramChatId rp\<rparr> = ContextOk cx
    \<and> recipientMatches rp tenant store cx \<and> policyWhere db tenant store s
    \<and> OrderCreatedCategory \<in> set (shEnabledCategories s) \<and> recipientSelected db s (cxMembershipId cx)
    \<and> orderWhere db tenant store w q \<and> remoteDeletedAt q = None"
  using assms
  by (auto simp: prepareOrderNotification_def dest!: findFirst_Some
      split: ContextResolution.splits sum.splits option.splits if_splits)

lemma sends_justified:
  assumes "attemptPlan env d r db = Sends m"
  shows "orderJustified env d r db"
proof -
  have prepared: "planPrepared f x = Sends m \<Longrightarrow> \<exists>p. x = Inr (PreparedOk p) \<and> f p = Sends m" for f x
    by (auto simp: planPrepared_def split: sum.splits PreparedNotification.splits)
  have entitled: "whenEntitled now d db plan = Sends m \<Longrightarrow> entitledAt now d db = Some True \<and> plan = Sends m" for now plan
    by (auto simp: whenEntitled_def split: option.splits bool.splits)
  from entitled [OF assms [unfolded attemptPlan_def]] have first: "entitledAt (neClock env 1) d db = Some True" by blast
  from entitled [OF assms [unfolded attemptPlan_def]] obtain q a c where
    q: "findFirst (\<lambda>q. orderRowId q = dlOrderId r) (tgOrders db) = Some q"
    and a: "findFirst (\<lambda>a. acId a = dlTelegramAccountId r) (tgAccounts db) = Some a"
    and c: "findFirst (\<lambda>c. chId c = dlTelegramChatAuthorizationId r) (tgChats db) = Some c"
    and own: "chAccountId c = dlTelegramAccountId r"
    and plan: "planPrepared (\<lambda>p. whenEntitled (neClock env 4) d db
        (Sends (orderMessage (chChatId c) (shownPresentation env a c db) p)))
      (fst (prepareOrderNotification (neTelegram env)
        \<lparr>rpMembershipId = None, rpAccountId = dlTelegramAccountId r,
         rpChatAuthorizationId = dlTelegramChatAuthorizationId r,
         rpTelegramUserId = acTelegramUserId a, rpTelegramChatId = chChatId c\<rparr>
        (dlTenantId r) (dlStoreId r) (wcOrderId q) db)) = Sends m"
    by (auto split: option.splits if_splits)
  from prepared [OF plan] obtain p where p: "fst (prepareOrderNotification (neTelegram env)
        \<lparr>rpMembershipId = None, rpAccountId = dlTelegramAccountId r,
         rpChatAuthorizationId = dlTelegramChatAuthorizationId r,
         rpTelegramUserId = acTelegramUserId a, rpTelegramChatId = chChatId c\<rparr>
        (dlTenantId r) (dlStoreId r) (wcOrderId q) db) = Inr (PreparedOk p)"
    and second: "entitledAt (neClock env 4) d db = Some True" using entitled by blast
  from prepared_justified [OF p] obtain cx s o2 where j: "s \<in> set (tgShops db)" "o2 \<in> set (tgOrders db)"
    "resolveContext db \<lparr>tiUserId = acTelegramUserId a, tiChatId = chChatId c\<rparr> = ContextOk cx"
    "cxAccountId cx = dlTelegramAccountId r" "cxTenantId cx = dlTenantId r" "cxStoreId cx = dlStoreId r"
    "shId s = dlStoreId r" "shTenantId s = dlTenantId r" "shStatus s = StoreActive" "shDeletedAt s = None"
    "OrderCreatedCategory \<in> set (shEnabledCategories s)" "recipientSelected db s (cxMembershipId cx)"
    "wcOrderId o2 = wcOrderId q" "orderTenantId o2 = dlTenantId r" "orderStoreId o2 = dlStoreId r"
    "remoteDeletedAt o2 = None"
    by (auto simp: recipientMatches_def policyWhere_def orderWhere_def)
  from findFirst_Some [OF a] findFirst_Some [OF c] findFirst_Some [OF q] show ?thesis
    unfolding orderJustified_def
    by (intro conjI first second bexI [of _ a] bexI [of _ c] exI [of _ cx] bexI [of _ s] bexI [of _ q] bexI [of _ o2])
      (simp_all add: j own)
qed

lemma replaceDelivery_twice: "dlId x = dlId y \<Longrightarrow> replaceDelivery x (replaceDelivery y rows) = replaceDelivery x rows"
  by (simp add: replaceDelivery_def)

lemma carriedOut_id: "dlId (fst (snd (carriedOut env d c plan))) = dlId c"
  by (simp add: carriedOut_def settledBy_def closedRow_def split: AttemptPlan.splits DeliveryResult.splits)

lemma plan_other_tables:
  fixes db db' :: OrderNotifyDb
  assumes "tgTenants db' = tgTenants db" "tgShops db' = tgShops db" "tgMemberships db' = tgMemberships db"
    "tgAccounts db' = tgAccounts db" "tgChats db' = tgChats db" "tgRecipients db' = tgRecipients db"
    "tgOrders db' = tgOrders db"
  shows "attemptPlan env d (claimedRow env r) db' = attemptPlan env d r db"
proof -
  note same = reads_other_tables [of db' db, OF assms]
  have w: "whenEntitled now d db' = whenEntitled now d db" for now
    by (intro ext) (simp only: whenEntitled_def same)
  have r: "dlOrderId (claimedRow env r) = dlOrderId r" "dlTelegramAccountId (claimedRow env r) = dlTelegramAccountId r"
    "dlTelegramChatAuthorizationId (claimedRow env r) = dlTelegramChatAuthorizationId r"
    "dlTenantId (claimedRow env r) = dlTenantId r" "dlStoreId (claimedRow env r) = dlStoreId r"
    by (simp_all add: claimedRow_def)
  show ?thesis by (simp only: attemptPlan_def w r same assms)
qed

text \<open>
  C20: one undisturbed attempt of the order worker on a delivery it can claim does what the preparation and the
  bot's answer determine, and nothing else. It fails and leaves the row in flight exactly when the tenant does
  not exist, a relation of the delivery is missing, or the preparation throws; it closes the row as terminal,
  with the category and code of the cause and without a message, when the entitlement is inactive before or
  after the preparation, the chat is not the account's, or the preparation refuses; otherwise it sends exactly
  one message, made from the prepared order, and the row, its failure columns and the result are those of the
  bot's answer. One attempt is counted, every other delivery stays as it is, and a message is only sent for an
  active tenant, an active recipient of the store, an enabled category and an order that is not deleted.
\<close>

theorem order_attempt_outcome:
  assumes quiet: "\<And>n db. neBetween env n db = db" and data: "validateOrderNotificationJobData v = Inr d"
    and rows: "distinct (map dlId (onDeliveries db))" "r \<in> set (onDeliveries db)" "claimableDelivery d r"
  shows "leaves (onDeliveries db) (orderNotificationProcess env v db)
      (carriedOut env d (claimedRow env r) (attemptPlan env d r db))
    \<and> (\<forall>m. attemptPlan env d r db = Sends m \<longrightarrow> orderJustified env d r db)"
proof -
  let ?t = "neClock env 0" and ?c = "claimedRow env r"
  have quiet': "neBetween env = (\<lambda>n db. db)" by (intro ext) (rule quiet)
  have c: "claimDelivery ?t r = ?c" by (simp add: claimDelivery_def claimedRow_def)
  have key: "claimableDelivery d s \<Longrightarrow> dlId s = dlId r" for s
    using rows(3) by (simp add: claimableDelivery_def jobWhere_def)
  define db1 where "db1 = db\<lparr>onDeliveries := replaceDelivery ?c (onDeliveries db)\<rparr>"
  have upd: "updateMany (claimableDelivery d) (claimDelivery ?t) (onDeliveries db)
      = (1, replaceDelivery ?c (onDeliveries db))"
  proof -
    have "updateMany (claimableDelivery d) (claimDelivery ?t) (onDeliveries db)
        = (1, map (\<lambda>s. if dlId s = dlId r then claimDelivery ?t r else s) (onDeliveries db))"
      by (rule updateMany_keyed [where k = dlId]) (use rows key in blast)+
    moreover have "dlId ?c = dlId r" by (simp add: claimedRow_def)
    ultimately show ?thesis by (simp add: replaceDelivery_def c)
  qed
  have claimed: "writeDeliveries (updateMany (claimableDelivery d) (claimDelivery ?t)) db = (1, db1)"
    by (simp add: writeDeliveries_def upd db1_def)
  have h: "heldClaim d ?t (onDeliveries db1) ?c"
    using claim_is_held(2) [of "onDeliveries db" r d ?t, OF rows] by (simp add: upd c db1_def)
  have plan: "attemptPlan env d ?c db1 = attemptPlan env d r db" by (rule plan_other_tables) (simp_all add: db1_def)
  have run: "orderNotificationProcess env v db = (case currentlyActive (neClock env 1) d db1 of
       Inl e \<Rightarrow> (Inl e, db1, [])
     | Inr active \<Rightarrow> if \<not> active
         then quietRun (orderPersistFailure d TERMINAL_FAILURE ''policy'' ''entitlement-inactive'' db1)
         else orderContext env d ?t db1)"
    unfolding orderNotificationProcess_def data sum.case Let_def quiet' claimed fst_conv snd_conv by simp
  have "leaves (onDeliveries db1) (orderNotificationProcess env v db)
      (carriedOut env d ?c (whenEntitled (neClock env 1) d db1 (attemptPlan env d ?c db1)))"
    unfolding run by (rule entitled_leaves [OF h]) (rule context_leaves [OF quiet' h])
  moreover have "whenEntitled (neClock env 1) d db1 (attemptPlan env d ?c db1) = attemptPlan env d ?c db1"
    by (auto simp: attemptPlan_def whenEntitled_def split: option.splits bool.splits)
  ultimately have "leaves (onDeliveries db1) (orderNotificationProcess env v db)
      (carriedOut env d ?c (attemptPlan env d r db))" by (simp add: plan)
  then have "leaves (onDeliveries db) (orderNotificationProcess env v db) (carriedOut env d ?c (attemptPlan env d r db))"
    by (simp add: leaves_def db1_def replaceDelivery_twice carriedOut_id)
  with sends_justified show ?thesis by blast
qed

section \<open>Scheduling\<close>

text \<open>
  \<open>seUuid n\<close> is the random id drawn for the \<open>n\<close>-th recipient, \<open>seQueueUp n\<close> tells whether the queue takes the
  job of the \<open>n\<close>-th recipient. The jobs handed to the queue are the third component of a run.
\<close>

record ScheduleEnv =
  seNow :: date
  seUuid :: "nat \<Rightarrow> string"
  seQueueUp :: "nat \<Rightarrow> bool"

type_synonym queuedJob = "DeliveryJobData \<times> string"

definition orderNotificationJobId :: "string \<Rightarrow> string" where
  "orderNotificationJobId deliveryId = ''telegram-order-notification-'' @ deliveryId"

definition deliveryKey :: "string \<Rightarrow> string \<Rightarrow> OrderDelivery \<Rightarrow> bool" where
  "deliveryKey orderId chatAuthorizationId r \<longleftrightarrow> dlOrderId r = orderId
     \<and> dlTelegramChatAuthorizationId r = chatAuthorizationId"

definition newOrderDelivery :: "string \<Rightarrow> date \<Rightarrow> ProjectableWebhookEvent \<Rightarrow> string \<Rightarrow> Recipient \<Rightarrow> OrderDelivery" where
  "newOrderDelivery uuid now event orderId rp =
     \<lparr>dlId = ''ton_'' @ uuid, dlTenantId = storeTenantId (eventStore event), dlStoreId = storeId (eventStore event),
      dlTelegramAccountId = rpAccountId rp, dlTelegramChatAuthorizationId = rpChatAuthorizationId rp,
      dlSourceWebhookEventId = eventId event, dlState = PENDING, dlAttemptCount = 0, dlLastAttemptAt = None,
      dlTelegramMessageId = None, dlFailureCategory = None, dlFailureCode = None, dlDeliveredAt = None,
      dlCreatedAt = now, dlOrderId = orderId\<rparr>"

definition upsertDelivery ::
  "string \<Rightarrow> date \<Rightarrow> ProjectableWebhookEvent \<Rightarrow> string \<Rightarrow> Recipient \<Rightarrow> OrderDelivery list \<Rightarrow> string \<times> OrderDelivery list" where
  "upsertDelivery uuid now event orderId rp rows =
     (case findFirst (deliveryKey orderId (rpChatAuthorizationId rp)) rows of
        Some r \<Rightarrow> (dlId r, rows)
      | None \<Rightarrow> let r = newOrderDelivery uuid now event orderId rp in (dlId r, rows @ [r]))"

fun scheduleRecipients ::
  "ScheduleEnv \<Rightarrow> ProjectableWebhookEvent \<Rightarrow> string \<Rightarrow> nat \<Rightarrow> Recipient list \<Rightarrow> OrderDelivery list
     \<Rightarrow> (WorkError + unit) \<times> OrderDelivery list \<times> queuedJob list" where
  "scheduleRecipients env event orderId n [] rows = (Inr (), rows, [])"
| "scheduleRecipients env event orderId n (rp # rps) rows =
     (case upsertDelivery (seUuid env n) (seNow env) event orderId rp rows of
        (i, rows') \<Rightarrow>
          if \<not> seQueueUp env n then (Inl (OtherWorkError ''Operations queue is not running''), rows', [])
          else case scheduleRecipients env event orderId (Suc n) rps rows' of
                 (res, rows'', jobs) \<Rightarrow>
                   (res, rows'',
                    (\<lparr>jdDeliveryId = i, jdTenantId = storeTenantId (eventStore event),
                      jdStoreId = storeId (eventStore event)\<rparr>, orderNotificationJobId i) # jobs))"

definition selectedRecipients :: "'x TelegramDb_scheme \<Rightarrow> ShopRow \<Rightarrow> Recipient list \<Rightarrow> Recipient list" where
  "selectedRecipients db s eligible =
     (if shRecipientMode s = ALL_ELIGIBLE then eligible
      else filter (\<lambda>rp. case rpMembershipId rp of
             Some m \<Rightarrow> m \<in> set (map rcMembershipId (filter (\<lambda>r. rcStoreId r = shId s) (tgRecipients db)))
           | None \<Rightarrow> False) eligible)"

definition settingsWhere :: "string \<Rightarrow> string \<Rightarrow> ShopRow \<Rightarrow> bool" where
  "settingsWhere tenant store s \<longleftrightarrow> shId s = store \<and> shTenantId s = tenant \<and> shDeletedAt s = None"

definition orderSchedule ::
  "ScheduleEnv \<Rightarrow> ProjectableWebhookEvent \<Rightarrow> OrderNotifyDb \<Rightarrow> (WorkError + unit) \<times> OrderNotifyDb \<times> queuedJob list" where
  "orderSchedule env event db =
     (let tenant = storeTenantId (eventStore event); store = storeId (eventStore event)
      in if eventTopic event \<noteq> ''order.created'' then (Inr (), db, [])
         else case isActive tenant (seNow env) (tgTenants db) of
                Inl e \<Rightarrow> (Inl (OtherWorkError (serviceMessage e)), db, [])
              | Inr active \<Rightarrow>
                  if \<not> active then (Inr (), db, [])
                  else (case findFirst (settingsWhere tenant store) (tgShops db) of
                          None \<Rightarrow> (Inr (), db, [])
                        | Some s \<Rightarrow>
                            if OrderCreatedCategory \<notin> set (shEnabledCategories s) then (Inr (), db, [])
                            else (case readWooCommerceOrderId (eventPayload event) of
                                    Inl e \<Rightarrow> (Inl (OtherWorkError (OrderMapper.code e)), db, [])
                                  | Inr wcId \<Rightarrow>
                                      (case findFirst (\<lambda>r. orderTenantId r = tenant \<and> orderStoreId r = store
                                                \<and> wcOrderId r = wcId) (tgOrders db) of
                                         None \<Rightarrow> (Inl (OtherWorkError ''Projected Order is unavailable for notification''), db, [])
                                       | Some r \<Rightarrow>
                                           (case scheduleRecipients env event (orderRowId r) 0
                                                  (selectedRecipients db s (eligibleNotificationRecipients db tenant store))
                                                  (onDeliveries db) of
                                              (res, rows, jobs) \<Rightarrow> (res, db\<lparr>onDeliveries := rows\<rparr>, jobs))))))"

lemma upsert_again:
  assumes "upsertDelivery u now ev o1 rp rows = (i, rows')" and "\<And>r. r \<in> set rows' \<Longrightarrow> r \<in> set later"
    and "inj_on (\<lambda>r. (dlOrderId r, dlTelegramChatAuthorizationId r)) (set later)"
  shows "upsertDelivery u2 now2 ev2 o1 rp later = (i, later)"
proof -
  from assms(1) obtain r where r: "r \<in> set rows'" "deliveryKey o1 (rpChatAuthorizationId rp) r" "dlId r = i"
  proof (cases "findFirst (deliveryKey o1 (rpChatAuthorizationId rp)) rows")
    case None
    with assms(1) that [of "newOrderDelivery u now ev o1 rp"] show thesis
      by (auto simp: upsertDelivery_def Let_def newOrderDelivery_def deliveryKey_def)
  next
    case (Some r)
    with findFirst_Some [OF Some] assms(1) that [of r] show thesis by (simp add: upsertDelivery_def)
  qed
  from r assms(2) have "r \<in> set later" by blast
  with r(2) have "findFirst (deliveryKey o1 (rpChatAuthorizationId rp)) later \<noteq> None"
    by (auto simp: row_simps)
  then obtain q where q: "findFirst (deliveryKey o1 (rpChatAuthorizationId rp)) later = Some q" by blast
  with findFirst_Some [OF q] \<open>r \<in> set later\<close> r(2) assms(3) have "q = r"
    by (auto simp: deliveryKey_def inj_on_def)
  with q r(3) show ?thesis by (simp add: upsertDelivery_def)
qed

definition deliveryPairs :: "OrderDelivery list \<Rightarrow> (string \<times> string) list" where
  "deliveryPairs rows = map (\<lambda>r. (dlOrderId r, dlTelegramChatAuthorizationId r)) rows"

lemma upsert_pairs:
  "upsertDelivery u now ev o1 rp rows = (i, rows') \<Longrightarrow> distinct (deliveryPairs rows) \<Longrightarrow>
     distinct (deliveryPairs rows') \<and> set rows \<subseteq> set rows'"
  by (fastforce simp: upsertDelivery_def Let_def newOrderDelivery_def deliveryPairs_def row_simps deliveryKey_def
      split: option.splits)

lemma schedule_pairs:
  "scheduleRecipients env ev o1 n rps rows = (res, rows', jobs) \<Longrightarrow> distinct (deliveryPairs rows) \<Longrightarrow>
     distinct (deliveryPairs rows') \<and> set rows \<subseteq> set rows'"
proof (induction rps arbitrary: n rows res rows' jobs)
  case (Cons rp rps)
  obtain i rows1 where up: "upsertDelivery (seUuid env n) (seNow env) ev o1 rp rows = (i, rows1)" by force
  from upsert_pairs [OF up Cons.prems(2)] have one: "distinct (deliveryPairs rows1)" "set rows \<subseteq> set rows1" by auto
  obtain res2 rows2 jobs2 where rest: "scheduleRecipients env ev o1 (Suc n) rps rows1 = (res2, rows2, jobs2)"
    by (metis prod_cases3)
  from Cons.IH [OF rest one(1)] one up rest Cons.prems(1) show ?case by (auto split: if_splits)
qed simp

lemma schedule_again:
  assumes "scheduleRecipients env ev o1 n rps rows = (Inr (), rows', jobs)" and "distinct (deliveryPairs rows)"
    and "\<And>r. r \<in> set rows' \<Longrightarrow> r \<in> set later" and "distinct (deliveryPairs later)" and "\<And>k. seQueueUp env2 k"
  shows "\<exists>jobs2. scheduleRecipients env2 ev2 o1 m rps later = (Inr (), later, jobs2)
    \<and> map (\<lambda>j. jdDeliveryId (fst j)) jobs2 = map (\<lambda>j. jdDeliveryId (fst j)) jobs"
  using assms(1,2,3)
proof (induction rps arbitrary: n m rows jobs)
  case (Cons rp rps)
  obtain i rows1 where up: "upsertDelivery (seUuid env n) (seNow env) ev o1 rp rows = (i, rows1)" by force
  from Cons.prems(1) up obtain jobs1 where
    rest: "scheduleRecipients env ev o1 (Suc n) rps rows1 = (Inr (), rows', jobs1)"
    and jobs: "map (\<lambda>j. jdDeliveryId (fst j)) jobs = i # map (\<lambda>j. jdDeliveryId (fst j)) jobs1"
    by (auto split: if_splits prod.splits)
  from upsert_pairs [OF up Cons.prems(2)] have d1: "distinct (deliveryPairs rows1)" by simp
  from schedule_pairs [OF rest d1] have "set rows1 \<subseteq> set rows'" by simp
  moreover have "inj_on (\<lambda>r. (dlOrderId r, dlTelegramChatAuthorizationId r)) (set later)"
    using assms(4) by (simp add: deliveryPairs_def distinct_map)
  ultimately have again: "upsertDelivery (seUuid env2 m) (seNow env2) ev2 o1 rp later = (i, later)"
    using upsert_again [OF up] Cons.prems(3) by blast
  from Cons.IH [OF rest d1 Cons.prems(3), of "Suc m"] again jobs assms(5) show ?case
    by (auto split: prod.splits)
qed simp

lemma deliveries_irrelevant [simp]:
  "tenantAlive (db\<lparr>onDeliveries := x\<rparr>) = tenantAlive db"
  "membershipWhere (db\<lparr>onDeliveries := x\<rparr>) = membershipWhere db"
  "activeShopWhere (db\<lparr>onDeliveries := x\<rparr>) = activeShopWhere db"
  "resolveMembership (db\<lparr>onDeliveries := x\<rparr>) = resolveMembership db"
  "resolveContext (db\<lparr>onDeliveries := x\<rparr>) = resolveContext db"
  "candidateAccount (db\<lparr>onDeliveries := x\<rparr>) = candidateAccount db"
  "eligibleNotificationRecipients (db\<lparr>onDeliveries := x\<rparr>) = eligibleNotificationRecipients db"
proof -
  show alive: "tenantAlive (db\<lparr>onDeliveries := x\<rparr>) = tenantAlive db"
    by (rule ext) (simp add: tenantAlive_def)
  show m: "membershipWhere (db\<lparr>onDeliveries := x\<rparr>) = membershipWhere db"
    by (intro ext) (simp add: membershipWhere_def alive)
  show s: "activeShopWhere (db\<lparr>onDeliveries := x\<rparr>) = activeShopWhere db"
    by (intro ext) (simp add: activeShopWhere_def alive)
  show r: "resolveMembership (db\<lparr>onDeliveries := x\<rparr>) = resolveMembership db"
    by (intro ext) (simp add: resolveMembership_def m s cong: list.case_cong)
  show cx: "resolveContext (db\<lparr>onDeliveries := x\<rparr>) = resolveContext db"
    by (intro ext) (simp add: resolveContext_def r cong: option.case_cong if_cong)
  show c: "candidateAccount (db\<lparr>onDeliveries := x\<rparr>) = candidateAccount db"
    by (intro ext) (simp add: candidateAccount_def alive)
  have "recipientOf (db\<lparr>onDeliveries := x\<rparr>) = recipientOf db" by (intro ext) (simp add: recipientOf_def cx)
  then show "eligibleNotificationRecipients (db\<lparr>onDeliveries := x\<rparr>) = eligibleNotificationRecipients db"
    by (intro ext) (simp add: eligibleNotificationRecipients_def candidates_def c)
qed

text \<open>
  C21: scheduling is idempotent: when the webhook of an order was scheduled completely, scheduling it again
  with the same settings, recipients and entitlement creates no delivery and hands the queue the jobs of the
  same deliveries, whatever deliveries were added in between, and no order and chat ever have two
  deliveries.
\<close>

theorem order_schedule_idempotent:
  assumes first: "orderSchedule env event db = (Inr (), db', jobs)" and unique: "distinct (deliveryPairs (onDeliveries db))"
    and later: "set (onDeliveries db') \<subseteq> set rows" "distinct (deliveryPairs rows)"
    and up: "\<And>k. seQueueUp env2 k" and now: "seNow env2 = seNow env"
  shows "distinct (deliveryPairs (onDeliveries db'))
    \<and> (\<exists>jobs2. orderSchedule env2 event (db'\<lparr>onDeliveries := rows\<rparr>) = (Inr (), db'\<lparr>onDeliveries := rows\<rparr>, jobs2)
        \<and> map (\<lambda>j. jdDeliveryId (fst j)) jobs2 = map (\<lambda>j. jdDeliveryId (fst j)) jobs)"
proof -
  let ?t = "storeTenantId (eventStore event)" and ?s = "storeId (eventStore event)"
  note same = deliveries_irrelevant
  have selected: "selectedRecipients (db\<lparr>onDeliveries := x\<rparr>) s e = selectedRecipients db s e" for x s e
    by (simp add: selectedRecipients_def cong: option.case_cong)
  show ?thesis
  proof (cases "onDeliveries db' = onDeliveries db \<and> jobs = [] \<and> db' = db
      \<and> orderSchedule env2 event (db\<lparr>onDeliveries := rows\<rparr>) = (Inr (), db\<lparr>onDeliveries := rows\<rparr>, [])")
    case True
    then show ?thesis using unique by auto
  next
    case False
    with first now obtain s wcId r where active: "isActive ?t (seNow env) (tgTenants db) = Inr True"
      and topic: "eventTopic event = ''order.created''"
      and s: "findFirst (settingsWhere ?t ?s) (tgShops db) = Some s" "OrderCreatedCategory \<in> set (shEnabledCategories s)"
      and w: "readWooCommerceOrderId (eventPayload event) = Inr wcId"
      and r: "findFirst (\<lambda>r. orderTenantId r = ?t \<and> orderStoreId r = ?s \<and> wcOrderId r = wcId) (tgOrders db) = Some r"
      by (auto simp: orderSchedule_def Let_def split: sum.splits if_splits option.splits prod.splits)
    let ?rps = "selectedRecipients db s (eligibleNotificationRecipients db ?t ?s)"
    obtain rows1 where run: "scheduleRecipients env event (orderRowId r) 0 ?rps (onDeliveries db) = (Inr (), rows1, jobs)"
      and db': "db' = db\<lparr>onDeliveries := rows1\<rparr>"
      using first active topic s w r by (auto simp: orderSchedule_def Let_def split: prod.splits)
    have "set rows1 \<subseteq> set rows" using later(1) db' by simp
    with schedule_again [OF run unique _ later(2) up] obtain jobs2 where
      "scheduleRecipients env2 event (orderRowId r) 0 ?rps rows = (Inr (), rows, jobs2)"
      "map (\<lambda>j. jdDeliveryId (fst j)) jobs2 = map (\<lambda>j. jdDeliveryId (fst j)) jobs" by blast
    moreover have "distinct (deliveryPairs rows1)" using schedule_pairs [OF run unique] by simp
    ultimately show ?thesis
      using active topic s w r now by (simp add: orderSchedule_def Let_def db' same selected)
  qed
qed

section \<open>Sample runs\<close>

definition sampleNotifiedOrder :: OrderRow where
  "sampleNotifiedOrder = \<lparr>wcOrderId = ''7'', orderNumber = ''1007'', status = ''processing'', currency = ''EUR'',
     totals = JObj [(''total'', JStr ''12.50'')], customerSnapshot = JObj [], lineItemsSnapshot = JArr [],
     paymentSnapshot = JObj [], shippingLinesSnapshot = JArr [], wcCreatedAt = 0, wcModifiedAt = 0,
     remoteDeletedAt = None, projectionFingerprint = [], orderRowId = ''ord_1'', orderTenantId = ''ten_1'',
     orderStoreId = ''sto_1'', lastSyncedAt = 0\<rparr>"

definition sampleOrderDb :: "OrderDelivery list \<Rightarrow> OrderNotifyDb" where
  "sampleOrderDb rows = TelegramDb.extend (sampleTelegram\<lparr>tgOrders := [sampleNotifiedOrder]\<rparr>) \<lparr>onDeliveries = rows\<rparr>"

definition sampleEvent :: ProjectableWebhookEvent where
  "sampleEvent = \<lparr>eventId = ''evt_1'', eventTopic = ''order.created'', eventPayload = JObj [(''id'', JNum (NInt 7))],
     eventReceivedAt = 0, eventStore = \<lparr>storeId = ''sto_1'', storeTenantId = ''ten_1''\<rparr>\<rparr>"

definition sampleSchedule :: ScheduleEnv where
  "sampleSchedule = \<lparr>seNow = 5, seUuid = (\<lambda>n. ''1''), seQueueUp = (\<lambda>n. True)\<rparr>"

definition sampleRecipient :: Recipient where
  "sampleRecipient = \<lparr>rpMembershipId = Some ''mem_1'', rpAccountId = ''tac_1'', rpChatAuthorizationId = ''tca_1'',
     rpTelegramUserId = 77, rpTelegramChatId = 77\<rparr>"

definition sampleDelivery :: OrderDelivery where
  "sampleDelivery = newOrderDelivery ''1'' 5 sampleEvent ''ord_1'' sampleRecipient"

definition sampleNotifyEnv :: OrderNotifyEnv where
  "sampleNotifyEnv = \<lparr>neClock = int, neBetween = (\<lambda>n db. db),
     neTelegram = \<lparr>teClock = int, teShortId = (\<lambda>n. ''AAAAAAAAAAAAAAAA''), teMac = (\<lambda>v. replicate 32 7),
       teReferenceTtlSeconds = 900, teFreshnessThresholdSeconds = 300\<rparr>,
     nePresentation = None, neReply = (\<lambda>m. okReply)\<rparr>"

definition sampleJobData :: json where
  "sampleJobData = JObj [(''deliveryId'', JStr ''ton_1''), (''tenantId'', JStr ''ten_1''), (''storeId'', JStr ''sto_1'')]"

lemma sampleJobData_valid: "validateOrderNotificationJobData sampleJobData = Inr sampleJob"
  by (simp add: validateOrderNotificationJobData_def sampleJobData_def identityField_def identityPattern_def
      field_def sampleJob_def eval_simps)

lemma sampleOrderDb_tables [simp]:
  "tgTenants (sampleOrderDb rows) = tgTenants sampleTelegram" "tgShops (sampleOrderDb rows) = tgShops sampleTelegram"
  "tgMemberships (sampleOrderDb rows) = tgMemberships sampleTelegram"
  "tgAccounts (sampleOrderDb rows) = tgAccounts sampleTelegram" "tgChats (sampleOrderDb rows) = tgChats sampleTelegram"
  "tgRecipients (sampleOrderDb rows) = []" "tgOrders (sampleOrderDb rows) = [sampleNotifiedOrder]"
  "onDeliveries (sampleOrderDb rows) = rows" "(sampleOrderDb rows)\<lparr>onDeliveries := rows'\<rparr> = sampleOrderDb rows'"
  by (simp_all add: sampleOrderDb_def TelegramDb.extend_def sampleTelegram_def)

lemma sample_eligible: "eligibleNotificationRecipients (sampleOrderDb rows) ''ten_1'' ''sto_1'' = [sampleRecipient]"
proof -
  have alive: "tenantAlive (sampleOrderDb rows) ''ten_1''" by (simp add: tenantAlive_def sampleTelegram_def)
  have cx: "resolveContext (sampleOrderDb rows) \<lparr>tiUserId = 77, tiChatId = 77\<rparr> = ContextOk sampleContext"
    by (simp add: resolveContext_def resolveMembership_def sampleTelegram_def sampleContext_def findFirst_def
        findMany_def membershipWhere_def activeShopWhere_def activeChat_def tenantAlive_def)
  have "candidates (sampleOrderDb rows) ''ten_1'' = [(hd (tgChats sampleTelegram), hd (tgAccounts sampleTelegram))]"
    by (simp add: candidates_def sampleTelegram_def) (simp add: candidateAccount_def alive, simp add: sampleTelegram_def)
  moreover have "chChatId (hd (tgChats sampleTelegram)) = 77" "acTelegramUserId (hd (tgAccounts sampleTelegram)) = 77"
    "chId (hd (tgChats sampleTelegram)) = ''tca_1''" "chAccountId (hd (tgChats sampleTelegram)) = ''tac_1''"
    by (simp_all add: sampleTelegram_def)
  ultimately show ?thesis
    by (simp add: eligibleNotificationRecipients_def recipientOf_def cx)
      (simp add: sampleContext_def sampleRecipient_def)
qed

theorem order_worker_refines_life_cycle_witness:
  "follows (onDeliveries (sampleOrderDb [sampleDelivery]))
     (onDeliveries (fst (snd (orderNotificationProcess sampleNotifyEnv sampleJobData (sampleOrderDb [sampleDelivery])))))"
  by (rule order_worker_refines_life_cycle [THEN conjunct1]) (simp add: sampleNotifyEnv_def)

lemma sample_plan:
  "\<exists>m. attemptPlan sampleNotifyEnv sampleJob sampleDelivery (sampleOrderDb [sampleDelivery]) = Sends m"
proof -
  have entitled: "entitledAt t sampleJob (sampleOrderDb [sampleDelivery]) = Some True" for t
    by (simp add: entitledAt_def sampleJob_def sampleTelegram_def tenantWhere_def findFirst_def activeAt_def)
  have alive: "tenantAlive (sampleOrderDb rows) ''ten_1''" "shopAlive (sampleOrderDb rows) ''sto_1''" for rows
    by (simp_all add: tenantAlive_def shopAlive_def sampleTelegram_def)
  have cx: "resolveContext (sampleOrderDb rows) \<lparr>tiUserId = 77, tiChatId = 77\<rparr> = ContextOk sampleContext" for rows
    by (simp add: resolveContext_def resolveMembership_def sampleTelegram_def sampleContext_def findFirst_def
        findMany_def membershipWhere_def activeShopWhere_def activeChat_def tenantAlive_def)
  have row: "dlOrderId sampleDelivery = ''ord_1''" "dlTelegramAccountId sampleDelivery = ''tac_1''"
    "dlTelegramChatAuthorizationId sampleDelivery = ''tca_1''" "dlTenantId sampleDelivery = ''ten_1''"
    "dlStoreId sampleDelivery = ''sto_1''"
    by (simp_all add: sampleDelivery_def newOrderDelivery_def sampleEvent_def sampleRecipient_def)
  have active: "assertActive ''ten_1'' 0 (tgTenants sampleTelegram) \<noteq> Inl e" for e
    by (simp add: assertActive_def resolveTenant_def andThen_def sampleTelegram_def tenantWhere_def findFirst_def
        rowSummary_def toSummary_def effectiveTenantEntitlementState_def)
  then obtain su where active': "assertActive ''ten_1'' 0 (tgTenants sampleTelegram) = Inr su"
    by (cases "assertActive ''ten_1'' 0 (tgTenants sampleTelegram)") auto
  let ?shop = "hd (tgShops sampleTelegram)"
  have shop: "tgShops sampleTelegram = [?shop]" "shId ?shop = ''sto_1''" "shTenantId ?shop = ''ten_1''" "shDeletedAt ?shop = None"
    "shStatus ?shop = StoreActive" "OrderCreatedCategory \<in> set (shEnabledCategories ?shop)" "shRecipientMode ?shop = ALL_ELIGIBLE"
    by (simp_all add: sampleTelegram_def)
  have policy: "findFirst (policyWhere (sampleOrderDb rows) ''ten_1'' ''sto_1'') (tgShops sampleTelegram) = Some ?shop" for rows
    by (subst shop(1)) (simp add: policyWhere_def shop(2-7) alive)
  have order: "orderWhere (sampleOrderDb rows) ''ten_1'' ''sto_1'' ''7'' sampleNotifiedOrder"
    "remoteDeletedAt sampleNotifiedOrder = None" "wcOrderId sampleNotifiedOrder = ''7''" "orderRowId sampleNotifiedOrder = ''ord_1''" for rows
    by (simp_all add: orderWhere_def alive) (simp_all add: sampleNotifiedOrder_def)
  have context_row: "cxAccountId sampleContext = ''tac_1''" "cxTenantId sampleContext = ''ten_1''" "cxStoreId sampleContext = ''sto_1''"
    by (simp_all add: sampleContext_def)
  have prepared: "\<exists>p. fst (prepareOrderNotification (neTelegram sampleNotifyEnv)
      \<lparr>rpMembershipId = None, rpAccountId = ''tac_1'', rpChatAuthorizationId = ''tca_1'', rpTelegramUserId = 77, rpTelegramChatId = 77\<rparr>
      ''ten_1'' ''sto_1'' ''7'' (sampleOrderDb [sampleDelivery])) = Inr (PreparedOk p)"
    by (simp add: prepareOrderNotification_def cx recipientMatches_def context_row sampleNotifyEnv_def active' policy shop(6)
        recipientSelected_def shop(7) order prepareForOrder_def Let_def)
  have reads: "findFirst (\<lambda>a. acId a = ''tac_1'') (tgAccounts sampleTelegram) = Some (hd (tgAccounts sampleTelegram))"
    "findFirst (\<lambda>c. chId c = ''tca_1'') (tgChats sampleTelegram) = Some (hd (tgChats sampleTelegram))"
    "acTelegramUserId (hd (tgAccounts sampleTelegram)) = 77" "chChatId (hd (tgChats sampleTelegram)) = 77"
    "chAccountId (hd (tgChats sampleTelegram)) = ''tac_1''"
    by (simp_all add: sampleTelegram_def findFirst_def)
  from prepared show ?thesis
    by (auto simp: attemptPlan_def row reads order whenEntitled_def entitled planPrepared_def)
qed

theorem order_attempt_outcome_witness:
  "\<exists>m db'. orderNotificationProcess sampleNotifyEnv sampleJobData (sampleOrderDb [sampleDelivery])
      = (Inr (sampleJob, Delivered), db', [m])
     \<and> map dlState (onDeliveries db') = [DELIVERED] \<and> map dlAttemptCount (onDeliveries db') = [1]"
proof -
  have c: "claimableDelivery sampleJob sampleDelivery" and n: "dlAttemptCount sampleDelivery = 0"
    by (simp_all add: claimableDelivery_def jobWhere_def sampleJob_def sampleDelivery_def newOrderDelivery_def sampleEvent_def)
  obtain m where m: "attemptPlan sampleNotifyEnv sampleJob sampleDelivery (sampleOrderDb [sampleDelivery]) = Sends m"
    using sample_plan by blast
  have "leaves (onDeliveries (sampleOrderDb [sampleDelivery]))
      (orderNotificationProcess sampleNotifyEnv sampleJobData (sampleOrderDb [sampleDelivery]))
      (carriedOut sampleNotifyEnv sampleJob (claimedRow sampleNotifyEnv sampleDelivery) (Sends m))"
    unfolding m [symmetric]
    by (rule order_attempt_outcome [OF _ sampleJobData_valid _ _ c, THEN conjunct1]) (simp_all add: sampleNotifyEnv_def)
  moreover have "neReply sampleNotifyEnv m = okReply" by (simp add: sampleNotifyEnv_def)
  moreover have "\<exists>i. sendMessage okReply = DeliveredAs i" using sample_replies(2) by blast
  ultimately show ?thesis
    by (auto simp: leaves_def carriedOut_def settledBy_def replaceDelivery_def claimedRow_def n)
qed

theorem order_schedule_idempotent_witness:
  "\<exists>jobs2. orderSchedule sampleSchedule sampleEvent (sampleOrderDb [sampleDelivery])
     = (Inr (), sampleOrderDb [sampleDelivery], jobs2)"
proof -
  have active: "isActive ''ten_1'' 5 (tgTenants sampleTelegram) = Inr True"
    by (simp add: isActive_def resolveTenant_def tenantWhere_def rowSummary_def toSummary_def findFirst_def
        effectiveTenantEntitlementState_def sampleTelegram_def)
  have shop: "findFirst (settingsWhere ''ten_1'' ''sto_1'') (tgShops sampleTelegram) = Some (hd (tgShops sampleTelegram))"
    "shEnabledCategories (hd (tgShops sampleTelegram)) = [OrderCreatedCategory]"
    "shRecipientMode (hd (tgShops sampleTelegram)) = ALL_ELIGIBLE"
    by (simp_all add: settingsWhere_def findFirst_def sampleTelegram_def)
  have order: "readWooCommerceOrderId (JObj [(''id'', JNum (NInt 7))]) = Inr ''7''"
    by (simp add: readWooCommerceOrderId_def requireRecord_def normalizeWcId_def wcIdPattern_def field_def eval_simps)
  have run: "orderSchedule sampleSchedule sampleEvent (sampleOrderDb []) =
      (Inr (), sampleOrderDb [sampleDelivery], [(sampleJob, ''telegram-order-notification-ton_1'')])"
    using sample_eligible [of "[]"] active shop order
    by (simp add: orderSchedule_def sampleSchedule_def sampleEvent_def selectedRecipients_def upsertDelivery_def
        findFirst_def sampleNotifiedOrder_def orderNotificationJobId_def sampleDelivery_def newOrderDelivery_def
        sampleRecipient_def sampleJob_def Let_def)
  from order_schedule_idempotent [OF run, of "[sampleDelivery]" sampleSchedule] show ?thesis
    by (auto simp: deliveryPairs_def sampleSchedule_def)
qed

end
