(* ===== verification/StockBrowsing.thy ===== *)
theory StockBrowsing
  imports InventoryBootstrap OrderNotifications "HOL-Library.Product_Lexorder"
begin

text \<open>
  Items of a shop in a chat (\<open>backend/src/inventory/telegram-inventory.service.ts\<close>): the list of the items
  that run low, one item of the list, one item by its id, and the preparation of an alert. The tables are
  those of the order service together with the items, the references of this service and the jobs of the
  catalogue scan, which the list starts when it has not run yet.
\<close>

section \<open>Tables and contexts\<close>

datatype StockReferencePurpose = STOCK_PAGE | STOCK_ITEM

record StockReference =
  srId :: string
  srAccountId :: string
  srChatId :: int
  srTenantId :: string
  srStoreId :: string
  srPurpose :: StockReferencePurpose
  srPageOffset :: "int option"
  srItemId :: "string option"
  srBackReferenceId :: "string option"
  srExpiresAt :: date

record StockDb = TelegramDb +
  skItems :: "ItemRow list"
  skReferences :: "StockReference list"
  skJobs :: "(BootstrapJobData \<times> string) list"

text \<open>\<open>skCollation s\<close> is the sort key the database's collation gives a text.\<close>

record StockEnv = TelegramEnv +
  skBoot :: BootEnv
  skCollation :: "string \<Rightarrow> string"

record InventoryContext =
  ixAccountId :: string
  ixMembershipId :: string
  ixChatId :: int
  ixTenantId :: string
  ixStoreId :: string

datatype StockResolution = StockContext InventoryContext | StockNoActiveStore | StockUnauthorized

definition stockMembership :: "'x TelegramDb_scheme \<Rightarrow> AccountRow \<Rightarrow> int \<Rightarrow> StockResolution" where
  "stockMembership db a chat =
     (case take 2 (findMany (membershipWhere db (acUserId a)) (tgMemberships db)) of
        [] \<Rightarrow> StockUnauthorized
      | [m] \<Rightarrow>
          (case take 2 (findMany (activeShopWhere db (mbTenantId m)) (tgShops db)) of
             [s] \<Rightarrow> StockContext \<lparr>ixAccountId = acId a, ixMembershipId = mbId m, ixChatId = chat,
                      ixTenantId = mbTenantId m, ixStoreId = shId s\<rparr>
           | _ \<Rightarrow> StockNoActiveStore)
      | _ \<Rightarrow> StockNoActiveStore)"

definition stockContext :: "'x TelegramDb_scheme \<Rightarrow> TelegramIdentity \<Rightarrow> StockResolution" where
  "stockContext db identity =
     (case findFirst (\<lambda>a. acTelegramUserId a = tiUserId identity) (tgAccounts db) of
        None \<Rightarrow> StockUnauthorized
      | Some a \<Rightarrow>
          if acDeletedAt a \<noteq> None
             \<or> length (findMany (\<lambda>c. activeChat a (tiChatId identity) c \<and> chType c = PRIVATE) (tgChats db)) \<noteq> 1
          then StockUnauthorized else stockMembership db a (tiChatId identity))"

text \<open>The service keeps its own copy of the resolution of the order service; both give the same context.\<close>

definition inventoryContext :: "TelegramOrderContext \<Rightarrow> InventoryContext" where
  "inventoryContext cx = \<lparr>ixAccountId = cxAccountId cx, ixMembershipId = cxMembershipId cx, ixChatId = cxChatId cx,
     ixTenantId = cxTenantId cx, ixStoreId = cxStoreId cx\<rparr>"

definition stockResolution :: "ContextResolution \<Rightarrow> StockResolution" where
  "stockResolution r =
     (case r of ContextOk cx \<Rightarrow> StockContext (inventoryContext cx) | NoActiveStore \<Rightarrow> StockNoActiveStore
      | Unauthorized \<Rightarrow> StockUnauthorized)"

lemma stockContext_resolves: "stockContext db identity = stockResolution (resolveContext db identity)"
proof -
  have priv: "(\<lambda>c. activeChat a chat c \<and> chType c = PRIVATE) = activeChat a chat" for a chat
    using TelegramChatType.exhaust by (intro ext) auto
  have m: "stockMembership db a chat = stockResolution (resolveMembership db a chat)" for a chat
    by (auto simp: stockMembership_def resolveMembership_def stockResolution_def inventoryContext_def split: list.splits)
  show ?thesis
    by (simp add: stockContext_def resolveContext_def m priv split: option.split) (simp add: stockResolution_def)
qed

section \<open>References\<close>

definition STOCK_PAGE_SIZE :: nat where
  "STOCK_PAGE_SIZE = 8"

definition MAX_REACHABLE :: int where
  "MAX_REACHABLE = 200"

definition stockReference :: "InventoryContext \<Rightarrow> StockReferencePurpose \<Rightarrow> string \<Rightarrow> date \<Rightarrow> StockReference" where
  "stockReference cx purpose shortId expiresAt =
     \<lparr>srId = ''tir_'' @ shortId, srAccountId = ixAccountId cx, srChatId = ixChatId cx, srTenantId = ixTenantId cx,
      srStoreId = ixStoreId cx, srPurpose = purpose, srPageOffset = None, srItemId = None, srBackReferenceId = None,
      srExpiresAt = expiresAt\<rparr>"

definition stockPageReference :: "InventoryContext \<Rightarrow> int \<Rightarrow> string \<Rightarrow> date \<Rightarrow> StockReference" where
  "stockPageReference cx offset shortId expiresAt =
     (stockReference cx STOCK_PAGE shortId expiresAt)\<lparr>srPageOffset := Some offset\<rparr>"

definition stockItemReference :: "InventoryContext \<Rightarrow> string \<Rightarrow> string \<Rightarrow> string \<Rightarrow> date \<Rightarrow> StockReference" where
  "stockItemReference cx item back shortId expiresAt =
     (stockReference cx STOCK_ITEM shortId expiresAt)\<lparr>srItemId := Some item, srBackReferenceId := Some back\<rparr>"

definition stockToken :: "(string \<Rightarrow> nat list) \<Rightarrow> char \<Rightarrow> string \<Rightarrow> string" where
  "stockToken = issueToken ''tir_''"

definition parseStockToken :: "(string \<Rightarrow> nat list) \<Rightarrow> string \<Rightarrow> char \<Rightarrow> string option" where
  "parseStockToken = verifyToken ''tir_''"

interpretation stock_tokens: token_codec "stockToken mac" "\<lambda>t p. parseStockToken mac t p" "''tir_''"
  "\<lambda>p. goodMac mac \<and> p \<noteq> CHR ''.''"
  unfolding stockToken_def parseStockToken_def
  by unfold_locales (blast intro: verify_issue, rule verify_only)

definition stockReferenceMatches :: "StockReference \<Rightarrow> InventoryContext \<Rightarrow> bool" where
  "stockReferenceMatches r cx \<longleftrightarrow> srAccountId r = ixAccountId cx \<and> srChatId r = ixChatId cx
     \<and> srTenantId r = ixTenantId cx \<and> srStoreId r = ixStoreId cx"

definition validateStockReference ::
  "StockEnv \<Rightarrow> date \<Rightarrow> 'x StockDb_scheme \<Rightarrow> string \<Rightarrow> char \<Rightarrow> StockReferencePurpose \<Rightarrow> InventoryContext
     \<Rightarrow> StockReference option" where
  "validateStockReference env now db token p purpose cx =
     (case parseStockToken (teMac env) token p of
        None \<Rightarrow> None
      | Some i \<Rightarrow>
          (case findFirst (\<lambda>r. srId r = i) (skReferences db) of
             None \<Rightarrow> None
           | Some r \<Rightarrow>
               if srExpiresAt r \<le> now \<or> srPurpose r \<noteq> purpose \<or> \<not> stockReferenceMatches r cx then None
               else Some r))"

definition stockExpiry :: "StockEnv \<Rightarrow> date \<Rightarrow> date" where
  "stockExpiry env now = now + teReferenceTtlSeconds env * 1000"

definition addStockReferences :: "StockReference list \<Rightarrow> 'x StockDb_scheme \<Rightarrow> 'x StockDb_scheme" where
  "addStockReferences rs db = db\<lparr>skReferences := skReferences db @ rs\<rparr>"

section \<open>Items\<close>

record StockSummary =
  ssRef :: string
  ssDisplayName :: string
  ssSku :: "string option"
  ssQuantity :: "string option"
  ssStockStatus :: string
  ssClassification :: InventoryAlertClassification
  ssKind :: InventoryItemKind

text \<open>
  A quantity is stored as it was mapped, with at most six decimal places, which is what the column keeps:
  the text of the decimal that is read is the text that was stored.
\<close>

definition toStockSummary :: "ItemRow \<Rightarrow> string \<Rightarrow> StockSummary" where
  "toStockSummary r ref =
     \<lparr>ssRef = ref, ssDisplayName = rowName r, ssSku = rowSku r, ssQuantity = rowQuantity r,
      ssStockStatus = rowStockStatus r, ssClassification = alertClassification r, ssKind = rowKind r\<rparr>"

record StockDetail =
  sdSummary :: StockSummary
  sdVariationContext :: "(string \<times> string) list"
  sdThreshold :: "int option"
  sdLastSyncedAt :: string

definition storeThreshold :: "'x TelegramDb_scheme \<Rightarrow> string \<Rightarrow> int option" where
  "storeThreshold db store = Option.bind (findFirst (\<lambda>s. shId s = store) (tgShops db)) shLowStockThreshold"

text \<open>The detail repeats the members of the summary but the reference, which is the empty text here.\<close>

definition toStockDetail :: "'x TelegramDb_scheme \<Rightarrow> ItemRow \<Rightarrow> StockDetail" where
  "toStockDetail db r =
     \<lparr>sdSummary = toStockSummary r [], sdVariationContext = rowContext r,
      sdThreshold = storeThreshold db (itemStoreId r), sdLastSyncedAt = toISOString (rowSyncedAt r)\<rparr>"

definition liveItem :: "InventoryContext \<Rightarrow> ItemRow \<Rightarrow> bool" where
  "liveItem cx r \<longleftrightarrow> itemTenantId r = ixTenantId cx \<and> itemStoreId r = ixStoreId cx \<and> rowDeletedAt r = None"

definition lowItem :: "InventoryContext \<Rightarrow> ItemRow \<Rightarrow> bool" where
  "lowItem cx r \<longleftrightarrow> liveItem cx r \<and> alertClassification r \<in> {OUT_OF_STOCK, LOW_STOCK}"

text \<open>The enumeration orders as it is declared: out of stock first. An absent quantity comes last.\<close>

definition classRank :: "InventoryAlertClassification \<Rightarrow> nat" where
  "classRank c = (case c of OUT_OF_STOCK \<Rightarrow> 0 | LOW_STOCK \<Rightarrow> 1 | HEALTHY \<Rightarrow> 2)"

definition quantityMillionths :: "string \<Rightarrow> int" where
  "quantityMillionths q =
     (case decimalNumber q of NInt i \<Rightarrow> i * 10 ^ 6 | NDec m e \<Rightarrow> m * 10 ^ (6 - e) | NInf b \<Rightarrow> 0)"

definition quantityRank :: "string option \<Rightarrow> nat \<times> int" where
  "quantityRank q = (case q of Some t \<Rightarrow> (0, quantityMillionths t) | None \<Rightarrow> (1, 0))"

definition stockSortKey :: "(string \<Rightarrow> string) \<Rightarrow> ItemRow \<Rightarrow> nat \<times> (nat \<times> int) \<times> string \<times> string" where
  "stockSortKey collation r =
     (classRank (alertClassification r), quantityRank (rowQuantity r), collation (rowName r), collation (rowWcItemId r))"

definition lowItems :: "StockEnv \<Rightarrow> 'x StockDb_scheme \<Rightarrow> InventoryContext \<Rightarrow> ItemRow list" where
  "lowItems env db cx = sort_key (stockSortKey (skCollation env)) (findMany (lowItem cx) (skItems db))"

section \<open>The list\<close>

datatype StockListState = StockListOk | StockListSyncing | StockListSyncFailed | StockListNoActiveStore
  | StockListUnauthorized | StockListContextChanged

record StockList =
  slState :: StockListState
  slItems :: "StockSummary list"
  slNext :: "string option"
  slPrevious :: "string option"
  slThreshold :: "int option"

definition emptyStockList :: "StockListState \<Rightarrow> int option \<Rightarrow> StockList" where
  "emptyStockList st threshold =
     \<lparr>slState = st, slItems = [], slNext = None, slPrevious = None, slThreshold = threshold\<rparr>"

datatype StockError = StockService ServiceError | StockBootstrap BootError

definition loadStockStore :: "'x TelegramDb_scheme \<Rightarrow> InventoryContext \<Rightarrow> ShopRow option" where
  "loadStockStore db cx = findFirst (policyWhere db (ixTenantId cx) (ixStoreId cx)) (tgShops db)"

text \<open>\<open>ensureInitialized\<close> of the scheduler works on the same tables.\<close>

definition bootView :: "'x StockDb_scheme \<Rightarrow> BootDb" where
  "bootView db = \<lparr>btTenants = tgTenants db, btShops = tgShops db, btItems = skItems db, btJobs = skJobs db\<rparr>"

definition withBoot :: "BootDb \<Rightarrow> 'x StockDb_scheme \<Rightarrow> 'x StockDb_scheme" where
  "withBoot b db = db\<lparr>tgTenants := btTenants b, tgShops := btShops b, skItems := btItems b, skJobs := btJobs b\<rparr>"

definition initializeStock ::
  "StockEnv \<Rightarrow> InventoryContext \<Rightarrow> 'x StockDb_scheme \<Rightarrow> (BootError + InitOutcome) \<times> 'x StockDb_scheme" where
  "initializeStock env cx db =
     map_prod id (\<lambda>b. withBoot b db) (ensureInitialized (skBoot env) (ixTenantId cx) (ixStoreId cx) (bootView db))"

definition stockPrevious :: "InventoryContext \<Rightarrow> int \<Rightarrow> string \<Rightarrow> date \<Rightarrow> StockReference option" where
  "stockPrevious cx offset shortId expiresAt =
     (if 0 < offset then Some (stockPageReference cx (max 0 (offset - int STOCK_PAGE_SIZE)) shortId expiresAt) else None)"

definition stockNext :: "InventoryContext \<Rightarrow> int \<Rightarrow> nat \<Rightarrow> string \<Rightarrow> date \<Rightarrow> StockReference option" where
  "stockNext cx offset fetched shortId expiresAt =
     (if STOCK_PAGE_SIZE < fetched \<and> offset + int STOCK_PAGE_SIZE < MAX_REACHABLE
      then Some (stockPageReference cx (offset + int STOCK_PAGE_SIZE) shortId expiresAt) else None)"

definition stockRecords :: "StockEnv \<Rightarrow> 'x StockDb_scheme \<Rightarrow> InventoryContext \<Rightarrow> int \<Rightarrow> ItemRow list" where
  "stockRecords env db cx offset = take (STOCK_PAGE_SIZE + 1) (drop (nat offset) (lowItems env db cx))"

text \<open>
  The page at an offset. Random ids are drawn for the page itself, its items, the previous and the next page;
  the id of a button that is not shown is not drawn, so the next page takes the following one.
\<close>

definition stockPage ::
  "StockEnv \<Rightarrow> InventoryContext \<Rightarrow> int \<Rightarrow> int option \<Rightarrow> 'x StockDb_scheme \<Rightarrow> StockList \<times> 'x StockDb_scheme" where
  "stockPage env cx offset threshold db =
     (let records = stockRecords env db cx offset;
          page = take STOCK_PAGE_SIZE records;
          n = length page;
          expiresAt = stockExpiry env (teClock env 2);
          current = stockPageReference cx offset (teShortId env 0) expiresAt;
          details = map (\<lambda>(r, k). stockItemReference cx (itemRowId r) (srId current) (teShortId env (Suc k)) expiresAt)
            (zip page [0..<n]);
          prev = stockPrevious cx offset (teShortId env (n + 1)) expiresAt;
          nxt = stockNext cx offset (length records) (teShortId env (n + (if prev = None then 1 else 2))) expiresAt
      in (\<lparr>slState = StockListOk,
           slItems = map (\<lambda>(r, d). toStockSummary r (stockToken (teMac env) (CHR ''v'') (srId d))) (zip page details),
           slNext = map_option (\<lambda>r. stockToken (teMac env) (CHR ''k'') (srId r)) nxt,
           slPrevious = map_option (\<lambda>r. stockToken (teMac env) (CHR ''k'') (srId r)) prev,
           slThreshold = threshold\<rparr>,
          addStockReferences (current # details @ (case prev of Some r \<Rightarrow> [r] | None \<Rightarrow> [])
            @ (case nxt of Some r \<Rightarrow> [r] | None \<Rightarrow> [])) db))"

definition unreadyState :: "InitOutcome \<Rightarrow> StockListState option" where
  "unreadyState i =
     (if ioPrevious i = SyncFailed \<or> ioEnqueueFailed i then Some StockListSyncFailed
      else if ioState i \<noteq> READY
      then Some (if ioState i = SyncFailed then StockListSyncFailed else StockListSyncing)
      else None)"

definition stockListAt ::
  "StockEnv \<Rightarrow> InventoryContext \<Rightarrow> int \<Rightarrow> 'x StockDb_scheme \<Rightarrow> (StockError + StockList) \<times> 'x StockDb_scheme" where
  "stockListAt env cx offset db =
     (case assertActive (ixTenantId cx) (teClock env 1) (tgTenants db) of
        Inl e \<Rightarrow> (Inl (StockService e), db)
      | Inr _ \<Rightarrow>
          (case loadStockStore db cx of
             None \<Rightarrow> (Inr (emptyStockList StockListNoActiveStore None), db)
           | Some s \<Rightarrow>
               (case initializeStock env cx db of
                  (Inl e, db') \<Rightarrow> (Inl (StockBootstrap e), db')
                | (Inr i, db') \<Rightarrow>
                    (case unreadyState i of
                       Some st \<Rightarrow> (Inr (emptyStockList st (shLowStockThreshold s)), db')
                     | None \<Rightarrow> map_prod Inr id (stockPage env cx offset (shLowStockThreshold s) db')))))"

text \<open>An empty cursor is an absent one.\<close>

definition stockOffset ::
  "StockEnv \<Rightarrow> 'x StockDb_scheme \<Rightarrow> string option \<Rightarrow> InventoryContext \<Rightarrow> int option" where
  "stockOffset env db cursor cx =
     (case cursor of
        None \<Rightarrow> Some 0
      | Some t \<Rightarrow>
          if t = [] then Some 0
          else Option.bind (validateStockReference env (teClock env 0) db t (CHR ''k'') STOCK_PAGE cx) srPageOffset)"

definition unresolvedList :: "StockResolution \<Rightarrow> StockListState" where
  "unresolvedList r = (case r of StockNoActiveStore \<Rightarrow> StockListNoActiveStore | _ \<Rightarrow> StockListUnauthorized)"

definition stockList ::
  "StockEnv \<Rightarrow> TelegramIdentity \<Rightarrow> string option \<Rightarrow> 'x StockDb_scheme \<Rightarrow> (StockError + StockList) \<times> 'x StockDb_scheme" where
  "stockList env identity cursor db =
     (case stockContext db identity of
        StockContext cx \<Rightarrow>
          (case stockOffset env db cursor cx of
             None \<Rightarrow> (Inr (emptyStockList StockListContextChanged None), db)
           | Some offset \<Rightarrow> stockListAt env cx offset db)
      | r \<Rightarrow> (Inr (emptyStockList (unresolvedList r) None), db))"

section \<open>One item\<close>

datatype StockDetailResult =
    StockNotFound | StockDetailNoStore | StockDetailUnauthorized | StockDetailChanged | StockDetailSyncing
  | StockDetailOk StockDetail "string option"

definition unresolvedStockDetail :: "StockResolution \<Rightarrow> StockDetailResult" where
  "unresolvedStockDetail r = (case r of StockNoActiveStore \<Rightarrow> StockDetailNoStore | _ \<Rightarrow> StockDetailUnauthorized)"

definition stockTarget :: "StockReference option \<Rightarrow> (string \<times> string) option" where
  "stockTarget ref =
     (case ref of
        None \<Rightarrow> None
      | Some r \<Rightarrow>
          (case (srItemId r, srBackReferenceId r) of
             (Some i, Some b) \<Rightarrow> if i = [] \<or> b = [] then None else Some (i, b)
           | _ \<Rightarrow> None))"

definition backPageWhere :: "InventoryContext \<Rightarrow> string \<Rightarrow> date \<Rightarrow> StockReference \<Rightarrow> bool" where
  "backPageWhere cx back now r \<longleftrightarrow> srId r = back \<and> stockReferenceMatches r cx \<and> srPurpose r = STOCK_PAGE
     \<and> now < srExpiresAt r"

definition stockDetail ::
  "StockEnv \<Rightarrow> TelegramIdentity \<Rightarrow> string \<Rightarrow> 'x StockDb_scheme \<Rightarrow> ServiceError + StockDetailResult" where
  "stockDetail env identity token db =
     (case stockContext db identity of
        StockContext cx \<Rightarrow>
          (case stockTarget (validateStockReference env (teClock env 0) db token (CHR ''v'') STOCK_ITEM cx) of
             None \<Rightarrow> Inr StockDetailChanged
           | Some (item, back) \<Rightarrow>
               (case findFirst (backPageWhere cx back (teClock env 1)) (skReferences db) of
                  None \<Rightarrow> Inr StockDetailChanged
                | Some b \<Rightarrow>
                    andThen (assertActive (ixTenantId cx) (teClock env 2) (tgTenants db)) (\<lambda>_.
                    Inr (case findFirst (\<lambda>r. itemRowId r = item \<and> lowItem cx r) (skItems db) of
                           None \<Rightarrow> StockNotFound
                         | Some r \<Rightarrow> StockDetailOk (toStockDetail db r) (Some (stockToken (teMac env) (CHR ''k'') (srId b)))))))
      | r \<Rightarrow> Inr (unresolvedStockDetail r))"

definition openProjectedStock ::
  "StockEnv \<Rightarrow> TelegramIdentity \<Rightarrow> string \<Rightarrow> 'x StockDb_scheme \<Rightarrow> ServiceError + StockDetailResult" where
  "openProjectedStock env identity item db =
     (case stockContext db identity of
        StockContext cx \<Rightarrow>
          andThen (assertActive (ixTenantId cx) (teClock env 0) (tgTenants db)) (\<lambda>_.
          Inr (case loadStockStore db cx of
                 None \<Rightarrow> StockDetailNoStore
               | Some s \<Rightarrow>
                   if shSyncState s \<noteq> READY then StockDetailSyncing
                   else (case findFirst (\<lambda>r. itemRowId r = item \<and> liveItem cx r) (skItems db) of
                           None \<Rightarrow> StockNotFound
                         | Some r \<Rightarrow> StockDetailOk (toStockDetail db r) None)))
      | r \<Rightarrow> Inr (unresolvedStockDetail r))"

section \<open>Preparing an alert\<close>

record PreparedAlert =
  paDisplayName :: string
  paSku :: "string option"
  paQuantity :: "string option"
  paStockStatus :: string
  paLevel :: InventoryAlertLevel
  paThreshold :: "int option"
  paViewStockRef :: string

datatype PreparedStock =
  StockPrepUnauthorized | StockPrepNotFound | StockPrepDisabled | StockPrepStale | StockPrepOk PreparedAlert

definition alertClass :: "InventoryAlertLevel \<Rightarrow> InventoryAlertClassification" where
  "alertClass level = (case level of OUT_ALERT \<Rightarrow> OUT_OF_STOCK | LOW_ALERT \<Rightarrow> LOW_STOCK)"

definition stockRecipientMatches :: "Recipient \<Rightarrow> string \<Rightarrow> string \<Rightarrow> InventoryContext \<Rightarrow> bool" where
  "stockRecipientMatches rp tenant store cx \<longleftrightarrow> ixAccountId cx = rpAccountId rp
     \<and> (\<forall>m \<in> set_option (rpMembershipId rp). ixMembershipId cx = m)
     \<and> ixTenantId cx = tenant \<and> ixStoreId cx = store"

definition alertsEnabled :: "'x TelegramDb_scheme \<Rightarrow> ShopRow \<Rightarrow> int \<Rightarrow> string \<Rightarrow> bool" where
  "alertsEnabled db s version membership \<longleftrightarrow> LowStockCategory \<in> set (shEnabledCategories s)
     \<and> shPolicyVersion s = version \<and> recipientSelected db s membership"

definition prepareForItem ::
  "StockEnv \<Rightarrow> InventoryContext \<Rightarrow> ItemRow \<Rightarrow> InventoryAlertLevel \<Rightarrow> int option \<Rightarrow> 'x StockDb_scheme
     \<Rightarrow> PreparedStock \<times> 'x StockDb_scheme" where
  "prepareForItem env cx r level threshold db =
     (let expiresAt = stockExpiry env (teClock env 1);
          l = stockPageReference cx 0 (teShortId env 0) expiresAt;
          d = stockItemReference cx (itemRowId r) (srId l) (teShortId env 1) expiresAt;
          s = toStockSummary r (stockToken (teMac env) (CHR ''v'') (srId d))
      in (StockPrepOk \<lparr>paDisplayName = ssDisplayName s, paSku = ssSku s, paQuantity = ssQuantity s,
            paStockStatus = ssStockStatus s, paLevel = level, paThreshold = threshold, paViewStockRef = ssRef s\<rparr>,
          addStockReferences [l, d] db))"

definition prepareStockItem ::
  "StockEnv \<Rightarrow> InventoryContext \<Rightarrow> string \<Rightarrow> nat \<Rightarrow> InventoryAlertLevel \<Rightarrow> int option \<Rightarrow> 'x StockDb_scheme
     \<Rightarrow> PreparedStock \<times> 'x StockDb_scheme" where
  "prepareStockItem env cx item generation level threshold db =
     (case findFirst (\<lambda>r. itemRowId r = item \<and> liveItem cx r) (skItems db) of
        None \<Rightarrow> (StockPrepNotFound, db)
      | Some r \<Rightarrow>
          if incidentGeneration r \<noteq> generation \<or> alertClassification r \<noteq> alertClass level then (StockPrepStale, db)
          else prepareForItem env cx r level threshold db)"

definition prepareStockNotification ::
  "StockEnv \<Rightarrow> Recipient \<Rightarrow> string \<Rightarrow> string \<Rightarrow> string \<Rightarrow> nat \<Rightarrow> InventoryAlertLevel \<Rightarrow> int \<Rightarrow> 'x StockDb_scheme
     \<Rightarrow> (ServiceError + PreparedStock) \<times> 'x StockDb_scheme" where
  "prepareStockNotification env rp tenant store item generation level version db =
     (case stockContext db \<lparr>tiUserId = rpTelegramUserId rp, tiChatId = rpTelegramChatId rp\<rparr> of
        StockContext cx \<Rightarrow>
          if \<not> stockRecipientMatches rp tenant store cx then (Inr StockPrepUnauthorized, db)
          else (case assertActive (ixTenantId cx) (teClock env 0) (tgTenants db) of
                  Inl e \<Rightarrow> (Inl e, db)
                | Inr _ \<Rightarrow>
                    (case findFirst (policyWhere db tenant store) (tgShops db) of
                       None \<Rightarrow> (Inr StockPrepDisabled, db)
                     | Some s \<Rightarrow>
                         if \<not> alertsEnabled db s version (ixMembershipId cx) then (Inr StockPrepDisabled, db)
                         else map_prod Inr id
                                (prepareStockItem env cx item generation level (shLowStockThreshold s) db)))
      | _ \<Rightarrow> (Inr StockPrepUnauthorized, db))"

section \<open>From the list to an item and back\<close>

lemma boot_round [simp]: "withBoot (bootView db) db = db"
  by (simp add: withBoot_def bootView_def)

lemma liveShop_startSync [simp]: "liveShopWhere tenant store (startSync p t s) = liveShopWhere tenant store s"
  by (simp add: liveShopWhere_def startSync_def)

lemma loadShop_live:
  assumes "loadShop tenant store b = Some s"
  shows "findFirst (liveShopWhere tenant store) (btShops b) = Some s"
proof (cases "bootTenantAlive b tenant")
  case False
  then have "loadShop tenant store b = None" by (simp add: loadShop_def row_simps)
  with assms show ?thesis by simp
qed (use assms in \<open>simp add: loadShop_def\<close>)

lemma map_prod_InrD: "map_prod Inr id p = (Inr a, b) \<Longrightarrow> p = (a, b)"
  by (cases p) simp

lemma unready_not_ok: "unreadyState i \<noteq> Some StockListOk"
  by (simp add: unreadyState_def)

lemma ready_store:
  assumes quiet: "\<And>n b. beBetween env n b = b" and run: "ensureInitialized env tenant store b = (Inr i, b')"
    and ok: "unreadyState i = None"
  shows "b' = b \<and> (\<exists>s. loadShop tenant store b = Some s \<and> shSyncState s = READY)"
proof -
  from run obtain s where s: "loadShop tenant store b = Some s" by (auto simp: ensureInitialized_def split: option.splits)
  show ?thesis
  proof (cases "shSyncState s = READY")
    case True
    with run s show ?thesis by (simp add: ensureInitialized_def)
  next
    case False
    let ?P = "\<lambda>r. liveShopWhere tenant store r \<and> shSyncState r = shSyncState s"
    let ?b = "startSyncing env tenant store (shSyncState s) b"
    have old: "findFirst (liveShopWhere tenant store) (btShops b) = Some s" by (rule loadShop_live [OF s])
    then have live: "liveShopWhere tenant store s" by (simp add: findFirst_Some)
    have "findFirst (liveShopWhere tenant store) (btShops ?b)
        = Some (if shSyncState s = SYNCING then s else startSync (shSyncState s) (beClock env 0) s)"
    proof (cases "shSyncState s = SYNCING")
      case True
      with old show ?thesis by (simp add: startSyncing_def)
    next
      case False
      have same: "liveShopWhere tenant store (if ?P r then startSync p t r else r) = liveShopWhere tenant store r" for r p t
        by simp
      from False \<open>shSyncState s \<noteq> READY\<close> have "shSyncState s = UNINITIALIZED \<or> shSyncState s = SyncFailed"
        by (cases "shSyncState s") auto
      then show ?thesis
        using False old live
        by (auto simp: startSyncing_def updateShops_def updateMany_rows findFirst_map same)
    qed
    then obtain c where "findFirst (liveShopWhere tenant store) (btShops ?b) = Some c" "shSyncState c = SYNCING"
      by (auto simp: startSync_def split: if_splits)
    with run s False have "ioState i = SYNCING"
      by (auto simp: ensureInitialized_def enqueueInitial_def quiet Let_def split: prod.splits sum.splits)
    with ok show ?thesis by (auto simp: unreadyState_def split: if_splits)
  qed
qed

lemma initialize_ready:
  "loadShop (ixTenantId cx) (ixStoreId cx) (bootView db) = Some s \<Longrightarrow> shSyncState s = READY \<Longrightarrow>
     initializeStock env cx db = (Inr \<lparr>ioPrevious = READY, ioState = READY, ioEnqueueFailed = False\<rparr>, db)"
  by (simp add: initializeStock_def ensureInitialized_def)

text \<open>
  The ids a page draws have the issued form, are drawn once, and are not those of stored references.
\<close>

definition freshStockIds :: "StockEnv \<Rightarrow> 'x StockDb_scheme \<Rightarrow> bool" where
  "freshStockIds env db \<longleftrightarrow> (\<forall>n < 11. shortIdPattern (teShortId env n)
     \<and> ''tir_'' @ teShortId env n \<notin> srId ` set (skReferences db)) \<and> inj_on (teShortId env) {..<11}"

definition stockReady :: "'x StockDb_scheme \<Rightarrow> InventoryContext \<Rightarrow> bool" where
  "stockReady db cx \<longleftrightarrow> (\<exists>s. loadShop (ixTenantId cx) (ixStoreId cx) (bootView db) = Some s \<and> shSyncState s = READY)
     \<and> loadStockStore db cx \<noteq> None"

lemma listed_page:
  assumes run: "stockList env idn cursor db = (Inr l, db')" "slState l = StockListOk"
    and quiet: "\<And>n b. beBetween (skBoot env) n b = b" and cx: "stockContext db idn = StockContext cx"
  obtains offset threshold where "stockReady db cx" "stockPage env cx offset threshold db = (l, db')"
proof -
  from run cx obtain offset where at: "stockListAt env cx offset db = (Inr l, db')"
    by (auto simp: stockList_def emptyStockList_def split: option.splits)
  from at run(2) obtain s i db1 where s: "loadStockStore db cx = Some s" and i: "initializeStock env cx db = (Inr i, db1)"
    and ok: "unreadyState i = None" and page: "stockPage env cx offset (shLowStockThreshold s) db1 = (l, db')"
    using unready_not_ok
    by (auto simp: stockListAt_def emptyStockList_def split: sum.splits option.splits prod.splits dest!: map_prod_InrD)
  from i obtain b' where "ensureInitialized (skBoot env) (ixTenantId cx) (ixStoreId cx) (bootView db) = (Inr i, b')"
    and db1: "db1 = withBoot b' db"
    unfolding initializeStock_def
    by (cases "ensureInitialized (skBoot env) (ixTenantId cx) (ixStoreId cx) (bootView db)") auto
  from ready_store [OF quiet this(1) ok] have "b' = bootView db"
    "\<exists>s. loadShop (ixTenantId cx) (ixStoreId cx) (bootView db) = Some s \<and> shSyncState s = READY" by auto
  with that s page db1 show thesis by (auto simp: stockReady_def)
qed

lemma srId_references [simp]:
  "srId (stockPageReference cx k s e) = ''tir_'' @ s" "srId (stockItemReference cx i b s e) = ''tir_'' @ s"
  by (simp_all add: stockPageReference_def stockItemReference_def stockReference_def)

text \<open>What a page writes: references with ids it drew, its own first.\<close>

lemma stockPage_references:
  assumes run: "stockPage env cx offset threshold db = (l, db')"
  defines "page \<equiv> take STOCK_PAGE_SIZE (stockRecords env db cx offset)"
  defines "current \<equiv> stockPageReference cx offset (teShortId env 0) (stockExpiry env (teClock env 2))"
  defines "item \<equiv> \<lambda>(r, k). stockItemReference cx (itemRowId r) (srId current) (teShortId env (Suc k)) (stockExpiry env (teClock env 2))"
  obtains rest where "skReferences db' = skReferences db @ (current # map item (zip page [0..<length page])) @ rest"
    and "slItems l = map (\<lambda>(r, k). toStockSummary r (stockToken (teMac env) (CHR ''v'') (srId (item (r, k)))))
      (zip page [0..<length page])"
    and "db' = db\<lparr>skReferences := skReferences db'\<rparr>"
    and "slState l = StockListOk" and "slNext l = None \<longleftrightarrow> \<not> (STOCK_PAGE_SIZE < length (stockRecords env db cx offset)
      \<and> offset + int STOCK_PAGE_SIZE < MAX_REACHABLE)"
    and "length page \<le> 8"
proof -
  define prev where "prev = stockPrevious cx offset (teShortId env (length page + 1)) (stockExpiry env (teClock env 2))"
  define nxt where "nxt = stockNext cx offset (length (stockRecords env db cx offset))
      (teShortId env (length page + (if prev = None then 1 else 2))) (stockExpiry env (teClock env 2))"
  have zips: "zip page (map item (zip page [0..<length page])) = map (\<lambda>(r, k). (r, item (r, k))) (zip page [0..<length page])"
    by (rule nth_equalityI) auto
  have "(l, db') = (\<lparr>slState = StockListOk,
      slItems = map (\<lambda>(r, d). toStockSummary r (stockToken (teMac env) (CHR ''v'') (srId d)))
        (zip page (map item (zip page [0..<length page]))),
      slNext = map_option (\<lambda>r. stockToken (teMac env) (CHR ''k'') (srId r)) nxt,
      slPrevious = map_option (\<lambda>r. stockToken (teMac env) (CHR ''k'') (srId r)) prev, slThreshold = threshold\<rparr>,
     addStockReferences (current # map item (zip page [0..<length page]) @ (case prev of Some r \<Rightarrow> [r] | None \<Rightarrow> [])
        @ (case nxt of Some r \<Rightarrow> [r] | None \<Rightarrow> [])) db)"
    unfolding run [symmetric] stockPage_def Let_def page_def current_def item_def prev_def nxt_def by (rule refl)
  then have l: "slState l = StockListOk" "slNext l = map_option (\<lambda>r. stockToken (teMac env) (CHR ''k'') (srId r)) nxt"
      "slItems l = map (\<lambda>(r, d). toStockSummary r (stockToken (teMac env) (CHR ''v'') (srId d)))
        (map (\<lambda>(r, k). (r, item (r, k))) (zip page [0..<length page]))"
    and db': "db' = db\<lparr>skReferences := skReferences db @ (current # map item (zip page [0..<length page]))
        @ ((case prev of Some r \<Rightarrow> [r] | None \<Rightarrow> []) @ (case nxt of Some r \<Rightarrow> [r] | None \<Rightarrow> []))\<rparr>"
    unfolding zips by (simp_all add: addStockReferences_def)
  show thesis
  proof (rule that)
    show "slItems l = map (\<lambda>(r, k). toStockSummary r (stockToken (teMac env) (CHR ''v'') (srId (item (r, k)))))
        (zip page [0..<length page])"
      unfolding l(3) map_map by (rule map_cong [OF refl]) auto
    show "slNext l = None \<longleftrightarrow> \<not> (STOCK_PAGE_SIZE < length (stockRecords env db cx offset)
        \<and> offset + int STOCK_PAGE_SIZE < MAX_REACHABLE)"
      by (simp add: l(2) nxt_def stockNext_def)
    show "length page \<le> 8" by (simp add: page_def STOCK_PAGE_SIZE_def)
  qed (use l(1) db' in simp_all)
qed

lemma findFirst_new:
  assumes "\<And>r. r \<in> set old \<Longrightarrow> k r \<noteq> k d" and "distinct (map k new)" and "d \<in> set new" and "P d"
    and "\<And>s. P s \<Longrightarrow> k s = k d"
  shows "findFirst P (old @ new @ rest) = Some d"
proof -
  have "findFirst P old = None" using assms(1,5) by (auto simp: row_simps)
  moreover have "findFirst P new = Some d" by (rule findFirst_unique [where k = k]) (rule assms(2-5))+
  ultimately show ?thesis by (simp add: findFirst_append)
qed

lemma stock_token_accepts:
  assumes "goodMac mac" and "shortIdPattern s" and "p \<noteq> CHR ''.''"
  shows "parseStockToken mac (stockToken mac p (''tir_'' @ s)) p = Some (''tir_'' @ s)"
  by (rule stock_tokens.accepts) (use assms in simp_all)

text \<open>The context of a chat and the store's row depend on the tables of the order service only.\<close>

lemma telegram_tables:
  fixes db :: "'x TelegramDb_scheme"
  shows "tenantAlive (TelegramDb.truncate db) = tenantAlive db"
    and "resolveContext (TelegramDb.truncate db) = resolveContext db"
    and "policyWhere (TelegramDb.truncate db) = policyWhere db"
    and "recipientSelected (TelegramDb.truncate db) = recipientSelected db"
    and "eligibleNotificationRecipients (TelegramDb.truncate db) = eligibleNotificationRecipients db"
proof -
  have t: "tgTenants (TelegramDb.truncate db) = tgTenants db" "tgShops (TelegramDb.truncate db) = tgShops db"
    "tgMemberships (TelegramDb.truncate db) = tgMemberships db" "tgAccounts (TelegramDb.truncate db) = tgAccounts db"
    "tgChats (TelegramDb.truncate db) = tgChats db" "tgRecipients (TelegramDb.truncate db) = tgRecipients db"
    by (simp_all add: TelegramDb.truncate_def)
  show alive: "tenantAlive (TelegramDb.truncate db) = tenantAlive db" by (rule ext) (simp add: tenantAlive_def t)
  have m: "membershipWhere (TelegramDb.truncate db) = membershipWhere db" by (intro ext) (simp add: membershipWhere_def alive)
  have s: "activeShopWhere (TelegramDb.truncate db) = activeShopWhere db" by (intro ext) (simp add: activeShopWhere_def alive)
  have r: "resolveMembership (TelegramDb.truncate db) = resolveMembership db"
    by (intro ext) (simp add: resolveMembership_def m s t cong: list.case_cong)
  show cx: "resolveContext (TelegramDb.truncate db) = resolveContext db"
    by (intro ext) (simp add: resolveContext_def r t cong: option.case_cong if_cong)
  show "policyWhere (TelegramDb.truncate db) = policyWhere db" by (intro ext) (simp add: policyWhere_def alive)
  show "recipientSelected (TelegramDb.truncate db) = recipientSelected db"
    by (intro ext) (simp add: recipientSelected_def t)
  have c: "candidateAccount (TelegramDb.truncate db) = candidateAccount db"
    by (intro ext) (simp add: candidateAccount_def alive t)
  have "recipientOf (TelegramDb.truncate db) = recipientOf db" by (intro ext) (simp add: recipientOf_def cx)
  moreover have "candidates (TelegramDb.truncate db) = candidates db"
    by (intro ext) (simp only: candidates_def c t)
  ultimately show "eligibleNotificationRecipients (TelegramDb.truncate db) = eligibleNotificationRecipients db"
    by (intro ext) (simp add: eligibleNotificationRecipients_def)
qed

lemma same_telegram:
  fixes db :: "'x TelegramDb_scheme" and db' :: "'y TelegramDb_scheme"
  assumes "TelegramDb.truncate db' = TelegramDb.truncate db"
  shows "resolveContext db' = resolveContext db" and "stockContext db' = stockContext db"
    and "policyWhere db' = policyWhere db" and "recipientSelected db' = recipientSelected db"
    and "eligibleNotificationRecipients db' = eligibleNotificationRecipients db"
    and "loadStockStore db' = loadStockStore db" and "tgTenants db' = tgTenants db" and "tgShops db' = tgShops db"
proof -
  show tables: "tgTenants db' = tgTenants db" "tgShops db' = tgShops db"
    using assms by (simp_all add: TelegramDb.truncate_def)
  show cx: "resolveContext db' = resolveContext db" by (metis assms telegram_tables(2))
  show "stockContext db' = stockContext db" by (rule ext) (simp add: stockContext_resolves cx)
  show p: "policyWhere db' = policyWhere db" by (metis assms telegram_tables(3))
  show "recipientSelected db' = recipientSelected db" by (metis assms telegram_tables(4))
  show "eligibleNotificationRecipients db' = eligibleNotificationRecipients db" by (metis assms telegram_tables(5))
  show "loadStockStore db' = loadStockStore db" by (rule ext) (simp add: loadStockStore_def p tables)
qed

lemma set_lowItems: "r \<in> set (lowItems env db cx) \<longleftrightarrow> r \<in> set (skItems db) \<and> lowItem cx r"
  by (auto simp: lowItems_def findMany_def)

text \<open>An item reference of a page, presented before it expires, names its item and the page.\<close>

lemma page_reference_valid:
  assumes run: "stockPage env cx offset threshold db = (l, db')" and fresh: "freshStockIds env db"
    and mac: "goodMac (teMac env)" "teMac env2 = teMac env"
    and now: "\<And>n. teClock env2 n < stockExpiry env (teClock env 2)" and shown: "s \<in> set (slItems l)"
  obtains r d b where "r \<in> set (take STOCK_PAGE_SIZE (stockRecords env db cx offset))" and "s\<lparr>ssRef := []\<rparr> = toStockSummary r []"
    and "validateStockReference env2 (teClock env2 0) db' (ssRef s) (CHR ''v'') STOCK_ITEM cx = Some d"
    and "srItemId d = Some (itemRowId r)" "srBackReferenceId d = Some (srId b)"
    and "findFirst (backPageWhere cx (srId b) (teClock env2 1)) (skReferences db') = Some b"
    and "validateStockReference env2 (teClock env2 0) db' (stockToken (teMac env2) (CHR ''k'') (srId b)) (CHR ''k'') STOCK_PAGE cx = Some b"
    and "srPageOffset b = Some offset" "srId b \<noteq> []"
proof -
  let ?e = "stockExpiry env (teClock env 2)"
  define page where "page = take STOCK_PAGE_SIZE (stockRecords env db cx offset)"
  define b where "b = stockPageReference cx offset (teShortId env 0) ?e"
  define item where "item = (\<lambda>(r :: ItemRow, k). stockItemReference cx (itemRowId r) (srId b) (teShortId env (Suc k)) ?e)"
  let ?new = "b # map item (zip page [0..<length page])"
  from stockPage_references [OF run, folded b_def page_def, folded item_def] obtain rest where
    refs: "skReferences db' = skReferences db @ ?new @ rest"
    and items: "slItems l = map (\<lambda>(r, k). toStockSummary r (stockToken (teMac env) (CHR ''v'') (srId (item (r, k)))))
      (zip page [0..<length page])" and size: "length page \<le> 8"
    by blast
  have ids: "map srId ?new = map (\<lambda>k. ''tir_'' @ teShortId env k) [0..<Suc (length page)]"
  proof -
    have "map srId (map item (zip page [0..<length page])) = map (\<lambda>k. ''tir_'' @ teShortId env (Suc k)) [0..<length page]"
      by (rule nth_equalityI) (auto simp: item_def)
    then show ?thesis by (simp add: b_def map_Suc_upt [symmetric] upt_conv_Cons del: upt_Suc)
  qed
  have id: "shortIdPattern (teShortId env k)" "''tir_'' @ teShortId env k \<notin> srId ` set (skReferences db)" if "k < 11" for k
    using fresh that by (auto simp: freshStockIds_def)
  have dist: "distinct (map srId ?new)"
    unfolding ids distinct_map using fresh size by (auto simp: freshStockIds_def inj_on_def)
  have old: "srId q \<noteq> srId x" if "q \<in> set (skReferences db)" "x \<in> set ?new" for q x
  proof -
    from that(2) have "srId x \<in> set (map srId ?new)" by (simp only: list.set_map imageI)
    then obtain k where "srId x = ''tir_'' @ teShortId env k" "k < 11" unfolding ids using size by (auto simp del: append.simps)
    with id(2) [of k] that(1) show ?thesis by (metis imageI)
  qed
  have find: "findFirst P (skReferences db') = Some x" if "x \<in> set ?new" "P x" "\<And>q. P q \<Longrightarrow> srId q = srId x" for P x
    unfolding refs
  proof (rule findFirst_new [where k = srId])
    show "distinct (map srId ?new)" by (rule dist)
    show "srId r \<noteq> srId x" if "r \<in> set (skReferences db)" for r by (rule old [OF that \<open>x \<in> set ?new\<close>])
  qed (rule that)+
  from shown obtain r k where rk: "(r, k) \<in> set (zip page [0..<length page])"
    and s: "s = toStockSummary r (stockToken (teMac env) (CHR ''v'') (srId (item (r, k))))"
    unfolding items by auto
  have k: "Suc k < 11" using set_zip_rightD [OF rk] size by simp
  have d: "item (r, k) \<in> set ?new" using rk by auto
  have idd: "srId (item (r, k)) = ''tir_'' @ teShortId env (Suc k)" by (simp add: item_def)
  have idb: "srId b = ''tir_'' @ teShortId env 0" by (simp add: b_def)
  note member = stockReferenceMatches_def stockItemReference_def stockPageReference_def stockReference_def
  have md: "stockReferenceMatches (item (r, k)) cx" "srPurpose (item (r, k)) = STOCK_ITEM" "srExpiresAt (item (r, k)) = ?e"
    "srItemId (item (r, k)) = Some (itemRowId r)" "srBackReferenceId (item (r, k)) = Some (srId b)"
    by (simp_all add: item_def member)
  have mb: "stockReferenceMatches b cx" "srPurpose b = STOCK_PAGE" "srExpiresAt b = ?e" "srPageOffset b = Some offset"
    by (simp_all add: b_def member)
  have tokd: "parseStockToken (teMac env2) (ssRef s) (CHR ''v'') = Some (srId (item (r, k)))"
    unfolding s idd mac(2) by (simp add: toStockSummary_def, rule stock_token_accepts [OF mac(1) id(1) [OF k], simplified], simp)
  have tokb: "parseStockToken (teMac env2) (stockToken (teMac env2) (CHR ''k'') (srId b)) (CHR ''k'') = Some (srId b)"
    unfolding idb mac(2) by (rule stock_token_accepts [OF mac(1) id(1)]) simp_all
  show thesis
  proof (rule that)
    show "r \<in> set (take STOCK_PAGE_SIZE (stockRecords env db cx offset))"
      using set_zip_leftD [OF rk] by (simp add: page_def)
    show "s\<lparr>ssRef := []\<rparr> = toStockSummary r []" by (simp add: s toStockSummary_def)
    show "validateStockReference env2 (teClock env2 0) db' (ssRef s) (CHR ''v'') STOCK_ITEM cx = Some (item (r, k))"
      using find [OF d, of "\<lambda>q. srId q = srId (item (r, k))"] md now [of 0]
      by (simp add: validateStockReference_def tokd)
    show "findFirst (backPageWhere cx (srId b) (teClock env2 1)) (skReferences db') = Some b"
      by (rule find) (use mb now [of 1] in \<open>auto simp: backPageWhere_def\<close>)
    show "validateStockReference env2 (teClock env2 0) db' (stockToken (teMac env2) (CHR ''k'') (srId b)) (CHR ''k'')
        STOCK_PAGE cx = Some b"
      using find [of b "\<lambda>q. srId q = srId b"] mb now [of 0] by (simp add: validateStockReference_def tokb)
    show "srId b \<noteq> []" by (simp add: idb)
  qed (rule md mb)+
qed

lemma stockPage_shows:
  assumes "stockPage env cx offset threshold db = (l, db')"
  shows "slState l = StockListOk"
    and "map (\<lambda>x. x\<lparr>ssRef := []\<rparr>) (slItems l)
      = map (\<lambda>r. toStockSummary r []) (take STOCK_PAGE_SIZE (stockRecords env db cx offset))"
    and "slNext l = None \<longleftrightarrow> \<not> (STOCK_PAGE_SIZE < length (stockRecords env db cx offset)
      \<and> offset + int STOCK_PAGE_SIZE < MAX_REACHABLE)"
    and "db' = db\<lparr>skReferences := skReferences db'\<rparr>"
proof -
  let ?page = "take STOCK_PAGE_SIZE (stockRecords env db cx offset)"
  let ?e = "stockExpiry env (teClock env 2)"
  let ?item = "\<lambda>(r, k). stockItemReference cx (itemRowId (r :: ItemRow))
    (srId (stockPageReference cx offset (teShortId env 0) ?e)) (teShortId env (Suc k)) ?e"
  from stockPage_references [OF assms] have
    items: "slItems l = map (\<lambda>(r, k). toStockSummary r (stockToken (teMac env) (CHR ''v'') (srId (?item (r, k)))))
      (zip ?page [0..<length ?page])"
    and state: "slState l = StockListOk" and nxt: "slNext l = None \<longleftrightarrow> \<not> (STOCK_PAGE_SIZE < length (stockRecords env db cx offset)
      \<and> offset + int STOCK_PAGE_SIZE < MAX_REACHABLE)" and db': "db' = db\<lparr>skReferences := skReferences db'\<rparr>"
    by blast+
  show "slState l = StockListOk" "db' = db\<lparr>skReferences := skReferences db'\<rparr>"
    "slNext l = None \<longleftrightarrow> \<not> (STOCK_PAGE_SIZE < length (stockRecords env db cx offset)
      \<and> offset + int STOCK_PAGE_SIZE < MAX_REACHABLE)" by (rule state db' nxt)+
  show "map (\<lambda>x. x\<lparr>ssRef := []\<rparr>) (slItems l) = map (\<lambda>r. toStockSummary r []) ?page"
    unfolding items by (rule nth_equalityI) (auto simp: toStockSummary_def)
qed

text \<open>
  C40: from the list to an item and back: when a chat is shown a page of the items that run low and, before
  its buttons expire and while nothing else changed, opens an item of it, the item is the one that was
  shown, with the classification, quantity and name of the list, and the button back shows the same items
  in the same order, and offers a next page exactly when the first page did.
\<close>

theorem stock_item_opens_and_returns:
  fixes db :: "'x StockDb_scheme"
  assumes shown: "stockList env idn cursor db = (Inr l, db')" "slState l = StockListOk" "s \<in> set (slItems l)"
    and cx: "stockContext db idn = StockContext cx" and quiet: "\<And>n b. beBetween (skBoot env) n b = b"
    and fresh: "freshStockIds env db" and mac: "goodMac (teMac env)" "teMac env2 = teMac env"
    and rows: "distinct (map itemRowId (skItems db))" "[] \<notin> itemRowId ` set (skItems db)"
    and soon: "\<And>n. teClock env2 n < stockExpiry env (teClock env 2)" and sorted: "skCollation env2 = skCollation env"
    and entitled: "\<And>n. \<exists>e. assertActive (ixTenantId cx) (teClock env2 n) (tgTenants db) = Inr e"
  shows "\<exists>d back l2 db2. stockDetail env2 idn (ssRef s) db' = Inr (StockDetailOk d (Some back))
    \<and> sdSummary d = s\<lparr>ssRef := []\<rparr> \<and> stockList env2 idn (Some back) db' = (Inr l2, db2) \<and> slState l2 = StockListOk
    \<and> map (\<lambda>x. x\<lparr>ssRef := []\<rparr>) (slItems l2) = map (\<lambda>x. x\<lparr>ssRef := []\<rparr>) (slItems l)
    \<and> (slNext l2 = None \<longleftrightarrow> slNext l = None)"
proof -
  from listed_page [OF shown(1,2) quiet cx] obtain offset threshold where
    ready: "stockReady db cx" and page: "stockPage env cx offset threshold db = (l, db')" .
  from page_reference_valid [OF page fresh mac soon shown(3)] obtain r d b where
    r: "r \<in> set (take STOCK_PAGE_SIZE (stockRecords env db cx offset))" "s\<lparr>ssRef := []\<rparr> = toStockSummary r []"
    and vd: "validateStockReference env2 (teClock env2 0) db' (ssRef s) (CHR ''v'') STOCK_ITEM cx = Some d"
    and d: "srItemId d = Some (itemRowId r)" "srBackReferenceId d = Some (srId b)"
    and bk: "findFirst (backPageWhere cx (srId b) (teClock env2 1)) (skReferences db') = Some b"
    and vb: "validateStockReference env2 (teClock env2 0) db' (stockToken (teMac env2) (CHR ''k'') (srId b)) (CHR ''k'') STOCK_PAGE cx = Some b"
    and b: "srPageOffset b = Some offset" "srId b \<noteq> []" .
  note out = stockPage_shows [OF page]
  have same: "TelegramDb.truncate db' = TelegramDb.truncate db" "skItems db' = skItems db" "skJobs db' = skJobs db"
    by (subst out(4); simp add: TelegramDb.truncate_def)+
  note tables = same_telegram [OF same(1)]
  have "r \<in> set (lowItems env db cx)" using r(1) by (auto simp: stockRecords_def dest!: in_set_takeD in_set_dropD)
  then have low: "r \<in> set (skItems db)" "lowItem cx r" by (simp_all add: set_lowItems)
  then have found: "findFirst (\<lambda>q. itemRowId q = itemRowId r \<and> lowItem cx q) (skItems db) = Some r"
    by (intro findFirst_unique [where k = itemRowId]) (use rows(1) in auto)
  have "itemRowId r \<noteq> []" using rows(2) low(1) by (metis imageI)
  moreover obtain e where "assertActive (ixTenantId cx) (teClock env2 2) (tgTenants db) = Inr e" using entitled by blast
  ultimately have detail: "stockDetail env2 idn (ssRef s) db'
      = Inr (StockDetailOk (toStockDetail db' r) (Some (stockToken (teMac env2) (CHR ''k'') (srId b))))"
    by (simp add: stockDetail_def tables cx vd stockTarget_def d b(2) bk [unfolded One_nat_def] found same(2))
  let ?t = "stockToken (teMac env2) (CHR ''k'') (srId b)"
  have "?t \<noteq> []" by (simp add: stockToken_def issueToken_def signedValue_def Let_def)
  then have offset: "stockOffset env2 db' (Some ?t) cx = Some offset" by (simp add: stockOffset_def vb b(1))
  obtain e1 where e1: "assertActive (ixTenantId cx) (teClock env2 1) (tgTenants db) = Inr e1" using entitled by blast
  from ready obtain s1 s2 where s1: "loadShop (ixTenantId cx) (ixStoreId cx) (bootView db') = Some s1" "shSyncState s1 = READY"
    and s2: "loadStockStore db' cx = Some s2"
    by (auto simp: stockReady_def tables bootView_def same(2,3))
  obtain l2 db2 where page2: "stockPage env2 cx offset (shLowStockThreshold s2) db' = (l2, db2)" by force
  have list2: "stockList env2 idn (Some ?t) db' = (Inr l2, db2)"
    by (simp add: stockList_def tables(2) cx offset stockListAt_def e1 [unfolded One_nat_def] tables(7) s2 initialize_ready [OF s1] unreadyState_def page2)
  have "stockRecords env2 db' cx offset = stockRecords env db cx offset"
    by (simp add: stockRecords_def lowItems_def sorted same(2))
  with stockPage_shows [OF page2] out(2,3) have "slState l2 = StockListOk"
    "map (\<lambda>x. x\<lparr>ssRef := []\<rparr>) (slItems l2) = map (\<lambda>x. x\<lparr>ssRef := []\<rparr>) (slItems l)" "slNext l2 = None \<longleftrightarrow> slNext l = None"
    by simp_all
  with detail list2 r(2) show ?thesis by (auto simp: toStockDetail_def)
qed

section \<open>Sample runs\<close>

definition sampleStockItem :: ItemRow where
  "sampleStockItem = \<lparr>itemRowId = ''inv_1'', itemTenantId = ''ten_1'', itemStoreId = ''sto_1'', rowWcItemId = ''7'',
     rowParentId = None, rowKind = PRODUCT, rowName = ''Tea'', rowSku = None, rowContext = [], rowManagesStock = True,
     rowQuantity = Some ''3'', rowStockStatus = ''instock'', rowModifiedAt = 0, rowFingerprint = [], rowSyncedAt = 0,
     rowWebhookReceivedAt = Some 0, rowDeletedAt = None, alertClassification = LOW_STOCK, incidentGeneration = 1,
     lowAlertSource = Some ''evt_1'', lowAlertCapturedAt = None, outAlertSource = None, outAlertCapturedAt = None\<rparr>"

definition sampleStock :: StockDb where
  "sampleStock = TelegramDb.extend sampleTelegram \<lparr>skItems = [sampleStockItem], skReferences = [], skJobs = []\<rparr>"

definition sampleBootEnv :: BootEnv where
  "sampleBootEnv = \<lparr>beClock = (\<lambda>n. 5), beProducts = (\<lambda>s p n. Inr (JArr [])), beVariations = (\<lambda>s i p n. Inr (JArr [])),
     beInventory = invDemo, beQueueUp = True, beBetween = (\<lambda>n db. db)\<rparr>"

definition sampleStockEnv :: StockEnv where
  "sampleStockEnv = \<lparr>teClock = (\<lambda>n. 5), teShortId = (\<lambda>n. ''AAAAAAAAAAAAAAA'' @ [''abcdefghijk'' ! n]),
     teMac = (\<lambda>v. replicate 32 7), teReferenceTtlSeconds = 900, teFreshnessThresholdSeconds = 300,
     skBoot = sampleBootEnv, skCollation = (\<lambda>s. s)\<rparr>"

definition sampleStockContext :: InventoryContext where
  "sampleStockContext = inventoryContext sampleContext"

lemma sampleStock_tables [simp]:
  "TelegramDb.truncate sampleStock = TelegramDb.truncate sampleTelegram" "skItems sampleStock = [sampleStockItem]"
  "skReferences sampleStock = []" "tgTenants sampleStock = tgTenants sampleTelegram" "tgShops sampleStock = tgShops sampleTelegram"
  by (simp_all add: sampleStock_def TelegramDb.extend_def TelegramDb.truncate_def)

lemma sampleStock_context: "stockContext sampleStock sampleIdentity = StockContext sampleStockContext"
  using same_telegram(1) [of sampleStock sampleTelegram]
  by (simp add: stockContext_resolves sample_resolves stockResolution_def sampleStockContext_def)

lemma sample_entitled: "assertActive ''ten_1'' t (tgTenants sampleTelegram) = Inr \<lparr>esPlan = FREE, esStatus = ACTIVE,
    esEffectiveState = EffActive, esExpiresAt = None\<rparr>"
  by (simp add: assertActive_def resolveTenant_def tenantWhere_def rowSummary_def toSummary_def findFirst_def
      effectiveTenantEntitlementState_def sampleTelegram_def)

lemma sampleStock_shop: "loadStockStore sampleStock sampleStockContext = Some (hd (tgShops sampleTelegram))"
proof -
  have "loadStockStore sampleTelegram sampleStockContext = Some (hd (tgShops sampleTelegram))"
    by (simp add: loadStockStore_def policyWhere_def tenantAlive_def sampleTelegram_def sampleStockContext_def
        inventoryContext_def sampleContext_def findFirst_def)
  then show ?thesis by (simp only: same_telegram(6) [of sampleStock sampleTelegram, OF sampleStock_tables(1)])
qed

lemma sampleStock_ready:
  "ensureInitialized sampleBootEnv ''ten_1'' ''sto_1'' (bootView sampleStock)
     = (Inr \<lparr>ioPrevious = READY, ioState = READY, ioEnqueueFailed = False\<rparr>, bootView sampleStock)"
proof -
  have "loadShop ''ten_1'' ''sto_1'' (bootView sampleStock) = Some (hd (tgShops sampleTelegram))"
    by (simp add: loadShop_def bootView_def bootTenantAlive_def)
      (simp add: liveShopWhere_def sampleTelegram_def findFirst_def)
  then show ?thesis by (simp add: ensureInitialized_def) (simp add: sampleTelegram_def)
qed

lemma sampleStock_list:
  obtains l db' s where "stockList sampleStockEnv sampleIdentity None sampleStock = (Inr l, db')"
    "slState l = StockListOk" "s \<in> set (slItems l)" "s\<lparr>ssRef := []\<rparr> = toStockSummary sampleStockItem []"
proof -
  let ?cx = "sampleStockContext"
  have cx: "ixTenantId ?cx = ''ten_1''" "ixStoreId ?cx = ''sto_1''"
    by (simp_all add: sampleStockContext_def inventoryContext_def sampleContext_def)
  obtain l db' where page: "stockPage sampleStockEnv ?cx 0 (Some 5) sampleStock = (l, db')" by force
  have "shLowStockThreshold (hd (tgShops sampleTelegram)) = Some 5" by (simp add: sampleTelegram_def)
  then have run: "stockList sampleStockEnv sampleIdentity None sampleStock = (Inr l, db')"
    using page sampleStock_shop sampleStock_ready
    by (simp add: stockList_def sampleStock_context stockOffset_def stockListAt_def cx sample_entitled initializeStock_def
        sampleStockEnv_def unreadyState_def)
  have "stockRecords sampleStockEnv sampleStock ?cx 0 = [sampleStockItem]"
    by (simp add: stockRecords_def lowItems_def findMany_def lowItem_def liveItem_def cx STOCK_PAGE_SIZE_def)
      (simp add: sampleStockItem_def)
  with stockPage_shows(1,2) [OF page] have ok: "slState l = StockListOk"
    "map (\<lambda>x. x\<lparr>ssRef := []\<rparr>) (slItems l) = [toStockSummary sampleStockItem []]"
    by (simp_all add: STOCK_PAGE_SIZE_def)
  from ok(2) obtain s where "slItems l = [s]" "s\<lparr>ssRef := []\<rparr> = toStockSummary sampleStockItem []" by auto
  with that [OF run ok(1)] show thesis by simp
qed

lemma sampleStock_fresh: "freshStockIds sampleStockEnv sampleStock"
proof -
  have n: "n < 11 \<Longrightarrow> n \<in> {0, 1, 2, 3, 4, 5, 6, 7, 8, 9, 10}" for n :: nat by simp presburger
  have "shortIdPattern (teShortId sampleStockEnv n)" if "n < 11" for n
    using n [OF that] by (auto simp: sampleStockEnv_def shortIdPattern_def isBase64_def eval_simps)
  moreover have "inj_on (teShortId sampleStockEnv) {..<11}"
  proof (rule inj_onI)
    fix m k assume "m \<in> {..<11 :: nat}" "k \<in> {..<11}" "teShortId sampleStockEnv m = teShortId sampleStockEnv k"
    then have "m < length ''abcdefghijk''" "k < length ''abcdefghijk''" "''abcdefghijk'' ! m = ''abcdefghijk'' ! k"
      by (simp_all add: sampleStockEnv_def)
    moreover have "distinct ''abcdefghijk''" by simp
    ultimately show "m = k" using nth_eq_iff_index_eq by blast
  qed
  ultimately show ?thesis by (simp add: freshStockIds_def)
qed

theorem stock_item_opens_and_returns_witness:
  "\<exists>(s :: StockSummary) (db' :: StockDb) d bk. stockDetail sampleStockEnv sampleIdentity (ssRef s) db' = Inr (StockDetailOk d (Some bk))
     \<and> ssDisplayName (sdSummary d) = ''Tea''"
proof -
  obtain l db' s where run: "stockList sampleStockEnv sampleIdentity None sampleStock = (Inr l, db')"
    "slState l = StockListOk" "s \<in> set (slItems l)" and s: "s\<lparr>ssRef := []\<rparr> = toStockSummary sampleStockItem []"
    by (rule sampleStock_list)
  have "\<exists>d bk l2 db2. stockDetail sampleStockEnv sampleIdentity (ssRef s) db' = Inr (StockDetailOk d (Some bk))
      \<and> sdSummary d = s\<lparr>ssRef := []\<rparr> \<and> stockList sampleStockEnv sampleIdentity (Some bk) db' = (Inr l2, db2) \<and> slState l2 = StockListOk
      \<and> map (\<lambda>x. x\<lparr>ssRef := []\<rparr>) (slItems l2) = map (\<lambda>x. x\<lparr>ssRef := []\<rparr>) (slItems l) \<and> (slNext l2 = None \<longleftrightarrow> slNext l = None)"
  proof (rule stock_item_opens_and_returns [OF run sampleStock_context _ sampleStock_fresh])
    show "\<exists>e. assertActive (ixTenantId sampleStockContext) (teClock sampleStockEnv n) (tgTenants sampleStock) = Inr e" for n
      by (simp add: sampleStockContext_def inventoryContext_def sampleContext_def sample_entitled)
    show "[] \<notin> itemRowId ` set (skItems sampleStock)" by (simp add: sampleStockItem_def)
    show "beBetween (skBoot sampleStockEnv) n b = b" for n b by (simp add: sampleStockEnv_def sampleBootEnv_def)
    show "goodMac (teMac sampleStockEnv)" by (simp add: sampleStockEnv_def goodMac_def list_all_iff)
    show "teClock sampleStockEnv n < stockExpiry sampleStockEnv (teClock sampleStockEnv 2)" for n
      by (simp add: sampleStockEnv_def stockExpiry_def)
  qed simp_all
  then obtain d bk where o1: "stockDetail sampleStockEnv sampleIdentity (ssRef s) db' = Inr (StockDetailOk d (Some bk))"
    and d: "sdSummary d = s\<lparr>ssRef := []\<rparr>" by blast
  have "ssDisplayName (sdSummary d) = ''Tea''" unfolding d s by (simp add: toStockSummary_def sampleStockItem_def)
  then show ?thesis using o1 by (intro exI conjI)
qed

end
