(* ===== verification/InventoryNotifications.thy ===== *)
theory InventoryNotifications
  imports StockBrowsing
begin

text \<open>
  The Telegram alert for an item that runs low: the scheduler that captures the recipients of an alert signal
  once and queues their deliveries (\<open>backend/src/queue/inventory-notification.scheduler.ts\<close>), and the worker
  that sends them (\<open>inventory-notification.processor.ts\<close>). What other processes commit between the statements
  is a parameter of both.
\<close>

record InventoryDelivery = Delivery +
  dlItemId :: string
  dlIncidentGeneration :: nat
  dlAlertLevel :: InventoryAlertLevel
  dlPolicyVersion :: int

record AlertDb = StockDb +
  inDeliveries :: "InventoryDelivery list"

section \<open>Job data\<close>

definition validateInventoryNotificationJobData :: "json \<Rightarrow> JobError + DeliveryJobData" where
  "validateInventoryNotificationJobData v =
     andThen (case v of
        JObj r \<Rightarrow> Inr r
      | JArr xs \<Rightarrow> Inr []
      | _ \<Rightarrow> Inl (UnrecoverableError ''Inventory notification job payload must be an object'')) (\<lambda>r.
     andThen (identityField r ''deliveryId'' ''tin_''
       ''Inventory notification delivery identity is required and must be valid'') (\<lambda>d.
     andThen (identityField r ''tenantId'' ''ten_''
       ''Inventory notification tenant identity is required and must be valid'') (\<lambda>t.
     andThen (identityField r ''storeId'' ''sto_''
       ''Inventory notification Store identity is required and must be valid'') (\<lambda>s.
     Inr \<lparr>jdDeliveryId = d, jdTenantId = t, jdStoreId = s\<rparr>))))"

section \<open>The statements of the worker\<close>

definition alertPersistMessage :: string where
  "alertPersistMessage = ''Inventory notification delivery outcome persistence failed''"

definition writeAlerts :: "(InventoryDelivery list \<Rightarrow> 'a \<times> InventoryDelivery list) \<Rightarrow> AlertDb \<Rightarrow> 'a \<times> AlertDb" where
  "writeAlerts f db = map_prod id (\<lambda>rows. db\<lparr>inDeliveries := rows\<rparr>) (f (inDeliveries db))"

definition alertPersistState ::
  "DeliveryJobData \<Rightarrow> DeliveryState \<Rightarrow> string \<Rightarrow> string \<Rightarrow> AlertDb \<Rightarrow> (JobError + unit) \<times> AlertDb" where
  "alertPersistState d st cat why = writeAlerts (persistDeliveryState alertPersistMessage d st cat why)"

definition alertPersistFailure ::
  "DeliveryJobData \<Rightarrow> DeliveryState \<Rightarrow> string \<Rightarrow> string \<Rightarrow> AlertDb \<Rightarrow> (JobError + DeliveryJobResult) \<times> AlertDb" where
  "alertPersistFailure d st cat why = writeAlerts (persistDeliveryFailure alertPersistMessage d st cat why)"

definition alertMarkFailed :: "json \<Rightarrow> AlertDb \<Rightarrow> (JobError + unit) \<times> AlertDb" where
  "alertMarkFailed v db =
     (case validateInventoryNotificationJobData v of
        Inl e \<Rightarrow> (Inl e, db)
      | Inr d \<Rightarrow> (Inr (), snd (writeAlerts (updateMany (retryable d) exhaustedRow) db)))"

definition alertResolveUnclaimed ::
  "(nat \<Rightarrow> AlertDb \<Rightarrow> AlertDb) \<Rightarrow> DeliveryJobData \<Rightarrow> AlertDb \<Rightarrow> (JobError + DeliveryJobResult) \<times> AlertDb" where
  "alertResolveUnclaimed between d db =
     (case findFirst (jobWhere d) (inDeliveries db) of
        None \<Rightarrow> (Inl (UnrecoverableError ''Inventory notification delivery is unavailable for processing''), db)
      | Some r \<Rightarrow>
          if dlState r = IN_FLIGHT
          then alertPersistFailure d AMBIGUOUS ''dispatch'' ''in-flight-outcome-unknown'' (between 2 db)
          else if dlState r = DELIVERED \<or> dlState r = TERMINAL_FAILURE \<or> dlState r = AMBIGUOUS
          then (Inr (d, AlreadyFinal), db)
          else (Inl (JobError ''Inventory notification delivery could not be claimed''), db))"

section \<open>The worker\<close>

record AlertMessage =
  amChatId :: int
  amPresentation :: TelegramPresentation
  amLevel :: InventoryAlertLevel
  amDisplayName :: utf16
  amSku :: "utf16 option"
  amQuantity :: "utf16 option"
  amStockStatus :: utf16
  amThreshold :: "int option"
  amViewStockRef :: string

record AlertEnv =
  aeClock :: "nat \<Rightarrow> date"
  aeBetween :: "nat \<Rightarrow> AlertDb \<Rightarrow> AlertDb"
  aeStock :: StockEnv
  aePresentation :: "(string \<Rightarrow> bool) option"
  aeReply :: "AlertMessage \<Rightarrow> BotReply"

type_synonym alertRun = "(JobError + DeliveryJobResult) \<times> AlertDb \<times> AlertMessage list"

text \<open>An absent or empty text is left out.\<close>

definition optionalPresentation :: "string option \<Rightarrow> nat \<Rightarrow> utf16 option" where
  "optionalPresentation v n =
     (case v of None \<Rightarrow> None | Some t \<Rightarrow> if t = [] then None else Some (safePresentationValue (utf16 t) n))"

definition alertMessage :: "int \<Rightarrow> TelegramPresentation \<Rightarrow> PreparedAlert \<Rightarrow> AlertMessage" where
  "alertMessage chat pr p =
     \<lparr>amChatId = chat, amPresentation = pr, amLevel = paLevel p,
      amDisplayName = safePresentationValue (utf16 (paDisplayName p)) 255,
      amSku = optionalPresentation (paSku p) 191, amQuantity = optionalPresentation (paQuantity p) 64,
      amStockStatus = safePresentationValue (utf16 (paStockStatus p)) 32,
      amThreshold = paThreshold p, amViewStockRef = paViewStockRef p\<rparr>"

definition alertRecordOutcome ::
  "DeliveryJobData \<Rightarrow> date \<Rightarrow> date \<Rightarrow> DeliveryResult \<Rightarrow> AlertDb \<Rightarrow> (JobError + DeliveryJobResult) \<times> AlertDb" where
  "alertRecordOutcome d claimedAt now result db =
     (case result of
        DeliveredAs m \<Rightarrow>
          let persisted = writeAlerts (updateMany (claimedDelivery d claimedAt) (deliveredRow m now)) db
          in (if fst persisted \<noteq> 1 then Inl (JobError alertPersistMessage) else Inr (d, Delivered), snd persisted)
      | RetryableFailure c k \<Rightarrow>
          (case alertPersistState d RETRYABLE_FAILURE c k db of
             (Inl e, db') \<Rightarrow> (Inl e, db')
           | (Inr _, db') \<Rightarrow> (Inl (JobError ''Telegram inventory notification delivery is retryable''), db'))
      | TerminalResult c k \<Rightarrow> alertPersistFailure d TERMINAL_FAILURE c k db
      | AmbiguousResult c k \<Rightarrow> alertPersistFailure d AMBIGUOUS c k db)"

definition silentRun :: "(JobError + DeliveryJobResult) \<times> AlertDb \<Rightarrow> alertRun" where
  "silentRun p = (fst p, snd p, [])"

definition alertSend ::
  "AlertEnv \<Rightarrow> DeliveryJobData \<Rightarrow> date \<Rightarrow> Recipient \<Rightarrow> PreparedAlert \<Rightarrow> AlertDb \<Rightarrow> alertRun" where
  "alertSend env d claimedAt rp p db =
     (let db5 = aeBetween env 5 db;
          pr = (case aePresentation env of
                  Some valid \<Rightarrow> resolvePresentation valid (aeClock env 3) db5
                    \<lparr>tiUserId = rpTelegramUserId rp, tiChatId = rpTelegramChatId rp\<rparr>
                | None \<Rightarrow> DEFAULT_TELEGRAM_PRESENTATION\<lparr>prLanguage := EN\<rparr>);
          db6 = aeBetween env 6 db5
      in case currentlyActive (aeClock env 4) d db6 of
           Inl e \<Rightarrow> (Inl e, db6, [])
         | Inr active \<Rightarrow>
             if \<not> active
             then silentRun (alertPersistFailure d TERMINAL_FAILURE ''policy'' ''entitlement-inactive'' (aeBetween env 7 db6))
             else let m = alertMessage (rpTelegramChatId rp) pr p;
                      done = alertRecordOutcome d claimedAt (aeClock env 5) (sendMessage (aeReply env m)) (aeBetween env 7 db6)
                  in (fst done, snd done, [m]))"

definition stockPrepFailure :: "PreparedStock \<Rightarrow> string \<times> string" where
  "stockPrepFailure s =
     (case s of
        StockPrepUnauthorized \<Rightarrow> (''authorization'', ''inventory-notification-unauthorized'')
      | StockPrepDisabled \<Rightarrow> (''policy'', ''inventory-notification-disabled'')
      | StockPrepNotFound \<Rightarrow> (''inventory'', ''inventory-notification-not_found'')
      | StockPrepStale \<Rightarrow> (''inventory'', ''inventory-notification-stale'')
      | StockPrepOk p \<Rightarrow> ([], []))"

definition alertPrepare ::
  "AlertEnv \<Rightarrow> DeliveryJobData \<Rightarrow> date \<Rightarrow> Recipient \<Rightarrow> InventoryDelivery \<Rightarrow> AlertDb \<Rightarrow> alertRun" where
  "alertPrepare env d claimedAt rp r db =
     (case prepareStockNotification (aeStock env) rp (jdTenantId d) (jdStoreId d) (dlItemId r) (dlIncidentGeneration r)
             (dlAlertLevel r) (dlPolicyVersion r) (aeBetween env 3 db) of
        (Inl e, db') \<Rightarrow> (Inl (JobError (serviceMessage e)), db', [])
      | (Inr (StockPrepOk p), db') \<Rightarrow> alertSend env d claimedAt rp p db'
      | (Inr s, db') \<Rightarrow>
          silentRun (alertPersistFailure d TERMINAL_FAILURE (fst (stockPrepFailure s)) (snd (stockPrepFailure s))
            (aeBetween env 4 db')))"

text \<open>
  The delivery with its account and chat, which foreign keys make exist. A chat that was revoked, or changed
  since the delivery was created, is no longer the recipient.
\<close>

definition recipientInvalid :: "InventoryDelivery \<Rightarrow> ChatRow \<Rightarrow> bool" where
  "recipientInvalid r c \<longleftrightarrow> chId c \<noteq> dlTelegramChatAuthorizationId r \<or> chAccountId c \<noteq> dlTelegramAccountId r
     \<or> chRevokedAt c \<noteq> None \<or> dlCreatedAt r < chUpdatedAt c"

definition alertContext :: "AlertEnv \<Rightarrow> DeliveryJobData \<Rightarrow> date \<Rightarrow> AlertDb \<Rightarrow> alertRun" where
  "alertContext env d claimedAt db =
     (case findFirst (inFlight d) (inDeliveries db) of
        None \<Rightarrow> silentRun (alertPersistFailure d TERMINAL_FAILURE ''authorization'' ''recipient-context-invalid'' (aeBetween env 3 db))
      | Some r \<Rightarrow>
          (case (findFirst (\<lambda>a. acId a = dlTelegramAccountId r) (tgAccounts db),
                 findFirst (\<lambda>c. chId c = dlTelegramChatAuthorizationId r) (tgChats db)) of
             (Some a, Some c) \<Rightarrow>
               if recipientInvalid r c
               then silentRun (alertPersistFailure d TERMINAL_FAILURE ''authorization'' ''recipient-context-invalid'' (aeBetween env 3 db))
               else alertPrepare env d claimedAt
                      \<lparr>rpMembershipId = None, rpAccountId = dlTelegramAccountId r,
                       rpChatAuthorizationId = dlTelegramChatAuthorizationId r,
                       rpTelegramUserId = acTelegramUserId a, rpTelegramChatId = chChatId c\<rparr> r db
           | _ \<Rightarrow> (Inl (JobError ''Inconsistent query result''), db, [])))"

definition inventoryNotificationProcess :: "AlertEnv \<Rightarrow> json \<Rightarrow> AlertDb \<Rightarrow> alertRun" where
  "inventoryNotificationProcess env v db =
     (case validateInventoryNotificationJobData v of
        Inl e \<Rightarrow> (Inl e, db, [])
      | Inr d \<Rightarrow>
          let claimedAt = aeClock env 0;
              claimed = writeAlerts (updateMany (claimableDelivery d) (claimDelivery claimedAt)) (aeBetween env 0 db);
              db1 = aeBetween env 1 (snd claimed)
          in if fst claimed \<noteq> 1 then silentRun (alertResolveUnclaimed (aeBetween env) d db1)
             else case currentlyActive (aeClock env 1) d db1 of
                    Inl e \<Rightarrow> (Inl e, db1, [])
                  | Inr active \<Rightarrow>
                      if \<not> active
                      then silentRun (alertPersistFailure d TERMINAL_FAILURE ''policy'' ''entitlement-inactive'' (aeBetween env 2 db1))
                      else alertContext env d claimedAt (aeBetween env 2 db1))"

section \<open>The scheduler\<close>

text \<open>
  \<open>asnUuid n\<close> is the random id of the \<open>n\<close>-th recipient, \<open>asnQueueUp n\<close> tells whether the queue takes the \<open>n\<close>-th
  job, \<open>asnAborted\<close> whether the database aborts the transaction that captures the recipients.
\<close>

record AlertScheduleEnv =
  asnClock :: "nat \<Rightarrow> date"
  asnUuid :: "nat \<Rightarrow> string"
  asnQueueUp :: "nat \<Rightarrow> bool"
  asnAborted :: bool
  asnBetween :: "nat \<Rightarrow> AlertDb \<Rightarrow> AlertDb"

definition alertSourceOf :: "InventoryAlertLevel \<Rightarrow> ItemRow \<Rightarrow> string option" where
  "alertSourceOf level r = (case level of LOW_ALERT \<Rightarrow> lowAlertSource r | OUT_ALERT \<Rightarrow> outAlertSource r)"

definition alertCapturedOf :: "InventoryAlertLevel \<Rightarrow> ItemRow \<Rightarrow> date option" where
  "alertCapturedOf level r = (case level of LOW_ALERT \<Rightarrow> lowAlertCapturedAt r | OUT_ALERT \<Rightarrow> outAlertCapturedAt r)"

definition capturedRow :: "InventoryAlertLevel \<Rightarrow> date \<Rightarrow> ItemRow \<Rightarrow> ItemRow" where
  "capturedRow level now r =
     (case level of LOW_ALERT \<Rightarrow> r\<lparr>lowAlertCapturedAt := Some now\<rparr> | OUT_ALERT \<Rightarrow> r\<lparr>outAlertCapturedAt := Some now\<rparr>)"

definition signalItem :: "string \<Rightarrow> string \<Rightarrow> InventoryAlertSignal \<Rightarrow> ItemRow \<Rightarrow> bool" where
  "signalItem tenant store sig r \<longleftrightarrow> itemRowId r = signalItemId sig \<and> itemTenantId r = tenant \<and> itemStoreId r = store
     \<and> incidentGeneration r = signalGeneration sig"

definition signalMatches :: "InventoryAlertSignal \<Rightarrow> ItemRow \<Rightarrow> bool" where
  "signalMatches sig r \<longleftrightarrow> alertSourceOf (signalLevel sig) r = Some (signalSource sig)"

definition capturable :: "string \<Rightarrow> string \<Rightarrow> InventoryAlertSignal \<Rightarrow> ItemRow \<Rightarrow> bool" where
  "capturable tenant store sig r \<longleftrightarrow> signalItem tenant store sig r \<and> signalMatches sig r
     \<and> alertCapturedOf (signalLevel sig) r = None"

definition alertKey :: "InventoryDelivery \<Rightarrow> string \<times> nat \<times> InventoryAlertLevel \<times> string" where
  "alertKey r = (dlItemId r, dlIncidentGeneration r, dlAlertLevel r, dlTelegramChatAuthorizationId r)"

text \<open>\<open>createMany\<close> with \<open>skipDuplicates\<close>: a row that breaks a unique key is left out.\<close>

fun createAlerts :: "InventoryDelivery list \<Rightarrow> InventoryDelivery list \<Rightarrow> InventoryDelivery list" where
  "createAlerts [] rows = rows"
| "createAlerts (r # rs) rows =
     createAlerts rs (if list_ex (\<lambda>q. dlId q = dlId r \<or> alertKey q = alertKey r) rows then rows else rows @ [r])"

definition newAlert ::
  "string \<Rightarrow> date \<Rightarrow> string \<Rightarrow> string \<Rightarrow> InventoryAlertSignal \<Rightarrow> int \<Rightarrow> Recipient \<Rightarrow> InventoryDelivery" where
  "newAlert uuid now tenant store sig version rp =
     \<lparr>dlId = ''tin_'' @ uuid, dlTenantId = tenant, dlStoreId = store, dlTelegramAccountId = rpAccountId rp,
      dlTelegramChatAuthorizationId = rpChatAuthorizationId rp, dlSourceWebhookEventId = signalSource sig,
      dlState = PENDING, dlAttemptCount = 0, dlLastAttemptAt = None, dlTelegramMessageId = None,
      dlFailureCategory = None, dlFailureCode = None, dlDeliveredAt = None, dlCreatedAt = now,
      dlItemId = signalItemId sig, dlIncidentGeneration = signalGeneration sig, dlAlertLevel = signalLevel sig,
      dlPolicyVersion = version\<rparr>"

definition captureRecipients ::
  "AlertScheduleEnv \<Rightarrow> string \<Rightarrow> string \<Rightarrow> InventoryAlertSignal \<Rightarrow> InventoryDelivery list \<Rightarrow> AlertDb
     \<Rightarrow> (WorkError + unit) \<times> AlertDb" where
  "captureRecipients env tenant store sig new db =
     (if asnAborted env then (Inl (OtherWorkError ''P2034''), db)
      else
        let captured = updateMany (capturable tenant store sig) (capturedRow (signalLevel sig) (asnClock env 1)) (skItems db)
        in (Inr (), db\<lparr>skItems := snd captured,
              inDeliveries := (if fst captured \<noteq> 1 then inDeliveries db else createAlerts new (inDeliveries db))\<rparr>))"

text \<open>The recipients the policy of the store selects; \<open>eligible\<close> is read after the policy.\<close>

definition alertRecipients :: "ShopRow option \<Rightarrow> AlertDb \<Rightarrow> AlertDb \<Rightarrow> string \<Rightarrow> string \<Rightarrow> Recipient list" where
  "alertRecipients policy dbPolicy dbRecipients tenant store =
     (case policy of
        None \<Rightarrow> []
      | Some s \<Rightarrow>
          if LowStockCategory \<in> set (shEnabledCategories s)
          then selectedRecipients dbPolicy s (eligibleNotificationRecipients dbRecipients tenant store) else [])"

definition alertsFor ::
  "AlertScheduleEnv \<Rightarrow> string \<Rightarrow> string \<Rightarrow> InventoryAlertSignal \<Rightarrow> ShopRow option \<Rightarrow> Recipient list \<Rightarrow> InventoryDelivery list" where
  "alertsFor env tenant store sig policy rps =
     map (\<lambda>(rp, n). newAlert (asnUuid env n) (asnClock env 2) tenant store sig
            (case policy of Some s \<Rightarrow> shPolicyVersion s | None \<Rightarrow> 0) rp)
       (zip rps [0..<length rps])"

definition captureSelected ::
  "AlertScheduleEnv \<Rightarrow> string \<Rightarrow> string \<Rightarrow> InventoryAlertSignal \<Rightarrow> AlertDb \<Rightarrow> (WorkError + unit) \<times> AlertDb" where
  "captureSelected env tenant store sig db1 =
     (let db2 = asnBetween env 2 db1;
          policy = findFirst (settingsWhere tenant store) (tgShops db2);
          db3 = asnBetween env 3 db2
      in captureRecipients env tenant store sig
           (alertsFor env tenant store sig policy (alertRecipients policy db2 db3 tenant store)) (asnBetween env 4 db3))"

text \<open>What the scheduler does after it read the entitlement and before it turns to the queue.\<close>

definition captureStage ::
  "AlertScheduleEnv \<Rightarrow> string \<Rightarrow> string \<Rightarrow> InventoryAlertSignal \<Rightarrow> bool \<Rightarrow> bool \<Rightarrow> AlertDb \<Rightarrow> (WorkError + unit) \<times> AlertDb" where
  "captureStage env tenant store sig captured active db =
     (if captured then (Inr (), db) else if active then captureSelected env tenant store sig db
      else captureRecipients env tenant store sig [] (asnBetween env 2 db))"

definition inventoryNotificationJobId :: "string \<Rightarrow> string" where
  "inventoryNotificationJobId deliveryId = ''telegram-inventory-notification-'' @ deliveryId"

fun queueAlerts ::
  "AlertScheduleEnv \<Rightarrow> string \<Rightarrow> string \<Rightarrow> nat \<Rightarrow> string list \<Rightarrow> (WorkError + unit) \<times> queuedJob list" where
  "queueAlerts env tenant store n [] = (Inr (), [])"
| "queueAlerts env tenant store n (i # ids) =
     (if \<not> asnQueueUp env n then (Inl (OtherWorkError ''Operations queue is not running''), [])
      else map_prod id (Cons (\<lparr>jdDeliveryId = i, jdTenantId = tenant, jdStoreId = store\<rparr>, inventoryNotificationJobId i))
             (queueAlerts env tenant store (Suc n) ids))"

definition openAlert :: "string \<Rightarrow> string \<Rightarrow> InventoryAlertSignal \<Rightarrow> InventoryDelivery \<Rightarrow> bool" where
  "openAlert tenant store sig r \<longleftrightarrow> dlTenantId r = tenant \<and> dlStoreId r = store \<and> dlItemId r = signalItemId sig
     \<and> dlIncidentGeneration r = signalGeneration sig \<and> dlAlertLevel r = signalLevel sig
     \<and> dlSourceWebhookEventId r = signalSource sig \<and> (dlState r = PENDING \<or> dlState r = RETRYABLE_FAILURE)"

definition queueOpenAlerts ::
  "AlertScheduleEnv \<Rightarrow> string \<Rightarrow> string \<Rightarrow> InventoryAlertSignal \<Rightarrow> AlertDb \<Rightarrow> (WorkError + unit) \<times> AlertDb \<times> queuedJob list" where
  "queueOpenAlerts env tenant store sig db =
     (case queueAlerts env tenant store 0 (map dlId (findMany (openAlert tenant store sig) (inDeliveries db))) of
        (res, jobs) \<Rightarrow> (res, db, jobs))"

definition scheduleAlert ::
  "AlertScheduleEnv \<Rightarrow> string \<Rightarrow> string \<Rightarrow> InventoryAlertSignal \<Rightarrow> AlertDb \<Rightarrow> (WorkError + unit) \<times> AlertDb \<times> queuedJob list" where
  "scheduleAlert env tenant store sig db =
     (let db0 = asnBetween env 0 db
      in case findFirst (signalItem tenant store sig) (skItems db0) of
           None \<Rightarrow> (Inr (), db0, [])
         | Some r \<Rightarrow>
             if \<not> signalMatches sig r then (Inr (), db0, [])
             else
               let captured = (alertCapturedOf (signalLevel sig) r \<noteq> None); db1 = asnBetween env 1 db0
               in case isActive tenant (asnClock env 0) (tgTenants db1) of
                    Inl e \<Rightarrow> (Inl (OtherWorkError (serviceMessage e)), db1, [])
                  | Inr active \<Rightarrow>
                      let done = captureStage env tenant store sig captured active db1
                      in case fst done of
                           Inl e \<Rightarrow> (Inl e, snd done, [])
                         | Inr _ \<Rightarrow>
                             if active then queueOpenAlerts env tenant store sig (asnBetween env 5 (snd done))
                             else (Inr (), snd done, []))"

section \<open>The worker follows the life cycle\<close>

lemma alerts_write [simp]: "inDeliveries (snd (writeAlerts f db)) = snd (f (inDeliveries db))"
  by (simp add: writeAlerts_def)

lemma alerts_follow_failure:
  "st \<noteq> PENDING \<Longrightarrow> st \<noteq> IN_FLIGHT \<Longrightarrow>
     follows (inDeliveries db) (inDeliveries (snd (alertPersistFailure d st c k db)))"
  by (simp add: alertPersistFailure_def persistDeliveryFailure_def persistDeliveryState_def Let_def follows_persist)

lemma alerts_follow_record: "follows (inDeliveries db) (inDeliveries (snd (alertRecordOutcome d t now r db)))"
proof (cases r)
  case (RetryableFailure c k)
  have "follows (inDeliveries db) (inDeliveries (snd (alertPersistState d RETRYABLE_FAILURE c k db)))"
    by (simp add: alertPersistState_def persistDeliveryState_def Let_def follows_persist)
  with RetryableFailure show ?thesis by (auto simp: alertRecordOutcome_def split: prod.splits sum.splits)
qed (auto simp: alertRecordOutcome_def Let_def follows_delivered alerts_follow_failure)

lemma stock_prepare_keeps:
  "inDeliveries (snd (prepareStockNotification env rp t s i g l v db)) = inDeliveries db"
  by (auto simp: prepareStockNotification_def prepareStockItem_def prepareForItem_def addStockReferences_def Let_def
      split: StockResolution.splits sum.splits option.splits)

lemma fst_snd_silentRun [simp]: "fst (snd (silentRun p)) = snd p"
  by (simp add: silentRun_def)

definition alertsCooperate :: "AlertEnv \<Rightarrow> bool" where
  "alertsCooperate env \<longleftrightarrow> (\<forall>n db. follows (inDeliveries db) (inDeliveries (aeBetween env n db)))"

lemma alerts_follow_between:
  "alertsCooperate env \<Longrightarrow> follows a (inDeliveries db) \<Longrightarrow> follows a (inDeliveries (aeBetween env n db))"
  unfolding alertsCooperate_def using follows_trans by blast

lemma alerts_follow_late:
  assumes "alertsCooperate env" "st \<noteq> PENDING" "st \<noteq> IN_FLIGHT"
  shows "follows (inDeliveries db) (inDeliveries (snd (alertPersistFailure d st c k (aeBetween env n db))))"
  using follows_trans [OF alerts_follow_between [OF assms(1) follows_refl] alerts_follow_failure [OF assms(2,3)]] .

lemma alerts_follow_send:
  assumes ok: "alertsCooperate env"
  shows "follows (inDeliveries db) (inDeliveries (fst (snd (alertSend env d t rp p db))))"
proof -
  have "follows (inDeliveries db) (inDeliveries (aeBetween env n (aeBetween env 5 db)))"
    "follows (inDeliveries db) (inDeliveries (aeBetween env 7 (aeBetween env 6 (aeBetween env 5 db))))" for n
    by (intro alerts_follow_between [OF ok] follows_refl)+
  then show ?thesis
    by (auto simp: alertSend_def Let_def split: sum.splits intro: follows_trans alerts_follow_failure alerts_follow_record)
qed

lemma alerts_follow_prepare:
  assumes ok: "alertsCooperate env"
  shows "follows (inDeliveries db) (inDeliveries (fst (snd (alertPrepare env d t rp r db))))"
proof -
  obtain x db' where run: "prepareStockNotification (aeStock env) rp (jdTenantId d) (jdStoreId d) (dlItemId r)
      (dlIncidentGeneration r) (dlAlertLevel r) (dlPolicyVersion r) (aeBetween env 3 db) = (x, db')"
    by force
  with stock_prepare_keeps have "inDeliveries db' = inDeliveries (aeBetween env 3 db)" by (metis snd_conv)
  then have db': "follows (inDeliveries db) (inDeliveries db')"
    using alerts_follow_between [OF ok follows_refl] by metis
  have after: "follows (inDeliveries db) (inDeliveries (aeBetween env 4 db'))"
    using db' by (rule alerts_follow_between [OF ok])
  show ?thesis
  proof (cases x)
    case (Inr s)
    then show ?thesis
      using run db' after
      by (cases s) (auto simp: alertPrepare_def intro: follows_trans alerts_follow_failure alerts_follow_send [OF ok])
  qed (use run db' in \<open>simp add: alertPrepare_def\<close>)
qed

lemma alerts_follow_context:
  assumes ok: "alertsCooperate env"
  shows "follows (inDeliveries db) (inDeliveries (fst (snd (alertContext env d t db))))"
  using alerts_follow_late [OF ok]
  by (auto simp: alertContext_def split: option.splits
      intro: alerts_follow_prepare [OF ok])

lemma alerts_follow_unclaimed:
  assumes ok: "alertsCooperate env"
  shows "follows (inDeliveries db) (inDeliveries (snd (alertResolveUnclaimed (aeBetween env) d db)))"
  using alerts_follow_late [OF ok]
  by (auto simp: alertResolveUnclaimed_def split: option.splits)

lemma alerts_follow_process:
  assumes ok: "alertsCooperate env"
  shows "follows (inDeliveries db) (inDeliveries (fst (snd (inventoryNotificationProcess env v db))))"
proof (cases "validateInventoryNotificationJobData v")
  case (Inr d)
  let ?claimed = "writeAlerts (updateMany (claimableDelivery d) (claimDelivery (aeClock env 0))) (aeBetween env 0 db)"
  let ?db1 = "aeBetween env 1 (snd ?claimed)"
  have "follows (inDeliveries db) (inDeliveries (snd ?claimed))"
    using follows_trans [OF alerts_follow_between [OF ok follows_refl] follows_claim] by simp
  then have db1: "follows (inDeliveries db) (inDeliveries ?db1)" by (rule alerts_follow_between [OF ok])
  then have "follows (inDeliveries db) (inDeliveries (aeBetween env 2 ?db1))" by (rule alerts_follow_between [OF ok])
  with Inr db1 show ?thesis
    by (auto simp: inventoryNotificationProcess_def Let_def split: sum.splits
        intro: follows_trans alerts_follow_unclaimed [OF ok] alerts_follow_failure alerts_follow_context [OF ok])
qed (simp add: inventoryNotificationProcess_def)

interpretation alert_worker: delivery_processor
  "\<lambda>between db. fst (snd (inventoryNotificationProcess (env\<lparr>aeBetween := between\<rparr>) v db))"
  "\<lambda>db. snd (alertMarkFailed v db)" inDeliveries
proof
  show "follows (inDeliveries db) (inDeliveries (fst (snd (inventoryNotificationProcess (env\<lparr>aeBetween := between\<rparr>) v db))))"
    if "\<And>n db. follows (inDeliveries db) (inDeliveries (between n db))" for between db
    using that by (intro alerts_follow_process) (simp add: alertsCooperate_def)
  show "follows (inDeliveries db) (inDeliveries (snd (alertMarkFailed v db)))" for db
    by (simp add: alertMarkFailed_def follows_exhausted split: sum.splits)
qed

text \<open>
  The alert worker keeps the life cycle, as the order worker does: a delivery that reached a final state is
  left as it is.
\<close>

lemma alert_worker_keeps_final:
  assumes "\<And>n db. follows (inDeliveries db) (inDeliveries (aeBetween env n db))"
    and "lives (inDeliveries db) i = Some (s, n)" and "finalState s"
  shows "lives (inDeliveries (fst (snd (inventoryNotificationProcess env v db)))) i = Some (s, n)"
  using alert_worker.handle_keeps_final [of "aeBetween env" db i s n env v, OF assms] by simp

section \<open>An alert is captured once\<close>

text \<open>
  The deliveries of the incident and level of a signal, by id and key, and whether the signal's recipients
  may still be captured. Another process is calm when it leaves both as they are, and keeps the keys of the
  two tables: it restarts no incident under the same webhook and adds no delivery to it.
\<close>

definition incidentAlerts :: "InventoryAlertSignal \<Rightarrow> AlertDb \<Rightarrow> (string \<times> string \<times> nat \<times> InventoryAlertLevel \<times> string) list" where
  "incidentAlerts sig db = map (\<lambda>r. (dlId r, alertKey r)) (filter (\<lambda>r. dlItemId r = signalItemId sig
     \<and> dlIncidentGeneration r = signalGeneration sig \<and> dlAlertLevel r = signalLevel sig) (inDeliveries db))"

definition sealedSignal :: "string \<Rightarrow> string \<Rightarrow> InventoryAlertSignal \<Rightarrow> AlertDb \<Rightarrow> bool" where
  "sealedSignal tenant store sig db \<longleftrightarrow> (\<forall>r \<in> set (skItems db). \<not> capturable tenant store sig r)"

definition alertTablesOk :: "AlertDb \<Rightarrow> bool" where
  "alertTablesOk db \<longleftrightarrow> distinct (map itemRowId (skItems db)) \<and> distinct (map alertKey (inDeliveries db))"

definition calmFor :: "string \<Rightarrow> string \<Rightarrow> InventoryAlertSignal \<Rightarrow> (AlertDb \<Rightarrow> AlertDb) \<Rightarrow> bool" where
  "calmFor tenant store sig f \<longleftrightarrow> (\<forall>db. incidentAlerts sig (f db) = incidentAlerts sig db
     \<and> (sealedSignal tenant store sig db \<longrightarrow> sealedSignal tenant store sig (f db)) \<and> (alertTablesOk db \<longrightarrow> alertTablesOk (f db)))"

lemma calmForD:
  assumes "calmFor tenant store sig f"
  shows "incidentAlerts sig (f db) = incidentAlerts sig db"
    and "sealedSignal tenant store sig db \<Longrightarrow> sealedSignal tenant store sig (f db)"
    and "alertTablesOk db \<Longrightarrow> alertTablesOk (f db)"
  using assms by (simp_all add: calmFor_def)

lemma createAlerts_keys: "distinct (map alertKey rows) \<Longrightarrow> distinct (map alertKey (createAlerts new rows))"
proof (induction new arbitrary: rows)
  case (Cons r rs)
  then have "distinct (map alertKey (if list_ex (\<lambda>q. dlId q = dlId r \<or> alertKey q = alertKey r) rows then rows else rows @ [r]))"
    by (auto simp: list_ex_iff)
  then show ?case unfolding createAlerts.simps by (rule Cons.IH)
qed simp

lemma captured_columns [simp]:
  "itemRowId (capturedRow level t r) = itemRowId r" "alertCapturedOf level (capturedRow level t r) = Some t"
  by (cases level; simp add: capturedRow_def alertCapturedOf_def)+

lemma capture_tables:
  assumes "alertTablesOk db"
  shows "alertTablesOk (snd (captureRecipients env tenant store sig new db))"
proof -
  have "map itemRowId (snd (updateMany (capturable tenant store sig) (capturedRow level t) (skItems db))) = map itemRowId (skItems db)"
    for level t by (simp add: updateMany_rows)
  with assms createAlerts_keys show ?thesis by (simp add: captureRecipients_def alertTablesOk_def Let_def)
qed

lemma capture_sealed:
  assumes "sealedSignal tenant store sig db"
  shows "snd (captureRecipients env tenant store sig new db) = db"
proof -
  have "updateMany (capturable tenant store sig) f (skItems db) = (0, skItems db)" for f
    using assms by (auto simp: sealedSignal_def updateMany_def filter_empty_conv intro: map_idI)
  then show ?thesis by (simp add: captureRecipients_def Let_def)
qed

lemma capture_seals:
  assumes "fst (captureRecipients env tenant store sig new db) = Inr ()"
  shows "sealedSignal tenant store sig (snd (captureRecipients env tenant store sig new db))"
proof -
  have "\<not> capturable tenant store sig (capturedRow (signalLevel sig) t r)" for r t
    by (simp add: capturable_def)
  with assms show ?thesis
    by (auto simp: captureRecipients_def sealedSignal_def Let_def updateMany_rows split: if_splits)
qed

lemma stage_is_capture:
  assumes "\<not> captured"
  obtains new where "captureStage env tenant store sig captured active db
      = captureRecipients env tenant store sig new (if active then asnBetween env 4 (asnBetween env 3 (asnBetween env 2 db)) else asnBetween env 2 db)"
  using assms by (cases active) (auto simp: captureStage_def captureSelected_def Let_def)

lemma stage_tables:
  assumes calm: "\<And>n. calmFor tenant store sig (asnBetween env n)" and ok: "alertTablesOk db"
  shows "alertTablesOk (snd (captureStage env tenant store sig captured active db))"
proof (cases captured)
  case False
  then show ?thesis
    by (rule stage_is_capture [of captured env tenant store sig active db])
      (use capture_tables calmForD(3) [OF calm] ok in \<open>simp split: if_splits\<close>)
qed (use ok in \<open>simp add: captureStage_def\<close>)

lemma stage_sealed:
  assumes calm: "\<And>n. calmFor tenant store sig (asnBetween env n)" and sealed: "sealedSignal tenant store sig db"
  shows "incidentAlerts sig (snd (captureStage env tenant store sig captured active db)) = incidentAlerts sig db"
    and "sealedSignal tenant store sig (snd (captureStage env tenant store sig captured active db))"
proof -
  note calms = calmForD(1) [OF calm] calmForD(2) [OF calm]
  have "incidentAlerts sig (snd (captureStage env tenant store sig captured active db)) = incidentAlerts sig db
      \<and> sealedSignal tenant store sig (snd (captureStage env tenant store sig captured active db))"
  proof (cases captured)
    case False
    then show ?thesis
      by (rule stage_is_capture [of captured env tenant store sig active db])
        (use sealed in \<open>simp add: capture_sealed calms split: if_splits\<close>)
  qed (use sealed in \<open>simp add: captureStage_def\<close>)
  then show "incidentAlerts sig (snd (captureStage env tenant store sig captured active db)) = incidentAlerts sig db"
    "sealedSignal tenant store sig (snd (captureStage env tenant store sig captured active db))" by blast+
qed

lemma queueAlerts_ids: "queueAlerts env t s n ids = (res, jobs) \<Longrightarrow> set (map (\<lambda>j. jdDeliveryId (fst j)) jobs) \<subseteq> set ids"
proof (induction ids arbitrary: n res jobs)
  case (Cons i ids)
  obtain res2 jobs2 where rest: "queueAlerts env t s (Suc n) ids = (res2, jobs2)" by force
  with Cons.IH [OF rest] Cons.prems show ?case by (auto simp: image_subset_iff split: if_splits)
qed simp

lemma queueOpen_ids:
  assumes "queueOpenAlerts env t s sig db = (res, db', jobs)"
  shows "db' = db" and "set (map (\<lambda>j. jdDeliveryId (fst j)) jobs) \<subseteq> fst ` set (incidentAlerts sig db)"
proof -
  from assms obtain q where q: "queueAlerts env t s 0 (map dlId (findMany (openAlert t s sig) (inDeliveries db))) = (q, jobs)"
    and db': "db' = db" by (auto simp: queueOpenAlerts_def split: prod.splits)
  show "db' = db" by (rule db')
  have "set (map dlId (findMany (openAlert t s sig) (inDeliveries db))) \<subseteq> fst ` set (incidentAlerts sig db)"
    by (force simp: findMany_def openAlert_def incidentAlerts_def)
  with queueAlerts_ids [OF q] show "set (map (\<lambda>j. jdDeliveryId (fst j)) jobs) \<subseteq> fst ` set (incidentAlerts sig db)"
    by (rule subset_trans)
qed

lemma schedule_sealed:
  assumes calm: "\<And>n. calmFor tenant store sig (asnBetween env n)" and sealed: "sealedSignal tenant store sig db"
    and run: "scheduleAlert env tenant store sig db = (res, db', jobs)"
  shows "incidentAlerts sig db' = incidentAlerts sig db"
    and "set (map (\<lambda>j. jdDeliveryId (fst j)) jobs) \<subseteq> fst ` set (incidentAlerts sig db)"
proof -
  note calms = calmForD(1) [OF calm] calmForD(2) [OF calm]
  let ?db1 = "asnBetween env 1 (asnBetween env 0 db)"
  have one: "sealedSignal tenant store sig ?db1" "incidentAlerts sig ?db1 = incidentAlerts sig db"
    using sealed by (simp_all add: calms)
  note stage = stage_sealed [OF calm one(1)]
  have "incidentAlerts sig db' = incidentAlerts sig db
      \<and> set (map (\<lambda>j. jdDeliveryId (fst j)) jobs) \<subseteq> fst ` set (incidentAlerts sig db)"
  proof (cases "jobs = [] \<and> (db' = asnBetween env 0 db \<or> db' = ?db1
      \<or> (\<exists>c a. db' = snd (captureStage env tenant store sig c a ?db1)))")
    case True
    then show ?thesis using one(2) stage(1) by (auto simp: calms(1))
  next
    case False
    with run obtain c a where
      queue: "queueOpenAlerts env tenant store sig (asnBetween env 5 (snd (captureStage env tenant store sig c a ?db1))) = (res, db', jobs)"
      by (auto simp: scheduleAlert_def Let_def split: option.splits if_splits sum.splits)
    with queueOpen_ids [OF queue] one(2) stage(1) show ?thesis by (simp add: calms(1))
  qed
  then show "incidentAlerts sig db' = incidentAlerts sig db"
    "set (map (\<lambda>j. jdDeliveryId (fst j)) jobs) \<subseteq> fst ` set (incidentAlerts sig db)" by blast+
qed

text \<open>The row a signal names is the only one it can capture.\<close>

lemma read_item_seals:
  assumes ok: "alertTablesOk db"
    and read: "case findFirst (signalItem tenant store sig) (skItems db) of None \<Rightarrow> True
      | Some r \<Rightarrow> \<not> signalMatches sig r \<or> alertCapturedOf (signalLevel sig) r \<noteq> None"
  shows "sealedSignal tenant store sig db"
proof (cases "findFirst (signalItem tenant store sig) (skItems db)")
  case None
  then show ?thesis by (auto simp: row_simps sealedSignal_def capturable_def)
next
  case (Some r)
  from findFirst_Some [OF Some] have r: "signalItem tenant store sig r" "r \<in> set (skItems db)" by simp_all
  have "q = r" if "q \<in> set (skItems db)" "signalItem tenant store sig q" for q
    using distinct_key_eq [of itemRowId "skItems db" q r] ok that r by (simp add: alertTablesOk_def signalItem_def)
  with read Some show ?thesis by (auto simp: sealedSignal_def capturable_def)
qed

lemma schedule_seals:
  assumes calm: "\<And>n. calmFor tenant store sig (asnBetween env n)" and ok: "alertTablesOk db"
    and run: "scheduleAlert env tenant store sig db = (Inr (), db', jobs)"
  shows "sealedSignal tenant store sig db'" and "alertTablesOk db'"
proof -
  note calms = calmForD(2) [OF calm] calmForD(3) [OF calm]
  let ?db0 = "asnBetween env 0 db" and ?db1 = "asnBetween env 1 (asnBetween env 0 db)"
  have ok0: "alertTablesOk ?db0" "alertTablesOk ?db1" using ok by (simp_all add: calms)
  have "sealedSignal tenant store sig db' \<and> alertTablesOk db'"
  proof (cases "\<exists>r. findFirst (signalItem tenant store sig) (skItems ?db0) = Some r \<and> signalMatches sig r")
    case True
    then obtain r where r: "findFirst (signalItem tenant store sig) (skItems ?db0) = Some r" "signalMatches sig r" by blast
    define captured where "captured = (alertCapturedOf (signalLevel sig) r \<noteq> None)"
    from run r obtain a where stage: "fst (captureStage env tenant store sig captured a ?db1) = Inr ()"
      and db': "db' = snd (captureStage env tenant store sig captured a ?db1)
        \<or> db' = asnBetween env 5 (snd (captureStage env tenant store sig captured a ?db1))"
      by (auto simp: scheduleAlert_def Let_def captured_def split: sum.splits if_splits dest: queueOpen_ids(1))
    have "sealedSignal tenant store sig (snd (captureStage env tenant store sig captured a ?db1))"
    proof (cases captured)
      case True
      then have "sealedSignal tenant store sig ?db0"
        by (intro read_item_seals [OF ok0(1)]) (simp add: r captured_def)
      then show ?thesis using stage_sealed(2) [OF calm] calms(1) by blast
    next
      case False
      then obtain new dbc where cap: "captureStage env tenant store sig captured a ?db1 = captureRecipients env tenant store sig new dbc"
        by (rule stage_is_capture)
      show ?thesis unfolding cap by (rule capture_seals) (use stage cap in simp)
    qed
    moreover have "alertTablesOk (snd (captureStage env tenant store sig captured a ?db1))"
      by (rule stage_tables [OF calm ok0(2)])
    ultimately show ?thesis using db' by (auto simp: calms)
  next
    case False
    with read_item_seals [OF ok0(1)] have "sealedSignal tenant store sig ?db0" by (auto split: option.splits)
    moreover have "db' = ?db0" using run False by (auto simp: scheduleAlert_def Let_def split: option.splits if_splits)
    ultimately show ?thesis using ok0(1) by simp
  qed
  then show "sealedSignal tenant store sig db'" "alertTablesOk db'" by blast+
qed


section \<open>What is sent\<close>

definition outcomeState :: "DeliveryResult \<Rightarrow> DeliveryState" where
  "outcomeState r = (case settledAs r of None \<Rightarrow> DELIVERED | Some (st, c, k) \<Rightarrow> st)"

lemma record_life:
  assumes "heldClaim d t (inDeliveries db) r"
  shows "lives (inDeliveries (snd (alertRecordOutcome d t now result db))) (dlId r)
    = Some (outcomeState result, dlAttemptCount r)"
  using heldClaim_writes [OF assms]
  by (cases result)
    (auto simp: alertRecordOutcome_def alertPersistState_def alertPersistFailure_def persistDeliveryFailure_def
      persistDeliveryState_def writeAlerts_def outcomeState_def settledAs_def lives_def lifeOf_def Let_def split: sum.splits prod.splits)

lemma alerts_write_references [simp]: "skReferences (snd (writeAlerts f db)) = skReferences db"
  by (simp add: writeAlerts_def)

lemma record_references: "skReferences (snd (alertRecordOutcome d t now result db)) = skReferences db"
proof (cases result)
  case (RetryableFailure c k)
  have "skReferences (snd (alertPersistState d RETRYABLE_FAILURE c k db)) = skReferences db"
    by (simp add: alertPersistState_def)
  with RetryableFailure show ?thesis by (auto simp: alertRecordOutcome_def split: prod.splits sum.splits)
qed (simp_all add: alertRecordOutcome_def alertPersistFailure_def Let_def)

text \<open>The rights, the policy and the item behind an alert, all in one state of the database.\<close>

definition alertJustified :: "AlertDb \<Rightarrow> InventoryDelivery \<Rightarrow> InventoryContext \<Rightarrow> ItemRow \<Rightarrow> bool" where
  "alertJustified db r cx q \<longleftrightarrow>
     (\<exists>a c s. a \<in> set (tgAccounts db) \<and> acId a = dlTelegramAccountId r
        \<and> c \<in> set (tgChats db) \<and> chId c = dlTelegramChatAuthorizationId r \<and> chAccountId c = dlTelegramAccountId r
        \<and> chRevokedAt c = None \<and> chUpdatedAt c \<le> dlCreatedAt r
        \<and> stockContext db \<lparr>tiUserId = acTelegramUserId a, tiChatId = chChatId c\<rparr> = StockContext cx
        \<and> ixAccountId cx = dlTelegramAccountId r \<and> ixTenantId cx = dlTenantId r \<and> ixStoreId cx = dlStoreId r
        \<and> s \<in> set (tgShops db) \<and> policyWhere db (dlTenantId r) (dlStoreId r) s
        \<and> alertsEnabled db s (dlPolicyVersion r) (ixMembershipId cx))
     \<and> q \<in> set (skItems db) \<and> itemRowId q = dlItemId r \<and> liveItem cx q
     \<and> incidentGeneration q = dlIncidentGeneration r \<and> alertClassification q = alertClass (dlAlertLevel r)"

lemma prepared_alert:
  assumes "prepareStockNotification env rp t s i g level version db = (Inr (StockPrepOk p), db')"
  obtains cx sh q d where "stockContext db \<lparr>tiUserId = rpTelegramUserId rp, tiChatId = rpTelegramChatId rp\<rparr> = StockContext cx"
    and "stockRecipientMatches rp t s cx" "sh \<in> set (tgShops db)" "policyWhere db t s sh" "alertsEnabled db sh version (ixMembershipId cx)"
    and "q \<in> set (skItems db)" "itemRowId q = i" "liveItem cx q" "incidentGeneration q = g" "alertClassification q = alertClass level"
    and "d \<in> set (skReferences db')" "srItemId d = Some (itemRowId q)" "stockReferenceMatches d cx"
      "paViewStockRef p = stockToken (teMac env) (CHR ''v'') (srId d)" "paLevel p = level" "paDisplayName p = rowName q"
      "paQuantity p = rowQuantity q"
proof -
  from assms obtain cx sh where cx: "stockContext db \<lparr>tiUserId = rpTelegramUserId rp, tiChatId = rpTelegramChatId rp\<rparr> = StockContext cx"
    "stockRecipientMatches rp t s cx" and sh: "findFirst (policyWhere db t s) (tgShops db) = Some sh"
    "alertsEnabled db sh version (ixMembershipId cx)"
    and item: "prepareStockItem env cx i g level (shLowStockThreshold sh) db = (StockPrepOk p, db')"
    by (auto simp: prepareStockNotification_def split: StockResolution.splits if_splits sum.splits option.splits dest!: map_prod_InrD)
  from item obtain q where q: "findFirst (\<lambda>r. itemRowId r = i \<and> liveItem cx r) (skItems db) = Some q"
    "incidentGeneration q = g" "alertClassification q = alertClass level"
    and p: "prepareForItem env cx q level (shLowStockThreshold sh) db = (StockPrepOk p, db')"
    by (auto simp: prepareStockItem_def split: option.splits if_splits)
  define l where "l = stockPageReference cx 0 (teShortId env 0) (stockExpiry env (teClock env 1))"
  define d where "d = stockItemReference cx (itemRowId q) (srId l) (teShortId env 1) (stockExpiry env (teClock env 1))"
  from p have db': "db' = addStockReferences [l, d] db" and pa: "paViewStockRef p = stockToken (teMac env) (CHR ''v'') (srId d)"
    "paLevel p = level" "paDisplayName p = rowName q" "paQuantity p = rowQuantity q"
    by (auto simp: prepareForItem_def Let_def l_def d_def toStockSummary_def)
  have d: "d \<in> set (skReferences db')" "srItemId d = Some (itemRowId q)" "stockReferenceMatches d cx"
    by (simp_all add: db' addStockReferences_def) (simp_all add: d_def stockItemReference_def stockReference_def stockReferenceMatches_def)
  from findFirst_Some [OF sh(1)] findFirst_Some [OF q(1)] show thesis
    by (intro that [OF cx _ _ sh(2) _ _ _ q(2,3) d pa]) simp_all
qed

lemma send_message:
  assumes quiet: "\<And>n db. aeBetween env n db = db" and run: "alertSend env d t rp p db = (res, db', m # ms)"
  obtains pr where "ms = []" "m = alertMessage (rpTelegramChatId rp) pr p"
    and "db' = snd (alertRecordOutcome d t (aeClock env 5) (sendMessage (aeReply env m)) db)"
  using run by (auto simp: alertSend_def quiet Let_def silentRun_def split: sum.splits if_splits)

lemma process_sends:
  assumes quiet: "\<And>n db. aeBetween env n db = db" and data: "validateInventoryNotificationJobData v = Inr d"
    and run: "inventoryNotificationProcess env v db = (res, db', m # ms)"
  defines "db1 \<equiv> db\<lparr>inDeliveries := snd (updateMany (claimableDelivery d) (claimDelivery (aeClock env 0)) (inDeliveries db))\<rparr>"
  obtains r a c p db2 where "fst (updateMany (claimableDelivery d) (claimDelivery (aeClock env 0)) (inDeliveries db)) = 1"
    and "findFirst (inFlight d) (inDeliveries db1) = Some r" "a \<in> set (tgAccounts db)" "acId a = dlTelegramAccountId r"
    and "c \<in> set (tgChats db)" "\<not> recipientInvalid r c"
    and "prepareStockNotification (aeStock env) \<lparr>rpMembershipId = None, rpAccountId = dlTelegramAccountId r,
        rpChatAuthorizationId = dlTelegramChatAuthorizationId r, rpTelegramUserId = acTelegramUserId a,
        rpTelegramChatId = chChatId c\<rparr> (jdTenantId d) (jdStoreId d) (dlItemId r) (dlIncidentGeneration r)
        (dlAlertLevel r) (dlPolicyVersion r) db1 = (Inr (StockPrepOk p), db2)"
    and "ms = []" "amChatId m = chChatId c" "amLevel m = paLevel p" "amViewStockRef m = paViewStockRef p"
      "amDisplayName m = safePresentationValue (utf16 (paDisplayName p)) 255" "amQuantity m = optionalPresentation (paQuantity p) 64"
    and "db' = snd (alertRecordOutcome d (aeClock env 0) (aeClock env 5) (sendMessage (aeReply env m)) db2)"
proof -
  have db1: "snd (writeAlerts (updateMany (claimableDelivery d) (claimDelivery (aeClock env 0))) db) = db1"
    "fst (writeAlerts (updateMany (claimableDelivery d) (claimDelivery (aeClock env 0))) db)
      = fst (updateMany (claimableDelivery d) (claimDelivery (aeClock env 0)) (inDeliveries db))"
    by (simp_all add: writeAlerts_def db1_def)
  from run have one: "fst (updateMany (claimableDelivery d) (claimDelivery (aeClock env 0)) (inDeliveries db)) = 1"
    and ctx: "alertContext env d (aeClock env 0) db1 = (res, db', m # ms)"
    by (auto simp: inventoryNotificationProcess_def data quiet Let_def db1 silentRun_def split: sum.splits if_splits)
  from ctx obtain r a c where r: "findFirst (inFlight d) (inDeliveries db1) = Some r"
    and a: "findFirst (\<lambda>a. acId a = dlTelegramAccountId r) (tgAccounts db1) = Some a"
    and c: "findFirst (\<lambda>c. chId c = dlTelegramChatAuthorizationId r) (tgChats db1) = Some c" "\<not> recipientInvalid r c"
    and prep: "alertPrepare env d (aeClock env 0) \<lparr>rpMembershipId = None, rpAccountId = dlTelegramAccountId r,
        rpChatAuthorizationId = dlTelegramChatAuthorizationId r, rpTelegramUserId = acTelegramUserId a,
        rpTelegramChatId = chChatId c\<rparr> r db1 = (res, db', m # ms)"
    by (auto simp: alertContext_def silentRun_def split: option.splits if_splits)
  from prep obtain p db2 where prepared: "prepareStockNotification (aeStock env) \<lparr>rpMembershipId = None, rpAccountId = dlTelegramAccountId r,
        rpChatAuthorizationId = dlTelegramChatAuthorizationId r, rpTelegramUserId = acTelegramUserId a,
        rpTelegramChatId = chChatId c\<rparr> (jdTenantId d) (jdStoreId d) (dlItemId r) (dlIncidentGeneration r)
        (dlAlertLevel r) (dlPolicyVersion r) db1 = (Inr (StockPrepOk p), db2)"
    and send: "alertSend env d (aeClock env 0) \<lparr>rpMembershipId = None, rpAccountId = dlTelegramAccountId r,
        rpChatAuthorizationId = dlTelegramChatAuthorizationId r, rpTelegramUserId = acTelegramUserId a,
        rpTelegramChatId = chChatId c\<rparr> p db2 = (res, db', m # ms)"
    by (auto simp: alertPrepare_def quiet silentRun_def split: prod.splits sum.splits PreparedStock.splits)
  from send_message [OF quiet send] obtain pr where m: "ms = []" "m = alertMessage (chChatId c) pr p"
    "db' = snd (alertRecordOutcome d (aeClock env 0) (aeClock env 5) (sendMessage (aeReply env m)) db2)" by auto
  show thesis
    by (rule that [OF one r _ _ _ c(2) prepared m(1) _ _ _ _ _ m(3)])
      (use findFirst_Some [OF a] findFirst_Some [OF c(1)] in \<open>simp_all add: m(2) alertMessage_def db1_def\<close>)
qed

text \<open>
  C39: an alert is current when it is sent: a worker that is not disturbed sends at most one message, and only
  when the chat was not revoked or changed since the alert was captured, still resolves to this tenant and
  store, the policy version and its category and recipients still stand, and the item is not deleted and is
  in the very incident and level of the alert; the message shows the name and quantity the item has, its
  button is a reference of this chat to this item, and the delivery ends in the state the bot answered with
  one attempt more.
\<close>

theorem alert_is_current:
  assumes quiet: "\<And>n db. aeBetween env n db = db" and data: "validateInventoryNotificationJobData v = Inr d"
    and ids: "distinct (map dlId (inDeliveries db))"
    and run: "inventoryNotificationProcess env v db = (res, db', m # ms)"
  shows "ms = [] \<and> (\<exists>r cx q ref. r \<in> set (inDeliveries db) \<and> claimableDelivery d r \<and> alertJustified db r cx q
    \<and> amLevel m = dlAlertLevel r \<and> amDisplayName m = safePresentationValue (utf16 (rowName q)) 255
    \<and> amQuantity m = optionalPresentation (rowQuantity q) 64 \<and> amChatId m = ixChatId cx
    \<and> ref \<in> set (skReferences db') \<and> srItemId ref = Some (itemRowId q) \<and> stockReferenceMatches ref cx
    \<and> amViewStockRef m = stockToken (teMac (aeStock env)) (CHR ''v'') (srId ref)
    \<and> lives (inDeliveries db') (dlId r) = Some (outcomeState (sendMessage (aeReply env m)), dlAttemptCount r + 1))"
proof -
  let ?t = "aeClock env 0"
  let ?rows = "snd (updateMany (claimableDelivery d) (claimDelivery ?t) (inDeliveries db))"
  let ?db1 = "db\<lparr>inDeliveries := ?rows\<rparr>"
  from process_sends [OF quiet data run] obtain r1 a c p db2 where
    one: "fst (updateMany (claimableDelivery d) (claimDelivery ?t) (inDeliveries db)) = 1"
    and r1: "findFirst (inFlight d) (inDeliveries ?db1) = Some r1" and a: "a \<in> set (tgAccounts db)" "acId a = dlTelegramAccountId r1"
    and c: "c \<in> set (tgChats db)" "\<not> recipientInvalid r1 c"
    and prep: "prepareStockNotification (aeStock env) \<lparr>rpMembershipId = None, rpAccountId = dlTelegramAccountId r1,
        rpChatAuthorizationId = dlTelegramChatAuthorizationId r1, rpTelegramUserId = acTelegramUserId a,
        rpTelegramChatId = chChatId c\<rparr> (jdTenantId d) (jdStoreId d) (dlItemId r1) (dlIncidentGeneration r1)
        (dlAlertLevel r1) (dlPolicyVersion r1) ?db1 = (Inr (StockPrepOk p), db2)"
    and m: "ms = []" "amChatId m = chChatId c" "amLevel m = paLevel p" "amViewStockRef m = paViewStockRef p"
      "amDisplayName m = safePresentationValue (utf16 (paDisplayName p)) 255" "amQuantity m = optionalPresentation (paQuantity p) 64"
    and db': "db' = snd (alertRecordOutcome d ?t (aeClock env 5) (sendMessage (aeReply env m)) db2)" .
  from one have "filter (claimableDelivery d) (inDeliveries db) \<noteq> []" by (auto simp: updateMany_count)
  then obtain r where "r \<in> set (filter (claimableDelivery d) (inDeliveries db))" by (metis hd_in_set)
  then have r: "r \<in> set (inDeliveries db)" "claimableDelivery d r" by simp_all
  have held: "heldClaim d ?t ?rows (claimDelivery ?t r)" by (rule claim_is_held(2) [OF ids r])
  from heldClaim_writes(6) [OF held] r1 have r1: "r1 = claimDelivery ?t r" by simp
  have "inDeliveries (snd (Inr (StockPrepOk p) :: ServiceError + PreparedStock, db2)) = inDeliveries ?db1"
    unfolding prep [symmetric] by (rule stock_prepare_keeps)
  then have "inDeliveries db2 = ?rows" by simp
  then have "heldClaim d ?t (inDeliveries db2) (claimDelivery ?t r)" using held by simp
  note life = record_life [OF this, of "aeClock env 5" "sendMessage (aeReply env m)", folded db']
  have same: "TelegramDb.truncate ?db1 = TelegramDb.truncate db" "skItems ?db1 = skItems db"
    by (simp_all add: TelegramDb.truncate_def)
  note tables = same_telegram [OF same(1)]
  have row: "dlTelegramAccountId r1 = dlTelegramAccountId r" "dlItemId r1 = dlItemId r" "dlPolicyVersion r1 = dlPolicyVersion r"
    "dlIncidentGeneration r1 = dlIncidentGeneration r" "dlAlertLevel r1 = dlAlertLevel r"
    "dlAttemptCount r1 = dlAttemptCount r + 1" "dlId r1 = dlId r" "recipientInvalid r1 c = recipientInvalid r c"
    "dlTenantId r = jdTenantId d" "dlStoreId r = jdStoreId d"
    using r(2) by (simp_all add: r1 claimDelivery_def recipientInvalid_def claimableDelivery_def jobWhere_def)
  show ?thesis
  proof (rule prepared_alert [OF prep], goal_cases)
    case (1 cx sh q ref)
    note cx = 1(1) [unfolded Recipient.select_convs]
    have match: "ixAccountId cx = dlTelegramAccountId r1" "ixTenantId cx = jdTenantId d" "ixStoreId cx = jdStoreId d"
      using 1(2) by (simp_all add: stockRecipientMatches_def)
    have chat: "ixChatId cx = chChatId c"
      using cx by (auto simp: stockContext_def stockMembership_def split: option.splits list.splits if_splits)
    have "alertsEnabled ?db1 sh = alertsEnabled db sh" by (intro ext) (simp add: alertsEnabled_def tables)
    note enabled = 1(5) [unfolded this]
    have valid: "chId c = dlTelegramChatAuthorizationId r" "chAccountId c = dlTelegramAccountId r" "chRevokedAt c = None"
      "chUpdatedAt c \<le> dlCreatedAt r"
      using c(2) unfolding row(8) by (auto simp: recipientInvalid_def)
    have just: "alertJustified db r cx q"
      unfolding alertJustified_def
      by (intro conjI exI [of _ a] exI [of _ c] exI [of _ sh])
        (use a c(1) valid cx match 1(3,4,6-10) enabled row in \<open>simp_all add: tables\<close>)
    have refs: "ref \<in> set (skReferences db')" using 1(11) by (simp add: db' record_references)
    show ?case
      by (intro conjI exI [of _ r] exI [of _ cx] exI [of _ q] exI [of _ ref])
        (use m r just refs 1(12-17) row(1-7) chat life in \<open>simp_all add: claimDelivery_def\<close>)
  qed
qed

section \<open>Sample runs\<close>

definition sampleAlertShop :: ShopRow where
  "sampleAlertShop = (hd (tgShops sampleTelegram))\<lparr>shEnabledCategories := [LowStockCategory]\<rparr>"

definition sampleAlertDb :: "ItemRow \<Rightarrow> InventoryDelivery list \<Rightarrow> AlertDb" where
  "sampleAlertDb item rows = TelegramDb.extend (sampleTelegram\<lparr>tgShops := [sampleAlertShop]\<rparr>)
     \<lparr>skItems = [item], skReferences = [], skJobs = [], inDeliveries = rows\<rparr>"

definition sampleSignal :: InventoryAlertSignal where
  "sampleSignal = \<lparr>signalItemId = ''inv_1'', signalGeneration = 1, signalLevel = LOW_ALERT, signalSource = ''evt_1''\<rparr>"

definition sampleAlert :: InventoryDelivery where
  "sampleAlert = newAlert ''1'' 5 ''ten_1'' ''sto_1'' sampleSignal 0 sampleRecipient"

definition sampleAlertSchedule :: AlertScheduleEnv where
  "sampleAlertSchedule = \<lparr>asnClock = (\<lambda>n. 5), asnUuid = (\<lambda>n. ''1''), asnQueueUp = (\<lambda>n. True), asnAborted = False,
     asnBetween = (\<lambda>n db. db)\<rparr>"

definition sampleAlertEnv :: AlertEnv where
  "sampleAlertEnv = \<lparr>aeClock = int, aeBetween = (\<lambda>n db. db), aeStock = sampleStockEnv, aePresentation = None,
     aeReply = (\<lambda>m. okReply)\<rparr>"

definition sampleAlertJob :: DeliveryJobData where
  "sampleAlertJob = \<lparr>jdDeliveryId = ''tin_1'', jdTenantId = ''ten_1'', jdStoreId = ''sto_1''\<rparr>"

definition sampleAlertData :: json where
  "sampleAlertData = JObj [(''deliveryId'', JStr ''tin_1''), (''tenantId'', JStr ''ten_1''), (''storeId'', JStr ''sto_1'')]"

lemma sampleAlertData_valid: "validateInventoryNotificationJobData sampleAlertData = Inr sampleAlertJob"
  by (simp add: validateInventoryNotificationJobData_def sampleAlertData_def identityField_def identityPattern_def
      field_def sampleAlertJob_def eval_simps)

lemma sampleAlertDb_tables [simp]:
  "tgTenants (sampleAlertDb i rows) = tgTenants sampleTelegram" "tgShops (sampleAlertDb i rows) = [sampleAlertShop]"
  "tgMemberships (sampleAlertDb i rows) = tgMemberships sampleTelegram"
  "tgAccounts (sampleAlertDb i rows) = tgAccounts sampleTelegram" "tgChats (sampleAlertDb i rows) = tgChats sampleTelegram"
  "tgRecipients (sampleAlertDb i rows) = []" "skItems (sampleAlertDb i rows) = [i]" "skReferences (sampleAlertDb i rows) = []"
  "inDeliveries (sampleAlertDb i rows) = rows" "(sampleAlertDb i rows)\<lparr>inDeliveries := rows'\<rparr> = sampleAlertDb i rows'"
  "(sampleAlertDb i rows)\<lparr>skItems := [i'], inDeliveries := rows'\<rparr> = sampleAlertDb i' rows'"
  by (simp_all add: sampleAlertDb_def TelegramDb.extend_def sampleTelegram_def)

lemma sampleAlertShop_columns:
  "shId sampleAlertShop = ''sto_1''" "shTenantId sampleAlertShop = ''ten_1''" "shStatus sampleAlertShop = StoreActive"
  "shDeletedAt sampleAlertShop = None" "shRecipientMode sampleAlertShop = ALL_ELIGIBLE" "shPolicyVersion sampleAlertShop = 0"
  "shEnabledCategories sampleAlertShop = [LowStockCategory]" "shLowStockThreshold sampleAlertShop = Some 5"
  by (simp_all add: sampleAlertShop_def sampleTelegram_def)

lemma sampleAlert_alive: "tenantAlive (sampleAlertDb i rows) ''ten_1''"
  by (simp add: tenantAlive_def) (simp add: sampleTelegram_def)

lemma sampleAlert_context: "resolveContext (sampleAlertDb i rows) \<lparr>tiUserId = 77, tiChatId = 77\<rparr> = ContextOk sampleContext"
proof -
  have shops: "findMany (activeShopWhere (sampleAlertDb i rows) ''ten_1'') [sampleAlertShop] = [sampleAlertShop]"
    by (simp add: findMany_def activeShopWhere_def sampleAlertShop_columns sampleAlert_alive)
  have members: "findMany (membershipWhere (sampleAlertDb i rows) ''usr_1'') (tgMemberships sampleTelegram)
      = [hd (tgMemberships sampleTelegram)]" "mbTenantId (hd (tgMemberships sampleTelegram)) = ''ten_1''"
    "mbId (hd (tgMemberships sampleTelegram)) = ''mem_1''" "mbRole (hd (tgMemberships sampleTelegram)) = OWNER"
    using sampleAlert_alive [of i rows] by (simp_all add: sampleTelegram_def findMany_def membershipWhere_def)
  have account: "findFirst (\<lambda>a. acTelegramUserId a = 77) (tgAccounts sampleTelegram) = Some (hd (tgAccounts sampleTelegram))"
    "acDeletedAt (hd (tgAccounts sampleTelegram)) = None" "acUserId (hd (tgAccounts sampleTelegram)) = ''usr_1''"
    "acId (hd (tgAccounts sampleTelegram)) = ''tac_1''"
    by (simp_all add: sampleTelegram_def findFirst_def)
  have chat: "length (findMany (activeChat (hd (tgAccounts sampleTelegram)) 77) (tgChats sampleTelegram)) = 1"
    by (simp add: sampleTelegram_def findMany_def activeChat_def)
  show ?thesis
    by (simp add: resolveContext_def account chat resolveMembership_def members shops sampleAlertShop_columns sampleContext_def)
qed

lemma sampleAlert_eligible: "eligibleNotificationRecipients (sampleAlertDb i rows) ''ten_1'' ''sto_1'' = [sampleRecipient]"
proof -
  have "candidates (sampleAlertDb i rows) ''ten_1'' = [(hd (tgChats sampleTelegram), hd (tgAccounts sampleTelegram))]"
    by (simp add: candidates_def sampleTelegram_def) (simp add: candidateAccount_def sampleAlert_alive, simp add: sampleTelegram_def)
  moreover have "chChatId (hd (tgChats sampleTelegram)) = 77" "acTelegramUserId (hd (tgAccounts sampleTelegram)) = 77"
    "chId (hd (tgChats sampleTelegram)) = ''tca_1''" "chAccountId (hd (tgChats sampleTelegram)) = ''tac_1''"
    by (simp_all add: sampleTelegram_def)
  ultimately show ?thesis
    by (simp add: eligibleNotificationRecipients_def recipientOf_def sampleAlert_context)
      (simp add: sampleContext_def sampleRecipient_def)
qed

lemma sampleAlert_active: "isActive ''ten_1'' t (tgTenants sampleTelegram) = Inr True"
  by (simp add: isActive_def resolveTenant_def tenantWhere_def rowSummary_def toSummary_def findFirst_def
      effectiveTenantEntitlementState_def sampleTelegram_def)

text \<open>A first scheduling creates one delivery; a second one repeats its job.\<close>

lemma sampleAlert_scheduled:
  "scheduleAlert sampleAlertSchedule ''ten_1'' ''sto_1'' sampleSignal (sampleAlertDb sampleStockItem [])
     = (Inr (), sampleAlertDb (capturedRow LOW_ALERT 5 sampleStockItem) [sampleAlert],
        [(sampleAlertJob, ''telegram-inventory-notification-tin_1'')])"
proof -
  have item: "signalItem ''ten_1'' ''sto_1'' sampleSignal sampleStockItem" "signalMatches sampleSignal sampleStockItem"
    "alertCapturedOf LOW_ALERT sampleStockItem = None"
    by (simp_all add: signalItem_def signalMatches_def alertSourceOf_def alertCapturedOf_def sampleSignal_def sampleStockItem_def)
  have level: "signalLevel sampleSignal = LOW_ALERT" by (simp add: sampleSignal_def)
  have cap: "capturable ''ten_1'' ''sto_1'' sampleSignal sampleStockItem" by (simp add: capturable_def item level)
  have policy: "settingsWhere ''ten_1'' ''sto_1'' sampleAlertShop"
    by (simp add: settingsWhere_def sampleAlertShop_columns)
  have new: "alertsFor sampleAlertSchedule ''ten_1'' ''sto_1'' sampleSignal (Some sampleAlertShop) [sampleRecipient] = [sampleAlert]"
    by (simp add: alertsFor_def sampleAlert_def sampleAlertShop_columns) (simp add: sampleAlertSchedule_def)
  have selected: "captureSelected sampleAlertSchedule ''ten_1'' ''sto_1'' sampleSignal (sampleAlertDb sampleStockItem [])
      = (Inr (), sampleAlertDb (capturedRow LOW_ALERT 5 sampleStockItem) [sampleAlert])"
    using new
    by (simp add: captureSelected_def policy alertRecipients_def sampleAlertShop_columns selectedRecipients_def
        sampleAlert_eligible captureRecipients_def updateMany_def cap level sampleAlertSchedule_def)
  have opens: "openAlert ''ten_1'' ''sto_1'' sampleSignal sampleAlert" "dlId sampleAlert = ''tin_1''"
    by (simp_all add: openAlert_def sampleAlert_def newAlert_def)
  show ?thesis
    using selected item level
    by (simp add: scheduleAlert_def captureStage_def findFirst_def sampleAlert_active queueOpenAlerts_def findMany_def opens
        inventoryNotificationJobId_def sampleAlertJob_def sampleAlertSchedule_def)
qed


lemma sampleAlert_row:
  "claimableDelivery sampleAlertJob sampleAlert" "dlTelegramAccountId sampleAlert = ''tac_1''"
  "dlTelegramChatAuthorizationId sampleAlert = ''tca_1''" "dlCreatedAt sampleAlert = 5" "dlItemId sampleAlert = ''inv_1''"
  "dlIncidentGeneration sampleAlert = 1" "dlAlertLevel sampleAlert = LOW_ALERT" "dlPolicyVersion sampleAlert = 0"
  by (simp_all add: claimableDelivery_def jobWhere_def sampleAlertJob_def sampleAlert_def newAlert_def sampleRecipient_def
      sampleSignal_def)

lemma sampleAlert_prepares:
  "\<exists>p db'. prepareStockNotification sampleStockEnv \<lparr>rpMembershipId = None, rpAccountId = ''tac_1'', rpChatAuthorizationId = ''tca_1'',
      rpTelegramUserId = 77, rpTelegramChatId = 77\<rparr> ''ten_1'' ''sto_1'' ''inv_1'' 1 LOW_ALERT 0
      (sampleAlertDb sampleStockItem rows) = (Inr (StockPrepOk p), db') \<and> inDeliveries db' = rows \<and> tgTenants db' = tgTenants sampleTelegram"
proof -
  have cx: "stockContext (sampleAlertDb sampleStockItem rows) \<lparr>tiUserId = 77, tiChatId = 77\<rparr> = StockContext sampleStockContext"
    by (simp add: stockContext_resolves sampleAlert_context stockResolution_def sampleStockContext_def)
  have ix: "ixAccountId sampleStockContext = ''tac_1''" "ixTenantId sampleStockContext = ''ten_1''" "ixStoreId sampleStockContext = ''sto_1''"
    by (simp_all add: sampleStockContext_def inventoryContext_def sampleContext_def)
  have policy: "policyWhere (sampleAlertDb sampleStockItem rows) ''ten_1'' ''sto_1'' sampleAlertShop"
    by (simp add: policyWhere_def sampleAlertShop_columns sampleAlert_alive)
  have enabled: "alertsEnabled (sampleAlertDb sampleStockItem rows) sampleAlertShop 0 m" for m
    by (simp add: alertsEnabled_def sampleAlertShop_columns recipientSelected_def)
  have item: "itemRowId sampleStockItem = ''inv_1''" "liveItem sampleStockContext sampleStockItem"
    "incidentGeneration sampleStockItem = 1" "alertClassification sampleStockItem = LOW_STOCK"
    by (simp_all add: liveItem_def ix) (simp_all add: sampleStockItem_def)
  show ?thesis
    by (simp add: prepareStockNotification_def cx stockRecipientMatches_def ix sample_entitled policy enabled prepareStockItem_def
        item alertClass_def prepareForItem_def Let_def addStockReferences_def)
qed

lemma sampleAlert_sent:
  "\<exists>res db' m ms. inventoryNotificationProcess sampleAlertEnv sampleAlertData (sampleAlertDb sampleStockItem [sampleAlert])
     = (res, db', m # ms)"
proof -
  let ?r = "claimDelivery 0 sampleAlert"
  let ?db1 = "sampleAlertDb sampleStockItem [?r]"
  have claimed: "writeAlerts (updateMany (claimableDelivery sampleAlertJob) (claimDelivery 0)) (sampleAlertDb sampleStockItem [sampleAlert])
      = (1, ?db1)"
    by (simp add: writeAlerts_def updateMany_def sampleAlert_row)
  have flight: "inFlight sampleAlertJob ?r"
    using sampleAlert_row(1) by (simp add: inFlight_def claimableDelivery_def jobWhere_def claimDelivery_def)
  have columns: "dlTelegramAccountId ?r = ''tac_1''" "dlTelegramChatAuthorizationId ?r = ''tca_1''" "dlItemId ?r = ''inv_1''"
    "dlIncidentGeneration ?r = 1" "dlAlertLevel ?r = LOW_ALERT" "dlPolicyVersion ?r = 0" "dlCreatedAt ?r = 5"
    using sampleAlert_row by (simp_all add: claimDelivery_def)
  have account: "findFirst (\<lambda>a. acId a = ''tac_1'') (tgAccounts sampleTelegram) = Some (hd (tgAccounts sampleTelegram))"
    "acTelegramUserId (hd (tgAccounts sampleTelegram)) = 77"
    "findFirst (\<lambda>c. chId c = ''tca_1'') (tgChats sampleTelegram) = Some (hd (tgChats sampleTelegram))"
    "chChatId (hd (tgChats sampleTelegram)) = 77" "\<not> recipientInvalid ?r (hd (tgChats sampleTelegram))"
    using columns by (simp_all add: sampleTelegram_def findFirst_def recipientInvalid_def)
  have job: "jdTenantId sampleAlertJob = ''ten_1''" "jdStoreId sampleAlertJob = ''sto_1''" by (simp_all add: sampleAlertJob_def)
  from sampleAlert_prepares [of "[?r]"] obtain p db2 where
    prep: "prepareStockNotification sampleStockEnv \<lparr>rpMembershipId = None, rpAccountId = ''tac_1'', rpChatAuthorizationId = ''tca_1'',
      rpTelegramUserId = 77, rpTelegramChatId = 77\<rparr> ''ten_1'' ''sto_1'' ''inv_1'' 1 LOW_ALERT 0 ?db1 = (Inr (StockPrepOk p), db2)"
    "tgTenants db2 = tgTenants sampleTelegram" by blast
  have env: "aeClock sampleAlertEnv = int" "aeBetween sampleAlertEnv = (\<lambda>n db. db)" "aeStock sampleAlertEnv = sampleStockEnv"
    "aePresentation sampleAlertEnv = None"
    by (simp_all add: sampleAlertEnv_def)
  have active: "currentlyActive t sampleAlertJob db = Inr True" if "tgTenants db = tgTenants sampleTelegram" for t and db :: AlertDb
    by (simp add: currentlyActive_def job that sampleAlert_active)
  have prepared: "prepareStockNotification (aeStock sampleAlertEnv) \<lparr>rpMembershipId = None, rpAccountId = dlTelegramAccountId ?r,
      rpChatAuthorizationId = dlTelegramChatAuthorizationId ?r, rpTelegramUserId = acTelegramUserId (hd (tgAccounts sampleTelegram)),
      rpTelegramChatId = chChatId (hd (tgChats sampleTelegram))\<rparr> (jdTenantId sampleAlertJob) (jdStoreId sampleAlertJob) (dlItemId ?r)
      (dlIncidentGeneration ?r) (dlAlertLevel ?r) (dlPolicyVersion ?r) ?db1 = (Inr (StockPrepOk p), db2)"
    unfolding env columns account job by (rule prep(1))
  have "inventoryNotificationProcess sampleAlertEnv sampleAlertData (sampleAlertDb sampleStockItem [sampleAlert])
      = alertContext sampleAlertEnv sampleAlertJob 0 ?db1"
    by (simp add: inventoryNotificationProcess_def sampleAlertData_valid env claimed active Let_def)
  also have "\<dots> = alertPrepare sampleAlertEnv sampleAlertJob 0 \<lparr>rpMembershipId = None, rpAccountId = dlTelegramAccountId ?r,
      rpChatAuthorizationId = dlTelegramChatAuthorizationId ?r, rpTelegramUserId = acTelegramUserId (hd (tgAccounts sampleTelegram)),
      rpTelegramChatId = chChatId (hd (tgChats sampleTelegram))\<rparr> ?r ?db1"
    by (simp add: alertContext_def flight columns(1,2) account)
  also have "\<dots> = alertSend sampleAlertEnv sampleAlertJob 0 \<lparr>rpMembershipId = None, rpAccountId = dlTelegramAccountId ?r,
      rpChatAuthorizationId = dlTelegramChatAuthorizationId ?r, rpTelegramUserId = acTelegramUserId (hd (tgAccounts sampleTelegram)),
      rpTelegramChatId = chChatId (hd (tgChats sampleTelegram))\<rparr> p db2"
    using prepared by (simp add: alertPrepare_def env(2))
  finally show ?thesis by (simp add: alertSend_def env active prep(2) Let_def)
qed

theorem alert_is_current_witness:
  "\<exists>res m db' r cx q. inventoryNotificationProcess sampleAlertEnv sampleAlertData (sampleAlertDb sampleStockItem [sampleAlert])
       = (res, db', [m]) \<and> alertJustified (sampleAlertDb sampleStockItem [sampleAlert]) r cx q
     \<and> amLevel m = dlAlertLevel r \<and> itemRowId q = ''inv_1''"
proof -
  obtain res db' m ms where run: "inventoryNotificationProcess sampleAlertEnv sampleAlertData
      (sampleAlertDb sampleStockItem [sampleAlert]) = (res, db', m # ms)"
    using sampleAlert_sent by blast
  have quiet: "aeBetween sampleAlertEnv n db = db" for n db by (simp add: sampleAlertEnv_def)
  have ids: "distinct (map dlId (inDeliveries (sampleAlertDb sampleStockItem [sampleAlert])))" by simp
  from alert_is_current [OF quiet sampleAlertData_valid ids run] obtain r cx q where
    "ms = []" "alertJustified (sampleAlertDb sampleStockItem [sampleAlert]) r cx q" "amLevel m = dlAlertLevel r" by blast
  moreover from this(2) have "q = sampleStockItem" by (simp add: alertJustified_def)
  then have "itemRowId q = ''inv_1''" by (simp add: sampleStockItem_def)
  ultimately show ?thesis using run by blast
qed

end
