(* ===== verification/PayloadMinimizer.thy ===== *)
theory PayloadMinimizer
  imports OrderMapper
begin

text \<open>
  \<open>backend/src/webhooks/webhook-payload-minimizer.ts\<close>: what is kept of a verified webhook body
  before it is stored. The lemmas relate it to the order mapper: minimising is idempotent, keeps
  only listed fields, and loses nothing the mapper reads.
\<close>

definition ORDER_FIELDS :: "string list" where
  "ORDER_FIELDS = [''id'', ''number'', ''status'', ''currency'', ''discount_total'',
     ''discount_tax'', ''shipping_total'', ''shipping_tax'', ''cart_tax'', ''total'', ''total_tax'',
     ''payment_method'', ''payment_method_title'', ''date_paid_gmt'', ''date_paid'',
     ''date_created_gmt'', ''date_modified_gmt'']"

definition BILLING_FIELDS :: "string list" where
  "BILLING_FIELDS = [''first_name'', ''last_name'', ''company'']"

definition SHIPPING_FIELDS :: "string list" where
  "SHIPPING_FIELDS = [''company'', ''address_1'', ''address_2'', ''city'', ''state'', ''postcode'',
     ''country'']"

definition LINE_ITEM_FIELDS :: "string list" where
  "LINE_ITEM_FIELDS = [''name'', ''quantity'', ''total'']"

definition SHIPPING_LINE_FIELDS :: "string list" where
  "SHIPPING_LINE_FIELDS = [''method_id'', ''method_title'']"

definition INVENTORY_FIELDS :: "string list" where
  "INVENTORY_FIELDS = [''id'', ''parent_id'', ''type'', ''manage_stock'', ''stock_status'',
     ''stock_quantity'', ''sku'', ''name'', ''date_modified_gmt'', ''variations'']"

definition ATTRIBUTE_FIELDS :: "string list" where
  "ATTRIBUTE_FIELDS = [''name'', ''option'']"

definition asRecord :: "json option \<Rightarrow> jsobject option" where
  "asRecord v = (case v of Some (JObj r) \<Rightarrow> Some r | _ \<Rightarrow> None)"

definition scalar :: "json option \<Rightarrow> json option" where
  "scalar v =
     (case v of
        Some JNull \<Rightarrow> v | Some (JStr _) \<Rightarrow> v | Some (JBool _) \<Rightarrow> v
      | Some (JNum n) \<Rightarrow> if isFinite n then v else None
      | _ \<Rightarrow> None)"

fun pickInto :: "jsobject \<Rightarrow> string list \<Rightarrow> jsobject \<Rightarrow> jsobject" where
  "pickInto src [] acc = acc"
| "pickInto src (f # fs) acc =
     pickInto src fs (case scalar (field src f) of None \<Rightarrow> acc | Some v \<Rightarrow> setField f v acc)"

definition pick :: "jsobject \<Rightarrow> string list \<Rightarrow> jsobject" where
  "pick src fs = pickInto src fs []"

definition pickedRecord :: "json option \<Rightarrow> string list \<Rightarrow> json" where
  "pickedRecord v fs = JObj (pick (case asRecord v of None \<Rightarrow> [] | Some r \<Rightarrow> r) fs)"

definition pickedArray :: "json option \<Rightarrow> string list \<Rightarrow> json" where
  "pickedArray v fs =
     (case v of
        Some (JArr xs) \<Rightarrow>
          JArr (concat (map (\<lambda>x. case asRecord (Some x) of
                               Some src \<Rightarrow> [JObj (pick src fs)] | None \<Rightarrow> []) xs))
      | _ \<Rightarrow> JArr [])"

definition keptVariation :: "json \<Rightarrow> json list" where
  "keptVariation x =
     (case scalar (Some x) of
        Some (JNum n) \<Rightarrow> [JNum n] | Some (JStr s) \<Rightarrow> [JStr s] | _ \<Rightarrow> [])"

definition minimizeWebhookPayload :: "string \<Rightarrow> json \<Rightarrow> jsobject" where
  "minimizeWebhookPayload topic value =
     (case asRecord (Some value) of
        None \<Rightarrow> []
      | Some source \<Rightarrow>
          if startsWith ''order.'' topic then
            (let result = pick source ORDER_FIELDS in
             if topic \<noteq> ''order.deleted'' then
               setField ''shipping_lines'' (pickedArray (field source ''shipping_lines'') SHIPPING_LINE_FIELDS)
                 (setField ''line_items'' (pickedArray (field source ''line_items'') LINE_ITEM_FIELDS)
                   (setField ''shipping'' (pickedRecord (field source ''shipping'') SHIPPING_FIELDS)
                     (setField ''billing'' (pickedRecord (field source ''billing'') BILLING_FIELDS)
                       result)))
             else result)
          else if startsWith ''product.'' topic \<or> startsWith ''variation.'' topic then
            (let result = setField ''attributes'' (pickedArray (field source ''attributes'') ATTRIBUTE_FIELDS)
                            (pick source INVENTORY_FIELDS) in
             case field source ''variations'' of
               Some (JArr vs) \<Rightarrow> setField ''variations'' (JArr (concat (map keptVariation vs))) result
             | _ \<Rightarrow> result)
          else pick source [''id''])"

section \<open>Reading a picked record\<close>

lemma scalar_idem [simp]: "scalar (scalar v) = scalar v"
  by (auto simp: scalar_def split: option.splits json.splits)

lemma scalar_None [simp]: "scalar None = None"
  by (simp add: scalar_def)

lemma field_pickInto:
  "field (pickInto src fs acc) k =
     (if k \<in> set fs \<and> scalar (field src k) \<noteq> None then scalar (field src k) else field acc k)"
  by (induction fs arbitrary: acc) (auto split: option.splits)

lemma field_pick [simp]:
  "field (pick src fs) k = (if k \<in> set fs then scalar (field src k) else None)"
  by (simp add: pick_def field_pickInto)

lemma pickInto_cong:
  "(\<And>k. k \<in> set fs \<Longrightarrow> scalar (field src k) = scalar (field src' k)) \<Longrightarrow>
   pickInto src fs acc = pickInto src' fs acc"
  by (induction fs arbitrary: acc) simp_all

lemma pick_cong:
  "(\<And>k. k \<in> set fs \<Longrightarrow> scalar (field src k) = scalar (field src' k)) \<Longrightarrow> pick src fs = pick src' fs"
  unfolding pick_def by (rule pickInto_cong)

lemma pick_pick [simp]: "set fs \<subseteq> set gs \<Longrightarrow> pick (pick src gs) fs = pick src fs"
  by (rule pick_cong) auto

lemma keys_setField: "fst ` set (setField k v r) = insert k (fst ` set r)"
  by (induction k v r rule: setField.induct) (simp_all add: insert_commute)

lemma keys_pickInto: "fst ` set (pickInto src fs acc) \<subseteq> set fs \<union> fst ` set acc"
proof (induction fs arbitrary: acc)
  case (Cons f fs)
  have "fst ` set (case scalar (field src f) of None \<Rightarrow> acc | Some v \<Rightarrow> setField f v acc)
      \<subseteq> insert f (fst ` set acc)"
    by (cases "scalar (field src f)") (simp_all only: option.case keys_setField subset_insertI order_refl)
  with Cons [of "case scalar (field src f) of None \<Rightarrow> acc | Some v \<Rightarrow> setField f v acc"]
  show ?case by (simp only: pickInto.simps) (rule subset_trans, assumption, auto)
qed simp

lemma keys_pick: "fst ` set (pick src fs) \<subseteq> set fs"
  using keys_pickInto [of src fs "[]"] by (simp add: pick_def)

lemma pickedRecord_idem [simp]:
  "pickedRecord (Some (pickedRecord v fs)) fs = pickedRecord v fs"
  by (simp add: pickedRecord_def asRecord_def)

lemma pickedArray_idem [simp]:
  "pickedArray (Some (pickedArray v fs)) fs = pickedArray v fs"
proof (cases "\<exists>xs. v = Some (JArr xs)")
  case True
  then obtain xs where v: "v = Some (JArr xs)" by blast
  have "concat (map (\<lambda>x. case asRecord (Some x) of Some src \<Rightarrow> [JObj (pick src fs)] | None \<Rightarrow> [])
      (concat (map (\<lambda>x. case asRecord (Some x) of Some src \<Rightarrow> [JObj (pick src fs)] | None \<Rightarrow> []) xs)))
    = concat (map (\<lambda>x. case asRecord (Some x) of Some src \<Rightarrow> [JObj (pick src fs)] | None \<Rightarrow> []) xs)"
    by (induction xs) (auto simp: asRecord_def split: option.splits json.splits)
  then show ?thesis by (simp add: pickedArray_def v)
qed (auto simp: pickedArray_def split: option.splits json.splits)

lemma keptVariation_idem [simp]:
  "concat (map keptVariation (concat (map keptVariation vs))) = concat (map keptVariation vs)"
  by (induction vs) (auto simp: keptVariation_def scalar_def split: json.splits)

section \<open>Minimising twice\<close>

lemma pickedArray_JArr: "\<exists>ys. pickedArray v fs = JArr ys"
  by (auto simp: pickedArray_def split: option.splits json.splits)

lemma scalar_composite [simp]: "scalar (Some (JArr xs)) = None" "scalar (Some (JObj r)) = None"
  by (simp_all add: scalar_def)

lemma scalar_not_composite [simp]: "scalar v \<noteq> Some (JArr xs)" "scalar v \<noteq> Some (JObj r)"
  by (auto simp: scalar_def split: option.splits json.splits)

lemma scalar_pickedArray [simp]: "scalar (Some (pickedArray v fs)) = None"
  using pickedArray_JArr [of v fs] by auto

lemma scalar_pickedRecord [simp]: "scalar (Some (pickedRecord v fs)) = None"
  by (simp add: pickedRecord_def)

lemma asRecord_JObj [simp]: "asRecord (Some (JObj r)) = Some r"
  by (simp add: asRecord_def)

text \<open>
  Minimising is idempotent: scrubbing a stored payload again (the cleanup of old rows runs the
  same function) changes nothing, on every topic and every object payload.
\<close>

theorem minimize_idempotent:
  "minimizeWebhookPayload t (JObj (minimizeWebhookPayload t (JObj r))) =
   minimizeWebhookPayload t (JObj r)"
proof -
  let ?m = "minimizeWebhookPayload t (JObj r)"
  consider (order) "startsWith ''order.'' t"
    | (stock) "\<not> startsWith ''order.'' t" "startsWith ''product.'' t \<or> startsWith ''variation.'' t"
    | (other) "\<not> startsWith ''order.'' t" "\<not> (startsWith ''product.'' t \<or> startsWith ''variation.'' t)"
    by blast
  then show ?thesis
  proof cases
    case order
    have "pick ?m ORDER_FIELDS = pick r ORDER_FIELDS"
      by (rule pick_cong) (use order in \<open>auto simp: minimizeWebhookPayload_def Let_def ORDER_FIELDS_def\<close>)
    with order show ?thesis
      by (simp add: minimizeWebhookPayload_def [of t "JObj r"]
          minimizeWebhookPayload_def [of t "JObj (_ :: jsobject)"] Let_def)
  next
    case stock
    have "pick ?m INVENTORY_FIELDS = pick r INVENTORY_FIELDS"
      by (rule pick_cong) (use stock in \<open>auto simp: minimizeWebhookPayload_def Let_def
          INVENTORY_FIELDS_def split: option.splits json.splits\<close>)
    with stock show ?thesis
      by (auto simp: minimizeWebhookPayload_def [of t "JObj r"]
          minimizeWebhookPayload_def [of t "JObj (_ :: jsobject)"] Let_def INVENTORY_FIELDS_def
          split: option.splits json.splits)
  next
    case other
    then show ?thesis by (simp add: minimizeWebhookPayload_def)
  qed
qed

section \<open>The minimiser loses nothing the order mapper reads\<close>

lemma displayValue_scalar [simp]: "displayValue (scalar v) = displayValue v"
  by (auto simp: displayValue_def scalar_def split: option.splits json.splits)

lemma scalar_displayValue: "displayValue v \<Longrightarrow> scalar v = v"
  by (auto simp: displayValue_def scalar_def split: option.splits json.splits if_splits)

lemma pickDisplayFields_pick:
  "set fs \<subseteq> set gs \<Longrightarrow> pickDisplayFields (pick r gs) fs = pickDisplayFields r fs"
  by (induction fs) (auto simp: scalar_displayValue)

lemma scalar_requireString: "requireString v c i = Inr s \<Longrightarrow> requireString (scalar v) c i = Inr s"
  by (auto simp: requireString_Inr scalar_def)

lemma scalar_requireDisplayString:
  "requireDisplayString v c i = Inr s \<Longrightarrow> requireDisplayString (scalar v) c i = Inr s"
  by (auto simp: requireDisplayString_def requireString_def scalar_def isFinite_def
      split: option.splits json.splits jsnum.splits if_splits)

lemma scalar_requireGmtDate: "requireGmtDate v c i = Inr t \<Longrightarrow> requireGmtDate (scalar v) c i = Inr t"
  by (auto simp: requireGmtDate_def scalar_def split: option.splits json.splits)

lemma scalar_normalizeOptionalString:
  "normalizeOptionalString v i = Inr s \<Longrightarrow> normalizeOptionalString (scalar v) i = Inr s"
  by (auto simp: normalizeOptionalString_def scalar_def split: option.splits json.splits)

lemma scalar_hasPaidDate:
  "hasPaidDate (nullish v w) i = Inr b \<Longrightarrow> hasPaidDate (nullish (scalar v) (scalar w)) i = Inr b"
  by (auto simp: hasPaidDate_def nullish_def scalar_def split: option.splits json.splits)

lemma scalar_normalizeWcId: "wcIdPattern (normalizeWcId v) \<Longrightarrow> normalizeWcId (scalar v) = normalizeWcId v"
  by (auto simp: normalizeWcId_def scalar_def wcIdPattern_def isFinite_def
      split: option.splits json.splits jsnum.splits)

lemma scalar_mapPayment:
  assumes ok: "mapPayment r i = Inr p"
    and m: "\<And>k. k \<in> {''payment_method'', ''payment_method_title'', ''date_paid_gmt'', ''date_paid''} \<Longrightarrow>
      field m k = scalar (field r k)"
  shows "mapPayment m i = Inr p"
proof -
  from ok obtain a b c where
    "normalizeOptionalString (field r ''payment_method'') i = Inr a"
    "normalizeOptionalString (field r ''payment_method_title'') i = Inr b"
    "hasPaidDate (nullish (field r ''date_paid_gmt'') (field r ''date_paid'')) i = Inr c"
    "canonicalizeJson (JObj [(''method'', a), (''method_title'', b), (''paid'', JBool c)]) = Inr p"
    unfolding mapPayment_def andThen_Inr_iff by blast
  then show ?thesis
    by (simp add: mapPayment_def m scalar_normalizeOptionalString scalar_hasPaidDate
        del: canonicalizeJson.simps)
qed

text \<open>Totals: a projection exists only when the copied totals are finite.\<close>

lemma readTotals_frame:
  "readTotals r i fs acc = Inr ts \<Longrightarrow> f \<notin> set fs \<Longrightarrow> field ts f = field acc f"
  by (induction fs arbitrary: acc) (auto split: option.splits json.splits)

lemma readTotals_fields:
  "readTotals r i fs acc = Inr ts \<Longrightarrow> distinct fs \<Longrightarrow> f \<in> set fs \<Longrightarrow>
   field ts f = field r f \<and> (\<exists>s n. field r f = Some (JStr s) \<or> field r f = Some (JNum n))"
  by (induction fs arbitrary: acc) (auto dest: readTotals_frame split: option.splits json.splits)

lemma readTotals_cong:
  "(\<And>f. f \<in> set fs \<Longrightarrow> field m f = field r f) \<Longrightarrow> readTotals m i fs acc = readTotals r i fs acc"
  by (induction fs arbitrary: acc) (auto split: option.splits json.splits)

lemma canonicalizeJson_field:
  assumes "canonicalizeJson (JObj r) = Inr c" and "field r k = Some v"
  shows "\<exists>w. canonicalizeJson v = Inr w"
proof -
  from assms(2) have "(k, v) \<in> set (sort_key fst r)" by (simp add: field_def map_of_SomeD)
  moreover from assms(1) obtain ys where
    "mapThrow (\<lambda>p. andThen (canonicalizeJson (snd p)) (\<lambda>v. Inr (fst p, v))) (sort_key fst r) = Inr ys"
    by (auto simp: andThen_Inr_iff)
  ultimately show ?thesis by (auto simp: andThen_Inr_iff dest: mapThrow_memberD)
qed

lemma scalar_totals:
  assumes "readTotals r i TOTAL_FIELDS [] = Inr ts" and "canonicalizeJson (JObj ts) = Inr c"
    and "\<And>f. f \<in> set TOTAL_FIELDS \<Longrightarrow> field m f = scalar (field r f)"
  shows "readTotals m i TOTAL_FIELDS [] = Inr ts"
proof -
  have "scalar (field r f) = field r f" if f: "f \<in> set TOTAL_FIELDS" for f
  proof -
    have "distinct TOTAL_FIELDS" by (simp add: TOTAL_FIELDS_def)
    from readTotals_fields [OF assms(1) this f]
    obtain s n where "field ts f = field r f" "field r f = Some (JStr s) \<or> field r f = Some (JNum n)"
      by blast
    with canonicalizeJson_field [OF assms(2)] show ?thesis
      by (fastforce simp: scalar_def split: if_splits)
  qed
  with assms show ?thesis by (metis readTotals_cong)
qed

lemma pickedArray_records:
  assumes "mapThrow f xs = Inr ys" and "\<And>x y. f x = Inr y \<Longrightarrow> \<exists>r. x = JObj r"
    and "\<And>r y. f (JObj r) = Inr y \<Longrightarrow> f (JObj (pick r fs)) = Inr y"
  shows "\<exists>xs'. pickedArray (Some (JArr xs)) fs = JArr xs' \<and> mapThrow f xs' = Inr ys"
  using assms(1)
proof (induction xs arbitrary: ys)
  case (Cons x xs)
  then obtain y ys' where y: "f x = Inr y" "mapThrow f xs = Inr ys'" "ys = y # ys'"
    by (auto simp: andThen_Inr_iff)
  with assms(2) obtain r where r: "x = JObj r" by blast
  from Cons.IH [OF y(2)] show ?case using y r assms(3) by (auto simp: pickedArray_def)
qed (simp add: pickedArray_def)

lemma lineItems_pick:
  "pickDisplayFields (pick r LINE_ITEM_FIELDS) lineItemFields = pickDisplayFields r lineItemFields"
  by (rule pickDisplayFields_pick) (simp add: lineItemFields_def LINE_ITEM_FIELDS_def)

lemma mapLineItem_pick: "mapLineItem i (JObj r) = Inr y \<Longrightarrow> mapLineItem i (JObj (pick r LINE_ITEM_FIELDS)) = Inr y"
  by (simp add: mapLineItem_def requireRecord_def lineItems_pick)

lemma mapLineItem_record: "mapLineItem i x = Inr y \<Longrightarrow> \<exists>r. x = JObj r"
  by (auto simp: mapLineItem_def requireRecord_def andThen_Inr_iff split: json.splits)

lemma mapShippingLine_pick:
  assumes "mapShippingLine i (JObj r) = Inr y"
  shows "mapShippingLine i (JObj (pick r SHIPPING_LINE_FIELDS)) = Inr y"
proof -
  from assms obtain a b where
    "normalizeOptionalString (field r ''method_id'') i = Inr a"
    "normalizeOptionalString (field r ''method_title'') i = Inr b"
    "y = JObj [(''method_id'', a), (''method_title'', b)]"
    by (auto simp: mapShippingLine_def requireRecord_def andThen_Inr_iff)
  then show ?thesis
    by (simp add: mapShippingLine_def requireRecord_def SHIPPING_LINE_FIELDS_def scalar_normalizeOptionalString)
qed

lemma mapShippingLine_record: "mapShippingLine i x = Inr y \<Longrightarrow> \<exists>r. x = JObj r"
  by (auto simp: mapShippingLine_def requireRecord_def andThen_Inr_iff split: json.splits)

lemma pickedArray_line_items:
  assumes "mapThrow (mapLineItem i) xs = Inr ys"
  shows "\<exists>xs'. pickedArray (Some (JArr xs)) LINE_ITEM_FIELDS = JArr xs' \<and> mapThrow (mapLineItem i) xs' = Inr ys"
  using assms mapLineItem_record mapLineItem_pick by (rule pickedArray_records)

lemma pickedArray_shipping_lines:
  assumes "mapThrow (mapShippingLine i) xs = Inr ys"
  shows "\<exists>xs'. pickedArray (Some (JArr xs)) SHIPPING_LINE_FIELDS = JArr xs' \<and> mapThrow (mapShippingLine i) xs' = Inr ys"
  using assms mapShippingLine_record mapShippingLine_pick by (rule pickedArray_records)

lemma customer_pick:
  "pickDisplayFields (pick r BILLING_FIELDS) billingFields = pickDisplayFields r billingFields"
  "pickDisplayFields (pick r SHIPPING_FIELDS) shippingFields = pickDisplayFields r shippingFields"
  by (rule pickDisplayFields_pick;
      simp add: billingFields_def BILLING_FIELDS_def shippingFields_def SHIPPING_FIELDS_def)+

lemma field_minimized_order:
  assumes "startsWith ''order.'' t" "t \<noteq> ''order.deleted''"
  shows "field (minimizeWebhookPayload t (JObj r)) k =
     (if k = ''shipping_lines'' then Some (pickedArray (field r k) SHIPPING_LINE_FIELDS)
      else if k = ''line_items'' then Some (pickedArray (field r k) LINE_ITEM_FIELDS)
      else if k = ''shipping'' then Some (pickedRecord (field r k) SHIPPING_FIELDS)
      else if k = ''billing'' then Some (pickedRecord (field r k) BILLING_FIELDS)
      else if k \<in> set ORDER_FIELDS then scalar (field r k) else None)"
  using assms by (simp add: minimizeWebhookPayload_def Let_def)

lemma requireArray_Inr: "requireArray v c i = Inr xs \<longleftrightarrow> v = Some (JArr xs)"
  by (auto simp: requireArray_def split: option.splits json.splits)

lemma requireRecord_Inr: "requireRecord v c i = Inr r \<longleftrightarrow> v = Some (JObj r)"
  by (auto simp: requireRecord_def split: option.splits json.splits)

lemma nullish_lines:
  assumes "nullish v (Some (JArr [])) = Some (JArr xs)"
  shows "v = Some (JArr xs) \<or> (xs = [] \<and> pickedArray v fs = JArr [])"
  using assms by (auto simp: nullish_def pickedArray_def split: option.splits json.splits)

text \<open>
  C5: whatever order payload the mapper accepts, it accepts the stored minimised payload too, with
  the same projection, fingerprint included: storing only the minimised body changes no projection.
\<close>

theorem minimize_preserves_order_mapping:
  assumes t: "startsWith ''order.'' t" "t \<noteq> ''order.deleted''"
    and ok: "mapWooCommerceOrder sha v = Inr p"
  shows "mapWooCommerceOrder sha (JObj (minimizeWebhookPayload t v)) = Inr p"
proof -
  from ok obtain r i where v: "v = JObj r" and i: "readWooCommerceOrderId v = Inr i"
    and body: "mapOrderBody sha r i = Inr p" by (auto simp: mapWooCommerceOrder_Inr)
  define m where "m = minimizeWebhookPayload t v"
  note fm = field_minimized_order [OF t, of r, folded v, folded m_def]
  have sc: "field m k = scalar (field r k)" if "k \<in> set ORDER_FIELDS" for k
    using that by (auto simp: fm ORDER_FIELDS_def)
  have "readWooCommerceOrderId (JObj m) = Inr i"
    using i sc [of "''id''"] by (auto simp: readWooCommerceOrderId_Inr v ORDER_FIELDS_def scalar_normalizeWcId)
  moreover from body obtain ts billing shipping items lines ls its where
    parts: "bodyParts sha r i p ts billing shipping items lines ls its"
    by (auto simp: mapOrderBody_Inr)
  obtain items' where items': "pickedArray (field r ''line_items'') LINE_ITEM_FIELDS = JArr items'"
      "mapThrow (mapLineItem i) items' = Inr its"
    using parts pickedArray_line_items [of i items its]
    by (auto simp: bodyParts_def requireArray_Inr)
  obtain lines' where lines': "pickedArray (field r ''shipping_lines'') SHIPPING_LINE_FIELDS = JArr lines'"
      "mapThrow (mapShippingLine i) lines' = Inr ls"
    using parts pickedArray_shipping_lines [of i lines ls]
      nullish_lines [of "field r ''shipping_lines''" lines SHIPPING_LINE_FIELDS]
    by (auto simp: bodyParts_def requireArray_Inr)
  have ts: "readTotals m i TOTAL_FIELDS [] = Inr ts"
    by (rule scalar_totals) (use parts sc in \<open>auto simp: bodyParts_def TOTAL_FIELDS_def ORDER_FIELDS_def\<close>)
  have payment: "mapPayment m i = Inr (paymentSnapshot p)"
    by (rule scalar_mapPayment) (use parts sc in \<open>auto simp: bodyParts_def ORDER_FIELDS_def\<close>)
  have "bodyParts sha m i p ts (pick billing BILLING_FIELDS) (pick shipping SHIPPING_FIELDS) items' lines' ls its"
    using parts items' lines' ts payment
    by (simp add: bodyParts_def customer_pick fm requireRecord_Inr pickedRecord_def requireArray_Inr
        ORDER_FIELDS_def nullish_def scalar_requireString scalar_requireDisplayString
        scalar_requireGmtDate del: canonicalizeJson.simps readTotals.simps)
  then have "mapOrderBody sha m i = Inr p" unfolding mapOrderBody_Inr by blast
  ultimately show ?thesis by (auto simp: mapWooCommerceOrder_Inr m_def)
qed

theorem minimize_preserves_order_mapping_witness:
  "\<exists>p. mapWooCommerceOrder (\<lambda>t. t) (JObj sampleOrder) = Inr p \<and>
     mapWooCommerceOrder (\<lambda>t. t) (JObj (minimizeWebhookPayload ''order.updated'' (JObj sampleOrder))) = Inr p"
proof -
  obtain p where p: "mapWooCommerceOrder (\<lambda>t. t) (JObj sampleOrder) = Inr p"
    using sampleOrder_maps by blast
  from minimize_preserves_order_mapping [OF _ _ p, of "''order.updated''"] p show ?thesis
    by (auto simp: eval_simps)
qed

end
