(* ===== verification/CatalogueScan.thy ===== *)
theory CatalogueScan
  imports InventoryBootstrap
begin

text \<open>
  That the scan of \<open>InventoryBootstrap\<close> comes to an end, and what it has done then. The specification is one
  sweep over the whole catalogue in memory; the jobs, which read a page each and keep their place in the
  store's row, do exactly this sweep.
\<close>

section \<open>The sweep\<close>

record Catalogue =
  catProducts :: "json list"
  catVariations :: "string \<Rightarrow> json list option"

text \<open>\<open>None\<close> is a product the shop no longer has.\<close>

definition variationsOf :: "Catalogue \<Rightarrow> string \<Rightarrow> json list" where
  "variationsOf cat i = (case catVariations cat i of None \<Rightarrow> [] | Some xs \<Rightarrow> xs)"

definition serves :: "Catalogue \<Rightarrow> ProjectableStore \<Rightarrow> BootEnv \<Rightarrow> bool" where
  "serves cat s env \<longleftrightarrow>
     (\<forall>p \<ge> 1. beProducts env s p BOOTSTRAP_PAGE_SIZE = Inr (JArr (take 25 (drop (25 * (p - 1)) (catProducts cat)))))
     \<and> (\<forall>i. \<forall>v \<ge> 1. beVariations env s i v BOOTSTRAP_PAGE_SIZE =
           (case catVariations cat i of
              None \<Rightarrow> Inl (ClientError NotFound)
            | Some xs \<Rightarrow> Inr (JArr (take 25 (drop (25 * (v - 1)) xs)))))"

function pages :: "'a list \<Rightarrow> 'a list list" where
  "pages xs = (if length xs < 25 then [xs] else take 25 xs # pages (drop 25 xs))"
  by pat_completeness auto
termination by (relation "measure length") auto

definition itemParents :: "json \<Rightarrow> string list" where
  "itemParents item = (case parentOf item of Inr ids \<Rightarrow> ids | Inl e \<Rightarrow> [])"

definition pageParents :: "json list \<Rightarrow> string list" where
  "pageParents page = distinctIds (concat (map itemParents page))"

definition parentPages :: "Catalogue \<Rightarrow> string list \<Rightarrow> json list list" where
  "parentPages cat ps = concat (map (\<lambda>i. pages (variationsOf cat i)) ps)"

function scanPages :: "Catalogue \<Rightarrow> json list \<Rightarrow> json list list" where
  "scanPages cat xs =
     take 25 xs # parentPages cat (pageParents (take 25 xs))
     @ (if length xs < 25 then [] else scanPages cat (drop 25 xs))"
  by pat_completeness auto
termination by (relation "measure (length \<circ> snd)") auto

declare pages.simps [simp del] scanPages.simps [simp del]

text \<open>The pages that are left when the cursor stands where the row says.\<close>

definition productPages :: "Catalogue \<Rightarrow> ShopRow \<Rightarrow> json list list" where
  "productPages cat s =
     (if shBootstrapProductsDone s then []
      else scanPages cat (drop (25 * (shBootstrapProductPage s - 1)) (catProducts cat)))"

definition restPages :: "Catalogue \<Rightarrow> ShopRow \<Rightarrow> json list list" where
  "restPages cat s =
     (case shBootstrapParentIds s of
        [] \<Rightarrow> []
      | i # is \<Rightarrow> pages (drop (25 * (shBootstrapVariationPage s - 1)) (variationsOf cat i)) @ parentPages cat is)
     @ productPages cat s"

fun sweepPage :: "BootEnv \<Rightarrow> nat \<Rightarrow> ProjectableStore \<Rightarrow> json list \<Rightarrow> InventoryDb \<Rightarrow> InventoryDb option" where
  "sweepPage env tx s [] idb = Some idb"
| "sweepPage env tx s (item # page) idb =
     (case projectBootstrapPayload (beInventory env) tx s item idb of
        (Inl _, _) \<Rightarrow> None
      | (Inr _, idb') \<Rightarrow> sweepPage env (Suc tx) s page (idb\<lparr>inventoryItems := inventoryItems idb'\<rparr>))"

fun sweep :: "(nat \<Rightarrow> BootEnv) \<Rightarrow> nat \<Rightarrow> ProjectableStore \<Rightarrow> json list list \<Rightarrow> InventoryDb \<Rightarrow> InventoryDb option" where
  "sweep envs k s [] idb = Some idb"
| "sweep envs k s (page # rest) idb =
     (case sweepPage (envs k) 0 s page idb of
        None \<Rightarrow> None
      | Some idb' \<Rightarrow> sweep envs (Suc k) s rest idb')"

section \<open>Every item is in the sweep\<close>

lemma concat_pages: "concat (pages xs) = xs"
proof (induction xs rule: pages.induct)
  case (1 xs)
  then show ?case by (subst pages.simps) auto
qed

lemma concat_parentPages: "concat (parentPages cat ps) = concat (map (variationsOf cat) ps)"
  by (induction ps) (simp_all add: parentPages_def concat_pages)

lemma pages_not_Nil [simp]: "pages xs \<noteq> []"
  by (subst pages.simps) simp

lemma scan_covers:
  "set (concat (scanPages cat xs)) = set xs
     \<union> (\<Union>x \<in> set xs. \<Union>i \<in> set (itemParents x). set (variationsOf cat i))"
proof (induction cat xs rule: scanPages.induct)
  case (1 cat xs)
  let ?V = "\<lambda>ys. \<Union>x \<in> set ys. \<Union>i \<in> set (itemParents x). set (variationsOf cat i)"
  have page: "set (concat (parentPages cat (pageParents ys))) = ?V ys" for ys
    by (simp add: concat_parentPages pageParents_def distinctIds_def)
  have split: "set xs = set (take 25 xs) \<union> set (drop 25 xs)"
    by (metis append_take_drop_id set_append)
  show ?case
  proof (cases "length xs < 25")
    case True
    then show ?thesis by (subst scanPages.simps) (simp add: page del: set_concat)
  next
    case False
    then have "set (concat (scanPages cat xs)) =
        set (take 25 xs) \<union> ?V (take 25 xs) \<union> (set (drop 25 xs) \<union> ?V (drop 25 xs))"
      by (subst scanPages.simps) (simp add: page 1 Un_assoc del: set_concat)
    also have "\<dots> = set xs \<union> ?V xs" using split by auto
    finally show ?thesis .
  qed
qed

section \<open>A job does one page of the sweep\<close>


lemma view_items: "inventoryView (db\<lparr>btItems := rows\<rparr>) = (inventoryView db)\<lparr>inventoryItems := rows\<rparr>"
  by (simp add: inventoryView_def shopSettings_def bootTenantAlive_def)

lemma sweepPage_variations:
  "sweepPage env tx s page (inventoryView db) = Some idb \<Longrightarrow>
     projectVariations env tx s page db = (Inr (), db\<lparr>btItems := inventoryItems idb\<rparr>)
     \<and> inventoryView (db\<lparr>btItems := inventoryItems idb\<rparr>) = idb"
proof (induction page arbitrary: tx db)
  case Nil
  then show ?case by (auto simp: inventoryView_def)
next
  case (Cons item page)
  from Cons.prems obtain idb' where item: "projectBootstrapPayload (beInventory env) tx s item (inventoryView db) = (Inr (), idb')"
    by (auto split: prod.splits sum.splits)
  with Cons.prems have "sweepPage env (Suc tx) s page (inventoryView (db\<lparr>btItems := inventoryItems idb'\<rparr>)) = Some idb"
    by (simp add: view_items)
  from Cons.IH [OF this] item show ?case by (simp add: projectBootItem_def Let_def)
qed

lemma projected_parents:
  assumes "projectBootstrapPayload env tx s item idb = (Inr (), idb')"
  shows "parentOf item = Inr (itemParents item)"
proof -
  from assms obtain p where p: "mapWooCommerceInventoryItem (invSha env) item = Inr p"
    by (auto simp: projectBootstrapPayload_def split: sum.splits)
  then obtain r where r: "item = JObj r" by (auto simp: mapWooCommerceInventoryItem_Inr)
  from mapped_item_identity [OF p] have "readWooCommerceInventoryItemId item = Inr (itemWcId p)" by blast
  with r show ?thesis
    by (simp add: itemParents_def parentOf_def productRequiresVariationScan_def requireInventoryRecord_def split: sum.split)
qed

lemma sweepPage_products:
  "sweepPage env tx s page (inventoryView db) = Some idb \<Longrightarrow>
     projectProducts env tx s page db = (Inr (concat (map itemParents page)), db\<lparr>btItems := inventoryItems idb\<rparr>)"
proof (induction page arbitrary: tx db)
  case Nil
  then show ?case by (auto simp: inventoryView_def)
next
  case (Cons item page)
  from Cons.prems obtain idb' where item: "projectBootstrapPayload (beInventory env) tx s item (inventoryView db) = (Inr (), idb')"
    by (auto split: prod.splits sum.splits)
  with Cons.prems have "sweepPage env (Suc tx) s page (inventoryView (db\<lparr>btItems := inventoryItems idb'\<rparr>)) = Some idb"
    by (simp add: view_items)
  from Cons.IH [OF this] item projected_parents [OF item] show ?case by (simp add: projectBootItem_def Let_def)
qed

text \<open>Replacing the row of one store.\<close>

definition putShop :: "ShopRow \<Rightarrow> BootDb \<Rightarrow> BootDb" where
  "putShop s db = db\<lparr>btShops := map (\<lambda>r. if shId r = shId s then s else r) (btShops db)\<rparr>"

lemma updateShops_single:
  assumes d: "distinct (map shId (btShops db))" and row: "row \<in> set (btShops db)" "P row"
    and key: "\<And>x. P x \<Longrightarrow> shId x = shId row" and keep: "shId (f row) = shId row"
  shows "updateShops P f db = (1, putShop (f row) db)"
proof -
  have P: "P x \<longleftrightarrow> shId x = shId row" if "x \<in> set (btShops db)" for x
    using that d row key by (metis distinct_map inj_onD)
  have eq: "x = row" if "x \<in> set (btShops db)" "shId x = shId row" for x
    using that d row by (metis distinct_map inj_onD)
  have "length (filter P (btShops db)) = 1"
    using filter_single_key [where k = shId and P = P and r = row, OF d row key] by simp
  moreover have "map (\<lambda>r. if P r then f r else r) (btShops db) =
      map (\<lambda>r. if shId r = shId row then f row else r) (btShops db)"
    using P eq by (auto intro!: map_cong)
  ultimately show ?thesis by (simp add: updateShops_def updateMany_def putShop_def keep)
qed

lemma putShop_twice: "shId a = shId b \<Longrightarrow> putShop a (putShop b db) = putShop a db"
  by (auto simp: putShop_def comp_def)

lemma shops_putShop: "distinct (map shId (btShops db)) \<Longrightarrow> row \<in> set (btShops db) \<Longrightarrow> shId s = shId row \<Longrightarrow>
    s \<in> set (btShops (putShop s db)) \<and> map shId (btShops (putShop s db)) = map shId (btShops db)"
  by (auto simp: putShop_def comp_def intro: image_eqI [where x = row])

lemma putShop_simps [simp]:
  "btTenants (putShop s db) = btTenants db" "btItems (putShop s db) = btItems db" "btJobs (putShop s db) = btJobs db"
  by (simp_all add: putShop_def)

lemma short_page: "length (take 25 xs) < 25 \<longleftrightarrow> length xs < 25"
  by (simp add: min_less_iff_disj)

lemma scanPages_not_Nil [simp]: "scanPages cat xs \<noteq> []"
  by (subst scanPages.simps) simp

lemma parentPages_simps [simp]:
  "parentPages cat [] = []" "parentPages cat (i # ps) = pages (variationsOf cat i) @ parentPages cat ps"
  by (simp_all add: parentPages_def)

lemma parentPages_Nil [simp]: "parentPages cat ps = [] \<longleftrightarrow> ps = []"
  by (cases ps) simp_all

lemma restPages_finish [simp]: "restPages cat (finishRow ready now s) = restPages cat s"
  by (simp add: restPages_def productPages_def finishRow_def split: list.split)

lemma restPages_first: "shBootstrapVariationPage s = 1 \<Longrightarrow>
    restPages cat s = parentPages cat (shBootstrapParentIds s) @ productPages cat s"
  by (simp add: restPages_def split: list.split)

lemma productPages_Nil [simp]: "productPages cat s = [] \<longleftrightarrow> shBootstrapProductsDone s"
  by (simp add: productPages_def)

lemma productPages_variation [simp]: "productPages cat (variationProgress ps n s) = productPages cat s"
  by (simp add: productPages_def variationProgress_def)

lemma distinctIds_Nil [simp]: "distinctIds xs = [] \<longleftrightarrow> xs = []"
  by (simp add: distinctIds_def)

lemma fetchVariations_served:
  assumes "serves cat (storeRef s) env" and "1 \<le> shBootstrapVariationPage s"
  shows "andThen (fetchVariations env s i) requirePage =
    Inr (take 25 (drop (25 * (shBootstrapVariationPage s - 1)) (variationsOf cat i)))"
  using assms by (simp add: serves_def fetchVariations_def variationsOf_def requirePage_def BOOTSTRAP_PAGE_SIZE_def
      split: option.split)

lemma fetchProducts_served:
  assumes "serves cat (storeRef s) env" and "1 \<le> shBootstrapProductPage s"
  shows "andThen (map_sum fetchError id (beProducts env (storeRef s) (shBootstrapProductPage s) BOOTSTRAP_PAGE_SIZE))
      requirePage = Inr (take 25 (drop (25 * (shBootstrapProductPage s - 1)) (catProducts cat)))"
  using assms by (simp add: serves_def requirePage_def BOOTSTRAP_PAGE_SIZE_def)

definition undisturbedBoot :: "BootEnv \<Rightarrow> bool" where
  "undisturbedBoot env \<longleftrightarrow> (\<forall>n db. beBetween env n db = db) \<and> beQueueUp env"

lemma advance_quiet:
  assumes "distinct (map shId (btShops db))" and "s \<in> set (btShops db)" and "shBootstrapLeaseAt s = Some t"
    and "shSyncState s = SYNCING" and "keepsRow p"
  shows "advance env s t p ready db = (Inr ready, putShop (finishRow ready (beClock env 1) (p s)) db)"
proof -
  have "updateShops (leasedAt (shTenantId s) (shId s) (shBootstrapRevision s) t) (finishRow ready (beClock env 1) \<circ> p) db
      = (1, putShop ((finishRow ready (beClock env 1) \<circ> p) s) db)"
    by (rule updateShops_single [OF assms(1,2)])
      (use assms(3-5) in \<open>simp_all add: leasedAt_def syncingAt_def keepsRow_def finishRow_def\<close>)
  then show ?thesis by (simp add: advance_def)
qed

text \<open>The cursor after a page.\<close>

definition cursorOk :: "ShopRow \<Rightarrow> bool" where
  "cursorOk s \<longleftrightarrow> 1 \<le> shBootstrapProductPage s \<and> 1 \<le> shBootstrapVariationPage s"

lemma variation_cursor:
  assumes "shBootstrapParentIds s = i # siblings" and "restPages cat s = page # rest" and "cursorOk s"
    and short: "short \<longleftrightarrow> length page < 25"
    and s': "s' = variationProgress (if short then siblings else i # siblings)
       (if short then 1 else shBootstrapVariationPage s + 1) s"
  shows "page = take 25 (drop (25 * (shBootstrapVariationPage s - 1)) (variationsOf cat i))"
    and "restPages cat s' = rest"
    and "rest = [] \<longleftrightarrow> shBootstrapProductsDone s \<and> (if short then siblings else i # siblings) = []"
proof -
  let ?xs = "drop (25 * (shBootstrapVariationPage s - 1)) (variationsOf cat i)"
  from assms(1,2) have split: "pages ?xs @ parentPages cat siblings @ productPages cat s = page # rest"
    by (simp add: restPages_def)
  show page: "page = take 25 ?xs"
    using split by (subst (asm) pages.simps) (auto split: if_splits)
  with short have len: "short \<longleftrightarrow> length ?xs < 25" by (simp only: short_page)
  have rest: "rest = (if short then [] else pages (drop 25 ?xs)) @ parentPages cat siblings @ productPages cat s"
    using split by (subst (asm) pages.simps) (auto simp: len split: if_splits)
  have step: "drop (25 * (shBootstrapVariationPage s + 1 - 1)) (variationsOf cat i) = drop 25 ?xs"
    using assms(3) by (simp add: cursorOk_def algebra_simps)
  show "restPages cat s' = rest"
  proof (cases short)
    case True
    then show ?thesis by (simp add: rest s' restPages_first variationProgress_def productPages_def)
  next
    case False
    then show ?thesis using step by (simp add: rest s' restPages_def) (simp add: variationProgress_def)
  qed
  show "rest = [] \<longleftrightarrow> shBootstrapProductsDone s \<and> (if short then siblings else i # siblings) = []"
    by (auto simp: rest)
qed

lemma product_cursor:
  assumes "shBootstrapParentIds s = []" and "restPages cat s = page # rest" and "cursorOk s"
    and short: "short \<longleftrightarrow> length page < 25"
    and s': "s' = productProgress (shBootstrapProductPage s + 1) short (pageParents page) s"
  shows "page = take 25 (drop (25 * (shBootstrapProductPage s - 1)) (catProducts cat))"
    and "\<not> shBootstrapProductsDone s" and "restPages cat s' = rest"
    and "rest = [] \<longleftrightarrow> short \<and> concat (map itemParents page) = []"
proof -
  let ?xs = "drop (25 * (shBootstrapProductPage s - 1)) (catProducts cat)"
  from assms(1,2) show more: "\<not> shBootstrapProductsDone s" by (auto simp: restPages_def productPages_def)
  with assms(1,2) have split: "scanPages cat ?xs = page # rest"
    by (simp add: restPages_def productPages_def)
  show page: "page = take 25 ?xs"
    using split by (subst (asm) scanPages.simps) auto
  with short have len: "short \<longleftrightarrow> length ?xs < 25" by (simp only: short_page)
  have rest: "rest = parentPages cat (pageParents page) @ (if short then [] else scanPages cat (drop 25 ?xs))"
    using split by (subst (asm) scanPages.simps) (simp add: len page)
  have step: "drop (25 * (shBootstrapProductPage s + 1 - 1)) (catProducts cat) = drop 25 ?xs"
    using assms(3) by (simp add: cursorOk_def algebra_simps)
  show "restPages cat s' = rest"
    using step by (simp add: rest s' restPages_first productProgress_def productPages_def)
  show "rest = [] \<longleftrightarrow> short \<and> concat (map itemParents page) = []"
    by (auto simp: rest pageParents_def)
qed

lemma unit_sweeps:
  assumes quiet: "undisturbedBoot env" and cat: "serves cat (storeRef s) env"
    and d: "distinct (map shId (btShops db))" and row: "s \<in> set (btShops db)"
    and lease: "shBootstrapLeaseAt s = Some t" "shSyncState s = SYNCING" and ok: "cursorOk s"
    and rest: "restPages cat s = page # rest"
    and swept: "sweepPage env 0 (storeRef s) page (inventoryView db) = Some idb"
  obtains p where "keepsRow p" "cursorOk (p s)" "restPages cat (p s) = rest"
    "shLowStockThreshold (p s) = shLowStockThreshold s"
    "processOneUnit env s t db =
       (Inr (rest = []), putShop (finishRow (rest = []) (beClock env 1) (p s)) (db\<lparr>btItems := inventoryItems idb\<rparr>))"
proof -
  have b: "beBetween env n x = x" for n x using quiet by (simp add: undisturbedBoot_def)
  let ?db = "db\<lparr>btItems := inventoryItems idb\<rparr>" and ?short = "length page < 25"
  have adv: "advance env s t p r ?db = (Inr r, putShop (finishRow r (beClock env 1) (p s)) ?db)" if "keepsRow p" for p r
    by (rule advance_quiet) (use d row lease that in simp_all)
  have page_size: "length page < BOOTSTRAP_PAGE_SIZE \<longleftrightarrow> ?short" by (simp add: BOOTSTRAP_PAGE_SIZE_def)
  show thesis
  proof (cases "shBootstrapParentIds s")
    case (Cons i siblings)
    define p where "p = variationProgress (if ?short then siblings else i # siblings)
        (if ?short then 1 else shBootstrapVariationPage s + 1)"
    note cursor = variation_cursor [OF Cons rest ok refl fun_cong [OF p_def]]
    have "andThen (fetchVariations env s i) requirePage = Inr page"
      using fetchVariations_served [OF cat, of i] ok cursor(1) by (simp add: cursorOk_def)
    with sweepPage_variations [OF swept] b have "variationUnit env s t i siblings db =
        advance env s t p (shBootstrapProductsDone s \<and> (if ?short then siblings else i # siblings) = []) ?db"
      by (simp add: variationUnit_def Let_def p_def page_size)
    with adv [of p] cursor(3) Cons
    have "processOneUnit env s t db = (Inr (rest = []), putShop (finishRow (rest = []) (beClock env 1) (p s)) ?db)"
      by (simp add: processOneUnit_def p_def)
    moreover have "keepsRow p" "cursorOk (p s)" "shLowStockThreshold (p s) = shLowStockThreshold s"
      using ok by (simp_all add: p_def cursorOk_def) (simp_all add: variationProgress_def)
    ultimately show thesis using that cursor(2) by blast
  next
    case Nil
    define p where "p = productProgress (shBootstrapProductPage s + 1) ?short (pageParents page)"
    note cursor = product_cursor [OF Nil rest ok refl fun_cong [OF p_def]]
    have "andThen (map_sum fetchError id (beProducts env (storeRef s) (shBootstrapProductPage s) BOOTSTRAP_PAGE_SIZE))
        requirePage = Inr page"
      using fetchProducts_served [OF cat] ok cursor(1) by (simp add: cursorOk_def)
    with sweepPage_products [OF swept] b have "productUnit env s t db =
        advance env s t p (?short \<and> concat (map itemParents page) = []) ?db"
      unfolding productUnit_def by (simp add: Let_def p_def page_size pageParents_def)
    with adv [of p] cursor(2,4) Nil
    have "processOneUnit env s t db = (Inr (rest = []), putShop (finishRow (rest = []) (beClock env 1) (p s)) ?db)"
      by (simp add: processOneUnit_def p_def)
    moreover have "keepsRow p" "cursorOk (p s)" "shLowStockThreshold (p s) = shLowStockThreshold s"
      using ok by (simp_all add: p_def cursorOk_def productProgress_def)
    ultimately show thesis using that cursor(3) by blast
  qed
qed

definition scanning :: "BootstrapJobData \<Rightarrow> ShopRow \<Rightarrow> BootDb \<Rightarrow> bool" where
  "scanning d s db \<longleftrightarrow> distinct (map shId (btShops db)) \<and> s \<in> set (btShops db)
     \<and> liveShopWhere (bjTenantId d) (bjStoreId d) s \<and> bootTenantAlive db (bjTenantId d)
     \<and> shSyncState s = SYNCING \<and> shBootstrapRevision s = bjRevision d \<and> shBootstrapLeaseAt s = None \<and> cursorOk s"

definition validJob :: "BootstrapJobData \<Rightarrow> bool" where
  "validJob d \<longleftrightarrow> validateInventoryBootstrapJobData (bootstrapJobJson d) = Inr d"

definition nextJob :: "BootstrapJobData \<Rightarrow> BootstrapJobData" where
  "nextJob d = d\<lparr>bjRevision := bjRevision d + 1\<rparr>"

definition sameStore :: "ShopRow \<Rightarrow> ShopRow \<Rightarrow> bool" where
  "sameStore s s' \<longleftrightarrow> shId s' = shId s \<and> shTenantId s' = shTenantId s \<and> shStatus s' = shStatus s
     \<and> shDeletedAt s' = shDeletedAt s \<and> shLowStockThreshold s' = shLowStockThreshold s"

lemma view_putShop:
  assumes "distinct (map shId (btShops db))" and "s \<in> set (btShops db)" and "sameStore s s'"
  shows "inventoryView (putShop s' db) = inventoryView db"
proof -
  have "x = s" if "x \<in> set (btShops db)" "shId x = shId s" for x
    using that assms(1,2) by (metis distinct_map inj_onD)
  then show ?thesis
    using assms(3) by (auto simp: inventoryView_def putShop_def shopSettings_def bootTenantAlive_def sameStore_def)
qed

lemma loadShop_row:
  assumes "distinct (map shId (btShops db))" and "s \<in> set (btShops db)" and "liveShopWhere tenant store s"
    and "bootTenantAlive db tenant"
  shows "loadShop tenant store db = Some s"
  unfolding loadShop_def
  by (rule findFirst_unique [where k = shId]) (use assms in \<open>auto simp: liveShopWhere_def\<close>)

lemma live_same: "sameStore s s' \<Longrightarrow> liveShopWhere t i s' = liveShopWhere t i s"
  by (simp add: sameStore_def liveShopWhere_def)

lemma bootTenantAlive_eq: "btTenants db' = btTenants db \<Longrightarrow> bootTenantAlive db' = bootTenantAlive db"
  by (rule ext) (simp add: bootTenantAlive_def)

lemma enqueue_valid: "beQueueUp env \<Longrightarrow> validJob d \<Longrightarrow> enqueueBootstrap env d db =
    (Inr (), db\<lparr>btJobs := btJobs db @ [(d, inventoryBootstrapJobId (bjStoreId d) (bjRevision d))]\<rparr>)"
  by (simp add: enqueueBootstrap_def validJob_def)

lemma claim_quiet:
  assumes "scanning d s db"
  shows "updateShops (bootClaimWhere d t) (\<lambda>s. s\<lparr>shBootstrapLeaseAt := Some t\<rparr>) db =
    (1, putShop (s\<lparr>shBootstrapLeaseAt := Some t\<rparr>) db)"
  using assms unfolding scanning_def
  by (intro updateShops_single [where row = s])
    (auto simp: bootClaimWhere_def syncingAt_def liveShopWhere_def leaseFree_def)

text \<open>One job, from claim to the next job.\<close>

lemma job_sweeps:
  assumes quiet: "undisturbedBoot env" and cat: "serves cat (storeRef s) env" and scan: "scanning d s db"
    and valid: "validJob d" "rest \<noteq> [] \<Longrightarrow> validJob (nextJob d)"
    and rest: "restPages cat s = page # rest"
    and swept: "sweepPage env 0 (storeRef s) page (inventoryView db) = Some idb"
  obtains s' db' where
    "bootstrapProcess env (bootstrapJobJson d) db = (Inr (bootResult d (rest = [])), db')"
    "sameStore s s'" "restPages cat s' = rest" "shSyncState s' = (if rest = [] then READY else SYNCING)"
    "shBootstrapRevision s' = bjRevision d + 1" "shBootstrapLeaseAt s' = None" "cursorOk s'"
    "distinct (map shId (btShops db'))" "s' \<in> set (btShops db')" "btTenants db' = btTenants db"
    "inventoryView db' = (inventoryView db)\<lparr>inventoryItems := inventoryItems idb\<rparr>"
    "btJobs db' = btJobs db @ (if rest = [] then [] else
       [(nextJob d, inventoryBootstrapJobId (bjStoreId d) (bjRevision d + 1))])"
proof -
  let ?t = "beClock env 0"
  let ?s = "s\<lparr>shBootstrapLeaseAt := Some ?t\<rparr>"
  let ?db1 = "putShop ?s db"
  have b: "beBetween env n x = x" "beQueueUp env" for n x using quiet by (simp_all add: undisturbedBoot_def)
  from scan have d: "distinct (map shId (btShops db))" and row: "s \<in> set (btShops db)"
    and live: "liveShopWhere (bjTenantId d) (bjStoreId d) s" "bootTenantAlive db (bjTenantId d)"
    and s: "shSyncState s = SYNCING" "shBootstrapRevision s = bjRevision d" "cursorOk s"
    by (simp_all add: scanning_def)
  have ids: "shId s = bjStoreId d" "shTenantId s = bjTenantId d" using live(1) by (simp_all add: liveShopWhere_def)
  have row1: "?s \<in> set (btShops ?db1)" and d1: "distinct (map shId (btShops ?db1))"
    using shops_putShop [OF d row, of ?s] d by simp_all
  have same: "storeRef ?s = storeRef s" "restPages cat ?s = restPages cat s" "cursorOk ?s = cursorOk s"
    by (simp_all add: storeRef_def restPages_def productPages_def cursorOk_def split: list.split)
  have view1: "inventoryView ?db1 = inventoryView db"
    by (rule view_putShop [OF d row]) (simp add: sameStore_def)
  obtain p where p: "keepsRow p" "cursorOk (p ?s)" "restPages cat (p ?s) = rest"
    "shLowStockThreshold (p ?s) = shLowStockThreshold s"
    "processOneUnit env ?s ?t ?db1 =
       (Inr (rest = []), putShop (finishRow (rest = []) (beClock env 1) (p ?s)) (?db1\<lparr>btItems := inventoryItems idb\<rparr>))"
    by (rule unit_sweeps [OF quiet, of cat ?s ?db1 ?t page rest idb])
      (use cat d1 row1 s rest swept in \<open>simp_all add: same view1\<close>)
  define s' where "s' = finishRow (rest = []) (beClock env 1) (p ?s)"
  define db2 where "db2 = (putShop s' db)\<lparr>btItems := inventoryItems idb\<rparr>"
  have keep: "shId (p ?s) = shId s" "shTenantId (p ?s) = shTenantId s" "shStatus (p ?s) = shStatus s"
    "shDeletedAt (p ?s) = shDeletedAt s" "shBootstrapRevision (p ?s) = shBootstrapRevision s"
    using p(1) by (simp_all add: keepsRow_def)
  have s': "sameStore s s'" "restPages cat s' = rest" "shSyncState s' = (if rest = [] then READY else SYNCING)"
    "shBootstrapRevision s' = bjRevision d + 1" "shBootstrapLeaseAt s' = None" "cursorOk s'" "shId s' = shId s"
    using p(2,3,4) keep s(2) by (simp_all add: s'_def sameStore_def)
      (simp_all add: finishRow_def cursorOk_def)
  have unit: "processOneUnit env ?s ?t ?db1 = (Inr (rest = []), db2)"
    unfolding p(5) db2_def s'_def [symmetric]
    using putShop_twice [of s' ?s db] s'(7) by (simp add: putShop_def)
  have db2: "distinct (map shId (btShops db2))" "s' \<in> set (btShops db2)" "btTenants db2 = btTenants db"
    "btJobs db2 = btJobs db"
    using shops_putShop [OF d row, of s'] s'(7) d by (simp_all add: db2_def)
  have view2: "inventoryView db2 = (inventoryView db)\<lparr>inventoryItems := inventoryItems idb\<rparr>"
    unfolding db2_def view_items by (simp add: view_putShop [OF d row s'(1)])
  have load1: "loadShop (bjTenantId d) (bjStoreId d) ?db1 = Some ?s"
    by (rule loadShop_row [OF d1 row1]) (use live in \<open>simp_all add: liveShopWhere_def bootTenantAlive_def\<close>)
  have load2: "loadShop (bjTenantId d) (bjStoreId d) db2 = Some s'"
    by (rule loadShop_row [OF db2(1,2)]) (use live db2(3) in \<open>simp_all add: live_same [OF s'(1)] bootTenantAlive_def\<close>)
  define db3 where "db3 = db2\<lparr>btJobs := btJobs db @ (if rest = [] then [] else
       [(nextJob d, inventoryBootstrapJobId (bjStoreId d) (bjRevision d + 1))])\<rparr>"
  have job: "\<lparr>bjTenantId = shTenantId s', bjStoreId = shId s', bjRevision = shBootstrapRevision s'\<rparr> = nextJob d"
    using s'(1,4) ids by (simp add: nextJob_def sameStore_def)
  have nxt: "enqueueNext env d (rest = []) db2 = (Inr (), db3)"
  proof (cases "rest = []")
    case False
    have "enqueueBootstrap env (nextJob d) db2 = (Inr (), db3)"
      using enqueue_valid [OF b(2) valid(2) [OF False], of db2] db2(4) False by (simp add: db3_def) (simp add: nextJob_def)
    moreover have "bjRevision d < shBootstrapRevision s'" using s'(4) by simp
    ultimately show ?thesis using False by (simp add: enqueueNext_def load2 job b)
  qed (simp add: enqueueNext_def db3_def flip: db2(4))
  have "bootstrapProcess env (bootstrapJobJson d) db = (Inr (bootResult d (rest = [])), db3)"
    using valid(1) claim_quiet [OF scan, of ?t] load1 unit nxt b
    by (simp add: bootstrapProcess_def validJob_def bootRunUnit_def Let_def del: shops_updateShops)
  moreover have "inventoryView db3 = inventoryView db2"
    by (simp add: db3_def inventoryView_def shopSettings_def bootTenantAlive_def)
  ultimately show thesis
    using that [of db3 s'] s' db2 view2 by (simp add: db3_def)
qed

section \<open>The whole scan\<close>

text \<open>The queue's worker: one job after the other, in the order they were added, at most \<open>fuel\<close> of them.\<close>

fun drain :: "(nat \<Rightarrow> BootEnv) \<Rightarrow> nat \<Rightarrow> nat \<Rightarrow> BootDb \<Rightarrow> BootDb" where
  "drain envs k 0 db = db"
| "drain envs k (Suc fuel) db =
     (case btJobs db of
        [] \<Rightarrow> db
      | job # jobs \<Rightarrow>
          drain envs (Suc k) fuel
            (snd (bootstrapProcess (envs k) (bootstrapJobJson (fst job)) (db\<lparr>btJobs := jobs\<rparr>))))"

lemma scanning_jobs: "scanning d s (db\<lparr>btJobs := js\<rparr>) = scanning d s db"
  by (simp add: scanning_def bootTenantAlive_def)

lemma view_jobs: "inventoryView (db\<lparr>btJobs := js\<rparr>) = inventoryView db"
  by (simp add: inventoryView_def shopSettings_def bootTenantAlive_def)

lemma sweepPage_keeps: "sweepPage env tx s page idb = Some idb' \<Longrightarrow> idb' = idb\<lparr>inventoryItems := inventoryItems idb'\<rparr>"
proof (induction page arbitrary: tx idb)
  case (Cons item page)
  then show ?case by (fastforce split: prod.splits sum.splits)
qed simp

lemma drain_sweeps:
  assumes "\<And>k. undisturbedBoot (envs k)" and "\<And>k. serves cat (storeRef s) (envs k)"
    and "scanning d s db" and "btJobs db = [(d, i)]"
    and "\<And>n. n < length (restPages cat s) \<Longrightarrow> validJob (d\<lparr>bjRevision := bjRevision d + n\<rparr>)"
    and "restPages cat s \<noteq> []" and "sweep envs k (storeRef s) (restPages cat s) (inventoryView db) = Some idb"
  shows "\<exists>s'. shopAt (drain envs k (length (restPages cat s)) db) (bjStoreId d) = Some s' \<and> sameStore s s'
    \<and> shSyncState s' = READY \<and> shBootstrapRevision s' = bjRevision d + length (restPages cat s)
    \<and> btItems (drain envs k (length (restPages cat s)) db) = inventoryItems idb
    \<and> btJobs (drain envs k (length (restPages cat s)) db) = []"
  using assms
proof (induction "restPages cat s" arbitrary: s d db i k)
  case (Cons page rest)
  note rest = Cons.hyps(2) [symmetric]
  let ?db = "db\<lparr>btJobs := []\<rparr>"
  from Cons.prems(7) rest obtain idb1 where page: "sweepPage (envs k) 0 (storeRef s) page (inventoryView ?db) = Some idb1"
    and more: "sweep envs (Suc k) (storeRef s) rest idb1 = Some idb"
    by (auto simp: view_jobs split: option.splits)
  have v0: "validJob d" using Cons.prems(5) [of 0] rest by simp
  have v1: "validJob (nextJob d)" if "rest \<noteq> []"
    using Cons.prems(5) [of 1] rest that by (cases rest) (simp_all add: nextJob_def)
  have scan: "scanning d s ?db" using Cons.prems(3) by (simp add: scanning_jobs)
  obtain s' db' where job: "bootstrapProcess (envs k) (bootstrapJobJson d) ?db = (Inr (bootResult d (rest = [])), db')"
    "sameStore s s'" "restPages cat s' = rest" "shSyncState s' = (if rest = [] then READY else SYNCING)"
    "shBootstrapRevision s' = bjRevision d + 1" "shBootstrapLeaseAt s' = None" "cursorOk s'"
    "distinct (map shId (btShops db'))" "s' \<in> set (btShops db')" "btTenants db' = btTenants ?db"
    "inventoryView db' = (inventoryView ?db)\<lparr>inventoryItems := inventoryItems idb1\<rparr>"
    "btJobs db' = btJobs ?db @ (if rest = [] then [] else
       [(nextJob d, inventoryBootstrapJobId (bjStoreId d) (bjRevision d + 1))])"
    by (rule job_sweeps [OF Cons.prems(1,2) scan v0 v1 rest page])
  have drain: "drain envs k (length (restPages cat s)) db = drain envs (Suc k) (length rest) db'"
    using job(1) by (simp add: rest Cons.prems(4))
  have view: "inventoryView db' = idb1" using job(11) sweepPage_keeps [OF page] by simp
  have ref: "storeRef s' = storeRef s" and store: "shId s' = bjStoreId d"
    using job(2) scan by (simp_all add: storeRef_def sameStore_def scanning_def liveShopWhere_def)
  show ?case
  proof (cases "rest = []")
    case True
    have "inventoryItems (inventoryView db') = btItems db'" by (simp add: inventoryView_def)
    then have "btItems db' = inventoryItems idb" using view more True by simp
    with True drain job shopAt_unique [OF job(8,9)] store show ?thesis by (simp add: rest)
  next
    case False
    have scan': "scanning (nextJob d) s' db'"
      using scan job(4-10) False live_same [OF job(2)] bootTenantAlive_eq [OF job(10)]
      by (simp add: scanning_def nextJob_def)
    have jobs: "btJobs db' = [(nextJob d, inventoryBootstrapJobId (bjStoreId d) (bjRevision d + 1))]"
      using job(12) False by simp
    have valid: "validJob ((nextJob d)\<lparr>bjRevision := bjRevision (nextJob d) + n\<rparr>)" if "n < length (restPages cat s')" for n
      using Cons.prems(5) [of "Suc n"] that by (simp add: rest job(3) nextJob_def)
    have "sweep envs (Suc k) (storeRef s') (restPages cat s') (inventoryView db') = Some idb"
      using more by (simp add: ref view job(3))
    from Cons.hyps(1) [OF job(3) [symmetric] Cons.prems(1) _ scan' jobs valid _ this] Cons.prems(2) False
    obtain s'' where "shopAt (drain envs (Suc k) (length rest) db') (bjStoreId d) = Some s''" "sameStore s' s''"
      "shSyncState s'' = READY" "shBootstrapRevision s'' = bjRevision d + 1 + length rest"
      "btItems (drain envs (Suc k) (length rest) db') = inventoryItems idb" "btJobs (drain envs (Suc k) (length rest) db') = []"
      by (auto simp: ref job(3) nextJob_def)
    with drain job(2) show ?thesis by (auto simp: rest sameStore_def)
  qed
qed simp

text \<open>
  C27: the scan of a catalogue terminates and is complete. From a store that has just started to
  synchronise, with its first job queued, the queue is empty after one job per page, the store is ready at
  the revision counted up by the pages, and its items are those of one sweep over the pages of the catalogue,
  which hold every product and every variation of the products that have some.
\<close>

theorem bootstrap_completes:
  assumes env: "\<And>k. undisturbedBoot (envs k)" "\<And>k. serves cat (storeRef s) (envs k)"
    and scan: "scanning d s db" and jobs: "btJobs db = [(d, i)]"
    and fresh: "shBootstrapProductPage s = 1" "shBootstrapParentIds s = []" "\<not> shBootstrapProductsDone s"
    and pgs: "pgs = scanPages cat (catProducts cat)"
    and valid: "\<And>n. n < length pgs \<Longrightarrow> validJob (d\<lparr>bjRevision := bjRevision d + n\<rparr>)"
    and ok: "sweep envs 0 (storeRef s) pgs (inventoryView db) = Some idb"
  shows "\<exists>s'. shopAt (drain envs 0 (length pgs) db) (bjStoreId d) = Some s'
    \<and> shSyncState s' = READY \<and> shBootstrapRevision s' = bjRevision d + length pgs
    \<and> btItems (drain envs 0 (length pgs) db) = inventoryItems idb
    \<and> btJobs (drain envs 0 (length pgs) db) = []
    \<and> set (concat pgs) = set (catProducts cat)
        \<union> (\<Union>x \<in> set (catProducts cat). \<Union>i \<in> set (itemParents x). set (variationsOf cat i))"
proof -
  have rest: "restPages cat s = pgs" using fresh by (simp add: restPages_def productPages_def pgs)
  have "\<exists>s'. shopAt (drain envs 0 (length (restPages cat s)) db) (bjStoreId d) = Some s' \<and> sameStore s s'
    \<and> shSyncState s' = READY \<and> shBootstrapRevision s' = bjRevision d + length (restPages cat s)
    \<and> btItems (drain envs 0 (length (restPages cat s)) db) = inventoryItems idb
    \<and> btJobs (drain envs 0 (length (restPages cat s)) db) = []"
    by (rule drain_sweeps [OF env scan jobs]) (use valid ok in \<open>simp_all add: rest, simp_all add: pgs\<close>)
  then show ?thesis using scan_covers [of cat "catProducts cat"] unfolding rest pgs by blast
qed

text \<open>
  C29: a job that fails gives its lease back. Unless the store or its tenant disappeared right after the claim,
  no error leaves a row leased at the time of the job's claim, so the retry, or the next start of the scan,
  can claim the store at once.
\<close>

theorem failed_job_releases_lease:
  assumes v: "validateInventoryBootstrapJobData v = Inr d"
    and claim: "updateShops (bootClaimWhere d (beClock env 0))
        (\<lambda>s. s\<lparr>shBootstrapLeaseAt := Some (beClock env 0)\<rparr>) db = (1, db0)"
    and load: "loadShop (bjTenantId d) (bjStoreId d) (beBetween env 0 db0) = Some s"
    and fail: "bootstrapProcess env v db = (Inl e, db')"
  shows "\<forall>r \<in> set (btShops db'). \<not> leasedAt (bjTenantId d) (bjStoreId d) (bjRevision d) (beClock env 0) r"
proof -
  let ?t = "beClock env 0"
  have free: "\<forall>r \<in> set (btShops (releaseLease d ?t x)). \<not> leasedAt (bjTenantId d) (bjStoreId d) (bjRevision d) ?t r" for x
    by (auto simp: releaseLease_def updateMany_rows leasedAt_def)
  have run: "bootRunUnit env d ?t s (beBetween env 0 db0) = (Inl e, db')"
    using fail v claim load by (simp add: bootstrapProcess_def Let_def del: shops_updateShops)
  obtain x db1 where unit: "processOneUnit env s ?t (beBetween env 1 (beBetween env 0 db0)) = (x, db1)" by force
  show ?thesis
  proof (cases x)
    case (Inl e')
    with run unit free show ?thesis by (auto simp: bootRunUnit_def bootFailed_def)
  next
    case (Inr ready)
    obtain y db2 where "enqueueNext env d ready (beBetween env 3 db1) = (y, db2)" by force
    with Inr run unit free show ?thesis by (cases y) (auto simp: bootRunUnit_def bootFailed_def)
  qed
qed

section \<open>A catalogue of one product with one variation\<close>

definition shirt :: json where
  "shirt = JObj
    [(''id'', JNum (NInt 7)), (''parent_id'', JNum (NInt 0)), (''type'', JStr ''variable''),
     (''name'', JStr ''Shirt''), (''sku'', JStr ''S''), (''manage_stock'', JBool False),
     (''stock_status'', JStr ''instock''), (''variations'', JArr [JNum (NInt 8)]),
     (''date_modified_gmt'', JStr ''2026-07-01T10:05:00'')]"

definition redShirt :: json where
  "redShirt = JObj
    [(''id'', JNum (NInt 8)), (''parent_id'', JNum (NInt 7)), (''type'', JStr ''variation''),
     (''name'', JStr ''Red''), (''sku'', JStr ''S-R''), (''manage_stock'', JBool True),
     (''stock_quantity'', JNum (NInt 3)), (''stock_status'', JStr ''instock''),
     (''date_modified_gmt'', JStr ''2026-07-01T10:05:00'')]"

definition shirtCatalogue :: Catalogue where
  "shirtCatalogue = \<lparr>catProducts = [shirt], catVariations = (\<lambda>i. if i = ''7'' then Some [redShirt] else None)\<rparr>"

definition bootDemo :: "nat \<Rightarrow> BootEnv" where
  "bootDemo k = \<lparr>beClock = (\<lambda>n. 1000),
     beProducts = (\<lambda>s p size. Inr (JArr (take 25 (drop (25 * (p - 1)) (catProducts shirtCatalogue))))),
     beVariations = (\<lambda>s i v size. case catVariations shirtCatalogue i of
        None \<Rightarrow> Inl (ClientError NotFound) | Some xs \<Rightarrow> Inr (JArr (take 25 (drop (25 * (v - 1)) xs)))),
     beInventory = invDemo\<lparr>invFreshId := (\<lambda>tx n. if k = 0 then ''a'' else ''b'')\<rparr>,
     beQueueUp = True, beBetween = (\<lambda>n db. db)\<rparr>"

definition syncingShop :: ShopRow where
  "syncingShop = (hd (tgShops sampleTelegram))\<lparr>shSyncState := SYNCING, shBootstrapProductsDone := False\<rparr>"

definition firstJob :: BootstrapJobData where
  "firstJob = \<lparr>bjTenantId = ''ten_1'', bjStoreId = ''sto_1'', bjRevision = 1\<rparr>"

definition syncingDb :: BootDb where
  "syncingDb = \<lparr>btTenants = tgTenants sampleTelegram, btShops = [syncingShop], btItems = [], btJobs = [(firstJob, ''j'')]\<rparr>"

lemma jobs_valid: "n \<le> 3 \<Longrightarrow> validJob (firstJob\<lparr>bjRevision := n\<rparr>)"
  by (simp add: validJob_def firstJob_def bootstrapJobJson_def validateInventoryBootstrapJobData_def bootIdentity_def
      identityField_def identityPattern_def revisionField_def isSafeInteger_def startsWith_def eval_simps)

lemma shirt_reads: "readWooCommerceInventoryItemId shirt = Inr ''7''" "readWooCommerceInventoryItemId redShirt = Inr ''8''"
  by (simp_all add: shirt_def redShirt_def inventory_eval eval_simps)

lemma shirt_parents: "itemParents shirt = [''7'']"
  using shirt_reads(1)
  by (simp add: itemParents_def parentOf_def productRequiresVariationScan_def requireInventoryRecord_def)
    (simp add: shirt_def wcIdPattern_def normalizeWcId_def eval_simps)

lemma shirt_pages: "scanPages shirtCatalogue [shirt] = [[shirt], [redShirt]]"
  by (subst scanPages.simps)
    (simp add: pageParents_def shirt_parents distinctIds_def variationsOf_def shirtCatalogue_def pages.simps)

lemma shirts_map: "\<exists>p. mapWooCommerceInventoryItem (\<lambda>t. t) shirt = Inr p"
  "\<exists>p. mapWooCommerceInventoryItem (\<lambda>t. t) redShirt = Inr p"
proof -
  have d: "requireInventoryGmtDate (Some (JStr ''2026-07-01T10:05:00'')) i parent = Inr 1782900300000" for i parent
    by (simp add: requireInventoryGmtDate_def eval_simps)
  have "readWooCommerceParentProductId shirt = Inr None"
    by (simp add: shirt_def readWooCommerceParentProductId_def requireInventoryRecord_def)
  moreover have "\<exists>p. mapInventoryBody (\<lambda>t. t) (case shirt of JObj r \<Rightarrow> r | _ \<Rightarrow> []) ''7'' None = Inr p"
    using d by (simp add: shirt_def mapInventoryBody_def assembleItem_def requireTrimmedString_def
        normalizeManageStock_def STOCK_STATUSES_def Let_def eval_simps)
  ultimately show "\<exists>p. mapWooCommerceInventoryItem (\<lambda>t. t) shirt = Inr p"
    using shirt_reads(1) by (auto simp: mapWooCommerceInventoryItem_Inr shirt_def)
  have "readWooCommerceParentProductId redShirt = Inr (Some ''7'')"
    by (simp add: redShirt_def inventory_eval eval_simps)
  moreover have "\<exists>p. mapInventoryBody (\<lambda>t. t) (case redShirt of JObj r \<Rightarrow> r | _ \<Rightarrow> []) ''8'' (Some ''7'') = Inr p"
    using d sampleProduct_quantity(1) by (simp add: redShirt_def mapInventoryBody_def assembleItem_def
        requireTrimmedString_def normalizeManageStock_def STOCK_STATUSES_def Let_def eval_simps)
  ultimately show "\<exists>p. mapWooCommerceInventoryItem (\<lambda>t. t) redShirt = Inr p"
    using shirt_reads(2) by (auto simp: mapWooCommerceInventoryItem_Inr redShirt_def)
qed

lemma bootstrap_creates:
  assumes quiet: "invAttemptOf env = (\<lambda>tx. quiet)" and p: "mapWooCommerceInventoryItem (invSha env) item = Inr p"
    and set: "findSettings s (InventoryDb.stores idb) = Some settings"
    and free: "\<forall>r \<in> set (inventoryItems idb). rowWcItemId r \<noteq> itemWcId p
      \<and> itemRowId r \<noteq> ''inv_'' @ invFreshId env tx 1"
  shows "\<exists>rows. projectBootstrapPayload env tx s item idb = (Inr (), idb\<lparr>inventoryItems := rows\<rparr>)
    \<and> (\<forall>r \<in> set rows - set (inventoryItems idb). rowWcItemId r = itemWcId p \<and> itemRowId r = ''inv_'' @ invFreshId env tx 1)"
proof -
  let ?src = "\<lparr>baseline = True, sourceWebhookEventId = None, webhookReceivedAt = None, clearDeletion = True\<rparr>"
  have none: "findItem s (itemWcId p) (inventoryItems idb) = None"
    using free by (auto simp: findItem_def itemKey_def row_simps)
  have "\<exists>r rows. applyItemOperation env tx s p True ?src 1 idb = Inr (r, idb\<lparr>inventoryItems := rows\<rparr>)
      \<and> (\<forall>r \<in> set rows - set (inventoryItems idb). rowWcItemId r = itemWcId p \<and> itemRowId r = ''inv_'' @ invFreshId env tx 1)"
  proof (cases "itemActive p")
    case False
    then show ?thesis
      by (simp add: applyItemOperation_def set none createFromProjection_def Let_def)
        (rule exI [of _ "inventoryItems idb"], simp)
  next
    case True
    then show ?thesis using free
      by (simp add: applyItemOperation_def set none createFromProjection_def Let_def createItem_def list_ex_iff)
        (fastforce simp: newItemRow_def)
  qed
  then obtain r rows where op: "applyItemOperation env tx s p True ?src 1 idb = Inr (r, idb\<lparr>inventoryItems := rows\<rparr>)"
    and new: "\<forall>r \<in> set rows - set (inventoryItems idb). rowWcItemId r = itemWcId p \<and> itemRowId r = ''inv_'' @ invFreshId env tx 1"
    by blast
  from withProjectionTransaction_quiet_Inr [of "applyItemOperation env tx s p True ?src", OF op] p quiet new
  show ?thesis by (auto simp: projectBootstrapPayload_def applyInventoryProjection_def)
qed

lemma shirts_sweep: "\<exists>idb. sweep bootDemo 0 (storeRef syncingShop) [[shirt], [redShirt]] (inventoryView syncingDb) = Some idb"
proof -
  let ?s = "storeRef syncingShop" and ?idb = "inventoryView syncingDb"
  obtain p where p: "mapWooCommerceInventoryItem (\<lambda>t. t) shirt = Inr p" using shirts_map(1) by blast
  obtain q where q: "mapWooCommerceInventoryItem (\<lambda>t. t) redShirt = Inr q" using shirts_map(2) by blast
  from mapped_item_identity [OF p] mapped_item_identity [OF q] shirt_reads
  have ids: "itemWcId p = ''7''" "itemWcId q = ''8''" by simp_all
  have settings: "\<exists>x. findSettings ?s (InventoryDb.stores ?idb) = Some x"
    by (simp add: findSettings_def findFirst_def inventoryView_def syncingDb_def shopSettings_def syncingShop_def
        storeRef_def sampleTelegram_def bootTenantAlive_def)
  then obtain x where x: "findSettings ?s (InventoryDb.stores ?idb) = Some x" by blast
  have quiet: "invAttemptOf (beInventory (bootDemo k)) = (\<lambda>tx. quiet)" "invSha (beInventory (bootDemo k)) = (\<lambda>t. t)"
    "invFreshId (beInventory (bootDemo k)) = (\<lambda>tx n. if k = 0 then ''a'' else ''b'')" for k
    by (simp_all add: bootDemo_def invDemo_def)
  obtain rows where first: "projectBootstrapPayload (beInventory (bootDemo 0)) 0 ?s shirt ?idb =
      (Inr (), ?idb\<lparr>inventoryItems := rows\<rparr>)"
    and rows: "\<forall>r \<in> set rows. rowWcItemId r = ''7'' \<and> itemRowId r = ''inv_a''"
    using bootstrap_creates [of "beInventory (bootDemo 0)" shirt p ?s ?idb x 0] quiet p x ids
    by (auto simp: inventoryView_def syncingDb_def)
  have "\<exists>rows'. projectBootstrapPayload (beInventory (bootDemo 1)) 0 ?s redShirt (?idb\<lparr>inventoryItems := rows\<rparr>) =
      (Inr (), ?idb\<lparr>inventoryItems := rows\<rparr>\<lparr>inventoryItems := rows'\<rparr>)"
    using bootstrap_creates [of "beInventory (bootDemo 1)" redShirt q ?s "?idb\<lparr>inventoryItems := rows\<rparr>" x 0] quiet q x ids rows
    by auto
  with first show ?thesis by auto
qed

lemma bootDemo_ok: "undisturbedBoot (bootDemo k)" "serves shirtCatalogue s (bootDemo k)"
  by (simp_all add: undisturbedBoot_def serves_def bootDemo_def)

lemma syncing_scan: "scanning firstJob syncingShop syncingDb"
  by (simp add: scanning_def firstJob_def syncingDb_def syncingShop_def sampleTelegram_def liveShopWhere_def
      bootTenantAlive_def cursorOk_def)

theorem bootstrap_completes_witness:
  "\<exists>s'. shopAt (drain bootDemo 0 2 syncingDb) ''sto_1'' = Some s' \<and> shSyncState s' = READY
    \<and> shBootstrapRevision s' = 3 \<and> btJobs (drain bootDemo 0 2 syncingDb) = []"
proof -
  obtain idb where "sweep bootDemo 0 (storeRef syncingShop) [[shirt], [redShirt]] (inventoryView syncingDb) = Some idb"
    using shirts_sweep by blast
  from bootstrap_completes [OF bootDemo_ok syncing_scan _ _ _ _ _ _ this, of "''j''"]
  have "\<exists>s'. shopAt (drain bootDemo 0 2 syncingDb) (bjStoreId firstJob) = Some s' \<and> shSyncState s' = READY
      \<and> shBootstrapRevision s' = bjRevision firstJob + 2 \<and> btJobs (drain bootDemo 0 2 syncingDb) = []"
    using shirt_pages jobs_valid
    by (auto simp: syncingDb_def syncingShop_def sampleTelegram_def shirtCatalogue_def firstJob_def numeral_2_eq_2)
  then show ?thesis by (simp add: firstJob_def numeral_3_eq_3)
qed

lemma first_job_runs: "\<exists>db'. bootstrapProcess (bootDemo 0) (bootstrapJobJson firstJob) syncingDb = (Inr (bootResult firstJob False), db')"
proof -
  obtain idb where "sweepPage (bootDemo 0) 0 (storeRef syncingShop) [shirt] (inventoryView syncingDb) = Some idb"
    using shirts_sweep by (auto split: option.splits)
  moreover have "restPages shirtCatalogue syncingShop = [shirt] # [[redShirt]]"
    using shirt_pages by (simp add: restPages_def productPages_def syncingShop_def sampleTelegram_def)
      (simp add: shirtCatalogue_def)
  moreover have "validJob firstJob" "validJob (nextJob firstJob)"
    using jobs_valid [of 1] jobs_valid [of 2] by (simp_all add: firstJob_def nextJob_def numeral_2_eq_2)
  ultimately obtain s' db' where
    "bootstrapProcess (bootDemo 0) (bootstrapJobJson firstJob) syncingDb = (Inr (bootResult firstJob ([[redShirt]] = [])), db')"
    by - (rule job_sweeps [OF bootDemo_ok syncing_scan], assumption+)
  then show ?thesis by simp
qed

theorem bootstrap_fenced_witness:
  "shopsFollow syncingDb (snd (bootstrapProcess (bootDemo 0) (bootstrapJobJson firstJob) syncingDb))
   \<and> unitDone firstJob (snd (bootstrapProcess (bootDemo 0) (bootstrapJobJson firstJob) syncingDb))"
proof -
  have "\<And>n db. shopsFollow db (beBetween (bootDemo 0) n db)" by (simp add: bootDemo_def shopsFollow_same)
  moreover have "distinct (map shId (btShops syncingDb))" by (simp add: syncingDb_def)
  ultimately have "shopsFollow syncingDb (snd (bootstrapProcess (bootDemo 0) (bootstrapJobJson firstJob) syncingDb))
      \<and> (fst (bootstrapProcess (bootDemo 0) (bootstrapJobJson firstJob) syncingDb) = Inr (bootResult firstJob False) \<longrightarrow>
        (\<exists>d. validateInventoryBootstrapJobData (bootstrapJobJson firstJob) = Inr d
          \<and> unitDone d (snd (bootstrapProcess (bootDemo 0) (bootstrapJobJson firstJob) syncingDb))))"
    using bootstrap_fenced [of "bootDemo 0" syncingDb] by blast
  with first_job_runs jobs_valid [of 1] show ?thesis by (auto simp: validJob_def firstJob_def)
qed

definition timedOut :: BootEnv where
  "timedOut = (bootDemo 0)\<lparr>beProducts := (\<lambda>s p size. Inl (ClientError Timeout))\<rparr>"

theorem failed_job_releases_lease_witness:
  "\<exists>e db'. bootstrapProcess timedOut (bootstrapJobJson firstJob) syncingDb = (Inl e, db')
    \<and> (\<forall>r \<in> set (btShops db'). \<not> leasedAt ''ten_1'' ''sto_1'' 1 1000 r)"
proof -
  let ?s = "syncingShop\<lparr>shBootstrapLeaseAt := Some 1000\<rparr>"
  have v: "validateInventoryBootstrapJobData (bootstrapJobJson firstJob) = Inr firstJob"
    using jobs_valid [of 1] by (simp add: validJob_def firstJob_def)
  have env: "beClock timedOut n = 1000" "beBetween timedOut n x = x"
    "beProducts timedOut s p size = Inl (ClientError Timeout)" for n x s p size
    by (simp_all add: timedOut_def bootDemo_def)
  note claim = claim_quiet [OF syncing_scan, of "beClock timedOut 0"]
  have load: "loadShop (bjTenantId firstJob) (bjStoreId firstJob) (beBetween timedOut 0 (putShop ?s syncingDb)) = Some ?s"
    by (simp add: env loadShop_def findFirst_def putShop_def syncingDb_def syncingShop_def sampleTelegram_def firstJob_def
        liveShopWhere_def bootTenantAlive_def)
  have unit: "processOneUnit timedOut ?s 1000 db = (Inl (BootClient Timeout), db)" for db
    by (simp add: processOneUnit_def productUnit_def syncingShop_def sampleTelegram_def env fetchError_def)
  obtain e db' where run: "bootstrapProcess timedOut (bootstrapJobJson firstJob) syncingDb = (Inl e, db')"
    using v claim load unit
    by (simp add: bootstrapProcess_def Let_def bootRunUnit_def bootFailed_def env del: shops_updateShops)
  from failed_job_releases_lease [OF v claim, of ?s, OF _ run] load show ?thesis
    using run by (auto simp: env firstJob_def)
qed

end
