(* ===== verification/TelegramOrders.thy ===== *)
theory TelegramOrders
  imports OrderNotifications "HOL-Library.Product_Lexorder" "HOL-Library.List_Lexorder" "HOL-Library.Char_ord"
begin

text \<open>
  Browsing orders in a chat (\<open>list\<close>, \<open>lookup\<close>, \<open>openProjectedDetail\<close>, \<open>detail\<close>, \<open>refresh\<close> and \<open>transitions\<close>
  of \<open>backend/src/telegram/telegram-order.service.ts\<close>). Each handler starts from the chat's context, checks
  the reference its token names, and creates the references of the buttons it offers. The database compares
  the ids of orders as texts.
\<close>

record OrdersEnv = TelegramEnv +
  oeFetch :: "nat \<Rightarrow> ProjectableStore \<Rightarrow> string \<Rightarrow> FetchFailure + json"
  oeProjection :: OrderEnv

text \<open>The clock readings and random ids of a handler called by another one follow those of its caller.\<close>

definition later :: "nat \<Rightarrow> OrdersEnv \<Rightarrow> OrdersEnv" where
  "later k env = env\<lparr>teClock := (\<lambda>n. teClock env (k + n)), teShortId := (\<lambda>n. teShortId env (k + n))\<rparr>"

definition expiry :: "OrdersEnv \<Rightarrow> date \<Rightarrow> date" where
  "expiry env now = now + teReferenceTtlSeconds env * 1000"

definition shortTelegramEnv :: "OrdersEnv \<Rightarrow> TelegramEnv" where
  "shortTelegramEnv env = TelegramEnv.truncate env"

definition addReferences :: "ReferenceRow list \<Rightarrow> 'x TelegramDb_scheme \<Rightarrow> 'x TelegramDb_scheme" where
  "addReferences rs db = db\<lparr>tgReferences := tgReferences db @ rs\<rparr>"

section \<open>The list\<close>

definition PAGE_SIZE :: nat where
  "PAGE_SIZE = 8"

definition REACHABLE_ORDER_CAP :: int where
  "REACHABLE_ORDER_CAP = 200"

datatype OrderListState = ListOk | ListNoActiveStore | ListUnauthorized | ListContextChanged

record OrderList =
  olState :: OrderListState
  olOrders :: "OrderSummary list"
  olNext :: "string option"
  olPrevious :: "string option"
  olFreshness :: Freshness

definition emptyOrderList :: "OrdersEnv \<Rightarrow> date \<Rightarrow> OrderListState \<Rightarrow> OrderList" where
  "emptyOrderList env now st =
     \<lparr>olState = st, olOrders = [], olNext = None, olPrevious = None, olFreshness = freshness (shortTelegramEnv env) now None\<rparr>"

definition contextOrderWhere :: "'x TelegramDb_scheme \<Rightarrow> TelegramOrderContext \<Rightarrow> OrderRow \<Rightarrow> bool" where
  "contextOrderWhere db cx r \<longleftrightarrow> orderTenantId r = cxTenantId cx \<and> orderStoreId r = cxStoreId cx
     \<and> tenantAlive db (cxTenantId cx) \<and> shopAlive db (cxStoreId cx)"

definition orderSortKey :: "OrderRow \<Rightarrow> date \<times> string" where
  "orderSortKey r = (wcCreatedAt r, wcOrderId r)"

text \<open>Both parts of a boundary have to be there and the id must not be empty.\<close>

definition pageBoundary :: "date option \<Rightarrow> string option \<Rightarrow> (date \<times> string) option" where
  "pageBoundary created i =
     (case (created, i) of (Some c, Some w) \<Rightarrow> if w = [] then None else Some (c, w) | _ \<Rightarrow> None)"

definition beyondBoundary :: "bool \<Rightarrow> (date \<times> string) option \<Rightarrow> OrderRow \<Rightarrow> bool" where
  "beyondBoundary movingPrevious boundary r =
     (case boundary of
        None \<Rightarrow> True
      | Some (c, w) \<Rightarrow>
          (if movingPrevious then c < wcCreatedAt r else wcCreatedAt r < c)
          \<or> wcCreatedAt r = c \<and> (if movingPrevious then w < wcOrderId r else wcOrderId r < w))"

definition sortedOrders :: "bool \<Rightarrow> OrderRow list \<Rightarrow> OrderRow list" where
  "sortedOrders ascending rows =
     (if ascending then sort_key orderSortKey rows else rev (sort_key orderSortKey rows))"

definition queryPage ::
  "'x TelegramDb_scheme \<Rightarrow> TelegramOrderContext \<Rightarrow> CallbackDirection \<Rightarrow> date option \<Rightarrow> string option \<Rightarrow> OrderRow list" where
  "queryPage db cx direction created i =
     (let movingPrevious = (direction = PREVIOUS)
      in take (PAGE_SIZE + 1) (sortedOrders movingPrevious
           (findMany (\<lambda>r. contextOrderWhere db cx r \<and> beyondBoundary movingPrevious (pageBoundary created i) r)
              (tgOrders db))))"

definition latestSync :: "OrderRow list \<Rightarrow> date option" where
  "latestSync page = fold (\<lambda>r latest.
     (case latest of None \<Rightarrow> Some (lastSyncedAt r)
      | Some t \<Rightarrow> if t < lastSyncedAt r then Some (lastSyncedAt r) else latest)) page None"

definition pageReference ::
  "TelegramOrderContext \<Rightarrow> CallbackDirection \<Rightarrow> date option \<Rightarrow> string option \<Rightarrow> int \<Rightarrow> string \<Rightarrow> date \<Rightarrow> ReferenceRow" where
  "pageReference cx direction created i offset shortId expiresAt =
     (contextReference cx LIST_PAGE shortId expiresAt)
       \<lparr>rfDirection := Some direction, rfBoundaryWcCreatedAt := created, rfBoundaryWcOrderId := i,
        rfReachableOffset := Some offset\<rparr>"

record PageCursor =
  pcDirection :: CallbackDirection
  pcCreatedAt :: "date option"
  pcOrderId :: "string option"
  pcOffset :: int

definition cursorOfReference :: "ReferenceRow option \<Rightarrow> PageCursor" where
  "cursorOfReference ref =
     (case ref of
        None \<Rightarrow> \<lparr>pcDirection = CURRENT, pcCreatedAt = None, pcOrderId = None, pcOffset = 0\<rparr>
      | Some r \<Rightarrow>
          \<lparr>pcDirection = (case rfDirection r of Some d \<Rightarrow> d | None \<Rightarrow> CURRENT),
           pcCreatedAt = rfBoundaryWcCreatedAt r, pcOrderId = rfBoundaryWcOrderId r,
           pcOffset = (case rfReachableOffset r of Some n \<Rightarrow> n | None \<Rightarrow> 0)\<rparr>)"

definition cursorInvalid :: "PageCursor \<Rightarrow> bool" where
  "cursorInvalid c \<longleftrightarrow> pcOffset c < 0 \<or> REACHABLE_ORDER_CAP \<le> pcOffset c
     \<or> pcDirection c \<noteq> CURRENT \<and> pageBoundary (pcCreatedAt c) (pcOrderId c) = None"

definition pageOf :: "CallbackDirection \<Rightarrow> OrderRow list \<Rightarrow> OrderRow list" where
  "pageOf direction records =
     (let page = take PAGE_SIZE records in if direction = PREVIOUS then rev page else page)"

definition nextPageReference ::
  "OrdersEnv \<Rightarrow> TelegramOrderContext \<Rightarrow> PageCursor \<Rightarrow> OrderRow list \<Rightarrow> nat \<Rightarrow> string \<Rightarrow> date \<Rightarrow> ReferenceRow option" where
  "nextPageReference env cx c page fetched shortId expiresAt =
     (if page \<noteq> [] \<and> pcOffset c + int (length page) < REACHABLE_ORDER_CAP
         \<and> (pcDirection c = PREVIOUS \<or> PAGE_SIZE < fetched)
      then Some (pageReference cx NEXT (Some (wcCreatedAt (last page))) (Some (wcOrderId (last page)))
                   (pcOffset c + int (length page)) shortId expiresAt)
      else None)"

definition previousPageReference ::
  "OrdersEnv \<Rightarrow> TelegramOrderContext \<Rightarrow> PageCursor \<Rightarrow> OrderRow list \<Rightarrow> string \<Rightarrow> date \<Rightarrow> ReferenceRow option" where
  "previousPageReference env cx c page shortId expiresAt =
     (if 0 < pcOffset c \<and> page \<noteq> []
      then Some (pageReference cx PREVIOUS (Some (wcCreatedAt (hd page))) (Some (wcOrderId (hd page)))
                   (max 0 (pcOffset c - int PAGE_SIZE)) shortId expiresAt)
      else None)"

definition ordersToken :: "OrdersEnv \<Rightarrow> char \<Rightarrow> ReferenceRow \<Rightarrow> string" where
  "ordersToken env p r = tokenForReferenceId (teMac env) p (rfId r)"

definition listPage :: "OrdersEnv \<Rightarrow> TelegramOrderContext \<Rightarrow> PageCursor \<Rightarrow> 'x TelegramDb_scheme \<Rightarrow> OrderList \<times> 'x TelegramDb_scheme" where
  "listPage env cx c db =
     (let records = queryPage db cx (pcDirection c) (pcCreatedAt c) (pcOrderId c);
          page = pageOf (pcDirection c) records;
          n = length page;
          expiresAt = expiry env (teClock env 3);
          current = pageReference cx (pcDirection c) (pcCreatedAt c) (pcOrderId c) (pcOffset c) (teShortId env 0) expiresAt;
          details = map (\<lambda>(r, k). detailReference cx (wcOrderId r) (rfId current) (teShortId env (Suc k)) expiresAt)
            (zip page [0..<n]);
          prev = previousPageReference env cx c page (teShortId env (n + 1)) expiresAt;
          nxt = nextPageReference env cx c page (length records) (teShortId env (n + 2)) expiresAt
      in (\<lparr>olState = ListOk,
           olOrders = map (\<lambda>(r, d). toOrderSummary r (ordersToken env (CHR ''d'') d)) (zip page details),
           olNext = map_option (ordersToken env (CHR ''p'')) nxt,
           olPrevious = map_option (ordersToken env (CHR ''p'')) prev,
           olFreshness = freshness (shortTelegramEnv env) (teClock env 2) (latestSync page)\<rparr>,
          addReferences (current # details @ (case prev of Some r \<Rightarrow> [r] | None \<Rightarrow> [])
            @ (case nxt of Some r \<Rightarrow> [r] | None \<Rightarrow> [])) db))"

definition orderList ::
  "OrdersEnv \<Rightarrow> TelegramIdentity \<Rightarrow> string option \<Rightarrow> 'x TelegramDb_scheme \<Rightarrow> (ServiceError + OrderList) \<times> 'x TelegramDb_scheme" where
  "orderList env identity cursor db =
     (case resolveContext db identity of
        NoActiveStore \<Rightarrow> (Inr (emptyOrderList env (teClock env 0) ListNoActiveStore), db)
      | Unauthorized \<Rightarrow> (Inr (emptyOrderList env (teClock env 0) ListUnauthorized), db)
      | ContextOk cx \<Rightarrow>
          let given = (case cursor of Some t \<Rightarrow> if t = [] then None else Some t | None \<Rightarrow> None);
              ref = Option.bind given (\<lambda>t. validateReference (shortTelegramEnv env) (teClock env 0) db t LIST_PAGE cx)
          in if given \<noteq> None \<and> ref = None
             then (Inr (emptyOrderList env (teClock env 0) ListContextChanged), db)
             else (case assertActive (cxTenantId cx) (teClock env 1) (tgTenants db) of
                     Inl e \<Rightarrow> (Inl e, db)
                   | Inr _ \<Rightarrow>
                       let c = cursorOfReference ref
                       in if cursorInvalid c
                          then (Inr (emptyOrderList env (teClock env 1) ListContextChanged), db)
                          else map_prod Inr id (listPage env cx c db)))"

section \<open>One order\<close>

datatype DetailState =
    DetailOk | DetailNotFound | DetailDeleted | DetailContextChanged | DetailNoActiveStore | DetailUnauthorized
  | DetailMalformedOrderNumber | DetailAmbiguous | DetailRetryable | DetailFailed

record DeletedOrderMarker =
  dmOrderNumber :: string
  dmStatus :: string
  dmCustomer :: string

datatype ShownOrder = LiveOrder OrderDetail | DeletedOrder DeletedOrderMarker

record DetailResult =
  dtState :: DetailState
  dtOrder :: "ShownOrder option"
  dtBackCursor :: "string option"
  dtTransitionsRef :: "string option"
  dtRefreshRef :: "string option"
  dtAddNoteRef :: "string option"
  dtFreshness :: Freshness

definition emptyDetail :: "OrdersEnv \<Rightarrow> date \<Rightarrow> DetailState \<Rightarrow> DetailResult" where
  "emptyDetail env now st =
     \<lparr>dtState = st, dtOrder = None, dtBackCursor = None, dtTransitionsRef = None, dtRefreshRef = None,
      dtAddNoteRef = None, dtFreshness = freshness (shortTelegramEnv env) now None\<rparr>"

definition unresolvedDetail :: "ContextResolution \<Rightarrow> DetailState" where
  "unresolvedDetail resolution = (case resolution of NoActiveStore \<Rightarrow> DetailNoActiveStore | _ \<Rightarrow> DetailUnauthorized)"

text \<open>\<open>!reference?.targetWcOrderId || !reference.backReferenceId\<close>: both texts are there and not empty.\<close>

definition referenceTarget :: "ReferenceRow option \<Rightarrow> (ReferenceRow \<times> string \<times> string) option" where
  "referenceTarget ref =
     (case ref of
        None \<Rightarrow> None
      | Some r \<Rightarrow>
          (case (rfTargetWcOrderId r, rfBackReferenceId r) of
             (Some w, Some b) \<Rightarrow> if w = [] \<or> b = [] then None else Some (r, w, b)
           | _ \<Rightarrow> None))"

definition findContextOrder :: "'x TelegramDb_scheme \<Rightarrow> TelegramOrderContext \<Rightarrow> string \<Rightarrow> OrderRow option" where
  "findContextOrder db cx wcId = findFirst (orderWhere db (cxTenantId cx) (cxStoreId cx) wcId) (tgOrders db)"

definition backCursor :: "OrdersEnv \<Rightarrow> string \<Rightarrow> string" where
  "backCursor env back = tokenForReferenceId (teMac env) (CHR ''p'') back"

definition shownDetail ::
  "OrdersEnv \<Rightarrow> TelegramOrderContext \<Rightarrow> string \<Rightarrow> string \<Rightarrow> OrderRow option \<Rightarrow> date \<Rightarrow> DetailResult" where
  "shownDetail env cx token back found now =
     (let base = (emptyDetail env now DetailNotFound)\<lparr>dtBackCursor := Some (backCursor env back)\<rparr>
      in case found of
           None \<Rightarrow> base
         | Some r \<Rightarrow>
             let fresh = base\<lparr>dtFreshness := freshness (shortTelegramEnv env) now (Some (lastSyncedAt r))\<rparr>
             in if remoteDeletedAt r \<noteq> None
                then fresh\<lparr>dtState := DetailDeleted,
                       dtOrder := Some (DeletedOrder \<lparr>dmOrderNumber = orderNumber r, dmStatus = status r,
                         dmCustomer = customerDisplayName (customerSnapshot r)\<rparr>)\<rparr>
                else fresh\<lparr>dtState := DetailOk, dtOrder := Some (LiveOrder (toDetail r)), dtRefreshRef := Some token,
                       dtTransitionsRef := (if cxRole cx \<noteq> MEMBER \<and> CORE_STATUS_TRANSITIONS (status r) \<noteq> []
                         then Some token else None),
                       dtAddNoteRef := (if cxRole cx \<noteq> MEMBER then Some token else None)\<rparr>)"

definition orderDetail ::
  "OrdersEnv \<Rightarrow> TelegramIdentity \<Rightarrow> string \<Rightarrow> 'x TelegramDb_scheme \<Rightarrow> ServiceError + DetailResult" where
  "orderDetail env identity token db =
     (case resolveContext db identity of
        ContextOk cx \<Rightarrow>
          (case referenceTarget (validateReference (shortTelegramEnv env) (teClock env 0) db token ORDER_DETAIL cx) of
             None \<Rightarrow> Inr (emptyDetail env (teClock env 0) DetailContextChanged)
           | Some (r, w, back) \<Rightarrow>
               andThen (assertActive (cxTenantId cx) (teClock env 1) (tgTenants db)) (\<lambda>_.
               Inr (shownDetail env cx token back (findContextOrder db cx w) (teClock env 2))))
      | resolution \<Rightarrow> Inr (emptyDetail env (teClock env 0) (unresolvedDetail resolution)))"

text \<open>A list reference and a detail reference behind it, for an order that is opened from outside the list.\<close>

definition openReferences :: "OrdersEnv \<Rightarrow> TelegramOrderContext \<Rightarrow> string \<Rightarrow> date \<Rightarrow> ReferenceRow \<times> ReferenceRow" where
  "openReferences env cx wcId now =
     (let expiresAt = expiry env now;
          l = listReference cx (teShortId env 0) expiresAt
      in (l, detailReference cx wcId (rfId l) (teShortId env 1) expiresAt))"

definition openDetail ::
  "OrdersEnv \<Rightarrow> TelegramIdentity \<Rightarrow> TelegramOrderContext \<Rightarrow> string \<Rightarrow> 'x TelegramDb_scheme
     \<Rightarrow> (ServiceError + DetailResult) \<times> 'x TelegramDb_scheme" where
  "openDetail env identity cx wcId db =
     (let (l, d) = openReferences env cx wcId (teClock env 1);
          db' = addReferences [l, d] db
      in (orderDetail (later 2 env) identity (ordersToken env (CHR ''d'') d) db', db'))"

definition isOrderNumberChar :: "char \<Rightarrow> bool" where
  "isOrderNumberChar c \<longleftrightarrow> isAlnum c \<or> c = CHR ''.'' \<or> c = CHR ''_'' \<or> c = CHR ''-''"

definition ORDER_NUMBER_PATTERN :: "string \<Rightarrow> bool" where
  "ORDER_NUMBER_PATTERN s \<longleftrightarrow>
     (case s of [] \<Rightarrow> False | c # cs \<Rightarrow> isAlnum c \<and> length cs \<le> 190 \<and> list_all isOrderNumberChar cs)"

definition orderLookup ::
  "OrdersEnv \<Rightarrow> TelegramIdentity \<Rightarrow> string \<Rightarrow> 'x TelegramDb_scheme \<Rightarrow> (ServiceError + DetailResult) \<times> 'x TelegramDb_scheme" where
  "orderLookup env identity number db =
     (case resolveContext db identity of
        ContextOk cx \<Rightarrow>
          (case assertActive (cxTenantId cx) (teClock env 0) (tgTenants db) of
             Inl e \<Rightarrow> (Inl e, db)
           | Inr _ \<Rightarrow>
               if \<not> ORDER_NUMBER_PATTERN number
               then (Inr (emptyDetail env (teClock env 1) DetailMalformedOrderNumber), db)
               else (case take 2 (findMany (\<lambda>r. contextOrderWhere db cx r \<and> orderNumber r = number) (tgOrders db)) of
                       [] \<Rightarrow> (Inr (emptyDetail env (teClock env 1) DetailNotFound), db)
                     | [r] \<Rightarrow> openDetail env identity cx (wcOrderId r) db
                     | _ \<Rightarrow> (Inr (emptyDetail env (teClock env 1) DetailAmbiguous), db)))
      | resolution \<Rightarrow> (Inr (emptyDetail env (teClock env 0) (unresolvedDetail resolution)), db))"

definition openProjectedDetail ::
  "OrdersEnv \<Rightarrow> TelegramIdentity \<Rightarrow> string \<Rightarrow> 'x TelegramDb_scheme \<Rightarrow> (ServiceError + DetailResult) \<times> 'x TelegramDb_scheme" where
  "openProjectedDetail env identity wcId db =
     (case resolveContext db identity of
        ContextOk cx \<Rightarrow>
          (case assertActive (cxTenantId cx) (teClock env 0) (tgTenants db) of
             Inl e \<Rightarrow> (Inl e, db)
           | Inr _ \<Rightarrow>
               (case findFirst (\<lambda>r. orderWhere db (cxTenantId cx) (cxStoreId cx) wcId r \<and> remoteDeletedAt r = None)
                       (tgOrders db) of
                  None \<Rightarrow> (Inr (emptyDetail env (teClock env 1) DetailNotFound), db)
                | Some r \<Rightarrow> openDetail env identity cx (wcOrderId r) db))
      | resolution \<Rightarrow> (Inr (emptyDetail env (teClock env 0) (unresolvedDetail resolution)), db))"

section \<open>Refreshing from the shop\<close>

text \<open>What a call of the shop or of the projection throws, as \<open>failureState\<close> tells it apart.\<close>

datatype RemoteError = RemoteClient WooCommerceErrorCategory | RemoteEntitlement EffectiveState | RemoteOther

datatype FailureState = FailRetryable | FailFailed | FailNotFound

definition failureState :: "RemoteError \<Rightarrow> FailureState" where
  "failureState e =
     (case e of
        RemoteClient c \<Rightarrow> if c = NotFound then FailNotFound else if retryableCategory c then FailRetryable else FailFailed
      | _ \<Rightarrow> FailFailed)"

definition remoteFetchError :: "FetchFailure \<Rightarrow> RemoteError" where
  "remoteFetchError e = (case e of ClientError c \<Rightarrow> RemoteClient c | OtherFetchError \<Rightarrow> RemoteOther)"

definition remoteServiceError :: "ServiceError \<Rightarrow> RemoteError" where
  "remoteServiceError e = (case e of EntitlementInactiveException s \<Rightarrow> RemoteEntitlement s | _ \<Rightarrow> RemoteOther)"

definition loadWritableStore :: "'x TelegramDb_scheme \<Rightarrow> TelegramOrderContext \<Rightarrow> ProjectableStore option" where
  "loadWritableStore db cx =
     map_option (\<lambda>s. \<lparr>storeId = shId s, storeTenantId = shTenantId s\<rparr>)
       (findFirst (policyWhere db (cxTenantId cx) (cxStoreId cx)) (tgShops db))"

definition reconcilePayload ::
  "OrdersEnv \<Rightarrow> nat \<Rightarrow> ProjectableStore \<Rightarrow> json \<Rightarrow> string \<Rightarrow> 'x TelegramDb_scheme \<Rightarrow> (RemoteError + unit) \<times> 'x TelegramDb_scheme" where
  "reconcilePayload env n s payload wcId db =
     (case reconcileAuthoritativeOrder (oeProjection env) n s payload wcId (tgOrders db) of
        (Inl e, rows) \<Rightarrow> (Inl RemoteOther, db\<lparr>tgOrders := rows\<rparr>)
      | (Inr _, rows) \<Rightarrow> (Inr (), db\<lparr>tgOrders := rows\<rparr>))"

text \<open>The reading of the live order all writing handlers begin with; \<open>n\<close> numbers the calls of the shop.\<close>

definition readAuthoritative ::
  "OrdersEnv \<Rightarrow> nat \<Rightarrow> date \<Rightarrow> TelegramOrderContext \<Rightarrow> ProjectableStore \<Rightarrow> string \<Rightarrow> 'x TelegramDb_scheme
     \<Rightarrow> (RemoteError + json) \<times> 'x TelegramDb_scheme" where
  "readAuthoritative env n now cx s wcId db =
     (case assertActive (cxTenantId cx) now (tgTenants db) of
        Inl e \<Rightarrow> (Inl (remoteServiceError e), db)
      | Inr _ \<Rightarrow>
          (case oeFetch env n s wcId of
             Inl e \<Rightarrow> (Inl (remoteFetchError e), db)
           | Inr payload \<Rightarrow> map_prod (map_sum id (\<lambda>_. payload)) id (reconcilePayload env n s payload wcId db)))"

definition detailFailure :: "FailureState \<Rightarrow> DetailState" where
  "detailFailure f = (case f of FailRetryable \<Rightarrow> DetailRetryable | FailFailed \<Rightarrow> DetailFailed | FailNotFound \<Rightarrow> DetailNotFound)"

definition orderRefresh ::
  "OrdersEnv \<Rightarrow> TelegramIdentity \<Rightarrow> string \<Rightarrow> 'x TelegramDb_scheme \<Rightarrow> (ServiceError + DetailResult) \<times> 'x TelegramDb_scheme" where
  "orderRefresh env identity token db =
     (case resolveContext db identity of
        ContextOk cx \<Rightarrow>
          (case referenceTarget (validateReference (shortTelegramEnv env) (teClock env 0) db token ORDER_DETAIL cx) of
             None \<Rightarrow> (Inr (emptyDetail env (teClock env 0) DetailContextChanged), db)
           | Some (r, w, back) \<Rightarrow>
               (case assertActive (cxTenantId cx) (teClock env 1) (tgTenants db) of
                  Inl e \<Rightarrow> (Inl e, db)
                | Inr _ \<Rightarrow>
                    (case findContextOrder db cx w of
                       None \<Rightarrow> (Inr (emptyDetail env (teClock env 2) DetailNotFound), db)
                     | Some row \<Rightarrow>
                         if remoteDeletedAt row \<noteq> None then (orderDetail (later 2 env) identity token db, db)
                         else (case loadWritableStore db cx of
                                 None \<Rightarrow> (Inr (emptyDetail env (teClock env 2) DetailNoActiveStore), db)
                               | Some s \<Rightarrow>
                                   (case readAuthoritative env 0 (teClock env 2) cx s w db of
                                      (Inl e, db') \<Rightarrow>
                                        (Inr ((emptyDetail env (teClock env 3) (detailFailure (failureState e)))
                                           \<lparr>dtBackCursor := Some (backCursor env back),
                                            dtFreshness := freshness (shortTelegramEnv env) (teClock env 3)
                                              (Some (lastSyncedAt row))\<rparr>), db')
                                    | (Inr _, db') \<Rightarrow> (orderDetail (later 3 env) identity token db', db'))))))
      | resolution \<Rightarrow> (Inr (emptyDetail env (teClock env 0) (unresolvedDetail resolution)), db))"

section \<open>Which statuses a chat may choose\<close>

datatype TransitionsState =
    TransitionsOk | TransitionsNotFound | TransitionsDeleted | TransitionsNoActiveStore | TransitionsUnauthorized
  | TransitionsContextChanged | TransitionsForbiddenRole

record TransitionsResult =
  trState :: TransitionsState
  trRef :: "string option"
  trCurrentStatus :: "string option"
  trTargets :: "string list"

definition noTransitions :: "TransitionsState \<Rightarrow> TransitionsResult" where
  "noTransitions st = \<lparr>trState = st, trRef = None, trCurrentStatus = None, trTargets = []\<rparr>"

definition writeReference ::
  "TelegramOrderContext \<Rightarrow> string \<Rightarrow> string \<Rightarrow> string list \<Rightarrow> string \<Rightarrow> date \<Rightarrow> ReferenceRow" where
  "writeReference cx wcId back targets shortId expiresAt =
     (contextReference cx STATUS_WRITE shortId expiresAt)
       \<lparr>rfTargetWcOrderId := Some wcId, rfBackReferenceId := Some back, rfAllowedTargetStatuses := targets\<rparr>"

definition orderTransitions ::
  "OrdersEnv \<Rightarrow> TelegramIdentity \<Rightarrow> string \<Rightarrow> 'x TelegramDb_scheme \<Rightarrow> (ServiceError + TransitionsResult) \<times> 'x TelegramDb_scheme" where
  "orderTransitions env identity token db =
     (case resolveContext db identity of
        NoActiveStore \<Rightarrow> (Inr (noTransitions TransitionsNoActiveStore), db)
      | Unauthorized \<Rightarrow> (Inr (noTransitions TransitionsUnauthorized), db)
      | ContextOk cx \<Rightarrow>
          (case referenceTarget (validateReference (shortTelegramEnv env) (teClock env 0) db token ORDER_DETAIL cx) of
             None \<Rightarrow> (Inr (noTransitions TransitionsContextChanged), db)
           | Some (r, w, back) \<Rightarrow>
               if cxRole cx = MEMBER then (Inr (noTransitions TransitionsForbiddenRole), db)
               else (case assertActive (cxTenantId cx) (teClock env 1) (tgTenants db) of
                       Inl e \<Rightarrow> (Inl e, db)
                     | Inr _ \<Rightarrow>
                         (case findContextOrder db cx w of
                            None \<Rightarrow> (Inr (noTransitions TransitionsNotFound), db)
                          | Some row \<Rightarrow>
                              if remoteDeletedAt row \<noteq> None then (Inr (noTransitions TransitionsDeleted), db)
                              else let targets = CORE_STATUS_TRANSITIONS (status row);
                                       wr = writeReference cx w back targets (teShortId env 0) (expiry env (teClock env 2))
                                   in (Inr \<lparr>trState = TransitionsOk, trRef = Some (ordersToken env (CHR ''s'') wr),
                                        trCurrentStatus = Some (status row), trTargets = targets\<rparr>,
                                       addReferences [wr] db)))))"

end
