(* ===== verification/OrderPaging.thy ===== *)
theory OrderPaging
  imports TelegramOrders
begin

text \<open>
  Reading the list of orders page by page. The specification is the list of the store's orders, newest
  first; the pages a chat gets by following the tokens of the \<open>Next\<close> buttons are its consecutive parts.
\<close>

section \<open>The list in one piece\<close>

definition newestFirst :: "'x TelegramDb_scheme \<Rightarrow> TelegramOrderContext \<Rightarrow> OrderRow list" where
  "newestFirst db cx = rev (sort_key orderSortKey (findMany (contextOrderWhere db cx) (tgOrders db)))"

definition orderKeysOk :: "'x TelegramDb_scheme \<Rightarrow> TelegramOrderContext \<Rightarrow> bool" where
  "orderKeysOk db cx \<longleftrightarrow> distinct (map wcOrderId (findMany (contextOrderWhere db cx) (tgOrders db)))
     \<and> (\<forall>r \<in> set (tgOrders db). wcOrderId r \<noteq> [])"

lemma set_newestFirst: "set (newestFirst db cx) \<subseteq> set (tgOrders db)"
  by (auto simp: newestFirst_def findMany_def)

lemma distinct_newestFirst:
  assumes "orderKeysOk db cx"
  shows "sorted_wrt (\<lambda>a b. orderSortKey b < orderSortKey a) (newestFirst db cx)"
proof -
  let ?R = "findMany (contextOrderWhere db cx) (tgOrders db)"
  have "distinct (map orderSortKey ?R)"
    using assms unfolding orderKeysOk_def distinct_map orderSortKey_def by (auto simp: inj_on_def)
  then have "distinct (map orderSortKey (sort_key orderSortKey ?R))"
    by (metis distinct_map distinct_sort set_sort)
  with sorted_sort_key [of orderSortKey ?R] have "sorted_wrt (<) (map orderSortKey (sort_key orderSortKey ?R))"
    by (simp add: strict_sorted_iff)
  then show ?thesis by (simp add: newestFirst_def sorted_wrt_rev sorted_wrt_map)
qed

lemma filter_sorted_wrt:
  assumes "sorted_wrt (\<lambda>a b. f b < (f a :: 'k :: linorder)) xs" and "i < length xs"
  shows "filter (\<lambda>r. f r < f (xs ! i)) xs = drop (Suc i) xs" and "filter (\<lambda>r. f (xs ! i) < f r) xs = take i xs"
proof -
  have split: "xs = take i xs @ xs ! i # drop (Suc i) xs" using assms(2) by (simp add: id_take_nth_drop)
  have before: "\<forall>r \<in> set (take i xs). f (xs ! i) < f r" and after: "\<forall>r \<in> set (drop (Suc i) xs). f r < f (xs ! i)"
    using assms(1) by (subst (asm) split; auto simp: sorted_wrt_append)+
  have 1: "filter (\<lambda>r. f r < f (xs ! i)) (take i xs) = []" "filter (\<lambda>r. f r < f (xs ! i)) (drop (Suc i) xs) = drop (Suc i) xs"
    using before after by (auto simp: filter_empty_conv filter_id_conv dest: less_asym)
  have 2: "filter (\<lambda>r. f (xs ! i) < f r) (take i xs) = take i xs" "filter (\<lambda>r. f (xs ! i) < f r) (drop (Suc i) xs) = []"
    using before after by (auto simp: filter_empty_conv filter_id_conv dest: less_asym)
  show "filter (\<lambda>r. f r < f (xs ! i)) xs = drop (Suc i) xs"
    by (subst split) (simp only: filter_append filter.simps 1 less_irrefl if_False append_Nil)
  show "filter (\<lambda>r. f (xs ! i) < f r) xs = take i xs"
    by (subst split) (simp only: filter_append filter.simps 2 less_irrefl if_False append_Nil2)
qed

lemma boundary_key:
  assumes "wcOrderId x \<noteq> []"
  shows "beyondBoundary False (pageBoundary (Some (wcCreatedAt x)) (Some (wcOrderId x))) r \<longleftrightarrow> orderSortKey r < orderSortKey x"
    and "beyondBoundary True (pageBoundary (Some (wcCreatedAt x)) (Some (wcOrderId x))) r \<longleftrightarrow> orderSortKey x < orderSortKey r"
  using assms by (auto simp: beyondBoundary_def pageBoundary_def orderSortKey_def less_prod_def)

lemma findMany_conj: "findMany (\<lambda>r. P r \<and> Q r) rows = filter Q (findMany P rows)"
  by (simp add: findMany_def conj_commute)

lemma first_query: "queryPage db cx CURRENT None None = take 9 (newestFirst db cx)"
  by (simp add: queryPage_def newestFirst_def sortedOrders_def pageBoundary_def beyondBoundary_def PAGE_SIZE_def)

lemma next_query:
  assumes ok: "orderKeysOk db cx" and i: "i < length (newestFirst db cx)" and x: "x = newestFirst db cx ! i"
  shows "queryPage db cx NEXT (Some (wcCreatedAt x)) (Some (wcOrderId x)) = take 9 (drop (Suc i) (newestFirst db cx))"
proof -
  have "wcOrderId x \<noteq> []" using ok nth_mem [OF i] x set_newestFirst [of db cx] by (auto simp: orderKeysOk_def)
  note key = ext [OF boundary_key(1) [OF this]]
  have "rev (sort_key orderSortKey (filter (\<lambda>r. orderSortKey r < orderSortKey x) (findMany (contextOrderWhere db cx) (tgOrders db))))
      = filter (\<lambda>r. orderSortKey r < orderSortKey x) (newestFirst db cx)"
    by (simp add: newestFirst_def rev_filter flip: filter_sort)
  also have "\<dots> = drop (Suc i) (newestFirst db cx)"
    unfolding x by (rule filter_sorted_wrt(1) [OF distinct_newestFirst [OF ok] i])
  finally show ?thesis by (simp add: queryPage_def sortedOrders_def findMany_conj key PAGE_SIZE_def)
qed

lemma previous_query:
  assumes ok: "orderKeysOk db cx" and i: "i < length (newestFirst db cx)" and x: "x = newestFirst db cx ! i"
  shows "queryPage db cx PREVIOUS (Some (wcCreatedAt x)) (Some (wcOrderId x)) = take 9 (rev (take i (newestFirst db cx)))"
proof -
  have "wcOrderId x \<noteq> []" using ok nth_mem [OF i] x set_newestFirst [of db cx] by (auto simp: orderKeysOk_def)
  note key = ext [OF boundary_key(2) [OF this]]
  have "sort_key orderSortKey (filter (\<lambda>r. orderSortKey x < orderSortKey r) (findMany (contextOrderWhere db cx) (tgOrders db)))
      = rev (filter (\<lambda>r. orderSortKey x < orderSortKey r) (newestFirst db cx))"
    by (simp add: newestFirst_def rev_filter flip: filter_sort)
  also have "\<dots> = rev (take i (newestFirst db cx))"
    unfolding x by (subst filter_sorted_wrt(2) [OF distinct_newestFirst [OF ok] i]) (rule refl)
  finally show ?thesis by (simp add: queryPage_def sortedOrders_def findMany_conj key PAGE_SIZE_def)
qed

section \<open>Following the next page\<close>

text \<open>What of the database the list reads beside the references stays as it is.\<close>

lemma addReferences_simps [simp]:
  "tgTenants (addReferences rs db) = tgTenants db" "tgShops (addReferences rs db) = tgShops db"
  "tgMemberships (addReferences rs db) = tgMemberships db" "tgAccounts (addReferences rs db) = tgAccounts db"
  "tgChats (addReferences rs db) = tgChats db" "tgOrders (addReferences rs db) = tgOrders db"
  "tgRecipients (addReferences rs db) = tgRecipients db"
  "tgReferences (addReferences rs db) = tgReferences db @ rs"
  by (simp_all add: addReferences_def)

lemma addReferences_alive [simp]:
  "tenantAlive (addReferences rs db) = tenantAlive db" "shopAlive (addReferences rs db) = shopAlive db"
  by (simp_all add: fun_eq_iff tenantAlive_def shopAlive_def)

lemma addReferences_context [simp]:
  "contextOrderWhere (addReferences rs db) = contextOrderWhere db" "membershipWhere (addReferences rs db) = membershipWhere db"
  "activeShopWhere (addReferences rs db) = activeShopWhere db" "orderWhere (addReferences rs db) = orderWhere db"
  by (simp_all add: fun_eq_iff contextOrderWhere_def membershipWhere_def activeShopWhere_def orderWhere_def)

lemma addReferences_resolve [simp]:
  "resolveContext (addReferences rs db) idn = resolveContext db idn"
  "newestFirst (addReferences rs db) cx = newestFirst db cx" "orderKeysOk (addReferences rs db) cx = orderKeysOk db cx"
  by (simp_all add: resolveContext_def resolveMembership_def newestFirst_def orderKeysOk_def cong: option.case_cong if_cong list.case_cong)

text \<open>
  A chat whose rights last, and random ids that are of the issued form and not drawn twice in the 25 pages: a
  page draws at most eleven, for itself, its eight orders and its two buttons.
\<close>

definition steadyChat :: "(nat \<Rightarrow> OrdersEnv) \<Rightarrow> TelegramIdentity \<Rightarrow> TelegramOrderContext \<Rightarrow> 'x TelegramDb_scheme \<Rightarrow> bool" where
  "steadyChat envs idn cx db \<longleftrightarrow> resolveContext db idn = ContextOk cx
     \<and> (\<forall>k n. \<exists>s. assertActive (cxTenantId cx) (teClock (envs k) n) (tgTenants db) = Inr s)"

definition freshIds :: "(nat \<Rightarrow> OrdersEnv) \<Rightarrow> nat \<Rightarrow> 'x TelegramDb_scheme \<Rightarrow> bool" where
  "freshIds envs k db \<longleftrightarrow> (\<forall>j < 25. \<forall>n < 11. shortIdPattern (teShortId (envs j) n))
     \<and> (\<forall>j < 25. \<forall>n < 11. \<forall>j' < 25. \<forall>n' < 11. teShortId (envs j) n = teShortId (envs j') n' \<longrightarrow> j = j' \<and> n = n')
     \<and> (\<forall>j < 25. k \<le> j \<longrightarrow> (\<forall>n < 11. ''tcr_'' @ teShortId (envs j) n \<notin> rfId ` set (tgReferences db)))"

definition sameBot :: "(string \<Rightarrow> nat list) \<Rightarrow> (nat \<Rightarrow> OrdersEnv) \<Rightarrow> bool" where
  "sameBot mac envs \<longleftrightarrow> goodMac mac \<and> (\<forall>k. teMac (envs k) = mac)
     \<and> (\<forall>k m n. teClock (envs (Suc k)) m < teClock (envs k) n + teReferenceTtlSeconds (envs k) * 1000)"

lemma rfId_contextReference [simp]:
  "rfId (contextReference cx p s e) = ''tcr_'' @ s" "rfId (pageReference cx d c i n s e) = ''tcr_'' @ s"
  "rfId (detailReference cx w b s e) = ''tcr_'' @ s"
  by (simp_all add: contextReference_def pageReference_def detailReference_def)

lemma next_id: "nextPageReference env cx c page m s e = Some r \<Longrightarrow> rfId r = ''tcr_'' @ s"
  "previousPageReference env cx c page s e = Some r \<Longrightarrow> rfId r = ''tcr_'' @ s"
  by (auto simp: nextPageReference_def previousPageReference_def split: if_splits)

lemma length_page: "length (pageOf dir records) \<le> 8"
  by (simp add: pageOf_def PAGE_SIZE_def Let_def)

lemma page_ids:
  assumes "length page \<le> 8"
  shows "rfId ` set (map (\<lambda>(r, k). detailReference cx (wcOrderId r) b (teShortId env (Suc k)) e) (zip page [0..<length page]))
    \<subseteq> {i. \<exists>n < 11. i = ''tcr_'' @ teShortId env n}"
proof
  fix i assume "i \<in> rfId ` set (map (\<lambda>(r, k). detailReference cx (wcOrderId r) b (teShortId env (Suc k)) e) (zip page [0..<length page]))"
  then obtain r k where "(r, k) \<in> set (zip page [0..<length page])" and i: "i = ''tcr_'' @ teShortId env (Suc k)"
    by (auto simp del: append.simps)
  then have "Suc k < 11" using assms by (auto dest!: set_zip_rightD)
  then show "i \<in> {i. \<exists>n < 11. i = ''tcr_'' @ teShortId env n}" unfolding i by blast
qed

lemma listPage_references:
  assumes "listPage env cx c db = (pg, db')"
  obtains rs where "db' = addReferences rs db" "rfId ` set rs \<subseteq> {i. \<exists>n < 11. i = ''tcr_'' @ teShortId env n}"
proof -
  define page where "page = pageOf (pcDirection c) (queryPage db cx (pcDirection c) (pcCreatedAt c) (pcOrderId c))"
  have size: "length page \<le> 8" by (simp add: page_def length_page)
  have ids: "n < 11 \<Longrightarrow> ''tcr_'' @ teShortId env n \<in> {i. \<exists>n < 11. i = ''tcr_'' @ teShortId env n}" for n by blast
  have near: "0 < (11 :: nat)" "length page + 1 < 11" "length page + 2 < 11" using size by simp_all
  have opt: "rfId ` set (case q of None \<Rightarrow> [] | Some r \<Rightarrow> [r]) \<subseteq> I \<longleftrightarrow> (\<forall>r. q = Some r \<longrightarrow> rfId r \<in> I)" for q I
    by (cases q) auto
  have nxt: "\<forall>r. nextPageReference env cx c page m (teShortId env (length page + 2)) e = Some r \<longrightarrow>
      rfId r \<in> {i. \<exists>n < 11. i = ''tcr_'' @ teShortId env n}" for m e
    using next_id(1) ids [OF near(3)] by (metis (no_types, lifting))
  have prev: "\<forall>r. previousPageReference env cx c page (teShortId env (length page + 1)) e = Some r \<longrightarrow>
      rfId r \<in> {i. \<exists>n < 11. i = ''tcr_'' @ teShortId env n}" for e
    using next_id(2) ids [OF near(2)] by (metis (no_types, lifting))
  show thesis
    by (rule that [OF sym [OF arg_cong [where f = snd, OF assms, simplified listPage_def Let_def snd_conv
          page_def [symmetric]]]])
      (simp only: set_append image_Un Un_subset_iff opt nxt prev page_ids [OF size] list.set image_insert image_empty
        insert_subset empty_subsetI rfId_contextReference ids [OF near(1)] simp_thms,
        use nxt prev in \<open>blast\<close>)
qed

lemma findFirst_last: "\<forall>r \<in> set xs. \<not> P r \<Longrightarrow> P x \<Longrightarrow> findFirst P (xs @ [x]) = Some x"
  by (induction xs) (auto simp: findFirst_def)

text \<open>
  Following the token of the next button: the reference it names is found, and the handler goes on from the
  cursor in it.
\<close>

lemma follow_next_button:
  assumes run: "listPage env cx c db = (pg, db')" and tok: "olNext pg = Some t"
    and ids: "\<And>n. n < 11 \<Longrightarrow> shortIdPattern (teShortId env n)" "inj_on (teShortId env) {..<11}"
      "\<And>n. n < 11 \<Longrightarrow> ''tcr_'' @ teShortId env n \<notin> rfId ` set (tgReferences db)"
    and mac: "goodMac (teMac env)" "teMac env' = teMac env" and now: "teClock env' 0 < expiry env (teClock env 3)"
  defines "records \<equiv> queryPage db cx (pcDirection c) (pcCreatedAt c) (pcOrderId c)"
  defines "page \<equiv> pageOf (pcDirection c) records"
  obtains ref where
    "nextPageReference env cx c page (length records) (teShortId env (length page + 2)) (expiry env (teClock env 3)) = Some ref"
    "validateReference (shortTelegramEnv env') (teClock env' 0) db' t LIST_PAGE cx = Some ref" "t \<noteq> []"
proof -
  let ?e = "expiry env (teClock env 3)" and ?id = "''tcr_'' @ teShortId env (length page + 2)"
  define cur where "cur = pageReference cx (pcDirection c) (pcCreatedAt c) (pcOrderId c) (pcOffset c) (teShortId env 0) ?e"
  define det where "det = map (\<lambda>(r, k). detailReference cx (wcOrderId r) (rfId cur) (teShortId env (Suc k)) ?e)
      (zip page [0..<length page])"
  define prev where "prev = previousPageReference env cx c page (teShortId env (length page + 1)) ?e"
  from run tok obtain ref where ref: "nextPageReference env cx c page (length records) (teShortId env (length page + 2)) ?e = Some ref"
    and t: "t = ordersToken env (CHR ''p'') ref"
    by (auto simp: listPage_def Let_def records_def page_def)
  from run ref have db': "tgReferences db' = tgReferences db @ cur # det @ (case prev of Some r \<Rightarrow> [r] | None \<Rightarrow> []) @ [ref]"
    by (auto simp: listPage_def Let_def records_def [symmetric] page_def [symmetric] cur_def det_def prev_def)
  have size: "length page + 2 < 11" using length_page [of "pcDirection c" records] by (simp add: page_def)
  have rid: "rfId ref = ?id" by (rule next_id(1) [OF ref])
  have other: "teShortId env k \<noteq> teShortId env (length page + 2)" if "k < length page + 2" for k
    using inj_onD [OF ids(2), of k "length page + 2"] that size by auto
  have none: "\<forall>r \<in> set (tgReferences db @ cur # det @ (case prev of Some r \<Rightarrow> [r] | None \<Rightarrow> [])). rfId r \<noteq> ?id"
    using ids(3) [OF size] other next_id(2)
    by (auto simp: cur_def det_def prev_def rev_image_eqI set_zip split: option.splits)
  have find: "findReference db' ?id = Some ref"
    using findFirst_last [of "tgReferences db @ cur # det @ (case prev of Some r \<Rightarrow> [r] | None \<Rightarrow> [])" "\<lambda>r. rfId r = ?id" ref]
      none rid by (simp add: findReference_def db')
  have verify: "parseAndVerifyToken (teMac env') t (CHR ''p'') = Some ?id"
    unfolding t ordersToken_def rid mac(2)
    by (rule order_tokens.accepts) (simp_all only: mac(1) ids(1) [OF size], simp)
  from ref have "rfPurpose ref = LIST_PAGE" "referenceMatchesContext ref cx" "rfExpiresAt ref = ?e"
    by (auto simp: nextPageReference_def pageReference_def contextReference_def referenceMatchesContext_def split: if_splits)
  with verify find now have "validateReference (shortTelegramEnv env') (teClock env' 0) db' t LIST_PAGE cx = Some ref"
    by (simp add: validateReference_def referencePrefix_def shortTelegramEnv_def TelegramEnv.truncate_def)
  moreover have "t \<noteq> []" using verify by (auto simp: parseAndVerifyToken_def verifyToken_def)
  ultimately show thesis using that ref by blast
qed

section \<open>The pages\<close>

definition pageCursor :: "OrderRow list \<Rightarrow> nat \<Rightarrow> PageCursor \<Rightarrow> bool" where
  "pageCursor S j c \<longleftrightarrow> pcOffset c = int (8 * j) \<and> j < 25
     \<and> (if j = 0 then pcDirection c = CURRENT \<and> pcCreatedAt c = None \<and> pcOrderId c = None
        else 8 * j \<le> length S \<and> pcDirection c = NEXT \<and> pcCreatedAt c = Some (wcCreatedAt (S ! (8 * j - 1)))
          \<and> pcOrderId c = Some (wcOrderId (S ! (8 * j - 1))))"

lemma page_query:
  assumes ok: "orderKeysOk db cx" and c: "pageCursor (newestFirst db cx) j c"
  shows "queryPage db cx (pcDirection c) (pcCreatedAt c) (pcOrderId c) = take 9 (drop (8 * j) (newestFirst db cx))"
    and "\<not> cursorInvalid c"
proof -
  let ?S = "newestFirst db cx"
  have i: "8 * j - 1 < length ?S" "Suc (8 * j - 1) = 8 * j" if "j \<noteq> 0" using c that by (auto simp: pageCursor_def)
  show "queryPage db cx (pcDirection c) (pcCreatedAt c) (pcOrderId c) = take 9 (drop (8 * j) ?S)"
  proof (cases "j = 0")
    case True
    with c show ?thesis by (simp add: pageCursor_def first_query)
  next
    case False
    with c next_query [OF ok i(1) refl] i(2) show ?thesis by (simp add: pageCursor_def)
  qed
  have "wcOrderId (?S ! (8 * j - 1)) \<noteq> []" if "j \<noteq> 0"
    using ok nth_mem [OF i(1) [OF that]] set_newestFirst [of db cx] by (auto simp: orderKeysOk_def)
  with c show "\<not> cursorInvalid c"
    by (auto simp: cursorInvalid_def pageCursor_def REACHABLE_ORDER_CAP_def pageBoundary_def split: if_splits)
qed

lemma page_next:
  assumes c: "pageCursor S j c" and page: "page = take 8 (drop (8 * j) S)" and m: "m = length (take 9 (drop (8 * j) S))"
  shows "nextPageReference env cx c page m s e = None \<longleftrightarrow> length S \<le> 8 * j + 8 \<or> j = 24"
    and "nextPageReference env cx c page m s e = Some ref \<Longrightarrow> pageCursor S (Suc j) (cursorOfReference (Some ref))"
proof -
  have len: "length page = min 8 (length S - 8 * j)" and fetched: "8 < m \<longleftrightarrow> 8 * j + 8 < length S"
    by (auto simp: page m)
  have dir: "pcDirection c \<noteq> PREVIOUS" "pcOffset c = int (8 * j)" "j < 25" using c by (auto simp: pageCursor_def split: if_splits)
  have cond: "page \<noteq> [] \<and> pcOffset c + int (length page) < REACHABLE_ORDER_CAP \<and> (pcDirection c = PREVIOUS \<or> PAGE_SIZE < m)
      \<longleftrightarrow> 8 * j + 8 < length S \<and> j < 24"
  proof (cases "8 * j + 8 < length S")
    case True
    then have "length page = 8" "page \<noteq> []" using len by auto
    with dir True fetched show ?thesis by (auto simp: REACHABLE_ORDER_CAP_def PAGE_SIZE_def)
  next
    case False
    with dir fetched show ?thesis by (simp add: PAGE_SIZE_def)
  qed
  then show "nextPageReference env cx c page m s e = None \<longleftrightarrow> length S \<le> 8 * j + 8 \<or> j = 24"
    using dir(3) unfolding nextPageReference_def by auto
  assume ref: "nextPageReference env cx c page m s e = Some ref"
  with cond have more: "8 * j + 8 < length S" "j < 24" unfolding nextPageReference_def by (auto split: if_splits)
  then have "length page = 8" using len by simp
  moreover have "last page = S ! (8 * j + 7)"
    using \<open>length page = 8\<close> more by (subst last_conv_nth) (auto simp: page)
  ultimately show "pageCursor S (Suc j) (cursorOfReference (Some ref))"
    using ref dir(2) more unfolding nextPageReference_def
    by (auto simp: pageCursor_def cursorOfReference_def pageReference_def algebra_simps split: if_splits)
qed

lemma listPage_orders:
  assumes "listPage env cx c db = (pg, db')"
    and page: "page = pageOf (pcDirection c) (queryPage db cx (pcDirection c) (pcCreatedAt c) (pcOrderId c))"
  shows "olState pg = ListOk" "map smOrderNumber (olOrders pg) = map orderNumber page"
    and "olNext pg = None \<longleftrightarrow> nextPageReference env cx c page (length (queryPage db cx (pcDirection c) (pcCreatedAt c)
      (pcOrderId c))) (teShortId env (length page + 2)) (expiry env (teClock env 3)) = None"
  using assms(1) unfolding listPage_def Let_def page [symmetric]
  by (auto simp: toOrderSummary_def comp_def case_prod_beta intro!: nth_equalityI)

lemma orderList_first:
  assumes "steadyChat envs idn cx db" and "\<not> cursorInvalid (cursorOfReference None)"
  shows "orderList (envs k) idn None db = map_prod Inr id (listPage (envs k) cx (cursorOfReference None) db)"
  using assms unfolding steadyChat_def by (auto simp: orderList_def Let_def split: sum.split) (metis Inl_Inr_False)

lemma orderList_cursor:
  assumes "steadyChat envs idn cx db" and "t \<noteq> []"
    and "validateReference (shortTelegramEnv (envs k)) (teClock (envs k) 0) db t LIST_PAGE cx = Some ref"
    and "\<not> cursorInvalid (cursorOfReference (Some ref))"
  shows "orderList (envs k) idn (Some t) db = map_prod Inr id (listPage (envs k) cx (cursorOfReference (Some ref)) db)"
  using assms unfolding steadyChat_def by (auto simp: orderList_def Let_def split: sum.split) (metis Inl_Inr_False)

text \<open>A reader that follows the next button; \<open>None\<close> is an error, a refusal, or the end of the fuel.\<close>

fun readOrders ::
  "(nat \<Rightarrow> OrdersEnv) \<Rightarrow> TelegramIdentity \<Rightarrow> nat \<Rightarrow> nat \<Rightarrow> string option \<Rightarrow> 'x TelegramDb_scheme \<Rightarrow> OrderSummary list option" where
  "readOrders envs idn k 0 cursor db = None"
| "readOrders envs idn k (Suc fuel) cursor db =
     (case orderList (envs k) idn cursor db of
        (Inl e, _) \<Rightarrow> None
      | (Inr pg, db') \<Rightarrow>
          if olState pg \<noteq> ListOk then None
          else (case olNext pg of
                  None \<Rightarrow> Some (olOrders pg)
                | Some t \<Rightarrow> map_option (append (olOrders pg)) (readOrders envs idn (Suc k) fuel (Some t) db')))"

lemma freshIds_later:
  assumes "freshIds envs k db" and "rfId ` set rs \<subseteq> {i. \<exists>n < 11. i = ''tcr_'' @ teShortId (envs k) n}"
    and "k < 25"
  shows "freshIds envs (Suc k) (addReferences rs db)"
proof -
  have "''tcr_'' @ teShortId (envs j) n \<notin> rfId ` set rs" if "Suc k \<le> j" "j < 25" "n < 11" for j n
  proof
    assume "''tcr_'' @ teShortId (envs j) n \<in> rfId ` set rs"
    with assms(2) obtain m where "''tcr_'' @ teShortId (envs j) n = ''tcr_'' @ teShortId (envs k) m" "m < 11" by blast
    then have "j = k" using assms(1,3) that unfolding freshIds_def same_append_eq by blast
    with that show False by simp
  qed
  with assms(1) show ?thesis unfolding freshIds_def by (simp only: addReferences_simps set_append image_Un Un_iff) auto
qed

lemma steadyChat_references [simp]: "steadyChat envs idn cx (addReferences rs db) = steadyChat envs idn cx db"
  by (simp add: steadyChat_def)

lemma read_from:
  assumes "orderKeysOk db cx" and "steadyChat envs idn cx db" and "freshIds envs k db" and "sameBot mac envs"
    and "pageCursor (newestFirst db cx) j c" and "fuel + j = 25" and "k = j"
    and "orderList (envs k) idn cursor db = map_prod Inr id (listPage (envs k) cx c db)"
  shows "\<exists>xs. readOrders envs idn k fuel cursor db = Some xs
    \<and> map smOrderNumber xs = map orderNumber (take (200 - 8 * j) (drop (8 * j) (newestFirst db cx)))"
  using assms
proof (induction fuel arbitrary: k j c cursor db)
  case 0
  then show ?case by (simp add: pageCursor_def)
next
  case (Suc fuel)
  let ?S = "newestFirst db cx" and ?env = "envs k" and ?env' = "envs (Suc k)"
  let ?q = "queryPage db cx (pcDirection c) (pcCreatedAt c) (pcOrderId c)"
  define page where "page = take 8 (drop (8 * j) ?S)"
  note query = page_query [OF Suc.prems(1,5)]
  have dir: "pcDirection c \<noteq> PREVIOUS" using Suc.prems(5) by (auto simp: pageCursor_def split: if_splits)
  have page: "page = pageOf (pcDirection c) ?q"
    using dir by (simp add: page_def pageOf_def query(1) PAGE_SIZE_def Let_def)
  obtain pg db' where run: "listPage ?env cx c db = (pg, db')" by force
  note shown = listPage_orders [OF run page]
  obtain rs where rs: "db' = addReferences rs db" "rfId ` set rs \<subseteq> {i. \<exists>n < 11. i = ''tcr_'' @ teShortId ?env n}"
    by (rule listPage_references [OF run])
  have m: "length ?q = length (take 9 (drop (8 * j) ?S))" by (simp add: query(1))
  note nxt = page_next [OF Suc.prems(5) page_def m]
  show ?case
  proof (cases "olNext pg")
    case None
    with nxt(1) shown(3) have "length ?S \<le> 8 * j + 8 \<or> j = 24" by simp
    moreover have "j < 25" using Suc.prems(5) by (simp add: pageCursor_def)
    ultimately have "take (200 - 8 * j) (drop (8 * j) ?S) = page"
      by (auto simp: page_def)
    with None run shown Suc.prems(8) show ?thesis by simp
  next
    case (Some t)
    have k: "k < 25" using Suc.prems(6,7) by simp
    then have inj: "inj_on (teShortId ?env) {..<11}" using Suc.prems(3) by (simp add: freshIds_def inj_on_def)
    obtain ref where ref: "nextPageReference ?env cx c page (length ?q) (teShortId ?env (length page + 2))
        (expiry ?env (teClock ?env 3)) = Some ref"
      "validateReference (shortTelegramEnv ?env') (teClock ?env' 0) db' t LIST_PAGE cx = Some ref" "t \<noteq> []"
      by (rule follow_next_button [OF run Some, of ?env', folded page])
        (use Suc.prems(3,4) inj k in \<open>auto simp: freshIds_def sameBot_def expiry_def\<close>)
    let ?c = "cursorOfReference (Some ref)"
    have c': "pageCursor (newestFirst db' cx) (Suc j) ?c" using nxt(2) [OF ref(1)] rs(1) by simp
    have ok': "orderKeysOk db' cx" "steadyChat envs idn cx db'" using Suc.prems(1,2) rs(1) by simp_all
    from orderList_cursor [where envs = envs and k = "Suc k", OF ok'(2) ref(3,2)] page_query(2) [OF ok'(1) c']
    have "orderList ?env' idn (Some t) db' = map_prod Inr id (listPage ?env' cx ?c db')" by simp
    from Suc.IH [OF ok' _ Suc.prems(4) c' _ _ this] freshIds_later [OF Suc.prems(3) rs(2) k] Suc.prems(6,7) rs(1)
    obtain xs where xs: "readOrders envs idn (Suc k) fuel (Some t) db' = Some xs"
      "map smOrderNumber xs = map orderNumber (take (200 - 8 * Suc j) (drop (8 * Suc j) ?S))" by auto
    have "j < 25" using Suc.prems(5) by (simp add: pageCursor_def)
    moreover from this have "j < 24" using nxt(1) [of ?env] ref(1) by (cases "j = 24") auto
    ultimately have "take (200 - 8 * j) (drop (8 * j) ?S) = page @ take (200 - 8 * Suc j) (drop (8 * Suc j) ?S)"
      using take_add [of 8 "200 - 8 * Suc j" "drop (8 * j) ?S"] by (simp add: page_def add.commute)
    with Some run shown xs Suc.prems(8) show ?thesis by simp
  qed
qed

text \<open>
  C30: following the next button reads the whole list: starting without a cursor and going on with the token
  of each page, at most 25 pages show the newest 200 orders of the chat's store (all of them when there are
  fewer), newest first, none twice and none left out, and then no further page is offered.
\<close>

theorem pages_show_newest_orders:
  assumes "orderKeysOk db cx" and "steadyChat envs idn cx db" and "freshIds envs 0 db" and "sameBot mac envs"
  shows "\<exists>xs. readOrders envs idn 0 25 None db = Some xs
    \<and> map smOrderNumber xs = map orderNumber (take 200 (newestFirst db cx))"
proof -
  have c: "pageCursor (newestFirst db cx) 0 (cursorOfReference None)"
    by (simp add: pageCursor_def cursorOfReference_def)
  have "orderList (envs 0) idn None db = map_prod Inr id (listPage (envs 0) cx (cursorOfReference None) db)"
    by (rule orderList_first [OF assms(2) page_query(2) [OF assms(1) c]])
  from read_from [OF assms c _ refl this] show ?thesis by simp
qed


section \<open>A chat with one order\<close>

definition sampleOrders :: TelegramDb where
  "sampleOrders = sampleTelegram\<lparr>tgOrders := [sampleNotifiedOrder]\<rparr>"

definition sampleOrdersEnv :: "nat \<Rightarrow> OrdersEnv" where
  "sampleOrdersEnv k = \<lparr>teClock = (\<lambda>n. 0),
     teShortId = (\<lambda>n. base64Digit k # base64Digit n # replicate 14 (CHR ''A'')), teMac = (\<lambda>v. replicate 32 7),
     teReferenceTtlSeconds = 900, teFreshnessThresholdSeconds = 600, oeFetch = (\<lambda>n s i. Inr JNull), oeProjection = demoEnv\<rparr>"

lemma sampleOrders_list: "newestFirst sampleOrders sampleContext = [sampleNotifiedOrder]"
  by (simp add: newestFirst_def findMany_def sampleOrders_def sampleTelegram_def sampleContext_def sampleNotifiedOrder_def
      contextOrderWhere_def tenantAlive_def shopAlive_def)

lemma sampleOrders_steady: "steadyChat sampleOrdersEnv sampleIdentity sampleContext sampleOrders"
proof -
  have "resolveContext sampleOrders sampleIdentity = ContextOk sampleContext"
    by (simp add: resolveContext_def resolveMembership_def sampleOrders_def sampleTelegram_def sampleIdentity_def
        sampleContext_def findFirst_def findMany_def membershipWhere_def activeShopWhere_def activeChat_def tenantAlive_def)
  moreover have "\<exists>s. assertActive ''ten_1'' 0 (tgTenants sampleTelegram) = Inr s"
    by (simp add: assertActive_def resolveTenant_def sampleTelegram_def findFirst_def tenantWhere_def rowSummary_def
        toSummary_def effectiveTenantEntitlementState_def andThen_def)
  ultimately show ?thesis
    by (simp add: steadyChat_def sample_resolves sampleOrdersEnv_def) (simp add: sampleContext_def sampleOrders_def)
qed

lemma sampleOrders_fresh: "freshIds sampleOrdersEnv 0 sampleOrders"
proof -
  have "base64Digit m = base64Digit n \<longleftrightarrow> m = n" if "m < 64" "n < 64" for m n
    using base64_digit(1) [OF that(1)] base64_digit(1) [OF that(2)] by metis
  moreover have "isBase64 (CHR ''A'')" by code_simp
  ultimately show ?thesis
    by (simp add: freshIds_def sampleOrdersEnv_def shortIdPattern_def base64_digit sampleOrders_def sampleTelegram_def
        list_all_iff)
qed

theorem pages_show_newest_orders_witness:
  "\<exists>xs. readOrders sampleOrdersEnv sampleIdentity 0 25 None sampleOrders = Some xs \<and> map smOrderNumber xs = [''1007'']"
proof -
  have ok: "orderKeysOk sampleOrders sampleContext"
    by (auto simp: orderKeysOk_def findMany_def sampleOrders_def sampleNotifiedOrder_def)
  have bot: "sameBot (\<lambda>v. replicate 32 7) sampleOrdersEnv"
    by (simp add: sameBot_def goodMac_def sampleOrdersEnv_def list_all_iff)
  show ?thesis
    using pages_show_newest_orders [OF ok sampleOrders_steady sampleOrders_fresh bot]
    by (simp add: sampleOrders_list) (simp add: sampleNotifiedOrder_def)
qed

end
