(* ===== verification/OrderWrites.thy ===== *)
theory OrderWrites
  imports TelegramOrders
begin

text \<open>
  Changing the status of an order from a chat (\<open>updateStatus\<close> of
  \<open>backend/src/telegram/telegram-order.service.ts\<close> and what it calls). The handler reads the live order, claims
  its reference for one target, records the write, sends it to the shop and stores the answer. Other processes
  may commit before every group of statements: \<open>between\<close> is what they do. The requests that were sent to the
  shop are logged with the id of the row they were recorded under.
\<close>

datatype StatusUpdateState =
    UpdOk | UpdNoOp | UpdRetryable | UpdFailed | UpdNotFound | UpdDeleted | UpdNoActiveStore | UpdUnauthorized
  | UpdContextChanged | UpdForbiddenRole | UpdInvalidTarget | UpdExpiredRef

record StatusResult =
  suState :: StatusUpdateState
  suOrder :: "OrderDetail option"
  suBackCursor :: "string option"
  suFreshness :: "Freshness option"

definition plainStatus :: "StatusUpdateState \<Rightarrow> StatusResult" where
  "plainStatus st = \<lparr>suState = st, suOrder = None, suBackCursor = None, suFreshness = None\<rparr>"

record StatusWriteRow =
  swId :: string
  swReferenceId :: string
  swAccountId :: string
  swTenantId :: string
  swStoreId :: string
  swWcOrderId :: string
  swTargetStatus :: string
  swOutcome :: "StatusUpdateState option"
  swResult :: "StatusResult option"
  swStartedAt :: date
  swCompletedAt :: "date option"

record StatusSent =
  ssWriteId :: string
  ssReferenceId :: string
  ssStoreId :: string
  ssWcOrderId :: string
  ssTarget :: string

datatype NoteState =
    NoteOk | NoteCancelled | NoteInvalid | NoteInProgress | NoteAmbiguous | NoteRetryable | NoteFailed | NoteNotFound
  | NoteDeleted | NoteNoActiveStore | NoteUnauthorized | NoteContextChanged | NoteForbiddenRole | NoteExpiredRef

record NoteMutationResult =
  nmState :: NoteState
  nmDetailRef :: "string option"
  nmVisibility :: "NoteVisibility option"
  nmOrderNumber :: "string option"

datatype NoteActionState = NoteInFlight | NoteActionSucceeded | NoteActionFailed | NoteActionAmbiguous

record NoteAction =
  naId :: string
  naReferenceId :: string
  naAccountId :: string
  naTenantId :: string
  naStoreId :: string
  naWcOrderId :: string
  naVisibility :: NoteVisibility
  naContentFingerprint :: string
  naState :: NoteActionState
  naResult :: "NoteMutationResult option"
  naStartedAt :: date
  naCompletedAt :: "date option"

record NoteSent =
  nsActionId :: string
  nsReferenceId :: string
  nsStoreId :: string
  nsWcOrderId :: string
  nsNote :: string
  nsCustomerNote :: bool

record OrderWritesDb = TelegramDb +
  owStatusWrites :: "StatusWriteRow list"
  owNoteActions :: "NoteAction list"
  owAudit :: "AuditRow list"
  owStatusSent :: "StatusSent list"
  owNotesSent :: "NoteSent list"

text \<open>
  \<open>weClaimFault\<close> and \<open>weRecordFault\<close>: the database aborts the transaction that claims a note, or the one that
  records its success.
\<close>

record WritesEnv = OrdersEnv +
  weBetween :: "nat \<Rightarrow> OrderWritesDb \<Rightarrow> OrderWritesDb"
  weUpdateStatus :: "ProjectableStore \<Rightarrow> string \<Rightarrow> string \<Rightarrow> FetchFailure + json"
  weCreateNote :: "ProjectableStore \<Rightarrow> string \<Rightarrow> string \<Rightarrow> bool \<Rightarrow> FetchFailure + json"
  weHex :: "nat \<Rightarrow> string"
  weEncrypt :: "string \<Rightarrow> string"
  weDecrypt :: "string \<Rightarrow> string option"
  weNoteHmac :: "string \<Rightarrow> string"
  weClaimFault :: bool
  weRecordFault :: bool

definition ordersEnv :: "WritesEnv \<Rightarrow> OrdersEnv" where
  "ordersEnv env = OrdersEnv.truncate env"

definition writesToken :: "WritesEnv \<Rightarrow> char \<Rightarrow> string \<Rightarrow> string" where
  "writesToken env p i = tokenForReferenceId (teMac env) p i"

definition readMappedStatus :: "OrdersEnv \<Rightarrow> json \<Rightarrow> string \<Rightarrow> string option" where
  "readMappedStatus env payload expected =
     (case mapWooCommerceOrder (sha256 (oeProjection env)) payload of
        Inl e \<Rightarrow> None
      | Inr mapped \<Rightarrow> if wcOrderId mapped = expected then Some (status mapped) else None)"

definition failureStatus :: "FailureState \<Rightarrow> StatusUpdateState" where
  "failureStatus f = (case f of FailRetryable \<Rightarrow> UpdRetryable | FailFailed \<Rightarrow> UpdFailed | FailNotFound \<Rightarrow> UpdNotFound)"

section \<open>Completing a write\<close>

definition finishStatusWrite :: "string \<Rightarrow> StatusUpdateState \<Rightarrow> StatusResult \<Rightarrow> date \<Rightarrow> OrderWritesDb \<Rightarrow> OrderWritesDb" where
  "finishStatusWrite writeId st result now db =
     db\<lparr>owStatusWrites := snd (updateMany (\<lambda>w. swId w = writeId)
          (\<lambda>w. w\<lparr>swOutcome := Some st, swResult := Some result, swCompletedAt := Some now\<rparr>) (owStatusWrites db))\<rparr>"

definition completeFailure ::
  "WritesEnv \<Rightarrow> string \<Rightarrow> StatusUpdateState \<Rightarrow> OrderWritesDb \<Rightarrow> StatusResult \<times> OrderWritesDb" where
  "completeFailure env writeId st db =
     (plainStatus st, finishStatusWrite writeId st (plainStatus st) (teClock env 5) (weBetween env 11 db))"

definition statusAudit :: "WritesEnv \<Rightarrow> TelegramOrderContext \<Rightarrow> string \<Rightarrow> string \<Rightarrow> AuditRow" where
  "statusAudit env cx wcId target =
     \<lparr>auId = ''aud_'' @ weHex env 1, auTenantId = cxTenantId cx, auUserId = Some (cxUserId cx),
      auAction = ''telegram.order.status.updated'', auEntityType = ''Order'', auEntityId = Some wcId,
      auMetadata = Some (JObj [(''storeId'', JStr (cxStoreId cx)), (''targetStatus'', JStr target)])\<rparr>"

definition statusOrder :: "WritesEnv \<Rightarrow> StatusUpdateState \<Rightarrow> string \<Rightarrow> date \<Rightarrow> OrderRow \<Rightarrow> StatusResult" where
  "statusOrder env st back now r =
     \<lparr>suState = st, suOrder = Some (toDetail r), suBackCursor = Some (writesToken env (CHR ''p'') back),
      suFreshness = Some (freshness (shortTelegramEnv (ordersEnv env)) now (Some (lastSyncedAt r)))\<rparr>"

definition completeStatusWrite ::
  "WritesEnv \<Rightarrow> string \<Rightarrow> StatusUpdateState \<Rightarrow> TelegramOrderContext \<Rightarrow> string \<Rightarrow> string \<Rightarrow> string \<Rightarrow> OrderWritesDb
     \<Rightarrow> StatusResult \<times> OrderWritesDb" where
  "completeStatusWrite env writeId st cx wcId target back db =
     (case findContextOrder db cx wcId of
        None \<Rightarrow> completeFailure env writeId UpdNotFound db
      | Some r \<Rightarrow>
          if remoteDeletedAt r \<noteq> None then completeFailure env writeId UpdDeleted db
          else let result = statusOrder env st back (teClock env 4) r;
                   db' = finishStatusWrite writeId st result (teClock env 5) (weBetween env 11 db)
               in (result, db'\<lparr>owAudit := owAudit db' @ (if st = UpdOk then [statusAudit env cx wcId target] else [])\<rparr>))"

section \<open>Sending it\<close>

definition reconcileLostWrite ::
  "WritesEnv \<Rightarrow> string \<Rightarrow> RemoteError \<Rightarrow> TelegramOrderContext \<Rightarrow> ProjectableStore \<Rightarrow> string \<Rightarrow> string \<Rightarrow> string
     \<Rightarrow> OrderWritesDb \<Rightarrow> StatusResult \<times> OrderWritesDb" where
  "reconcileLostWrite env writeId writeError cx s wcId target back db =
     (case oeFetch env 1 s wcId of
        Inl e \<Rightarrow> completeFailure env writeId (failureStatus (failureState (remoteFetchError e))) db
      | Inr payload \<Rightarrow>
          (case reconcilePayload (ordersEnv env) 2 s payload wcId (weBetween env 9 db) of
             (Inl e, db') \<Rightarrow> completeFailure env writeId (failureStatus (failureState e)) db'
           | (Inr _, db') \<Rightarrow>
               if readMappedStatus (ordersEnv env) payload wcId = Some target
               then completeStatusWrite env writeId UpdOk cx wcId target back (weBetween env 10 db')
               else completeFailure env writeId (failureStatus (failureState writeError)) db'))"

definition logStatusSent :: "string \<Rightarrow> string \<Rightarrow> ProjectableStore \<Rightarrow> string \<Rightarrow> string \<Rightarrow> OrderWritesDb \<Rightarrow> OrderWritesDb" where
  "logStatusSent writeId referenceId s wcId target db =
     db\<lparr>owStatusSent := owStatusSent db @ [\<lparr>ssWriteId = writeId, ssReferenceId = referenceId, ssStoreId = storeId s,
          ssWcOrderId = wcId, ssTarget = target\<rparr>]\<rparr>"

text \<open>A tenant that is gone is not the exception the handler looks for: it then compares the live status.\<close>

definition sendStatusWrite ::
  "WritesEnv \<Rightarrow> string \<Rightarrow> string \<Rightarrow> TelegramOrderContext \<Rightarrow> ProjectableStore \<Rightarrow> string \<Rightarrow> string \<Rightarrow> string
     \<Rightarrow> OrderWritesDb \<Rightarrow> StatusResult \<times> OrderWritesDb" where
  "sendStatusWrite env writeId referenceId cx s wcId target back db =
     (case assertActive (cxTenantId cx) (teClock env 3) (tgTenants db) of
        Inl e \<Rightarrow>
          (case e of EntitlementInactiveException _ \<Rightarrow> completeFailure env writeId UpdFailed db
           | _ \<Rightarrow> reconcileLostWrite env writeId (remoteServiceError e) cx s wcId target back db)
      | Inr _ \<Rightarrow>
          let sent = logStatusSent writeId referenceId s wcId target db
          in case weUpdateStatus env s wcId target of
               Inl e \<Rightarrow> reconcileLostWrite env writeId (remoteFetchError e) cx s wcId target back sent
             | Inr updated \<Rightarrow>
                 (case reconcilePayload (ordersEnv env) 1 s updated wcId (weBetween env 7 sent) of
                    (Inl e, db') \<Rightarrow> reconcileLostWrite env writeId e cx s wcId target back db'
                  | (Inr _, db') \<Rightarrow>
                      if readMappedStatus (ordersEnv env) updated wcId \<noteq> Some target
                      then completeFailure env writeId UpdFailed db'
                      else completeStatusWrite env writeId UpdOk cx wcId target back (weBetween env 8 db')))"


section \<open>Claiming it\<close>

definition statusWhere :: "string \<Rightarrow> string \<Rightarrow> StatusWriteRow \<Rightarrow> bool" where
  "statusWhere referenceId target w \<longleftrightarrow> swReferenceId w = referenceId \<and> swTargetStatus w = target"

definition storedStatus :: "StatusWriteRow option \<Rightarrow> StatusResult" where
  "storedStatus found =
     (case found of
        Some w \<Rightarrow> (case swResult w of Some result \<Rightarrow> result | None \<Rightarrow> plainStatus UpdRetryable)
      | None \<Rightarrow> plainStatus UpdRetryable)"

definition statusWriteId :: "WritesEnv \<Rightarrow> string" where
  "statusWriteId env = ''tosw_'' @ weHex env 0"

definition newStatusWrite ::
  "WritesEnv \<Rightarrow> TelegramOrderContext \<Rightarrow> string \<Rightarrow> string \<Rightarrow> string \<Rightarrow> StatusWriteRow" where
  "newStatusWrite env cx referenceId wcId target =
     \<lparr>swId = statusWriteId env, swReferenceId = referenceId, swAccountId = cxAccountId cx,
      swTenantId = cxTenantId cx, swStoreId = cxStoreId cx, swWcOrderId = wcId, swTargetStatus = target,
      swOutcome = None, swResult = None, swStartedAt = teClock env 2, swCompletedAt = None\<rparr>"

definition claimsTarget :: "string \<Rightarrow> string \<Rightarrow> ReferenceRow \<Rightarrow> bool" where
  "claimsTarget referenceId target f \<longleftrightarrow> rfId f = referenceId
     \<and> (rfClaimedTargetStatus f = None \<or> rfClaimedTargetStatus f = Some target)"

definition claimTarget :: "string \<Rightarrow> string \<Rightarrow> OrderWritesDb \<Rightarrow> nat \<times> OrderWritesDb" where
  "claimTarget referenceId target db =
     (let (n, refs) = updateMany (claimsTarget referenceId target) (\<lambda>f. f\<lparr>rfClaimedTargetStatus := Some target\<rparr>)
        (tgReferences db)
      in (n, db\<lparr>tgReferences := refs\<rparr>))"

text \<open>A write of the same reference and target violates the unique key: its result is the answer.\<close>

definition recordStatusWrite ::
  "WritesEnv \<Rightarrow> TelegramOrderContext \<Rightarrow> ProjectableStore \<Rightarrow> string \<Rightarrow> string \<Rightarrow> string \<Rightarrow> string \<Rightarrow> string
     \<Rightarrow> OrderWritesDb \<Rightarrow> StatusResult \<times> OrderWritesDb" where
  "recordStatusWrite env cx s referenceId wcId back target live db =
     (if findFirst (statusWhere referenceId target) (owStatusWrites db) \<noteq> None
      then let db' = weBetween env 6 db
           in (storedStatus (findFirst (statusWhere referenceId target) (owStatusWrites db')), db')
      else let w = newStatusWrite env cx referenceId wcId target;
               db' = weBetween env 6 (db\<lparr>owStatusWrites := owStatusWrites db @ [w]\<rparr>)
           in if live = target then completeStatusWrite env (swId w) UpdNoOp cx wcId target back db'
              else sendStatusWrite env (swId w) referenceId cx s wcId target back db')"

definition claimStatusWrite ::
  "WritesEnv \<Rightarrow> TelegramOrderContext \<Rightarrow> ProjectableStore \<Rightarrow> string \<Rightarrow> string \<Rightarrow> string \<Rightarrow> string \<Rightarrow> json
     \<Rightarrow> OrderWritesDb \<Rightarrow> StatusResult \<times> OrderWritesDb" where
  "claimStatusWrite env cx s referenceId wcId back target payload db =
     (case readMappedStatus (ordersEnv env) payload wcId of
        None \<Rightarrow> (plainStatus UpdFailed, db)
      | Some live \<Rightarrow>
          if live = [] then (plainStatus UpdFailed, db)
          else if live \<noteq> target \<and> target \<notin> set (CORE_STATUS_TRANSITIONS live) then (plainStatus UpdInvalidTarget, db)
          else let (n, db') = claimTarget referenceId target (weBetween env 4 db)
               in if n \<noteq> 1 then (plainStatus UpdInvalidTarget, db')
                  else recordStatusWrite env cx s referenceId wcId back target live (weBetween env 5 db'))"

section \<open>The handler\<close>

definition statusReference :: "WritesEnv \<Rightarrow> 'x TelegramDb_scheme \<Rightarrow> string \<Rightarrow> ReferenceRow option" where
  "statusReference env db token =
     (case parseAndVerifyToken (teMac env) token (CHR ''s'') of
        None \<Rightarrow> None
      | Some i \<Rightarrow>
          (case findReference db i of
             None \<Rightarrow> None
           | Some r \<Rightarrow> if rfPurpose r \<noteq> STATUS_WRITE then None else Some r))"

definition referenceStatusDetail :: "WritesEnv \<Rightarrow> ReferenceRow \<Rightarrow> TelegramOrderContext \<Rightarrow> OrderWritesDb \<Rightarrow> StatusResult" where
  "referenceStatusDetail env ref cx db =
     (case referenceTarget (Some ref) of
        None \<Rightarrow> plainStatus UpdExpiredRef
      | Some (_, wcId, back) \<Rightarrow>
          (case findContextOrder db cx wcId of
             None \<Rightarrow> plainStatus UpdExpiredRef
           | Some r \<Rightarrow>
               if remoteDeletedAt r \<noteq> None then plainStatus UpdExpiredRef
               else statusOrder env UpdExpiredRef back (teClock env 1) r))"

definition unresolvedStatus :: "ContextResolution \<Rightarrow> StatusUpdateState" where
  "unresolvedStatus resolution = (case resolution of NoActiveStore \<Rightarrow> UpdNoActiveStore | _ \<Rightarrow> UpdUnauthorized)"

definition writeStatus ::
  "WritesEnv \<Rightarrow> TelegramOrderContext \<Rightarrow> string \<Rightarrow> string \<Rightarrow> string \<Rightarrow> string \<Rightarrow> OrderWritesDb
     \<Rightarrow> (ServiceError + StatusResult) \<times> OrderWritesDb" where
  "writeStatus env cx referenceId wcId back target db =
     (case assertActive (cxTenantId cx) (teClock env 1) (tgTenants db) of
        Inl e \<Rightarrow> (Inl e, db)
      | Inr _ \<Rightarrow>
          (case findContextOrder db cx wcId of
             None \<Rightarrow> (Inr (plainStatus UpdNotFound), db)
           | Some r \<Rightarrow>
               if remoteDeletedAt r \<noteq> None then (Inr (plainStatus UpdDeleted), db)
               else (case loadWritableStore db cx of
                       None \<Rightarrow> (Inr (plainStatus UpdNoActiveStore), db)
                     | Some s \<Rightarrow>
                         let existing = findFirst (statusWhere referenceId target) (owStatusWrites db)
                         in if existing \<noteq> None then (Inr (storedStatus existing), db)
                            else (case readAuthoritative (ordersEnv env) 0 (teClock env 2) cx s wcId (weBetween env 3 db) of
                                    (Inl e, db') \<Rightarrow> (Inr (plainStatus (failureStatus (failureState e))), db')
                                  | (Inr payload, db') \<Rightarrow>
                                      map_prod Inr id
                                        (claimStatusWrite env cx s referenceId wcId back target payload db')))))"

definition updateStatus ::
  "WritesEnv \<Rightarrow> TelegramIdentity \<Rightarrow> string \<Rightarrow> string \<Rightarrow> OrderWritesDb \<Rightarrow> (ServiceError + StatusResult) \<times> OrderWritesDb" where
  "updateStatus env identity token target db =
     (case resolveContext db identity of
        ContextOk cx \<Rightarrow>
          if cxRole cx = MEMBER then (Inr (plainStatus UpdForbiddenRole), db)
          else let db1 = weBetween env 1 db
               in (case statusReference env db1 token of
                     None \<Rightarrow> (Inr (plainStatus UpdContextChanged), db1)
                   | Some ref \<Rightarrow>
                       if rfExpiresAt ref \<le> teClock env 0 then (Inr (referenceStatusDetail env ref cx db1), db1)
                       else if \<not> referenceMatchesContext ref cx then (Inr (plainStatus UpdContextChanged), db1)
                       else (case referenceTarget (Some ref) of
                               None \<Rightarrow> (Inr (plainStatus UpdInvalidTarget), db1)
                             | Some (_, wcId, back) \<Rightarrow>
                                 if target \<notin> set (rfAllowedTargetStatuses ref)
                                 then (Inr (plainStatus UpdInvalidTarget), db1)
                                 else writeStatus env cx (rfId ref) wcId back target (weBetween env 2 db1)))
      | resolution \<Rightarrow> (Inr (plainStatus (unresolvedStatus resolution)), db))"

end
