(* ===== verification/WriteLedger.thy ===== *)
theory WriteLedger
  imports Prelude
begin

text \<open>
  Writes to a shop that must happen at most once: every write is recorded under a fresh id and a key before it
  is sent, no two records have the same key, and each record is sent at most once. A step of a worker adds
  records and requests under the ids it owns only.
\<close>

definition extends :: "string set \<Rightarrow> ('a \<Rightarrow> string) \<Rightarrow> 'a list \<Rightarrow> 'a list \<Rightarrow> bool" where
  "extends I f xs ys \<longleftrightarrow> (\<exists>new. ys = xs @ new \<and> (\<forall>x \<in> set new. f x \<in> I))"

lemma extends_refl [simp]: "extends I f xs xs"
  by (simp add: extends_def)

lemma extends_snoc: "f x \<in> I \<Longrightarrow> extends I f xs (xs @ [x])"
  by (simp add: extends_def)

lemma extends_trans: "extends I f xs ys \<Longrightarrow> extends I f ys zs \<Longrightarrow> extends I f xs zs"
  unfolding extends_def by (metis Un_iff append.assoc set_append)

lemma extends_mono: "extends I f xs ys \<Longrightarrow> I \<subseteq> J \<Longrightarrow> extends J f xs ys"
  unfolding extends_def by blast

lemma extends_others: "extends I f xs ys \<Longrightarrow> i \<notin> I \<Longrightarrow> filter (\<lambda>x. f x = i) ys = filter (\<lambda>x. f x = i) xs"
  by (auto simp: extends_def filter_empty_conv)

lemma extends_fresh: "extends I f xs ys \<Longrightarrow> i \<notin> I \<Longrightarrow> i \<notin> f ` set xs \<Longrightarrow> i \<notin> f ` set ys"
  by (auto simp: extends_def)

lemma extends_keeps: "extends I f xs ys \<Longrightarrow> x \<in> set xs \<Longrightarrow> x \<in> set ys"
  by (auto simp: extends_def)

text \<open>Records and requests as pairs of their id and key.\<close>

definition ledgerOk :: "(string \<times> string) list \<Rightarrow> (string \<times> string) list \<Rightarrow> bool" where
  "ledgerOk rows sent \<longleftrightarrow> distinct (map fst rows) \<and> distinct (map snd rows) \<and> distinct (map fst sent)
     \<and> set sent \<subseteq> set rows"

lemma ledger_record:
  "ledgerOk rows sent \<Longrightarrow> i \<notin> fst ` set rows \<Longrightarrow> k \<notin> snd ` set rows \<Longrightarrow> ledgerOk (rows @ [(i, k)]) sent"
  by (auto simp: ledgerOk_def)

lemma ledger_send: "ledgerOk rows sent \<Longrightarrow> (i, k) \<in> set rows \<Longrightarrow> i \<notin> fst ` set sent \<Longrightarrow> ledgerOk rows (sent @ [(i, k)])"
  by (auto simp: ledgerOk_def)

lemma ledger_sent_id: "ledgerOk rows sent \<Longrightarrow> i \<notin> fst ` set rows \<Longrightarrow> i \<notin> fst ` set sent"
  by (auto simp: ledgerOk_def)

lemma ledger_once:
  assumes "ledgerOk rows sent"
  shows "distinct (map snd sent)"
proof -
  have "inj_on snd (set rows)" and sub: "set sent \<subseteq> set rows" and "distinct sent"
    using assms unfolding ledgerOk_def distinct_map by blast+
  then show ?thesis by (simp add: distinct_map inj_on_subset [OF _ sub])
qed

text \<open>The relation of a worker's steps, by the ids it owns.\<close>

locale owned_steps =
  fixes step :: "string set \<Rightarrow> 'db \<Rightarrow> 'db \<Rightarrow> bool"
  assumes refl: "step I db db"
    and trans: "step I a b \<Longrightarrow> step I b c \<Longrightarrow> step I a c"
    and mono: "step I a b \<Longrightarrow> I \<subseteq> J \<Longrightarrow> step J a b"
begin

lemma around: "step I a b \<Longrightarrow> step J b c \<Longrightarrow> step K c d \<Longrightarrow> I \<union> J \<union> K \<subseteq> L \<Longrightarrow> step L a d"
  by (meson le_sup_iff mono trans)

lemma after: "step I a b \<Longrightarrow> step J b c \<Longrightarrow> I \<union> J \<subseteq> L \<Longrightarrow> step L a c"
  by (meson le_sup_iff mono trans)

end

end
