(* ===== verification/OrderNotes.thy ===== *)
theory OrderNotes
  imports OrderWrites WriteLedger
begin

text \<open>
  Adding a note to an order from a chat (\<open>noteOptions\<close>, \<open>startNote\<close>, \<open>prepareNote\<close>, \<open>cancelNote\<close>,
  \<open>confirmNote\<close> and what they call in \<open>backend/src/telegram/telegram-order.service.ts\<close>): an input reference
  becomes a confirm reference that carries the encrypted text; confirming claims it together with an action
  row, then posts the note. As in \<open>OrderWrites\<close>, other processes may commit between the statements.
\<close>

section \<open>The text\<close>

definition TELEGRAM_ORDER_NOTE_MAX_LENGTH :: nat where
  "TELEGRAM_ORDER_NOTE_MAX_LENGTH = 1000"

definition NOTE_IN_FLIGHT_AMBIGUITY_MS :: int where
  "NOTE_IN_FLIGHT_AMBIGUITY_MS = 60000"

definition forbiddenInNote :: "char \<Rightarrow> bool" where
  "forbiddenInNote c \<longleftrightarrow> codeUnit c \<le> 8 \<or> codeUnit c = 11 \<or> codeUnit c = 12
     \<or> 14 \<le> codeUnit c \<and> codeUnit c \<le> 31 \<or> codeUnit c = 127"

definition normalizeOrderNote :: "string \<Rightarrow> string option" where
  "normalizeOrderNote value =
     (let note = trim value
      in if note = [] \<or> TELEGRAM_ORDER_NOTE_MAX_LENGTH < length note
            \<or> list_ex (\<lambda>c. c = CHR ''<'' \<or> c = CHR ''>'') note \<or> list_ex forbiddenInNote note
         then None else Some note)"

definition notePreview :: "string \<Rightarrow> string" where
  "notePreview note =
     (let compact = trim (collapseSpaces note)
      in if length compact \<le> 240 then compact else take 237 compact @ ''...'')"

definition positiveDecimal :: "string \<Rightarrow> bool" where
  "positiveDecimal s =
     (case s of [] \<Rightarrow> False | c # cs \<Rightarrow> isDigit c \<and> c \<noteq> CHR ''0'' \<and> list_all isDigit cs)"

definition isConfirmedWooCommerceNote :: "json \<Rightarrow> bool \<Rightarrow> bool" where
  "isConfirmedWooCommerceNote value customerNote =
     (case value of
        JObj record \<Rightarrow>
          (case field record ''id'' of
             Some (JNum (NInt i)) \<Rightarrow> isSafeInteger (NInt i) \<and> 0 < i
           | Some (JStr s) \<Rightarrow> positiveDecimal s
           | _ \<Rightarrow> False)
          \<and> field record ''customer_note'' = Some (JBool customerNote)
      | _ \<Rightarrow> False)"

definition isAmbiguousNoteWriteFailure :: "RemoteError \<Rightarrow> bool" where
  "isAmbiguousNoteWriteFailure e = (case e of RemoteClient c \<Rightarrow> c = Transport \<or> c = Timeout | _ \<Rightarrow> True)"

definition failureNote :: "FailureState \<Rightarrow> NoteState" where
  "failureNote f = (case f of FailRetryable \<Rightarrow> NoteRetryable | FailFailed \<Rightarrow> NoteFailed | FailNotFound \<Rightarrow> NoteNotFound)"

definition noteResult :: "NoteState \<Rightarrow> string option \<Rightarrow> NoteVisibility option \<Rightarrow> string option \<Rightarrow> NoteMutationResult" where
  "noteResult st detail visibility number =
     \<lparr>nmState = st, nmDetailRef = detail, nmVisibility = visibility, nmOrderNumber = number\<rparr>"

definition plainNote :: "NoteState \<Rightarrow> NoteMutationResult" where
  "plainNote st = noteResult st None None None"

section \<open>The rows\<close>

text \<open>\<open>!reference.noteVisibility\<close> and the like: an absent or empty value is refused.\<close>

definition given :: "string option \<Rightarrow> bool" where
  "given s \<longleftrightarrow> (case s of None \<Rightarrow> False | Some t \<Rightarrow> t \<noteq> [])"

definition updateReferences :: "(ReferenceRow \<Rightarrow> bool) \<Rightarrow> (ReferenceRow \<Rightarrow> ReferenceRow) \<Rightarrow> OrderWritesDb \<Rightarrow> nat \<times> OrderWritesDb" where
  "updateReferences P f db =
     (let (n, refs) = updateMany P f (tgReferences db) in (n, db\<lparr>tgReferences := refs\<rparr>))"

definition expiredBody :: "TelegramOrderContext \<Rightarrow> date \<Rightarrow> ReferenceRow \<Rightarrow> bool" where
  "expiredBody cx now r \<longleftrightarrow> referenceMatchesContext r cx \<and> rfPurpose r = NOTE_CONFIRM \<and> rfNoteClaimedAt r = None
     \<and> rfNoteBodyEncrypted r \<noteq> None \<and> rfExpiresAt r \<le> now"

definition withoutBody :: "ReferenceRow \<Rightarrow> ReferenceRow" where
  "withoutBody r = r\<lparr>rfNoteBodyEncrypted := None\<rparr>"

definition clearExpiredNoteBodies :: "TelegramOrderContext \<Rightarrow> date \<Rightarrow> OrderWritesDb \<Rightarrow> OrderWritesDb" where
  "clearExpiredNoteBodies cx now db = snd (updateReferences (expiredBody cx now) withoutBody db)"

definition finishNoteAction ::
  "string \<Rightarrow> NoteActionState \<Rightarrow> NoteMutationResult \<Rightarrow> string \<Rightarrow> date \<Rightarrow> OrderWritesDb \<Rightarrow> OrderWritesDb" where
  "finishNoteAction actionId st result referenceId now db =
     snd (updateReferences (\<lambda>r. rfId r = referenceId) withoutBody
       (db\<lparr>owNoteActions := snd (updateMany (\<lambda>a. naId a = actionId)
             (\<lambda>a. a\<lparr>naState := st, naResult := Some result, naCompletedAt := Some now\<rparr>) (owNoteActions db))\<rparr>))"

definition completeNoteAction ::
  "WritesEnv \<Rightarrow> string \<Rightarrow> NoteActionState \<Rightarrow> NoteMutationResult \<Rightarrow> string \<Rightarrow> OrderWritesDb
     \<Rightarrow> NoteMutationResult \<times> OrderWritesDb" where
  "completeNoteAction env actionId st result referenceId db =
     (result, finishNoteAction actionId st result referenceId (teClock env 7) (weBetween env 11 db))"

definition noteDetailRef :: "WritesEnv \<Rightarrow> OrderWritesDb \<Rightarrow> string \<Rightarrow> string option" where
  "noteDetailRef env db referenceId =
     (case findReference db referenceId of
        None \<Rightarrow> None
      | Some r \<Rightarrow> if given (rfBackReferenceId r) then map_option (writesToken env (CHR ''d'')) (rfBackReferenceId r) else None)"

definition noteActionReplay :: "WritesEnv \<Rightarrow> string \<Rightarrow> OrderWritesDb \<Rightarrow> NoteMutationResult option \<times> OrderWritesDb" where
  "noteActionReplay env referenceId db =
     (case findFirst (\<lambda>a. naReferenceId a = referenceId) (owNoteActions db) of
        None \<Rightarrow> (None, db)
      | Some a \<Rightarrow>
          (case naResult a of
             Some result \<Rightarrow> (Some result, db)
           | None \<Rightarrow>
               let detail = noteDetailRef env db referenceId
               in if naState a = NoteInFlight \<and> NOTE_IN_FLIGHT_AMBIGUITY_MS \<le> teClock env 6 - naStartedAt a
                  then map_prod Some id (completeNoteAction env (naId a) NoteActionAmbiguous
                         (noteResult NoteAmbiguous detail (Some (naVisibility a)) None) referenceId db)
                  else (Some (noteResult NoteInProgress detail (Some (naVisibility a)) None), db)))"

text \<open>\<open>replay ?? fallback\<close>\<close>

definition replayOr :: "WritesEnv \<Rightarrow> string \<Rightarrow> NoteMutationResult \<Rightarrow> OrderWritesDb \<Rightarrow> NoteMutationResult \<times> OrderWritesDb" where
  "replayOr env referenceId fallback db =
     (case noteActionReplay env referenceId db of
        (Some result, db') \<Rightarrow> (result, db')
      | (None, db') \<Rightarrow> (fallback, db'))"

section \<open>Starting a note\<close>

definition unresolvedNote :: "ContextResolution \<Rightarrow> NoteState" where
  "unresolvedNote resolution = (case resolution of NoActiveStore \<Rightarrow> NoteNoActiveStore | _ \<Rightarrow> NoteUnauthorized)"

definition resolveNoteDetailReference ::
  "WritesEnv \<Rightarrow> TelegramIdentity \<Rightarrow> string \<Rightarrow> OrderWritesDb
     \<Rightarrow> (NoteState + TelegramOrderContext \<times> ReferenceRow \<times> string) \<times> OrderWritesDb" where
  "resolveNoteDetailReference env identity token db =
     (case resolveContext db identity of
        ContextOk cx \<Rightarrow>
          if cxRole cx = MEMBER then (Inl NoteForbiddenRole, db)
          else let db1 = clearExpiredNoteBodies cx (teClock env 0) (weBetween env 0 db)
               in (case referenceTarget (validateReference (shortTelegramEnv (ordersEnv env)) (teClock env 1) db1 token
                          ORDER_DETAIL cx) of
                     None \<Rightarrow> (Inl NoteContextChanged, db1)
                   | Some (r, wcId, _) \<Rightarrow>
                       (case findContextOrder db1 cx wcId of
                          None \<Rightarrow> (Inl NoteNotFound, db1)
                        | Some order \<Rightarrow>
                            if remoteDeletedAt order \<noteq> None then (Inl NoteDeleted, db1) else (Inr (cx, r, wcId), db1)))
      | resolution \<Rightarrow> (Inl (unresolvedNote resolution), db))"

record NoteOptionsResult =
  noState :: NoteState
  noRef :: "string option"
  noVisibilities :: "NoteVisibility list"

definition noteOptions ::
  "WritesEnv \<Rightarrow> TelegramIdentity \<Rightarrow> string \<Rightarrow> OrderWritesDb \<Rightarrow> (ServiceError + NoteOptionsResult) \<times> OrderWritesDb" where
  "noteOptions env identity token db =
     (case resolveNoteDetailReference env identity token db of
        (Inl st, db') \<Rightarrow> (Inr \<lparr>noState = st, noRef = None, noVisibilities = []\<rparr>, db')
      | (Inr (cx, _, _), db') \<Rightarrow>
          (case assertActive (cxTenantId cx) (teClock env 2) (tgTenants db') of
             Inl e \<Rightarrow> (Inl e, db')
           | Inr _ \<Rightarrow> (Inr \<lparr>noState = NoteOk, noRef = Some token, noVisibilities = [INTERNAL, CUSTOMER]\<rparr>, db')))"

record NoteStartResult =
  nsState :: NoteState
  nsInputRef :: "string option"
  nsDetailRef :: "string option"
  nsVisibility :: "NoteVisibility option"
  nsMaxLength :: "nat option"

definition noteInputReference ::
  "TelegramOrderContext \<Rightarrow> string \<Rightarrow> string \<Rightarrow> NoteVisibility \<Rightarrow> string \<Rightarrow> date \<Rightarrow> ReferenceRow" where
  "noteInputReference cx wcId back visibility shortId expiresAt =
     (contextReference cx NOTE_INPUT shortId expiresAt)
       \<lparr>rfTargetWcOrderId := Some wcId, rfBackReferenceId := Some back, rfNoteVisibility := Some visibility\<rparr>"

definition startNote ::
  "WritesEnv \<Rightarrow> TelegramIdentity \<Rightarrow> string \<Rightarrow> NoteVisibility \<Rightarrow> OrderWritesDb
     \<Rightarrow> (ServiceError + NoteStartResult) \<times> OrderWritesDb" where
  "startNote env identity token visibility db =
     (case resolveNoteDetailReference env identity token db of
        (Inl st, db') \<Rightarrow>
          (Inr \<lparr>nsState = st, nsInputRef = None, nsDetailRef = None, nsVisibility = None, nsMaxLength = None\<rparr>, db')
      | (Inr (cx, r, wcId), db') \<Rightarrow>
          (case assertActive (cxTenantId cx) (teClock env 2) (tgTenants db') of
             Inl e \<Rightarrow> (Inl e, db')
           | Inr _ \<Rightarrow>
               let ref = noteInputReference cx wcId (rfId r) visibility (teShortId env 0)
                     (expiry (ordersEnv env) (teClock env 3))
               in (Inr \<lparr>nsState = NoteOk, nsInputRef = Some (writesToken env (CHR ''i'') (rfId ref)),
                     nsDetailRef = Some token, nsVisibility = Some visibility,
                     nsMaxLength = Some TELEGRAM_ORDER_NOTE_MAX_LENGTH\<rparr>,
                   addReferences [ref] (weBetween env 1 db'))))"


section \<open>The text of the note\<close>

record NotePrepareResult =
  npState :: NoteState
  npConfirmRef :: "string option"
  npDetailRef :: "string option"
  npVisibility :: "NoteVisibility option"
  npPreview :: "string option"

definition preparedNote :: "NoteState \<Rightarrow> NotePrepareResult" where
  "preparedNote st = \<lparr>npState = st, npConfirmRef = None, npDetailRef = None, npVisibility = None, npPreview = None\<rparr>"

definition writeReferenceOf :: "WritesEnv \<Rightarrow> char \<Rightarrow> OrderWritesDb \<Rightarrow> string \<Rightarrow> ReferenceRow option" where
  "writeReferenceOf env p db token =
     (case parseAndVerifyToken (teMac env) token p of None \<Rightarrow> None | Some i \<Rightarrow> findReference db i)"

definition noteInputWhere :: "string \<Rightarrow> date \<Rightarrow> ReferenceRow \<Rightarrow> bool" where
  "noteInputWhere referenceId now r \<longleftrightarrow> rfId r = referenceId \<and> rfPurpose r = NOTE_INPUT \<and> now < rfExpiresAt r"

definition withBody :: "string \<Rightarrow> string \<Rightarrow> ReferenceRow \<Rightarrow> ReferenceRow" where
  "withBody body print r =
     r\<lparr>rfPurpose := NOTE_CONFIRM, rfNoteBodyEncrypted := Some body, rfNoteContentFingerprint := Some print\<rparr>"

text \<open>The same text may be given twice: the second time the reference is a confirm reference already.\<close>

definition preparedBefore :: "TelegramOrderContext \<Rightarrow> string \<Rightarrow> ReferenceRow option \<Rightarrow> bool" where
  "preparedBefore cx print current =
     (case current of
        None \<Rightarrow> False
      | Some r \<Rightarrow> rfPurpose r = NOTE_CONFIRM \<and> rfNoteContentFingerprint r = Some print \<and> referenceMatchesContext r cx)"

definition storeNoteBody ::
  "WritesEnv \<Rightarrow> TelegramOrderContext \<Rightarrow> ReferenceRow \<Rightarrow> string \<Rightarrow> NoteVisibility \<Rightarrow> string \<Rightarrow> OrderWritesDb
     \<Rightarrow> NotePrepareResult \<times> OrderWritesDb" where
  "storeNoteBody env cx ref back visibility note db =
     (let (n, db1) = updateReferences (noteInputWhere (rfId ref) (teClock env 3))
            (withBody (weEncrypt env note) (weNoteHmac env note)) db;
          db2 = (if n \<noteq> 1 then weBetween env 4 db1 else db1)
      in if n \<noteq> 1 \<and> \<not> preparedBefore cx (weNoteHmac env note) (findReference db2 (rfId ref))
         then (preparedNote NoteContextChanged, db2)
         else (\<lparr>npState = NoteOk, npConfirmRef = Some (writesToken env (CHR ''c'') (rfId ref)),
                npDetailRef = Some (writesToken env (CHR ''d'') back), npVisibility = Some visibility,
                npPreview = Some (notePreview note)\<rparr>, db2))"

definition prepareNoteText ::
  "WritesEnv \<Rightarrow> TelegramOrderContext \<Rightarrow> ReferenceRow \<Rightarrow> string \<Rightarrow> OrderWritesDb \<Rightarrow> (ServiceError + NotePrepareResult) \<times> OrderWritesDb" where
  "prepareNoteText env cx ref value db =
     (case (referenceTarget (Some ref), rfNoteVisibility ref) of
        (Some (_, wcId, back), Some visibility) \<Rightarrow>
          (case assertActive (cxTenantId cx) (teClock env 2) (tgTenants db) of
             Inl e \<Rightarrow> (Inl e, db)
           | Inr _ \<Rightarrow>
               (case normalizeOrderNote value of
                  None \<Rightarrow> (Inr ((preparedNote NoteInvalid)\<lparr>npDetailRef := Some (writesToken env (CHR ''d'') back)\<rparr>), db)
                | Some note \<Rightarrow>
                    (case findContextOrder db cx wcId of
                       None \<Rightarrow> (Inr (preparedNote NoteNotFound), db)
                     | Some order \<Rightarrow>
                         if remoteDeletedAt order \<noteq> None then (Inr (preparedNote NoteDeleted), db)
                         else map_prod Inr id (storeNoteBody env cx ref back visibility note (weBetween env 3 db)))))
      | _ \<Rightarrow> (Inr (preparedNote NoteContextChanged), db))"

definition prepareNote ::
  "WritesEnv \<Rightarrow> TelegramIdentity \<Rightarrow> string \<Rightarrow> string \<Rightarrow> OrderWritesDb \<Rightarrow> (ServiceError + NotePrepareResult) \<times> OrderWritesDb" where
  "prepareNote env identity token value db =
     (case resolveContext db identity of
        ContextOk cx \<Rightarrow>
          if cxRole cx = MEMBER then (Inr (preparedNote NoteForbiddenRole), db)
          else let db1 = clearExpiredNoteBodies cx (teClock env 0) (weBetween env 0 db);
                   db2 = weBetween env 1 db1
               in (case writeReferenceOf env (CHR ''i'') db2 token of
                     None \<Rightarrow> (Inr (preparedNote NoteContextChanged), db2)
                   | Some ref \<Rightarrow>
                       if \<not> referenceMatchesContext ref cx then (Inr (preparedNote NoteContextChanged), db2)
                       else if rfExpiresAt ref \<le> teClock env 1 then (Inr (preparedNote NoteExpiredRef), db2)
                       else prepareNoteText env cx ref value (weBetween env 2 db2))
      | resolution \<Rightarrow> (Inr (preparedNote (unresolvedNote resolution)), db))"

section \<open>Cancelling\<close>

definition cancelWhere :: "string \<Rightarrow> date \<Rightarrow> ReferenceRow \<Rightarrow> bool" where
  "cancelWhere referenceId now r \<longleftrightarrow> rfId r = referenceId \<and> rfNoteClaimedAt r = None \<and> now < rfExpiresAt r"

definition cancelled :: "ReferenceRow \<Rightarrow> ReferenceRow" where
  "cancelled r = r\<lparr>rfExpiresAt := 0, rfNoteBodyEncrypted := None\<rparr>"

definition cancelClaim :: "WritesEnv \<Rightarrow> string \<Rightarrow> string \<Rightarrow> OrderWritesDb \<Rightarrow> NoteMutationResult \<times> OrderWritesDb" where
  "cancelClaim env referenceId back db =
     (case noteActionReplay env referenceId db of
        (Some result, db1) \<Rightarrow> (result, db1)
      | (None, db1) \<Rightarrow>
          let (n, db2) = updateReferences (cancelWhere referenceId (teClock env 3)) cancelled (weBetween env 3 db1)
          in if n \<noteq> 1 then replayOr env referenceId (plainNote NoteExpiredRef) (weBetween env 4 db2)
             else (noteResult NoteCancelled (Some (writesToken env (CHR ''d'') back)) None None, db2))"

definition cancelNote ::
  "WritesEnv \<Rightarrow> TelegramIdentity \<Rightarrow> string \<Rightarrow> OrderWritesDb \<Rightarrow> (ServiceError + NoteMutationResult) \<times> OrderWritesDb" where
  "cancelNote env identity token db =
     (case resolveContext db identity of
        ContextOk cx \<Rightarrow>
          if cxRole cx = MEMBER then (Inr (plainNote NoteForbiddenRole), db)
          else let db1 = clearExpiredNoteBodies cx (teClock env 0) (weBetween env 0 db);
                   db2 = weBetween env 1 db1
               in (case writeReferenceOf env (if startsWith ''i.'' token then CHR ''i'' else CHR ''c'') db2 token of
                     None \<Rightarrow> (Inr (plainNote NoteContextChanged), db2)
                   | Some ref \<Rightarrow>
                       if \<not> given (rfBackReferenceId ref) \<or> \<not> referenceMatchesContext ref cx
                          \<or> rfPurpose ref \<noteq> NOTE_INPUT \<and> rfPurpose ref \<noteq> NOTE_CONFIRM
                       then (Inr (plainNote NoteContextChanged), db2)
                       else if rfExpiresAt ref \<le> teClock env 1 then (Inr (plainNote NoteExpiredRef), db2)
                       else (case assertActive (cxTenantId cx) (teClock env 2) (tgTenants db2) of
                               Inl e \<Rightarrow> (Inl e, db2)
                             | Inr _ \<Rightarrow> map_prod Inr id
                                 (cancelClaim env (rfId ref) (the (rfBackReferenceId ref)) (weBetween env 2 db2))))
      | resolution \<Rightarrow> (Inr (plainNote (unresolvedNote resolution)), db))"


section \<open>Confirming\<close>

definition noteActionId :: "WritesEnv \<Rightarrow> string" where
  "noteActionId env = ''tona_'' @ weHex env 0"

definition confirmWhere :: "string \<Rightarrow> date \<Rightarrow> ReferenceRow \<Rightarrow> bool" where
  "confirmWhere referenceId now r \<longleftrightarrow> rfId r = referenceId \<and> rfPurpose r = NOTE_CONFIRM \<and> rfNoteClaimedAt r = None
     \<and> now < rfExpiresAt r"

definition newNoteAction ::
  "WritesEnv \<Rightarrow> TelegramOrderContext \<Rightarrow> string \<Rightarrow> string \<Rightarrow> NoteVisibility \<Rightarrow> string \<Rightarrow> NoteAction" where
  "newNoteAction env cx referenceId wcId visibility print =
     \<lparr>naId = noteActionId env, naReferenceId = referenceId, naAccountId = cxAccountId cx, naTenantId = cxTenantId cx,
      naStoreId = cxStoreId cx, naWcOrderId = wcId, naVisibility = visibility, naContentFingerprint = print,
      naState = NoteInFlight, naResult = None, naStartedAt = teClock env 4, naCompletedAt = None\<rparr>"

text \<open>
  The serializable transaction that claims the reference and records the action: it commits both or nothing.
  A second action for the reference violates the unique key.
\<close>

datatype ClaimOutcome = NoteClaimed | NoteAlreadyClaimed | ClaimAborted

definition claimNote ::
  "WritesEnv \<Rightarrow> TelegramOrderContext \<Rightarrow> string \<Rightarrow> string \<Rightarrow> NoteVisibility \<Rightarrow> string \<Rightarrow> OrderWritesDb
     \<Rightarrow> ClaimOutcome \<times> OrderWritesDb" where
  "claimNote env cx referenceId wcId visibility print db =
     (if weClaimFault env then (ClaimAborted, db)
      else let (n, db1) = updateReferences (confirmWhere referenceId (teClock env 4))
                 (\<lambda>r. r\<lparr>rfNoteClaimedAt := Some (teClock env 4)\<rparr>) db
           in if n \<noteq> 1 \<or> findFirst (\<lambda>a. naReferenceId a = referenceId) (owNoteActions db1) \<noteq> None
              then (NoteAlreadyClaimed, db)
              else (NoteClaimed, db1\<lparr>owNoteActions := owNoteActions db1
                      @ [newNoteAction env cx referenceId wcId visibility print]\<rparr>))"

definition noteAudit :: "WritesEnv \<Rightarrow> TelegramOrderContext \<Rightarrow> string \<Rightarrow> NoteVisibility \<Rightarrow> AuditRow" where
  "noteAudit env cx wcId visibility =
     \<lparr>auId = ''aud_'' @ weHex env 1, auTenantId = cxTenantId cx, auUserId = Some (cxUserId cx),
      auAction = ''telegram.order.note.created'', auEntityType = ''Order'', auEntityId = Some wcId,
      auMetadata = Some (JObj [(''storeId'', JStr (cxStoreId cx)),
        (''visibility'', JStr (if visibility = CUSTOMER then ''CUSTOMER'' else ''INTERNAL'')),
        (''result'', JStr ''SUCCEEDED'')])\<rparr>"

record NotePost =
  poReferenceId :: string
  poStore :: ProjectableStore
  poWcOrderId :: string
  poDetailRef :: string
  poVisibility :: NoteVisibility
  poNote :: string
  poOrderNumber :: string

definition logNoteSent :: "string \<Rightarrow> NotePost \<Rightarrow> OrderWritesDb \<Rightarrow> OrderWritesDb" where
  "logNoteSent actionId p db = db\<lparr>owNotesSent := owNotesSent db @ [\<lparr>nsActionId = actionId, nsReferenceId = poReferenceId p,
      nsStoreId = storeId (poStore p), nsWcOrderId = poWcOrderId p, nsNote = poNote p,
      nsCustomerNote = (poVisibility p = CUSTOMER)\<rparr>]\<rparr>"

definition postedNote :: "NoteState \<Rightarrow> NotePost \<Rightarrow> NoteMutationResult" where
  "postedNote st p = noteResult st (Some (poDetailRef p)) (Some (poVisibility p)) None"

definition postFailed :: "WritesEnv \<Rightarrow> string \<Rightarrow> NotePost \<Rightarrow> RemoteError \<Rightarrow> OrderWritesDb \<Rightarrow> NoteMutationResult \<times> OrderWritesDb" where
  "postFailed env actionId p e db =
     (if isAmbiguousNoteWriteFailure e
      then completeNoteAction env actionId NoteActionAmbiguous (postedNote NoteAmbiguous p) (poReferenceId p) db
      else completeNoteAction env actionId NoteActionFailed (postedNote (failureNote (failureState e)) p) (poReferenceId p) db)"

definition postNote ::
  "WritesEnv \<Rightarrow> TelegramOrderContext \<Rightarrow> string \<Rightarrow> NotePost \<Rightarrow> OrderWritesDb \<Rightarrow> NoteMutationResult \<times> OrderWritesDb" where
  "postNote env cx actionId p db =
     (case assertActive (cxTenantId cx) (teClock env 5) (tgTenants db) of
        Inl e \<Rightarrow> postFailed env actionId p (remoteServiceError e) db
      | Inr _ \<Rightarrow>
          let db1 = logNoteSent actionId p db
          in (case weCreateNote env (poStore p) (poWcOrderId p) (poNote p) (poVisibility p = CUSTOMER) of
                Inl e \<Rightarrow> postFailed env actionId p (remoteFetchError e) db1
              | Inr response \<Rightarrow>
                  if \<not> isConfirmedWooCommerceNote response (poVisibility p = CUSTOMER)
                  then completeNoteAction env actionId NoteActionAmbiguous (postedNote NoteAmbiguous p) (poReferenceId p) db1
                  else if weRecordFault env then postFailed env actionId p RemoteOther (weBetween env 9 db1)
                  else let result = (postedNote NoteOk p)\<lparr>nmOrderNumber := Some (poOrderNumber p)\<rparr>;
                           db2 = finishNoteAction actionId NoteActionSucceeded result (poReferenceId p) (teClock env 7)
                             (weBetween env 9 db1)
                       in (result, db2\<lparr>owAudit := owAudit db2 @ [noteAudit env cx (poWcOrderId p) (poVisibility p)]\<rparr>)))"

datatype WriteError = ServiceException ServiceError | DatabaseError

definition claimAndPost ::
  "WritesEnv \<Rightarrow> TelegramOrderContext \<Rightarrow> string \<Rightarrow> NotePost \<Rightarrow> OrderWritesDb \<Rightarrow> (WriteError + NoteMutationResult) \<times> OrderWritesDb" where
  "claimAndPost env cx print p db =
     (case claimNote env cx (poReferenceId p) (poWcOrderId p) (poVisibility p) print db of
        (ClaimAborted, db1) \<Rightarrow> (Inl DatabaseError, db1)
      | (NoteAlreadyClaimed, db1) \<Rightarrow>
          map_prod Inr id (replayOr env (poReferenceId p) (postedNote NoteInProgress p) (weBetween env 7 db1))
      | (NoteClaimed, db1) \<Rightarrow> map_prod Inr id (postNote env cx (noteActionId env) p (weBetween env 8 db1)))"

text \<open>The parts of the reference the handler needs: order, detail reference, visibility, fingerprint.\<close>

definition confirmParts :: "ReferenceRow \<Rightarrow> (string \<times> string \<times> NoteVisibility \<times> string) option" where
  "confirmParts ref =
     (case (referenceTarget (Some ref), rfNoteVisibility ref, rfNoteContentFingerprint ref) of
        (Some (_, wcId, back), Some v, Some print) \<Rightarrow> if print = [] then None else Some (wcId, back, v, print)
      | _ \<Rightarrow> None)"

definition confirmBody ::
  "WritesEnv \<Rightarrow> TelegramOrderContext \<Rightarrow> ReferenceRow \<Rightarrow> string \<times> string \<times> NoteVisibility \<times> string \<Rightarrow> string \<Rightarrow> OrderWritesDb
     \<Rightarrow> (WriteError + NoteMutationResult) \<times> OrderWritesDb" where
  "confirmBody env cx ref parts body db =
     (case parts of (wcId, back, visibility, print) \<Rightarrow>
        (case assertActive (cxTenantId cx) (teClock env 2) (tgTenants db) of
           Inl e \<Rightarrow> (Inl (ServiceException e), db)
         | Inr _ \<Rightarrow>
             (case findContextOrder db cx wcId of
                None \<Rightarrow> (Inr (plainNote NoteNotFound), db)
              | Some order \<Rightarrow>
                  if remoteDeletedAt order \<noteq> None then (Inr (plainNote NoteDeleted), db)
                  else (case loadWritableStore db cx of
                          None \<Rightarrow> (Inr (plainNote NoteNoActiveStore), db)
                        | Some s \<Rightarrow>
                            (case weDecrypt env body of
                               None \<Rightarrow> (Inr (plainNote NoteFailed), db)
                             | Some note \<Rightarrow>
                                 if weNoteHmac env note \<noteq> print then (Inr (plainNote NoteFailed), db)
                                 else (case readAuthoritative (ordersEnv env) 0 (teClock env 3) cx s wcId (weBetween env 5 db) of
                                         (Inl e, db1) \<Rightarrow> (Inr (plainNote (failureNote (failureState e))), db1)
                                       | (Inr _, db1) \<Rightarrow>
                                           claimAndPost env cx print \<lparr>poReferenceId = rfId ref, poStore = s, poWcOrderId = wcId,
                                             poDetailRef = writesToken env (CHR ''d'') back, poVisibility = visibility,
                                             poNote = note, poOrderNumber = orderNumber order\<rparr> (weBetween env 6 db1)))))))"

definition confirmReference ::
  "WritesEnv \<Rightarrow> TelegramOrderContext \<Rightarrow> ReferenceRow \<Rightarrow> OrderWritesDb \<Rightarrow> (WriteError + NoteMutationResult) \<times> OrderWritesDb" where
  "confirmReference env cx ref db =
     (case confirmParts ref of
        None \<Rightarrow> (Inr (plainNote NoteContextChanged), db)
      | Some parts \<Rightarrow>
          (case noteActionReplay env (rfId ref) (weBetween env 2 db) of
             (Some result, db1) \<Rightarrow> (Inr result, db1)
           | (None, db1) \<Rightarrow>
               if rfExpiresAt ref \<le> teClock env 1 then (Inr (plainNote NoteExpiredRef), db1)
               else (case rfNoteBodyEncrypted ref of
                       None \<Rightarrow> (Inr (plainNote NoteContextChanged), db1)
                     | Some body \<Rightarrow>
                         if body = [] then (Inr (plainNote NoteContextChanged), db1)
                         else confirmBody env cx ref parts body (weBetween env 3 db1))))"

definition confirmNote ::
  "WritesEnv \<Rightarrow> TelegramIdentity \<Rightarrow> string \<Rightarrow> OrderWritesDb \<Rightarrow> (WriteError + NoteMutationResult) \<times> OrderWritesDb" where
  "confirmNote env identity token db =
     (case resolveContext db identity of
        ContextOk cx \<Rightarrow>
          if cxRole cx = MEMBER then (Inr (plainNote NoteForbiddenRole), db)
          else let db1 = clearExpiredNoteBodies cx (teClock env 0) (weBetween env 0 db);
                   db2 = weBetween env 1 db1
               in (case writeReferenceOf env (CHR ''c'') db2 token of
                     None \<Rightarrow> (Inr (plainNote NoteContextChanged), db2)
                   | Some ref \<Rightarrow>
                       if rfPurpose ref \<noteq> NOTE_CONFIRM \<or> \<not> referenceMatchesContext ref cx
                       then (Inr (plainNote NoteContextChanged), db2)
                       else confirmReference env cx ref db2)
      | resolution \<Rightarrow> (Inr (plainNote (unresolvedNote resolution)), db))"

end
