(* ===== verification/StatusWrites.thy ===== *)
theory StatusWrites
  imports OrderWrites WriteLedger
begin

text \<open>
  A chat's change of status reaches the shop at most once per button: the records and requests of
  \<open>updateStatus\<close> form a ledger (\<open>WriteLedger\<close>) under any interleaving of workers.
\<close>

section \<open>The ledger\<close>

definition statusRows :: "OrderWritesDb \<Rightarrow> (string \<times> string) list" where
  "statusRows db = map (\<lambda>w. (swId w, swReferenceId w)) (owStatusWrites db)"

definition statusSent :: "OrderWritesDb \<Rightarrow> (string \<times> string) list" where
  "statusSent db = map (\<lambda>e. (ssWriteId e, ssReferenceId e)) (owStatusSent db)"

definition statusClaims :: "OrderWritesDb \<Rightarrow> (string \<times> string) set" where
  "statusClaims db = {(i, t). \<exists>f \<in> set (tgReferences db). rfId f = i \<and> rfClaimedTargetStatus f = Some t}"

definition statusOk :: "OrderWritesDb \<Rightarrow> bool" where
  "statusOk db \<longleftrightarrow> ledgerOk (statusRows db) (statusSent db) \<and> distinct (map rfId (tgReferences db))
     \<and> (\<forall>w \<in> set (owStatusWrites db). (swReferenceId w, swTargetStatus w) \<in> statusClaims db)"

text \<open>What a worker that owns the ids \<open>I\<close> does to the table of writes and to the log.\<close>

definition statusStep :: "string set \<Rightarrow> OrderWritesDb \<Rightarrow> OrderWritesDb \<Rightarrow> bool" where
  "statusStep I db db' \<longleftrightarrow> (statusOk db \<longrightarrow> statusOk db') \<and> extends I fst (statusRows db) (statusRows db')
     \<and> extends I ssWriteId (owStatusSent db) (owStatusSent db') \<and> statusClaims db \<subseteq> statusClaims db'"

interpretation status_steps: owned_steps statusStep
  by unfold_locales (auto simp: statusStep_def intro: extends_trans extends_mono)

definition statusKey :: "StatusWriteRow \<Rightarrow> string \<times> string \<times> string" where
  "statusKey w = (swId w, swReferenceId w, swTargetStatus w)"

text \<open>Statements that touch neither the keys of the writes, nor the log, nor the references.\<close>

lemma status_quiet:
  assumes "map statusKey (owStatusWrites db') = map statusKey (owStatusWrites db)"
    and "owStatusSent db' = owStatusSent db" and "tgReferences db' = tgReferences db"
  shows "statusStep I db db'"
proof -
  have "map f (map statusKey (owStatusWrites db')) = map f (map statusKey (owStatusWrites db))"
    for f :: "string \<times> string \<times> string \<Rightarrow> string \<times> string" using assms(1) by simp
  from this [of "\<lambda>(i, r, t). (i, r)"] this [of "\<lambda>(i, r, t). (r, t)"]
  have rows: "statusRows db' = statusRows db"
    and keys: "map (\<lambda>w. (swReferenceId w, swTargetStatus w)) (owStatusWrites db') = map (\<lambda>w. (swReferenceId w, swTargetStatus w)) (owStatusWrites db)"
    by (simp_all add: statusRows_def statusKey_def comp_def)
  have "statusClaims db' = statusClaims db" "statusSent db' = statusSent db"
    by (simp_all add: statusClaims_def statusSent_def assms)
  moreover have "(\<forall>w \<in> set (owStatusWrites db'). (swReferenceId w, swTargetStatus w) \<in> C)
      = (\<forall>w \<in> set (owStatusWrites db). (swReferenceId w, swTargetStatus w) \<in> C)" for C
    using arg_cong [OF keys, of set] by (simp add: set_eq_iff image_iff) metis
  ultimately show ?thesis by (simp add: statusStep_def statusOk_def rows assms)
qed

lemma statusStep_finish: "statusStep I db (finishStatusWrite i st res now db)"
  by (rule status_quiet) (simp_all add: finishStatusWrite_def updateMany_rows statusKey_def comp_def if_distrib cong: if_cong)

lemma statusStep_orders: "statusStep I db (db\<lparr>tgOrders := rows\<rparr>)"
  by (rule status_quiet) simp_all

lemma statusStep_audit: "statusStep I db (db\<lparr>owAudit := rows\<rparr>)"
  by (rule status_quiet) simp_all

lemma reconcilePayload_db: "\<exists>rows. snd (reconcilePayload env n s payload wcId db) = db\<lparr>tgOrders := rows\<rparr>"
  by (auto simp: reconcilePayload_def split: prod.splits sum.splits)

lemma statusStep_reconcile: "reconcilePayload env n s payload wcId db = (x, db') \<Longrightarrow> statusStep I db db'"
  using reconcilePayload_db [of env n s payload wcId db] statusStep_orders by auto

lemma readAuthoritative_db: "\<exists>rows. snd (readAuthoritative env n now cx s wcId db) = db\<lparr>tgOrders := rows\<rparr>"
proof -
  have same: "\<exists>rows. db = db\<lparr>tgOrders := rows\<rparr>" by (rule exI [of _ "tgOrders db"]) simp
  show ?thesis
    using reconcilePayload_db [of env n s _ wcId db] same by (auto simp: readAuthoritative_def split: sum.splits)
qed

lemma statusStep_read: "readAuthoritative env n now cx s wcId db = (x, db') \<Longrightarrow> statusStep I db db'"
  using readAuthoritative_db [of env n now cx s wcId db] statusStep_orders by auto

section \<open>The statements\<close>

lemma statusStep_claim: "claimTarget r t db = (n, db') \<Longrightarrow> statusStep I db db'"
  and claimTarget_claims: "claimTarget r t db = (Suc m, db') \<Longrightarrow> (r, t) \<in> statusClaims db'"
proof -
  let ?f = "\<lambda>f. if claimsTarget r t f then f\<lparr>rfClaimedTargetStatus := Some t\<rparr> else f"
  show "statusStep I db db'" if "claimTarget r t db = (n, db')"
  proof -
    from that have db': "db' = db\<lparr>tgReferences := map ?f (tgReferences db)\<rparr>"
      by (simp add: claimTarget_def updateMany_def)
    have ids: "map rfId (tgReferences db') = map rfId (tgReferences db)" by (simp add: db' comp_def if_distrib cong: if_cong)
    have "statusClaims db \<subseteq> statusClaims db'"
      by (force simp: statusClaims_def db' claimsTarget_def)
    moreover have "statusRows db' = statusRows db" "statusSent db' = statusSent db" "owStatusWrites db' = owStatusWrites db"
      "owStatusSent db' = owStatusSent db" by (simp_all add: statusRows_def statusSent_def db')
    ultimately show ?thesis by (simp add: statusStep_def statusOk_def ids) blast
  qed
  show "(r, t) \<in> statusClaims db'" if "claimTarget r t db = (Suc m, db')"
  proof -
    from that have "filter (claimsTarget r t) (tgReferences db) \<noteq> []"
      and db': "db' = db\<lparr>tgReferences := map ?f (tgReferences db)\<rparr>"
      by (auto simp: claimTarget_def updateMany_def)
    then obtain f where "f \<in> set (tgReferences db)" "claimsTarget r t f" by (auto simp: filter_empty_conv)
    then have "?f f \<in> set (tgReferences db')" "rfId (?f f) = r" "rfClaimedTargetStatus (?f f) = Some t"
      by (simp_all add: db' claimsTarget_def)
    then show ?thesis unfolding statusClaims_def by blast
  qed
qed

lemma claim_unique:
  assumes "statusOk db" and "(r, t) \<in> statusClaims db" and "(r, t') \<in> statusClaims db"
  shows "t = t'"
  using assms distinct_key_eq [of rfId "tgReferences db"] by (fastforce simp: statusOk_def statusClaims_def)

lemma statusStep_record:
  assumes "(swReferenceId w, swTargetStatus w) \<in> statusClaims db" and "swId w \<notin> fst ` set (statusRows db)"
    and "findFirst (statusWhere (swReferenceId w) (swTargetStatus w)) (owStatusWrites db) = None" and "swId w \<in> I"
  shows "statusStep I db (db\<lparr>owStatusWrites := owStatusWrites db @ [w]\<rparr>)"
proof -
  let ?db' = "db\<lparr>owStatusWrites := owStatusWrites db @ [w]\<rparr>"
  have rows: "statusRows ?db' = statusRows db @ [(swId w, swReferenceId w)]" by (simp add: statusRows_def)
  have same: "statusClaims ?db' = statusClaims db" "statusSent ?db' = statusSent db"
    by (simp_all add: statusClaims_def statusSent_def)
  have "statusOk ?db'" if ok: "statusOk db"
  proof -
    have "swReferenceId w \<notin> snd ` set (statusRows db)"
    proof
      assume "swReferenceId w \<in> snd ` set (statusRows db)"
      then obtain v where v: "v \<in> set (owStatusWrites db)" "swReferenceId v = swReferenceId w" by (auto simp: statusRows_def)
      with ok have "(swReferenceId w, swTargetStatus v) \<in> statusClaims db" by (auto simp: statusOk_def)
      with claim_unique [OF ok assms(1)] v assms(3) show False by (auto simp: findFirst_None statusWhere_def)
    qed
    with ok assms(1,2) ledger_record show ?thesis by (auto simp: statusOk_def rows same)
  qed
  then show ?thesis using assms(4) by (simp add: statusStep_def rows same extends_snoc)
qed

lemma statusStep_send:
  assumes "(i, r) \<in> set (statusRows db)" and "i \<notin> ssWriteId ` set (owStatusSent db)" and "i \<in> I"
  shows "statusStep I db (logStatusSent i r s wcId t db)"
proof -
  let ?db' = "logStatusSent i r s wcId t db"
  have same: "statusClaims ?db' = statusClaims db" "statusRows ?db' = statusRows db"
    "owStatusWrites ?db' = owStatusWrites db" "tgReferences ?db' = tgReferences db"
    by (simp_all add: statusClaims_def statusRows_def logStatusSent_def)
  have "i \<notin> fst ` set (statusSent db)" using assms(2) by (auto simp: statusSent_def)
  then have "ledgerOk (statusRows db) (statusSent db) \<Longrightarrow> ledgerOk (statusRows db) (statusSent db @ [(i, r)])"
    using assms(1) ledger_send by blast
  moreover have "statusSent ?db' = statusSent db @ [(i, r)]" by (simp add: statusSent_def logStatusSent_def)
  ultimately show ?thesis
    using assms(3) by (auto simp: statusStep_def statusOk_def same) (simp add: logStatusSent_def extends_snoc)
qed


section \<open>The handler\<close>

text \<open>
  What the other processes do: they own the ids \<open>I\<close>, which do not contain the id of the row this run creates,
  and no row has that id yet.
\<close>

definition statusWorker :: "string set \<Rightarrow> WritesEnv \<Rightarrow> bool" where
  "statusWorker I env \<longleftrightarrow> (\<forall>n db. statusStep I db (weBetween env n db)) \<and> statusWriteId env \<notin> I"

lemma statusWorkerD: "statusWorker I env \<Longrightarrow> statusStep I db (weBetween env n db)"
  by (simp add: statusWorker_def)

lemma statusStep_own: "statusStep I a b \<Longrightarrow> statusStep (insert i I) a b"
  by (rule status_steps.mono [OF _ subset_insertI])

lemma statusStep_finishing:
  "statusWorker I env \<Longrightarrow> statusStep I db (finishStatusWrite i st res now (weBetween env n db))"
  by (rule status_steps.trans [OF statusWorkerD statusStep_finish])

lemma statusStep_failure: "statusWorker I env \<Longrightarrow> statusStep I db (snd (completeFailure env i st db))"
  by (simp add: completeFailure_def statusStep_finishing)

lemma statusStep_complete:
  assumes "statusWorker I env"
  shows "statusStep I db (snd (completeStatusWrite env i st cx wcId target back db))"
proof -
  have "statusStep I db ((finishStatusWrite i st' res now (weBetween env n db))\<lparr>owAudit := rows\<rparr>)" for st' res now n rows
    by (rule status_steps.trans [OF statusStep_finishing [OF assms] statusStep_audit])
  then show ?thesis
    by (simp add: completeStatusWrite_def statusStep_failure [OF assms] statusStep_finishing [OF assms] Let_def split: option.split)
qed

text \<open>What is stored after the projection took over an answer of the shop.\<close>

lemma statusStep_projected:
  assumes "statusWorker I env" and "reconcilePayload en n s p w (weBetween env m db) = (x, db')"
  shows "statusStep I db db'"
  by (rule status_steps.trans [OF statusWorkerD [OF assms(1)] statusStep_reconcile [OF assms(2)]])

lemma statusStep_lost:
  assumes "statusWorker I env"
  shows "statusStep I db (snd (reconcileLostWrite env i e cx s wcId target back db))"
proof -
  note complete = status_steps.trans [OF statusWorkerD [OF assms] statusStep_complete [OF assms]]
  have "statusStep I db (snd (completeFailure env i st db'))"
    "statusStep I db (snd (completeStatusWrite env i st cx wcId target back (weBetween env k db')))"
    if "reconcilePayload en n s p w (weBetween env m db) = (x, db')" for en n p w x db' m st k
    by (rule status_steps.trans [OF statusStep_projected [OF assms that] statusStep_failure [OF assms]])
      (rule status_steps.trans [OF statusStep_projected [OF assms that] complete])
  then show ?thesis
    by (auto simp: reconcileLostWrite_def statusStep_failure [OF assms] split: sum.split prod.split)
qed

lemma statusStep_sendWrite:
  assumes "statusWorker I env" and "(i, r) \<in> set (statusRows db)" and "i \<notin> ssWriteId ` set (owStatusSent db)"
  shows "statusStep (insert i I) db (snd (sendStatusWrite env i r cx s wcId target back db))"
proof -
  let ?J = "insert i I" and ?sent = "logStatusSent i r s wcId target db"
  note sent = status_steps.trans [OF statusStep_send [OF assms(2,3) insertI1] statusStep_own]
  note complete = status_steps.trans [OF statusWorkerD [OF assms(1)] statusStep_complete [OF assms(1)]]
  have lost: "statusStep ?J db (snd (reconcileLostWrite env i e cx s wcId target back ?sent))" for e
    by (rule sent [OF statusStep_lost [OF assms(1)]])
  have answered:
    "statusStep ?J db (snd (reconcileLostWrite env i e cx s wcId target back db'))"
    "statusStep ?J db (snd (completeFailure env i st db'))"
    "statusStep ?J db (snd (completeStatusWrite env i st cx wcId target back (weBetween env k db')))"
    if "reconcilePayload en n s p w (weBetween env m ?sent) = (x, db')" for en n p w x db' m st k e
    by (rule sent [OF status_steps.trans [OF statusStep_projected [OF assms(1) that] statusStep_lost [OF assms(1)]]])
      (rule sent [OF status_steps.trans [OF statusStep_projected [OF assms(1) that] statusStep_failure [OF assms(1)]]],
       rule sent [OF status_steps.trans [OF statusStep_projected [OF assms(1) that] complete]])
  have unsent: "statusStep ?J db (snd (completeFailure env i UpdFailed db))"
    "statusStep ?J db (snd (reconcileLostWrite env i e cx s wcId target back db))" for e
    by (rule statusStep_own [OF statusStep_failure [OF assms(1)]], rule statusStep_own [OF statusStep_lost [OF assms(1)]])
  show ?thesis
    by (auto simp: sendStatusWrite_def lost unsent answered Let_def split: sum.split prod.split ServiceError.split)
qed


text \<open>A step of the others leaves the fresh id of this run fresh, and the claim of its reference in place.\<close>

lemma step_keeps:
  assumes "statusStep I a b"
  shows "statusOk a \<Longrightarrow> statusOk b" and "i \<notin> I \<Longrightarrow> i \<notin> fst ` set (statusRows a) \<Longrightarrow> i \<notin> fst ` set (statusRows b)"
    and "c \<in> statusClaims a \<Longrightarrow> c \<in> statusClaims b" and "p \<in> set (statusRows a) \<Longrightarrow> p \<in> set (statusRows b)"
    and "i \<notin> I \<Longrightarrow> i \<notin> ssWriteId ` set (owStatusSent a) \<Longrightarrow> i \<notin> ssWriteId ` set (owStatusSent b)"
proof -
  have step: "statusOk a \<longrightarrow> statusOk b" "extends I fst (statusRows a) (statusRows b)"
    "extends I ssWriteId (owStatusSent a) (owStatusSent b)" "statusClaims a \<subseteq> statusClaims b"
    using assms by (simp_all add: statusStep_def)
  show "statusOk a \<Longrightarrow> statusOk b" "c \<in> statusClaims a \<Longrightarrow> c \<in> statusClaims b" using step(1,4) by blast+
  show "i \<notin> I \<Longrightarrow> i \<notin> fst ` set (statusRows a) \<Longrightarrow> i \<notin> fst ` set (statusRows b)" by (rule extends_fresh [OF step(2)])
  show "p \<in> set (statusRows a) \<Longrightarrow> p \<in> set (statusRows b)" by (rule extends_keeps [OF step(2)])
  show "i \<notin> I \<Longrightarrow> i \<notin> ssWriteId ` set (owStatusSent a) \<Longrightarrow> i \<notin> ssWriteId ` set (owStatusSent b)"
    by (rule extends_fresh [OF step(3)])
qed

lemma statusStep_recordWrite:
  assumes "statusWorker I env" and "statusOk db" and "(r, target) \<in> statusClaims db"
    and "statusWriteId env \<notin> fst ` set (statusRows db)"
  shows "statusStep (insert (statusWriteId env) I) db (snd (recordStatusWrite env cx s r wcId back target live db))"
proof -
  define i where "i = statusWriteId env"
  define w where "w = newStatusWrite env cx r wcId target"
  have w: "swId w = i" "swReferenceId w = r" "swTargetStatus w = target" by (simp_all add: w_def newStatusWrite_def i_def)
  define db1 where "db1 = db\<lparr>owStatusWrites := owStatusWrites db @ [w]\<rparr>"
  define db2 where "db2 = weBetween env 6 db1"
  have i: "i \<notin> I" "i \<notin> fst ` set (statusRows db)" using assms(1,4) by (simp_all add: statusWorker_def i_def)
  note mine = status_steps.trans [where I = "insert i I"]
  show ?thesis
  proof (cases "findFirst (statusWhere r target) (owStatusWrites db)")
    case None
    have 1: "statusStep {i} db db1"
      unfolding db1_def by (rule statusStep_record) (simp_all add: w assms(3) None i del: set_map)
    have 2: "statusStep I db1 db2" unfolding db2_def by (rule statusWorkerD [OF assms(1)])
    have at: "statusStep (insert i I) db db2" by (rule status_steps.after [OF 1 2]) simp
    have "i \<notin> ssWriteId ` set (owStatusSent db)"
      using assms(2) i(2) ledger_sent_id [of "statusRows db" "statusSent db" i] by (simp add: statusOk_def) (simp add: statusSent_def image_image)
    then have "i \<notin> ssWriteId ` set (owStatusSent db1)" by (simp add: db1_def)
    then have unsent: "i \<notin> ssWriteId ` set (owStatusSent db2)" by (rule step_keeps(5) [OF 2 i(1)])
    have "(i, r) \<in> set (statusRows db1)" by (simp add: db1_def statusRows_def w)
    then have "(i, r) \<in> set (statusRows db2)" by (rule step_keeps(4) [OF 2])
    note send = statusStep_sendWrite [OF assms(1) this unsent]
    note complete = statusStep_own [OF statusStep_complete [OF assms(1)]]
    have "statusStep (insert i I) db (snd (completeStatusWrite env i UpdNoOp cx wcId target back db2))"
      "statusStep (insert i I) db (snd (sendStatusWrite env i r cx s wcId target back db2))"
      by (rule mine [OF at complete], rule mine [OF at send])
    then show ?thesis
      by (simp add: recordStatusWrite_def None Let_def i_def [symmetric] w_def [symmetric] w db1_def [symmetric]
          db2_def [symmetric])
  next
    case (Some v)
    then show ?thesis
      using statusStep_own [OF statusWorkerD [OF assms(1)]] by (simp add: recordStatusWrite_def Let_def i_def)
  qed
qed


lemma statusStep_claimWrite:
  assumes "statusWorker I env" and "statusOk db" and "statusWriteId env \<notin> fst ` set (statusRows db)"
  shows "statusStep (insert (statusWriteId env) I) db
    (snd (claimStatusWrite env cx s r wcId back target payload db))"
proof -
  let ?J = "insert (statusWriteId env) I"
  have i: "statusWriteId env \<notin> I" using assms(1) by (simp add: statusWorker_def)
  obtain n db1 where claim: "claimTarget r target (weBetween env 4 db) = (n, db1)" by force
  have 1: "statusStep I db db1" by (rule status_steps.trans [OF statusWorkerD [OF assms(1)] statusStep_claim [OF claim]])
  have 2: "statusStep I db (weBetween env 5 db1)" by (rule status_steps.trans [OF 1 statusWorkerD [OF assms(1)]])
  have "statusStep ?J db (snd (recordStatusWrite env cx s r wcId back target live (weBetween env 5 db1)))"
    if n: "n = 1" for live
  proof -
    have "(r, target) \<in> statusClaims (weBetween env 5 db1)"
      by (rule step_keeps(3) [OF statusWorkerD [OF assms(1)]]) (use claim n claimTarget_claims in auto)
    from statusStep_recordWrite [OF assms(1) step_keeps(1) [OF 2 assms(2)] this step_keeps(2) [OF 2 i assms(3)]]
    show ?thesis by (rule status_steps.after [OF 2]) blast
  qed
  then show ?thesis
    by (simp add: claimStatusWrite_def claim statusStep_own [OF 1] status_steps.refl split: option.split)
qed

lemma statusStep_writeStatus:
  assumes "statusWorker I env" and "statusOk db" and "statusWriteId env \<notin> fst ` set (statusRows db)"
  shows "statusStep (insert (statusWriteId env) I) db (snd (writeStatus env cx r wcId back target db))"
proof -
  let ?J = "insert (statusWriteId env) I"
  have i: "statusWriteId env \<notin> I" using assms(1) by (simp add: statusWorker_def)
  have read: "statusStep I db db'" if "readAuthoritative en n now cx s w (weBetween env 3 db) = (x, db')" for en n now s w x db'
    by (rule status_steps.trans [OF statusWorkerD [OF assms(1)] statusStep_read [OF that]])
  have claim: "statusStep ?J db (snd (claimStatusWrite env cx s r wcId back target payload db'))"
    if "statusStep I db db'" for s payload db'
    by (rule status_steps.after [OF that statusStep_claimWrite [OF assms(1) step_keeps(1) [OF that assms(2)]
          step_keeps(2) [OF that i assms(3)]]]) blast
  show ?thesis
    by (auto simp: writeStatus_def Let_def status_steps.refl intro: read statusStep_own claim split: sum.split option.split prod.split)
qed

lemma statusStep_update:
  assumes "statusWorker I env" and "statusOk db" and "statusWriteId env \<notin> fst ` set (statusRows db)"
  shows "statusStep (insert (statusWriteId env) I) db (snd (updateStatus env identity token target db))"
proof -
  let ?J = "insert (statusWriteId env) I"
  have i: "statusWriteId env \<notin> I" using assms(1) by (simp add: statusWorker_def)
  have 1: "statusStep I db (weBetween env 1 db)" by (rule statusWorkerD [OF assms(1)])
  have 2: "statusStep I db (weBetween env 2 (weBetween env 1 db))"
    by (rule status_steps.trans [OF 1 statusWorkerD [OF assms(1)]])
  have "statusStep ?J db (snd (writeStatus env cx r wcId b target (weBetween env 2 (weBetween env 1 db))))" for cx r wcId b
    by (rule status_steps.after [OF 2 statusStep_writeStatus [OF assms(1) step_keeps(1) [OF 2 assms(2)]
          step_keeps(2) [OF 2 i assms(3)]]]) blast
  then show ?thesis
    by (auto simp: updateStatus_def Let_def status_steps.refl statusStep_own [OF 1] simp del: One_nat_def split: ContextResolution.split option.split)
qed

text \<open>
  C31: however the workers interleave, a button of a status change sends at most one request to the shop, for
  one target, and only under a row recorded before: a worker adds rows and requests under its own fresh id
  only, keeps the ledger, and a reference that is claimed stays claimed for the same target.
\<close>

theorem status_written_once:
  assumes "statusWorker I env" and "statusOk db" and "statusWriteId env \<notin> swId ` set (owStatusWrites db)"
    and "updateStatus env identity token target db = (result, db')"
  shows "distinct (map ssReferenceId (owStatusSent db')) \<and> statusOk db' \<and> statusStep (insert (statusWriteId env) I) db db'
    \<and> (\<forall>e \<in> set (owStatusSent db'). \<exists>w \<in> set (owStatusWrites db'). swId w = ssWriteId e \<and> swReferenceId w = ssReferenceId e)"
proof -
  have "statusWriteId env \<notin> fst ` set (statusRows db)" using assms(3) by (auto simp: statusRows_def)
  from statusStep_update [OF assms(1,2) this] assms(4) have step: "statusStep (insert (statusWriteId env) I) db db'"
    by (metis snd_conv)
  then have ok: "statusOk db'" using assms(2) by (rule step_keeps(1))
  then have "distinct (map snd (statusSent db'))" "set (statusSent db') \<subseteq> set (statusRows db')"
    using ledger_once by (auto simp: statusOk_def ledgerOk_def)
  moreover from this(2) have "\<forall>e \<in> set (owStatusSent db'). (ssWriteId e, ssReferenceId e) \<in> set (statusRows db')"
    by (auto simp: statusSent_def)
  then have "\<forall>e \<in> set (owStatusSent db'). \<exists>w \<in> set (owStatusWrites db'). swId w = ssWriteId e \<and> swReferenceId w = ssReferenceId e"
    by (force simp: statusRows_def)
  ultimately show ?thesis using step ok by (simp add: statusSent_def comp_def)
qed


section \<open>Who may change a status, and to what\<close>

definition sentBy :: "string \<Rightarrow> OrderWritesDb \<Rightarrow> StatusSent set" where
  "sentBy i db = {e \<in> set (owStatusSent db). ssWriteId e = i}"

lemma sentBy_others: "statusStep I a b \<Longrightarrow> i \<notin> I \<Longrightarrow> sentBy i b = sentBy i a"
  by (auto simp: statusStep_def sentBy_def extends_def)

lemma sentBy_between: "statusWorker I env \<Longrightarrow> sentBy (statusWriteId env) (weBetween env n db) = sentBy (statusWriteId env) db"
  by (rule sentBy_others) (auto simp: statusWorker_def)

definition statusRequest :: "string \<Rightarrow> string \<Rightarrow> ProjectableStore \<Rightarrow> string \<Rightarrow> string \<Rightarrow> StatusSent" where
  "statusRequest i r s wcId target =
     \<lparr>ssWriteId = i, ssReferenceId = r, ssStoreId = storeId s, ssWcOrderId = wcId, ssTarget = target\<rparr>"

lemma sentBy_log: "sentBy i (logStatusSent i r s wcId target db) = insert (statusRequest i r s wcId target) (sentBy i db)"
  by (auto simp: sentBy_def logStatusSent_def statusRequest_def)

lemma sentBy_send:
  assumes "statusWorker I env"
  shows "sentBy (statusWriteId env) (snd (sendStatusWrite env (statusWriteId env) r cx s wcId target back db))
    \<subseteq> insert (statusRequest (statusWriteId env) r s wcId target) (sentBy (statusWriteId env) db)"
proof -
  let ?i = "statusWriteId env" and ?sent = "logStatusSent (statusWriteId env) r s wcId target db"
  have i: "?i \<notin> I" using assms by (simp add: statusWorker_def)
  note step = sentBy_others [OF _ i]
  have quiet: "sentBy ?i (snd (completeFailure env ?i st a)) = sentBy ?i a"
    "sentBy ?i (snd (completeStatusWrite env ?i st cx wcId target back a)) = sentBy ?i a"
    "sentBy ?i (snd (reconcileLostWrite env ?i e cx s wcId target back a)) = sentBy ?i a" for a st e
    by (rule step [OF statusStep_failure [OF assms]], rule step [OF statusStep_complete [OF assms]],
        rule step [OF statusStep_lost [OF assms]])
  have "sentBy ?i db' = sentBy ?i ?sent" if "reconcilePayload en n s p w (weBetween env m ?sent) = (x, db')" for en n p w x db' m
    by (rule step [OF statusStep_projected [OF assms that]])
  then show ?thesis
    by (auto simp: sendStatusWrite_def Let_def quiet sentBy_between [OF assms] sentBy_log split: sum.split prod.split
        ServiceError.split)
qed

lemma sentBy_record:
  assumes "statusWorker I env" and "e \<in> sentBy (statusWriteId env) (snd (recordStatusWrite env cx s r wcId back target live db))"
    and "sentBy (statusWriteId env) db = {}"
  shows "e = statusRequest (statusWriteId env) r s wcId target \<and> live \<noteq> target"
proof -
  let ?i = "statusWriteId env" and ?db' = "weBetween env 6 (db\<lparr>owStatusWrites := owStatusWrites db @ [newStatusWrite env cx r wcId target]\<rparr>)"
  have i: "?i \<notin> I" using assms(1) by (simp add: statusWorker_def)
  have none: "sentBy ?i ?db' = {}" "sentBy ?i (weBetween env 6 db) = {}"
    using assms(3) by (simp_all add: sentBy_between [OF assms(1)]) (simp add: sentBy_def)
  have "sentBy ?i (snd (completeStatusWrite env ?i UpdNoOp cx wcId target back ?db')) = {}"
    using sentBy_others [OF statusStep_complete [OF assms(1)] i] none(1) by metis
  moreover have "swId (newStatusWrite env cx r wcId target) = ?i" by (simp add: newStatusWrite_def)
  moreover have "sentBy ?i (snd (sendStatusWrite env ?i r cx s wcId target back ?db')) \<subseteq> {statusRequest ?i r s wcId target}"
    by (rule sentBy_send [OF assms(1), where db = ?db', unfolded none])
  ultimately show ?thesis
    using assms(2) none by (auto simp: recordStatusWrite_def Let_def split: if_splits)
qed

lemma sentBy_claim:
  assumes "statusWorker I env" and "e \<in> sentBy (statusWriteId env) (snd (claimStatusWrite env cx s r wcId back target payload db))"
    and "sentBy (statusWriteId env) db = {}"
  shows "\<exists>live. e = statusRequest (statusWriteId env) r s wcId target
    \<and> readMappedStatus (ordersEnv env) payload wcId = Some live \<and> live \<noteq> target \<and> target \<in> set (CORE_STATUS_TRANSITIONS live)"
proof -
  let ?i = "statusWriteId env"
  have i: "?i \<notin> I" using assms(1) by (simp add: statusWorker_def)
  obtain n db1 where claim: "claimTarget r target (weBetween env 4 db) = (n, db1)" by force
  have "sentBy ?i db1 = {}"
    using sentBy_others [OF statusStep_claim [OF claim] i] sentBy_between [OF assms(1)] assms(3) by simp
  then have "sentBy ?i (weBetween env 5 db1) = {}" "sentBy ?i db1 = {}" by (simp_all add: sentBy_between [OF assms(1)])
  with assms(2,3) show ?thesis
    by (auto simp: claimStatusWrite_def claim split: option.splits if_splits dest!: sentBy_record [OF assms(1)])
qed


lemma loadWritableStore_id: "loadWritableStore db cx = Some s \<Longrightarrow> storeId s = cxStoreId cx"
  by (auto simp: loadWritableStore_def policyWhere_def dest!: findFirst_Some)

lemma readAuthoritative_payload:
  "readAuthoritative env n now cx s wcId db = (Inr payload, db') \<Longrightarrow> oeFetch env n s wcId = Inr payload"
proof -
  assume read: "readAuthoritative env n now cx s wcId db = (Inr payload, db')"
  obtain p where p: "oeFetch env n s wcId = Inr p"
    using read by (cases "oeFetch env n s wcId") (simp_all add: readAuthoritative_def split: sum.splits)
  obtain y db2 where "reconcilePayload env n s p wcId db = (y, db2)" by force
  with read p show ?thesis by (cases y) (simp_all add: readAuthoritative_def split: sum.splits)
qed

lemma sentBy_write:
  assumes "statusWorker I env" and "e \<in> sentBy (statusWriteId env) (snd (writeStatus env cx r wcId back target db))"
    and "sentBy (statusWriteId env) db = {}"
  shows "\<exists>s payload live. storeId s = cxStoreId cx \<and> e = statusRequest (statusWriteId env) r s wcId target
    \<and> oeFetch env 0 s wcId = Inr payload \<and> readMappedStatus (ordersEnv env) payload wcId = Some live
    \<and> live \<noteq> target \<and> target \<in> set (CORE_STATUS_TRANSITIONS live)"
proof -
  let ?i = "statusWriteId env"
  have i: "?i \<notin> I" using assms(1) by (simp add: statusWorker_def)
  obtain s where s: "loadWritableStore db cx = Some s"
    and run: "e \<in> sentBy ?i (snd (case readAuthoritative (ordersEnv env) 0 (teClock env 2) cx s wcId (weBetween env 3 db) of
       (Inl x, db') \<Rightarrow> (Inr (plainStatus (failureStatus (failureState x))) :: ServiceError + StatusResult, db')
     | (Inr payload, db') \<Rightarrow> map_prod Inr id (claimStatusWrite env cx s r wcId back target payload db')))"
    using assms(2,3) by (auto simp: writeStatus_def Let_def split: sum.splits option.splits if_splits)
  obtain x db' where read: "readAuthoritative (ordersEnv env) 0 (teClock env 2) cx s wcId (weBetween env 3 db) = (x, db')"
    by force
  have none: "sentBy ?i db' = {}"
    using sentBy_others [OF statusStep_read [OF read] i] sentBy_between [OF assms(1)] assms(3) by simp
  with run read obtain payload where x: "x = Inr payload"
    and own: "e \<in> sentBy ?i (snd (claimStatusWrite env cx s r wcId back target payload db'))"
    by (cases x) simp_all
  from readAuthoritative_payload [OF read [unfolded x]] have "oeFetch env 0 s wcId = Inr payload"
    by (simp add: ordersEnv_def OrdersEnv.truncate_def)
  with sentBy_claim [OF assms(1) own none] loadWritableStore_id [OF s] show ?thesis by blast
qed


text \<open>
  C32: a change of status is sent to the shop only for a chat whose account is not a plain member, from a
  signed, unexpired button of this chat and store that offers the target, for the order the button names, and
  only when the live status of that order, read by this run, differs from the target and may change to it.
\<close>

theorem status_put_authorised:
  assumes "statusWorker I env" and "statusOk db" and "statusWriteId env \<notin> swId ` set (owStatusWrites db)"
    and "updateStatus env identity token target db = (result, db')"
    and "e \<in> set (owStatusSent db')" and "ssWriteId e = statusWriteId env"
  shows "\<exists>cx ref s wcId payload live. resolveContext db identity = ContextOk cx \<and> cxRole cx \<noteq> MEMBER
    \<and> statusReference env (weBetween env 1 db) token = Some ref \<and> teClock env 0 < rfExpiresAt ref
    \<and> referenceMatchesContext ref cx \<and> rfTargetWcOrderId ref = Some wcId \<and> target \<in> set (rfAllowedTargetStatuses ref)
    \<and> storeId s = cxStoreId cx \<and> e = statusRequest (statusWriteId env) (rfId ref) s wcId target
    \<and> oeFetch env 0 s wcId = Inr payload \<and> readMappedStatus (ordersEnv env) payload wcId = Some live
    \<and> live \<noteq> target \<and> target \<in> set (CORE_STATUS_TRANSITIONS live)"
proof -
  let ?i = "statusWriteId env" and ?db1 = "weBetween env 1 db"
  note between = sentBy_between [OF assms(1)]
  have "?i \<notin> fst ` set (statusSent db)"
    by (rule ledger_sent_id [where rows = "statusRows db"]) (use assms(2,3) in \<open>auto simp: statusOk_def statusRows_def\<close>)
  then have "sentBy ?i db = {}" by (force simp: sentBy_def statusSent_def)
  then have none: "sentBy ?i db = {}" "sentBy ?i ?db1 = {}" "sentBy ?i (weBetween env 2 ?db1) = {}"
    by (simp_all add: between)
  have own: "e \<in> sentBy ?i (snd (updateStatus env identity token target db))" using assms(4-6) by (simp add: sentBy_def)
  then obtain cx ref wcId bk where cx: "resolveContext db identity = ContextOk cx" "cxRole cx \<noteq> MEMBER"
    and ref: "statusReference env ?db1 token = Some ref" "teClock env 0 < rfExpiresAt ref" "referenceMatchesContext ref cx"
    and tgt: "referenceTarget (Some ref) = Some (ref, wcId, bk)" "target \<in> set (rfAllowedTargetStatuses ref)"
    and run: "e \<in> sentBy ?i (snd (writeStatus env cx (rfId ref) wcId bk target (weBetween env 2 ?db1)))"
    using none by (auto simp: updateStatus_def Let_def referenceTarget_def simp del: One_nat_def
        split: ContextResolution.splits option.splits if_splits)
  moreover have "rfTargetWcOrderId ref = Some wcId"
    using tgt(1) by (auto simp: referenceTarget_def split: option.splits if_splits)
  ultimately show ?thesis using sentBy_write [OF assms(1) run none(3)] by blast
qed


section \<open>A sample run\<close>

text \<open>The order was processing and is to be completed; the shop does not answer to the request.\<close>

definition sampleButton :: ReferenceRow where
  "sampleButton = writeReference sampleContext ''42'' ''tcr_1'' [''completed''] (replicate 16 (CHR ''A'')) 900000"

definition sampleWritesEnv :: WritesEnv where
  "sampleWritesEnv = \<lparr>teClock = (\<lambda>n. 0), teShortId = (\<lambda>n. replicate 16 (CHR ''B'')), teMac = (\<lambda>v. replicate 32 7),
     teReferenceTtlSeconds = 900, teFreshnessThresholdSeconds = 600,
     oeFetch = (\<lambda>n s i. if n = 0 then Inr (JObj sampleOrder) else Inl (ClientError Timeout)), oeProjection = demoEnv,
     weBetween = (\<lambda>n db. if n = 3 then db\<lparr>tgOrders := []\<rparr> else db),
     weUpdateStatus = (\<lambda>s i t. Inl (ClientError Timeout)), weCreateNote = (\<lambda>s i t b. Inl (ClientError Timeout)),
     weHex = (\<lambda>n. ''1''), weEncrypt = (\<lambda>t. t), weDecrypt = Some, weNoteHmac = (\<lambda>t. t),
     weClaimFault = False, weRecordFault = False\<rparr>"

definition sampleWritesDb :: OrderWritesDb where
  "sampleWritesDb = TelegramDb.extend
     (sampleTelegram\<lparr>tgOrders := [sampleNotifiedOrder\<lparr>wcOrderId := ''42''\<rparr>], tgReferences := [sampleButton]\<rparr>)
     \<lparr>owStatusWrites = [], owNoteActions = [], owAudit = [], owStatusSent = [], owNotesSent = []\<rparr>"

definition sampleButtonToken :: string where
  "sampleButtonToken = tokenForReferenceId (\<lambda>v. replicate 32 7) (CHR ''s'') (rfId sampleButton)"

lemma sampleWritesDb_tables [simp]:
  "tgTenants sampleWritesDb = tgTenants sampleTelegram" "tgShops sampleWritesDb = tgShops sampleTelegram"
  "tgMemberships sampleWritesDb = tgMemberships sampleTelegram" "tgAccounts sampleWritesDb = tgAccounts sampleTelegram"
  "tgChats sampleWritesDb = tgChats sampleTelegram" "tgReferences sampleWritesDb = [sampleButton]"
  "tgOrders sampleWritesDb = [sampleNotifiedOrder\<lparr>wcOrderId := ''42''\<rparr>]" "owStatusWrites sampleWritesDb = []"
  "owStatusSent sampleWritesDb = []" "owNoteActions sampleWritesDb = []" "owNotesSent sampleWritesDb = []"
  by (simp_all add: sampleWritesDb_def TelegramDb.extend_def sampleTelegram_def)

lemma sampleWorker: "statusWorker {} sampleWritesEnv"
  by (auto simp: statusWorker_def sampleWritesEnv_def status_steps.refl statusStep_orders)

lemma sampleWrites_ok: "statusOk sampleWritesDb"
  by (simp add: statusOk_def ledgerOk_def statusRows_def statusSent_def)

lemma sampleWrites_context: "resolveContext sampleWritesDb sampleIdentity = ContextOk sampleContext"
  by (simp add: resolveContext_def resolveMembership_def sampleTelegram_def sampleIdentity_def sampleContext_def
      findFirst_def findMany_def membershipWhere_def activeShopWhere_def activeChat_def tenantAlive_def)

lemma sampleButton_found: "statusReference sampleWritesEnv sampleWritesDb sampleButtonToken = Some sampleButton"
proof -
  have "goodMac (\<lambda>v. replicate 32 7)" by (simp add: goodMac_def list_all_iff)
  moreover have "shortIdPattern (replicate 16 (CHR ''A''))" by code_simp
  ultimately have "parseAndVerifyToken (\<lambda>v. replicate 32 7) sampleButtonToken (CHR ''s'') = Some (rfId sampleButton)"
    unfolding sampleButtonToken_def sampleButton_def writeReference_def contextReference_def ReferenceRow.simps
    by (intro order_tokens.accepts) simp_all
  then show ?thesis
    by (simp add: statusReference_def findReference_def findFirst_def sampleWritesEnv_def)
      (simp add: sampleButton_def writeReference_def contextReference_def)
qed


lemma sampleWritesEnv_simps [simp]:
  "teClock sampleWritesEnv n = 0" "weBetween sampleWritesEnv n db = (if n = 3 then db\<lparr>tgOrders := []\<rparr> else db)"
  "oeFetch sampleWritesEnv n s i = (if n = 0 then Inr (JObj sampleOrder) else Inl (ClientError Timeout))"
  "oeFetch (ordersEnv sampleWritesEnv) = oeFetch sampleWritesEnv"
  "oeProjection (ordersEnv sampleWritesEnv) = demoEnv" "weUpdateStatus sampleWritesEnv s i t = Inl (ClientError Timeout)"
  by (simp_all add: sampleWritesEnv_def ordersEnv_def OrdersEnv.truncate_def)

lemma sampleTenant_active: "\<exists>s. assertActive ''ten_1'' 0 (tgTenants sampleTelegram) = Inr s"
  by (simp add: assertActive_def resolveTenant_def sampleTelegram_def findFirst_def tenantWhere_def rowSummary_def
      toSummary_def effectiveTenantEntitlementState_def andThen_def)

lemma sampleContext_simps [simp]: "cxTenantId sampleContext = ''ten_1''" "cxStoreId sampleContext = ''sto_1''" "cxRole sampleContext = OWNER"
  by (simp_all add: sampleContext_def)

lemma sampleWrite_read:
  "\<exists>rows. readAuthoritative (ordersEnv sampleWritesEnv) 0 0 sampleContext s ''42'' (sampleWritesDb\<lparr>tgOrders := []\<rparr>)
    = (Inr (JObj sampleOrder), sampleWritesDb\<lparr>tgOrders := rows\<rparr>)"
proof -
  obtain p where p: "mapWooCommerceOrder (\<lambda>t. t) (JObj sampleOrder) = Inr p" "wcOrderId p = ''42''"
    using sampleOrder_maps by blast
  have "applyProjection demoEnv 0 s p True Clear [] = (Inr Apply, [newOrderRow s p ''a'' (clock demoEnv 0 1)])"
    by (rule applyProjection_None) (simp_all add: findOrder_def findFirst_def createOrder_Inr)
  with p sampleTenant_active show ?thesis
    by (auto simp: readAuthoritative_def reconcilePayload_def reconcileAuthoritativeOrder_def)
qed

lemma sampleButton_simps:
  "rfExpiresAt sampleButton = 900000" "referenceMatchesContext sampleButton sampleContext"
  "referenceTarget (Some sampleButton) = Some (sampleButton, ''42'', ''tcr_1'')"
  "rfAllowedTargetStatuses sampleButton = [''completed'']"
  by (simp_all add: sampleButton_def writeReference_def contextReference_def referenceMatchesContext_def referenceTarget_def)


lemma sampleWrite_reaches:
  "\<exists>s. statusRequest (statusWriteId sampleWritesEnv) (rfId sampleButton) s ''42'' ''completed''
    \<in> sentBy (statusWriteId sampleWritesEnv)
        (snd (updateStatus sampleWritesEnv sampleIdentity sampleButtonToken ''completed'' sampleWritesDb))"
proof -
  let ?env = sampleWritesEnv and ?order = "sampleNotifiedOrder\<lparr>wcOrderId := ''42''\<rparr>"
  have order: "findContextOrder sampleWritesDb sampleContext ''42'' = Some ?order"
    by (simp add: findContextOrder_def findFirst_def orderWhere_def tenantAlive_def shopAlive_def)
      (simp add: sampleNotifiedOrder_def sampleTelegram_def)
  have "loadWritableStore sampleWritesDb sampleContext \<noteq> None"
    by (simp add: loadWritableStore_def findFirst_None policyWhere_def tenantAlive_def) (simp add: sampleTelegram_def)
  then obtain shop where shop: "loadWritableStore sampleWritesDb sampleContext = Some shop" by blast
  obtain rows where read: "readAuthoritative (ordersEnv ?env) 0 0 sampleContext shop ''42'' (sampleWritesDb\<lparr>tgOrders := []\<rparr>)
      = (Inr (JObj sampleOrder), sampleWritesDb\<lparr>tgOrders := rows\<rparr>)" using sampleWrite_read by blast
  have live: "readMappedStatus (ordersEnv ?env) (JObj sampleOrder) ''42'' = Some ''processing''"
    using sampleOrder_maps [of "\<lambda>t. t"] by (auto simp: readMappedStatus_def)
  define db2 where "db2 = sampleWritesDb\<lparr>tgOrders := rows, tgReferences := [sampleButton\<lparr>rfClaimedTargetStatus := Some ''completed''\<rparr>]\<rparr>"
  have claim: "claimTarget (rfId sampleButton) ''completed'' (sampleWritesDb\<lparr>tgOrders := rows\<rparr>) = (1, db2)"
    by (simp add: claimTarget_def updateMany_def claimsTarget_def db2_def)
      (simp add: sampleButton_def writeReference_def contextReference_def)
  define w where "w = newStatusWrite ?env sampleContext (rfId sampleButton) ''42'' ''completed''"
  have new: "owStatusWrites db2 = []" "swId w = statusWriteId ?env" "tgTenants (db2\<lparr>owStatusWrites := [w]\<rparr>) = tgTenants sampleTelegram"
    by (simp_all add: db2_def w_def newStatusWrite_def)
  have "statusRequest (statusWriteId ?env) (rfId sampleButton) shop ''42'' ''completed''
    \<in> sentBy (statusWriteId ?env) (snd (sendStatusWrite ?env (statusWriteId ?env) (rfId sampleButton) sampleContext shop ''42'' ''completed'' ''tcr_1'' (db2\<lparr>owStatusWrites := [w]\<rparr>)))"
    using sampleTenant_active sentBy_others [OF statusStep_lost [OF sampleWorker]]
    by (auto simp: sendStatusWrite_def Let_def sentBy_log new)
  moreover obtain t where "assertActive ''ten_1'' 0 (tgTenants sampleTelegram) = Inr t" using sampleTenant_active by blast
  moreover have "remoteDeletedAt ?order = None" by (simp add: sampleNotifiedOrder_def)
  ultimately have "statusRequest (statusWriteId ?env) (rfId sampleButton) shop ''42'' ''completed''
    \<in> sentBy (statusWriteId ?env) (snd (writeStatus ?env sampleContext (rfId sampleButton) ''42'' ''tcr_1'' ''completed'' sampleWritesDb))"
    by (simp add: writeStatus_def order shop findFirst_def read claimStatusWrite_def live claim recordStatusWrite_def new
        w_def [symmetric] CORE_STATUS_TRANSITIONS_def)
  then show ?thesis
    by (simp add: updateStatus_def sampleWrites_context sampleButton_found sampleButton_simps) blast
qed

theorem status_written_once_witness:
  "distinct (map ssReferenceId (owStatusSent
     (snd (updateStatus sampleWritesEnv sampleIdentity sampleButtonToken ''completed'' sampleWritesDb))))
   \<and> owStatusSent (snd (updateStatus sampleWritesEnv sampleIdentity sampleButtonToken ''completed'' sampleWritesDb)) \<noteq> []"
proof -
  obtain res db' where run: "updateStatus sampleWritesEnv sampleIdentity sampleButtonToken ''completed'' sampleWritesDb = (res, db')"
    by force
  have "owStatusSent db' \<noteq> []" using sampleWrite_reaches by (auto simp: run sentBy_def)
  with status_written_once [OF sampleWorker sampleWrites_ok _ run] show ?thesis by (simp add: run)
qed

theorem status_put_authorised_witness:
  "\<exists>cx ref. statusReference sampleWritesEnv sampleWritesDb sampleButtonToken = Some ref \<and> cxRole cx \<noteq> MEMBER
     \<and> resolveContext sampleWritesDb sampleIdentity = ContextOk cx \<and> ''completed'' \<in> set (rfAllowedTargetStatuses ref)"
proof -
  obtain res db' where run: "updateStatus sampleWritesEnv sampleIdentity sampleButtonToken ''completed'' sampleWritesDb = (res, db')"
    by force
  obtain e where "e \<in> set (owStatusSent db')" "ssWriteId e = statusWriteId sampleWritesEnv"
    using sampleWrite_reaches by (auto simp: run sentBy_def)
  from status_put_authorised [OF sampleWorker sampleWrites_ok _ run this] show ?thesis by auto
qed

end
