(* ===== verification/NoteWrites.thy ===== *)
theory NoteWrites
  imports OrderNotes StatusWrites
begin

text \<open>
  A confirmed note is posted at most once, and as it was confirmed: the actions and posts of \<open>confirmNote\<close>
  form a ledger (\<open>WriteLedger\<close>) under any interleaving of workers.
\<close>

section \<open>The ledger\<close>

definition noteRows :: "OrderWritesDb \<Rightarrow> (string \<times> string) list" where
  "noteRows db = map (\<lambda>a. (naId a, naReferenceId a)) (owNoteActions db)"

definition notesSent :: "OrderWritesDb \<Rightarrow> (string \<times> string) list" where
  "notesSent db = map (\<lambda>e. (nsActionId e, nsReferenceId e)) (owNotesSent db)"

definition noteOk :: "OrderWritesDb \<Rightarrow> bool" where
  "noteOk db \<longleftrightarrow> ledgerOk (noteRows db) (notesSent db)"

definition noteStep :: "string set \<Rightarrow> OrderWritesDb \<Rightarrow> OrderWritesDb \<Rightarrow> bool" where
  "noteStep I db db' \<longleftrightarrow> (noteOk db \<longrightarrow> noteOk db') \<and> extends I fst (noteRows db) (noteRows db')
     \<and> extends I nsActionId (owNotesSent db) (owNotesSent db')"

interpretation note_steps: owned_steps noteStep
  by unfold_locales (auto simp: noteStep_def intro: extends_trans extends_mono)

lemma note_quiet:
  assumes "noteRows db' = noteRows db" and "owNotesSent db' = owNotesSent db"
  shows "noteStep I db db'"
  using assms by (simp add: noteStep_def noteOk_def notesSent_def)

lemma noteStep_references: "noteStep I db (snd (updateReferences P f db))"
  by (rule note_quiet) (simp_all add: updateReferences_def updateMany_def noteRows_def)

lemma noteStep_clear: "noteStep I db (clearExpiredNoteBodies cx now db)"
  unfolding clearExpiredNoteBodies_def by (rule noteStep_references)

lemma noteStep_finish: "noteStep I db (finishNoteAction i st result r now db)"
  by (rule note_quiet)
    (simp_all add: finishNoteAction_def updateReferences_def updateMany_def noteRows_def comp_def if_distrib cong: if_cong)

lemma noteStep_orders: "noteStep I db (db\<lparr>tgOrders := rows\<rparr>)"
  by (rule note_quiet) (simp_all add: noteRows_def)

lemma noteStep_audit: "noteStep I db (db\<lparr>owAudit := rows\<rparr>)"
  by (rule note_quiet) (simp_all add: noteRows_def)

lemma noteStep_read: "readAuthoritative env n now cx s wcId db = (x, db') \<Longrightarrow> noteStep I db db'"
  using readAuthoritative_db [of env n now cx s wcId db] noteStep_orders by auto

lemma note_keeps:
  assumes "noteStep I a b"
  shows "noteOk a \<Longrightarrow> noteOk b" and "i \<notin> I \<Longrightarrow> i \<notin> fst ` set (noteRows a) \<Longrightarrow> i \<notin> fst ` set (noteRows b)"
    and "p \<in> set (noteRows a) \<Longrightarrow> p \<in> set (noteRows b)"
    and "i \<notin> I \<Longrightarrow> i \<notin> nsActionId ` set (owNotesSent a) \<Longrightarrow> i \<notin> nsActionId ` set (owNotesSent b)"
proof -
  have step: "noteOk a \<longrightarrow> noteOk b" "extends I fst (noteRows a) (noteRows b)"
    "extends I nsActionId (owNotesSent a) (owNotesSent b)"
    using assms by (simp_all add: noteStep_def)
  show "noteOk a \<Longrightarrow> noteOk b" using step(1) by blast
  show "i \<notin> I \<Longrightarrow> i \<notin> fst ` set (noteRows a) \<Longrightarrow> i \<notin> fst ` set (noteRows b)" by (rule extends_fresh [OF step(2)])
  show "p \<in> set (noteRows a) \<Longrightarrow> p \<in> set (noteRows b)" by (rule extends_keeps [OF step(2)])
  show "i \<notin> I \<Longrightarrow> i \<notin> nsActionId ` set (owNotesSent a) \<Longrightarrow> i \<notin> nsActionId ` set (owNotesSent b)"
    by (rule extends_fresh [OF step(3)])
qed

section \<open>The statements\<close>

definition noteWorker :: "string set \<Rightarrow> WritesEnv \<Rightarrow> bool" where
  "noteWorker I env \<longleftrightarrow> (\<forall>n db. noteStep I db (weBetween env n db)) \<and> noteActionId env \<notin> I"

lemma noteWorkerD: "noteWorker I env \<Longrightarrow> noteStep I db (weBetween env n db)"
  by (simp add: noteWorker_def)

lemma noteStep_own: "noteStep I a b \<Longrightarrow> noteStep (insert i I) a b"
  by (rule note_steps.mono [OF _ subset_insertI])

lemma noteStep_finishing: "noteWorker I env \<Longrightarrow> noteStep I db (finishNoteAction i st result r now (weBetween env n db))"
  by (rule note_steps.trans [OF noteWorkerD noteStep_finish])

lemma noteStep_complete: "noteWorker I env \<Longrightarrow> noteStep I db (snd (completeNoteAction env i st result r db))"
  by (simp add: completeNoteAction_def noteStep_finishing)

lemma noteStep_replay: "noteWorker I env \<Longrightarrow> noteStep I db (snd (noteActionReplay env r db))"
  by (simp add: noteActionReplay_def Let_def note_steps.refl noteStep_complete split: option.split)

lemma noteStep_replayOr: "noteWorker I env \<Longrightarrow> noteStep I db (snd (replayOr env r result db))"
  using noteStep_replay [of I env db r] by (auto simp: replayOr_def split: prod.split option.split)

lemma noteStep_postFailed: "noteWorker I env \<Longrightarrow> noteStep I db (snd (postFailed env i p e db))"
  by (simp add: postFailed_def noteStep_complete)

lemma noteStep_log:
  assumes "(i, poReferenceId p) \<in> set (noteRows db)" and "i \<notin> nsActionId ` set (owNotesSent db)"
  shows "noteStep (insert i I) db (logNoteSent i p db)"
proof -
  have "i \<notin> fst ` set (notesSent db)" using assms(2) by (auto simp: notesSent_def)
  moreover have "noteRows (logNoteSent i p db) = noteRows db" "notesSent (logNoteSent i p db) = notesSent db @ [(i, poReferenceId p)]"
    by (simp_all add: noteRows_def notesSent_def logNoteSent_def)
  ultimately show ?thesis
    using assms(1) ledger_send by (auto simp: noteStep_def noteOk_def) (simp add: logNoteSent_def extends_snoc)
qed

lemma noteStep_post:
  assumes "noteWorker I env" and "(i, poReferenceId p) \<in> set (noteRows db)" and "i \<notin> nsActionId ` set (owNotesSent db)"
  shows "noteStep (insert i I) db (snd (postNote env cx i p db))"
proof -
  let ?J = "insert i I" and ?sent = "logNoteSent i p db"
  note sent = note_steps.trans [OF noteStep_log [OF assms(2,3)] noteStep_own]
  have "noteStep ?J db ((finishNoteAction i st result r now (weBetween env n ?sent))\<lparr>owAudit := rows\<rparr>)" for st result r now n rows
    by (rule sent [OF note_steps.trans [OF noteStep_finishing [OF assms(1)] noteStep_audit]])
  moreover have "noteStep ?J db (snd (postFailed env i p e (weBetween env n ?sent)))" for e n
    by (rule sent [OF note_steps.trans [OF noteWorkerD [OF assms(1)] noteStep_postFailed [OF assms(1)]]])
  moreover have "noteStep ?J db (snd (postFailed env i p e ?sent))"
    "noteStep ?J db (snd (completeNoteAction env i st result r ?sent))" for e st result r
    by (rule sent [OF noteStep_postFailed [OF assms(1)]], rule sent [OF noteStep_complete [OF assms(1)]])
  moreover have "noteStep ?J db (snd (postFailed env i p e db))" for e
    by (rule noteStep_own [OF noteStep_postFailed [OF assms(1)]])
  ultimately show ?thesis by (simp add: postNote_def Let_def split: sum.split)
qed

lemma noteStep_claim:
  assumes "claimNote env cx r wcId v print db = (oc, db')" and "noteActionId env \<notin> fst ` set (noteRows db)"
  shows "noteStep {noteActionId env} db db'"
    and "oc = NoteClaimed \<Longrightarrow> (noteActionId env, r) \<in> set (noteRows db') \<and> owNotesSent db' = owNotesSent db"
proof -
  obtain n db1 where upd: "updateReferences (confirmWhere r (teClock env 4)) (\<lambda>r. r\<lparr>rfNoteClaimedAt := Some (teClock env 4)\<rparr>) db = (n, db1)"
    by force
  then have same: "owNoteActions db1 = owNoteActions db" "owNotesSent db1 = owNotesSent db"
    by (auto simp: updateReferences_def split: prod.splits)
  have cases: "db' = db \<and> oc \<noteq> NoteClaimed \<or> findFirst (\<lambda>a. naReferenceId a = r) (owNoteActions db) = None
      \<and> noteRows db' = noteRows db @ [(noteActionId env, r)] \<and> owNotesSent db' = owNotesSent db"
    using assms(1) upd same by (auto simp: claimNote_def noteRows_def newNoteAction_def split: if_splits)
  then show "noteStep {noteActionId env} db db'"
  proof
    assume "db' = db \<and> oc \<noteq> NoteClaimed"
    then show ?thesis by (simp add: note_steps.refl)
  next
    assume new: "findFirst (\<lambda>a. naReferenceId a = r) (owNoteActions db) = None
      \<and> noteRows db' = noteRows db @ [(noteActionId env, r)] \<and> owNotesSent db' = owNotesSent db"
    then have "r \<notin> snd ` set (noteRows db)" by (auto simp: findFirst_None noteRows_def)
    with new ledger_record [OF _ assms(2)] show ?thesis
      by (simp add: noteStep_def noteOk_def notesSent_def extends_snoc)
  qed
  show "oc = NoteClaimed \<Longrightarrow> (noteActionId env, r) \<in> set (noteRows db') \<and> owNotesSent db' = owNotesSent db"
    using cases by auto
qed


lemma noteStep_claimAndPost:
  assumes "noteWorker I env" and "noteOk db" and "noteActionId env \<notin> fst ` set (noteRows db)"
  shows "noteStep (insert (noteActionId env) I) db (snd (claimAndPost env cx print p db))"
proof -
  let ?i = "noteActionId env"
  obtain oc db1 where claim: "claimNote env cx (poReferenceId p) (poWcOrderId p) (poVisibility p) print db = (oc, db1)"
    by force
  note c = noteStep_claim [OF claim assms(3)]
  have 1: "noteStep (insert ?i I) db db1" by (rule note_steps.mono [OF c(1)]) blast
  have i: "?i \<notin> I" using assms(1) by (simp add: noteWorker_def)
  have replay: "noteStep (insert ?i I) db (snd (replayOr env r result (weBetween env 7 db1)))" for r result
    by (rule note_steps.trans [OF 1 noteStep_own [OF note_steps.trans [OF noteWorkerD [OF assms(1)] noteStep_replayOr [OF assms(1)]]]])
  have post: "noteStep (insert ?i I) db (snd (postNote env cx ?i p (weBetween env 8 db1)))" if "oc = NoteClaimed"
  proof (rule note_steps.trans [OF 1 note_steps.trans [OF noteStep_own [OF noteWorkerD [OF assms(1)]] noteStep_post [OF assms(1)]]])
    show "(?i, poReferenceId p) \<in> set (noteRows (weBetween env 8 db1))"
      by (rule note_keeps(3) [OF noteWorkerD [OF assms(1)]]) (use c(2) [OF that] in simp)
    have "?i \<notin> nsActionId ` set (owNotesSent db)"
      using assms(2,3) ledger_sent_id [of "noteRows db" "notesSent db" ?i]
      by (simp add: noteOk_def) (simp add: notesSent_def image_image)
    then show "?i \<notin> nsActionId ` set (owNotesSent (weBetween env 8 db1))"
      by (intro note_keeps(4) [OF noteWorkerD [OF assms(1)] i]) (use c(2) [OF that] in simp)
  qed
  show ?thesis by (cases oc) (simp_all add: claimAndPost_def claim 1 replay post)
qed

lemma noteStep_body:
  assumes "noteWorker I env" and "noteOk db" and "noteActionId env \<notin> fst ` set (noteRows db)"
  shows "noteStep (insert (noteActionId env) I) db (snd (confirmBody env cx ref parts body db))"
proof -
  have i: "noteActionId env \<notin> I" using assms(1) by (simp add: noteWorker_def)
  have read: "noteStep I db db'" if "readAuthoritative en n now cx s w (weBetween env m db) = (x, db')" for en n now s w x db' m
    by (rule note_steps.trans [OF noteWorkerD [OF assms(1)] noteStep_read [OF that]])
  have claim: "noteStep (insert (noteActionId env) I) db (snd (claimAndPost env cx print p (weBetween env n db')))"
    if "noteStep I db db'" for print p n db'
  proof -
    have 2: "noteStep I db (weBetween env n db')" by (rule note_steps.trans [OF that noteWorkerD [OF assms(1)]])
    show ?thesis
      by (rule note_steps.trans [OF noteStep_own [OF 2] noteStep_claimAndPost [OF assms(1) note_keeps(1) [OF 2 assms(2)]
            note_keeps(2) [OF 2 i assms(3)]]])
  qed
  show ?thesis
    by (auto simp: confirmBody_def note_steps.refl intro: read noteStep_own claim split: prod.split sum.split option.split)
qed

lemma noteStep_confirm:
  assumes "noteWorker I env" and "noteOk db" and "noteActionId env \<notin> fst ` set (noteRows db)"
  shows "noteStep (insert (noteActionId env) I) db (snd (confirmNote env identity token db))"
proof -
  let ?J = "insert (noteActionId env) I"
  have i: "noteActionId env \<notin> I" using assms(1) by (simp add: noteWorker_def)
  have start: "noteStep I db (weBetween env 1 (clearExpiredNoteBodies cx now (weBetween env 0 db)))" for cx now
    by (rule note_steps.trans [OF note_steps.trans [OF noteWorkerD [OF assms(1)] noteStep_clear] noteWorkerD [OF assms(1)]])
  have body: "noteStep ?J db (snd (confirmBody env cx ref parts b (weBetween env 3 db1)))" if "noteStep I db db1"
    for cx ref parts b db1
  proof -
    have 2: "noteStep I db (weBetween env 3 db1)" by (rule note_steps.trans [OF that noteWorkerD [OF assms(1)]])
    show ?thesis
      by (rule note_steps.trans [OF noteStep_own [OF 2] noteStep_body [OF assms(1) note_keeps(1) [OF 2 assms(2)]
            note_keeps(2) [OF 2 i assms(3)]]])
  qed
  have "noteStep ?J db (snd (confirmReference env cx ref db2))" if "noteStep I db db2" for cx ref db2
  proof -
    obtain x db1 where replay: "noteActionReplay env (rfId ref) (weBetween env 2 db2) = (x, db1)" by force
    have 1: "noteStep I db db1"
      using note_steps.trans [OF that note_steps.trans [OF noteWorkerD [OF assms(1)] noteStep_replay [OF assms(1)]]] replay
      by (metis snd_conv)
    show ?thesis
      by (auto simp: confirmReference_def replay noteStep_own [OF that] noteStep_own [OF 1] body [OF 1] split: option.split)
  qed
  with start noteStep_own [OF start] show ?thesis
    by (auto simp: confirmNote_def Let_def note_steps.refl simp del: One_nat_def split: ContextResolution.split option.split)
qed


section \<open>What is posted\<close>

definition postedBy :: "string \<Rightarrow> OrderWritesDb \<Rightarrow> NoteSent set" where
  "postedBy i db = {e \<in> set (owNotesSent db). nsActionId e = i}"

definition notePosted :: "string \<Rightarrow> NotePost \<Rightarrow> NoteSent" where
  "notePosted i p = \<lparr>nsActionId = i, nsReferenceId = poReferenceId p, nsStoreId = storeId (poStore p),
     nsWcOrderId = poWcOrderId p, nsNote = poNote p, nsCustomerNote = (poVisibility p = CUSTOMER)\<rparr>"

lemma postedBy_others: "noteStep I a b \<Longrightarrow> i \<notin> I \<Longrightarrow> postedBy i b = postedBy i a"
  by (auto simp: noteStep_def postedBy_def extends_def)

lemma postedBy_between: "noteWorker I env \<Longrightarrow> postedBy (noteActionId env) (weBetween env n db) = postedBy (noteActionId env) db"
  by (rule postedBy_others) (auto simp: noteWorker_def)

lemma postedBy_audit [simp]: "postedBy i (db\<lparr>owAudit := rows\<rparr>) = postedBy i db"
  by (simp add: postedBy_def)

lemma postedBy_log: "postedBy i (logNoteSent i p db) = insert (notePosted i p) (postedBy i db)"
  by (auto simp: postedBy_def logNoteSent_def notePosted_def)

lemma postedBy_post:
  assumes "noteWorker I env"
  shows "postedBy (noteActionId env) (snd (postNote env cx (noteActionId env) p db))
    \<subseteq> insert (notePosted (noteActionId env) p) (postedBy (noteActionId env) db)"
proof -
  have i: "noteActionId env \<notin> I" using assms by (simp add: noteWorker_def)
  note step = postedBy_others [OF _ i]
  show ?thesis
    by (auto simp: postNote_def Let_def postedBy_log step [OF noteStep_postFailed [OF assms]]
        step [OF noteStep_complete [OF assms]] step [OF noteStep_finishing [OF assms]] postedBy_between [OF assms] split: sum.split)
qed

lemma postedBy_claimAndPost:
  assumes "noteWorker I env" and "noteActionId env \<notin> fst ` set (noteRows db)"
  shows "postedBy (noteActionId env) (snd (claimAndPost env cx print p db))
    \<subseteq> insert (notePosted (noteActionId env) p) (postedBy (noteActionId env) db)"
proof -
  let ?i = "noteActionId env"
  have i: "?i \<notin> I" using assms(1) by (simp add: noteWorker_def)
  note step = postedBy_others [OF _ i]
  obtain oc db1 where claim: "claimNote env cx (poReferenceId p) (poWcOrderId p) (poVisibility p) print db = (oc, db1)"
    by force
  have same: "postedBy ?i db1 = postedBy ?i db"
    using claim by (auto simp: claimNote_def updateReferences_def postedBy_def split: if_splits prod.splits)
  show ?thesis
    using postedBy_post [OF assms(1), of cx p "weBetween env 8 db1"]
    by (cases oc) (auto simp: claimAndPost_def claim same step [OF noteStep_replayOr [OF assms(1)]] postedBy_between [OF assms(1)])
qed

definition confirmedPost :: "WritesEnv \<Rightarrow> TelegramOrderContext \<Rightarrow> ReferenceRow \<Rightarrow> NotePost \<Rightarrow> bool" where
  "confirmedPost env cx ref p \<longleftrightarrow> poReferenceId p = rfId ref \<and> storeId (poStore p) = cxStoreId cx
     \<and> rfTargetWcOrderId ref = Some (poWcOrderId p) \<and> rfNoteVisibility ref = Some (poVisibility p)
     \<and> Option.bind (rfNoteBodyEncrypted ref) (weDecrypt env) = Some (poNote p)
     \<and> rfNoteContentFingerprint ref = Some (weNoteHmac env (poNote p))"

lemma confirmParts_Some:
  "confirmParts ref = Some (wcId, detail, v, print) \<Longrightarrow>
     rfTargetWcOrderId ref = Some wcId \<and> rfNoteVisibility ref = Some v \<and> rfNoteContentFingerprint ref = Some print"
  by (auto simp: confirmParts_def referenceTarget_def split: option.splits if_splits)

lemma postedBy_body:
  assumes "noteWorker I env" and "noteActionId env \<notin> fst ` set (noteRows db)" and "postedBy (noteActionId env) db = {}"
    and parts: "confirmParts ref = Some parts" and body: "rfNoteBodyEncrypted ref = Some body"
    and "e \<in> postedBy (noteActionId env) (snd (confirmBody env cx ref parts body db))"
  shows "\<exists>p. e = notePosted (noteActionId env) p \<and> confirmedPost env cx ref p"
proof -
  let ?i = "noteActionId env"
  have i: "?i \<notin> I" using assms(1) by (simp add: noteWorker_def)
  obtain wcId detail v print where p: "parts = (wcId, detail, v, print)" by (cases parts)
  have post: "e = notePosted ?i p"
    if "readAuthoritative en n now cx s w (weBetween env 5 db) = (x, db1)"
      and "e \<in> postedBy ?i (snd (claimAndPost env cx print p (weBetween env 6 db1)))" for en n now s w x db1 p
  proof -
    have 1: "noteStep I db db1" by (rule note_steps.trans [OF noteWorkerD [OF assms(1)] noteStep_read [OF that(1)]])
    have 2: "noteStep I db (weBetween env 6 db1)" by (rule note_steps.trans [OF 1 noteWorkerD [OF assms(1)]])
    have "postedBy ?i (weBetween env 6 db1) = {}" using postedBy_others [OF 2 i] assms(3) by simp
    with postedBy_claimAndPost [OF assms(1) note_keeps(2) [OF 2 i assms(2)]] that(2) show ?thesis by blast
  qed
  have none: "postedBy ?i db1 = {}" if "readAuthoritative en n now cx s w (weBetween env 5 db) = (x, db1)" for en n now s w x db1
    using postedBy_others [OF noteStep_read [OF that] i] postedBy_between [OF assms(1)] assms(3) by simp
  have "\<exists>s number note x db1. loadWritableStore db cx = Some s \<and> weDecrypt env body = Some note \<and> weNoteHmac env note = print
     \<and> readAuthoritative (ordersEnv env) 0 (teClock env 3) cx s wcId (weBetween env 5 db) = (x, db1)
     \<and> e \<in> postedBy ?i (snd (claimAndPost env cx print \<lparr>poReferenceId = rfId ref, poStore = s, poWcOrderId = wcId,
          poDetailRef = writesToken env (CHR ''d'') detail, poVisibility = v, poNote = note,
          poOrderNumber = number\<rparr> (weBetween env 6 db1)))"
    using assms(3,6) none unfolding p confirmBody_def prod.case
    by (auto split: sum.splits option.splits if_splits prod.splits)
  then obtain s number plain x db1 where s: "loadWritableStore db cx = Some s" "weDecrypt env body = Some plain"
      "weNoteHmac env plain = print" "readAuthoritative (ordersEnv env) 0 (teClock env 3) cx s wcId (weBetween env 5 db) = (x, db1)"
      "e \<in> postedBy ?i (snd (claimAndPost env cx print \<lparr>poReferenceId = rfId ref, poStore = s, poWcOrderId = wcId,
          poDetailRef = writesToken env (CHR ''d'') detail, poVisibility = v, poNote = plain,
          poOrderNumber = number\<rparr> (weBetween env 6 db1)))" by blast
  from post [OF s(4,5)] confirmParts_Some [OF parts [unfolded p]] s(1-3) body show ?thesis
    by (auto simp: confirmedPost_def loadWritableStore_id intro!: exI)
qed


lemma postedBy_replay:
  "noteWorker I env \<Longrightarrow> postedBy (noteActionId env) (snd (noteActionReplay env r db)) = postedBy (noteActionId env) db"
  by (rule postedBy_others [OF noteStep_replay]) (auto simp: noteWorker_def)

lemma postedBy_confirmReference:
  assumes "noteWorker I env" and "noteActionId env \<notin> fst ` set (noteRows db)" and "postedBy (noteActionId env) db = {}"
    and "e \<in> postedBy (noteActionId env) (snd (confirmReference env cx ref db))"
  shows "teClock env 1 < rfExpiresAt ref \<and> (\<exists>p. e = notePosted (noteActionId env) p \<and> confirmedPost env cx ref p)"
proof -
  let ?i = "noteActionId env"
  have i: "?i \<notin> I" using assms(1) by (simp add: noteWorker_def)
  obtain x db1 where replay: "noteActionReplay env (rfId ref) (weBetween env 2 db) = (x, db1)" by force
  have 1: "noteStep I db db1"
    using note_steps.trans [OF noteWorkerD [OF assms(1)] noteStep_replay [OF assms(1)]] replay by (metis snd_conv)
  have 2: "noteStep I db (weBetween env 3 db1)" by (rule note_steps.trans [OF 1 noteWorkerD [OF assms(1)]])
  have none: "postedBy ?i db1 = {}" "postedBy ?i (weBetween env 3 db1) = {}"
    using postedBy_others [OF 1 i] postedBy_others [OF 2 i] assms(3) by simp_all
  have "\<exists>parts body. confirmParts ref = Some parts \<and> teClock env 1 < rfExpiresAt ref \<and> rfNoteBodyEncrypted ref = Some body
     \<and> e \<in> postedBy ?i (snd (confirmBody env cx ref parts body (weBetween env 3 db1)))"
    using assms(3,4) none by (auto simp: confirmReference_def replay split: option.splits if_splits)
  then obtain parts body where "confirmParts ref = Some parts" "teClock env 1 < rfExpiresAt ref" "rfNoteBodyEncrypted ref = Some body"
     "e \<in> postedBy ?i (snd (confirmBody env cx ref parts body (weBetween env 3 db1)))" by blast
  with postedBy_body [OF assms(1) note_keeps(2) [OF 2 i assms(2)] none(2)] show ?thesis by blast
qed

text \<open>The database when the handler looks for the reference.\<close>

definition noteSeen :: "WritesEnv \<Rightarrow> TelegramOrderContext \<Rightarrow> OrderWritesDb \<Rightarrow> OrderWritesDb" where
  "noteSeen env cx db = weBetween env 1 (clearExpiredNoteBodies cx (teClock env 0) (weBetween env 0 db))"

text \<open>
  C33: however the workers interleave, a confirmed note is posted at most once, under an action recorded before
  it, only for an account that is not a plain member, from a signed, unexpired confirm button of this chat and
  store; and what is posted is the decrypted text of that button, checked against its fingerprint, with the
  visibility chosen for it.
\<close>

theorem note_posted_once:
  assumes "noteWorker I env" and "noteOk db" and "noteActionId env \<notin> naId ` set (owNoteActions db)"
    and "confirmNote env identity token db = (result, db')"
  shows "distinct (map nsReferenceId (owNotesSent db')) \<and> noteOk db' \<and> noteStep (insert (noteActionId env) I) db db'
    \<and> (\<forall>e \<in> set (owNotesSent db'). nsActionId e = noteActionId env \<longrightarrow>
         (\<exists>cx ref p. resolveContext db identity = ContextOk cx \<and> cxRole cx \<noteq> MEMBER
            \<and> writeReferenceOf env (CHR ''c'') (noteSeen env cx db) token = Some ref \<and> rfPurpose ref = NOTE_CONFIRM
            \<and> referenceMatchesContext ref cx \<and> teClock env 1 < rfExpiresAt ref
            \<and> confirmedPost env cx ref p \<and> e = notePosted (noteActionId env) p))"
proof -
  let ?i = "noteActionId env"
  have fresh: "?i \<notin> fst ` set (noteRows db)" using assms(3) by (auto simp: noteRows_def)
  have i: "?i \<notin> I" using assms(1) by (simp add: noteWorker_def)
  have step: "noteStep (insert ?i I) db db'"
    using noteStep_confirm [OF assms(1,2) fresh, of identity token] assms(4) by simp
  then have ok: "noteOk db'" using assms(2) by (rule note_keeps(1))
  have "distinct (map nsReferenceId (owNotesSent db'))"
    using ledger_once [of "noteRows db'" "notesSent db'"] ok by (simp add: noteOk_def notesSent_def comp_def)
  moreover have "\<exists>cx ref p. resolveContext db identity = ContextOk cx \<and> cxRole cx \<noteq> MEMBER
            \<and> writeReferenceOf env (CHR ''c'') (noteSeen env cx db) token = Some ref \<and> rfPurpose ref = NOTE_CONFIRM
            \<and> referenceMatchesContext ref cx \<and> teClock env 1 < rfExpiresAt ref
            \<and> confirmedPost env cx ref p \<and> e = notePosted ?i p"
    if "e \<in> set (owNotesSent db')" "nsActionId e = ?i" for e
  proof -
    have 1: "noteStep I db (noteSeen env cx db)" for cx
      unfolding noteSeen_def
      by (rule note_steps.trans [OF note_steps.trans [OF noteWorkerD [OF assms(1)] noteStep_clear] noteWorkerD [OF assms(1)]])
    have "?i \<notin> nsActionId ` set (owNotesSent db)"
      using assms(2) fresh ledger_sent_id [of "noteRows db" "notesSent db" ?i]
      by (simp add: noteOk_def) (simp add: notesSent_def image_image)
    then have "postedBy ?i db = {}" by (force simp: postedBy_def)
    with postedBy_others [OF 1 i] have none: "postedBy ?i db = {}" "postedBy ?i (noteSeen env cx db) = {}" for cx by blast+
    have "e \<in> postedBy ?i (snd (confirmNote env identity token db))" using that assms(4) by (simp add: postedBy_def)
    then have "\<exists>cx ref. resolveContext db identity = ContextOk cx \<and> cxRole cx \<noteq> MEMBER
        \<and> writeReferenceOf env (CHR ''c'') (noteSeen env cx db) token = Some ref \<and> rfPurpose ref = NOTE_CONFIRM
        \<and> referenceMatchesContext ref cx \<and> e \<in> postedBy ?i (snd (confirmReference env cx ref (noteSeen env cx db)))"
      using none by (auto simp: confirmNote_def Let_def noteSeen_def simp del: One_nat_def split: ContextResolution.splits option.splits if_splits)
    then show ?thesis using postedBy_confirmReference [OF assms(1) note_keeps(2) [OF 1 i fresh] none(2)] by blast
  qed
  ultimately show ?thesis using step ok by simp
qed


section \<open>A sample run\<close>

definition sampleConfirm :: ReferenceRow where
  "sampleConfirm = withBody ''Hi'' ''Hi''
     (noteInputReference sampleContext ''42'' ''tcr_1'' CUSTOMER (replicate 16 (CHR ''A'')) 900000)"

definition sampleNotesEnv :: WritesEnv where
  "sampleNotesEnv = sampleWritesEnv\<lparr>weBetween := (\<lambda>n db. if n = 5 then db\<lparr>tgOrders := []\<rparr> else db)\<rparr>"

definition sampleNotesDb :: OrderWritesDb where
  "sampleNotesDb = sampleWritesDb\<lparr>tgReferences := [sampleConfirm]\<rparr>"

lemma sampleNotesEnv_simps [simp]:
  "teClock sampleNotesEnv n = 0" "weBetween sampleNotesEnv n db = (if n = 5 then db\<lparr>tgOrders := []\<rparr> else db)"
  "ordersEnv sampleNotesEnv = ordersEnv sampleWritesEnv" "weDecrypt sampleNotesEnv = Some" "weNoteHmac sampleNotesEnv = (\<lambda>t. t)"
  "weCreateNote sampleNotesEnv s i t b = Inl (ClientError Timeout)" "\<not> weClaimFault sampleNotesEnv"
  "teMac sampleNotesEnv = (\<lambda>v. replicate 32 7)"
  by (simp_all add: sampleNotesEnv_def sampleWritesEnv_def ordersEnv_def OrdersEnv.truncate_def)

lemma sampleConfirm_simps [simp]:
  "rfId sampleConfirm = rfId sampleButton" "rfPurpose sampleConfirm = NOTE_CONFIRM" "rfExpiresAt sampleConfirm = 900000"
  "referenceMatchesContext sampleConfirm sampleContext" "rfNoteBodyEncrypted sampleConfirm = Some ''Hi''"
  "confirmParts sampleConfirm = Some (''42'', ''tcr_1'', CUSTOMER, ''Hi'')" "rfNoteClaimedAt sampleConfirm = None"
  by (simp_all add: sampleConfirm_def sampleButton_def withBody_def noteInputReference_def writeReference_def
      contextReference_def referenceMatchesContext_def confirmParts_def referenceTarget_def)

lemma sampleNotes_worker: "noteWorker {} sampleNotesEnv"
  by (auto simp: noteWorker_def note_steps.refl noteStep_orders)

lemma sampleNotes_ok: "noteOk sampleNotesDb"
  by (simp add: noteOk_def ledgerOk_def noteRows_def notesSent_def sampleNotesDb_def)

lemma sampleConfirm_found:
  "writeReferenceOf sampleNotesEnv (CHR ''c'') sampleNotesDb (tokenForReferenceId (\<lambda>v. replicate 32 7) (CHR ''c'') (rfId sampleButton))
    = Some sampleConfirm"
proof -
  have "goodMac (\<lambda>v. replicate 32 7)" by (simp add: goodMac_def list_all_iff)
  moreover have "shortIdPattern (replicate 16 (CHR ''A''))" by code_simp
  ultimately have "parseAndVerifyToken (\<lambda>v. replicate 32 7) (tokenForReferenceId (\<lambda>v. replicate 32 7) (CHR ''c'') (rfId sampleButton)) (CHR ''c'')
      = Some (rfId sampleButton)"
    unfolding sampleButton_def writeReference_def contextReference_def ReferenceRow.simps
    by (intro order_tokens.accepts) simp_all
  then show ?thesis by (simp add: writeReferenceOf_def findReference_def findFirst_def sampleNotesDb_def)
qed

lemma sampleNote_reaches:
  "owNotesSent (snd (confirmNote sampleNotesEnv sampleIdentity (tokenForReferenceId (\<lambda>v. replicate 32 7) (CHR ''c'') (rfId sampleButton)) sampleNotesDb)) \<noteq> []"
proof -
  let ?env = sampleNotesEnv and ?order = "sampleNotifiedOrder\<lparr>wcOrderId := ''42''\<rparr>"
  have cx: "resolveContext sampleNotesDb sampleIdentity = ContextOk sampleContext"
    by (simp add: sampleNotesDb_def resolveContext_def resolveMembership_def sampleTelegram_def sampleIdentity_def
        sampleContext_def findFirst_def findMany_def membershipWhere_def activeShopWhere_def activeChat_def tenantAlive_def)
  have clear: "clearExpiredNoteBodies sampleContext 0 sampleNotesDb = sampleNotesDb"
    by (simp add: clearExpiredNoteBodies_def updateReferences_def updateMany_def expiredBody_def sampleNotesDb_def)
  have order: "findContextOrder sampleNotesDb sampleContext ''42'' = Some ?order"
    by (simp add: sampleNotesDb_def findContextOrder_def findFirst_def orderWhere_def tenantAlive_def shopAlive_def)
      (simp add: sampleNotifiedOrder_def sampleTelegram_def)
  have "loadWritableStore sampleNotesDb sampleContext \<noteq> None"
    by (simp add: sampleNotesDb_def loadWritableStore_def findFirst_None policyWhere_def tenantAlive_def) (simp add: sampleTelegram_def)
  then obtain shop where shop: "loadWritableStore sampleNotesDb sampleContext = Some shop" by blast
  obtain t where active: "assertActive ''ten_1'' 0 (tgTenants sampleTelegram) = Inr t" using sampleTenant_active by blast
  obtain rows where read: "readAuthoritative (ordersEnv sampleWritesEnv) 0 0 sampleContext shop ''42'' (sampleNotesDb\<lparr>tgOrders := []\<rparr>)
      = (Inr (JObj sampleOrder), sampleNotesDb\<lparr>tgOrders := rows\<rparr>)"
  proof -
    obtain p where p: "mapWooCommerceOrder (\<lambda>t. t) (JObj sampleOrder) = Inr p" "wcOrderId p = ''42''"
      using sampleOrder_maps by blast
    have "applyProjection demoEnv 0 shop p True Clear [] = (Inr Apply, [newOrderRow shop p ''a'' (clock demoEnv 0 1)])"
      by (rule applyProjection_None) (simp_all add: findOrder_def findFirst_def createOrder_Inr)
    with p active that show ?thesis
      by (auto simp: readAuthoritative_def reconcilePayload_def reconcileAuthoritativeOrder_def sampleNotesDb_def)
  qed
  have post: "owNotesSent (snd (postNote ?env sampleContext i p db)) \<noteq> []" if "tgTenants db = tgTenants sampleTelegram" for i p db
    using active that
    by (simp add: postNote_def Let_def postFailed_def completeNoteAction_def finishNoteAction_def updateReferences_def
        updateMany_def remoteFetchError_def logNoteSent_def)
  have "owNoteActions sampleNotesDb = []" "tgReferences sampleNotesDb = [sampleConfirm]" "tgTenants sampleNotesDb = tgTenants sampleTelegram"
    by (simp_all add: sampleNotesDb_def)
  moreover have "remoteDeletedAt ?order = None" by (simp add: sampleNotifiedOrder_def)
  ultimately show ?thesis
    by (simp add: confirmNote_def cx clear sampleConfirm_found confirmReference_def noteActionReplay_def findFirst_def
        confirmBody_def active order shop read claimAndPost_def claimNote_def updateReferences_def updateMany_def
        confirmWhere_def post)
qed

theorem note_posted_once_witness:
  "distinct (map nsReferenceId (owNotesSent (snd (confirmNote sampleNotesEnv sampleIdentity
     (tokenForReferenceId (\<lambda>v. replicate 32 7) (CHR ''c'') (rfId sampleButton)) sampleNotesDb))))"
proof -
  obtain res db' where run: "confirmNote sampleNotesEnv sampleIdentity
      (tokenForReferenceId (\<lambda>v. replicate 32 7) (CHR ''c'') (rfId sampleButton)) sampleNotesDb = (res, db')" by force
  have "noteActionId sampleNotesEnv \<notin> naId ` set (owNoteActions sampleNotesDb)" by (simp add: sampleNotesDb_def)
  from note_posted_once [OF sampleNotes_worker sampleNotes_ok this run] sampleNote_reaches show ?thesis by (simp add: run)
qed

end
