(* ===== verification/BotClient.thy ===== *)
theory BotClient
  imports Calendar
begin

text \<open>
  The bot's client of the backend (\<open>telegram-bot/src/internal-backend.client.ts\<close>): every answer of the backend is
  checked before the bot shows it. Answers and results are JSON values; a checked record is passed on as it
  came. The HTTP request itself is a parameter.
\<close>

datatype BackendError = BackendUnavailableError | MalformedBackendResponseError

type_synonym parsed = "BackendError + json"

section \<open>JSON values in JavaScript\<close>

text \<open>\<open>String(value)\<close>\<close>

fun jsText :: "json \<Rightarrow> string" where
  "jsText JNull = ''null''"
| "jsText (JBool b) = (if b then ''true'' else ''false'')"
| "jsText (JNum n) = numberToString n"
| "jsText (JStr s) = s"
| "jsText (JArr xs) = joinWith '','' (map (\<lambda>x. if x = JNull then '''' else jsText x) xs)"
| "jsText (JObj r) = ''[object Object]''"

definition textOf :: "json option \<Rightarrow> string" where
  "textOf v = (case v of None \<Rightarrow> ''undefined'' | Some j \<Rightarrow> jsText j)"

definition recordOf :: "json option \<Rightarrow> jsobject option" where
  "recordOf v = (case v of Some (JObj r) \<Rightarrow> Some r | _ \<Rightarrow> None)"

definition requireRecordOf :: "json option \<Rightarrow> BackendError + jsobject" where
  "requireRecordOf v = (case recordOf v of None \<Rightarrow> Inl MalformedBackendResponseError | Some r \<Rightarrow> Inr r)"

definition checkThat :: "bool \<Rightarrow> 'a \<Rightarrow> BackendError + 'a" where
  "checkThat b x = (if b then Inr x else Inl MalformedBackendResponseError)"

definition isText :: "json option \<Rightarrow> bool" where
  "isText v = (case v of Some (JStr s) \<Rightarrow> True | _ \<Rightarrow> False)"

definition isBool :: "json option \<Rightarrow> bool" where
  "isBool v = (case v of Some (JBool b) \<Rightarrow> True | _ \<Rightarrow> False)"

definition isNumber :: "json option \<Rightarrow> bool" where
  "isNumber v = (case v of Some (JNum n) \<Rightarrow> True | _ \<Rightarrow> False)"

definition isArrayOf :: "(json option \<Rightarrow> bool) \<Rightarrow> json option \<Rightarrow> bool" where
  "isArrayOf P v = (case v of Some (JArr xs) \<Rightarrow> list_all (\<lambda>x. P (Some x)) xs | _ \<Rightarrow> False)"

definition isOneOf :: "string list \<Rightarrow> json option \<Rightarrow> bool" where
  "isOneOf texts v = (case v of Some (JStr s) \<Rightarrow> s \<in> set texts | _ \<Rightarrow> False)"

definition nullOr :: "(json option \<Rightarrow> bool) \<Rightarrow> json option \<Rightarrow> bool" where
  "nullOr P v \<longleftrightarrow> v = Some JNull \<or> P v"

definition absentOr :: "(json option \<Rightarrow> bool) \<Rightarrow> json option \<Rightarrow> bool" where
  "absentOr P v \<longleftrightarrow> v = None \<or> P v"

definition theField :: "jsobject \<Rightarrow> string \<Rightarrow> json" where
  "theField r k = (case field r k of Some v \<Rightarrow> v | None \<Rightarrow> JNull)"

section \<open>Checks\<close>

definition isReferenceChar :: "char \<Rightarrow> bool" where
  "isReferenceChar c \<longleftrightarrow> isAlnum c \<or> c = CHR ''_'' \<or> c = CHR ''-''"

definition referenceText :: "char \<Rightarrow> string \<Rightarrow> bool" where
  "referenceText p s \<longleftrightarrow> length s = 35 \<and> s ! 0 = p \<and> s ! 1 = CHR ''.'' \<and> list_all isReferenceChar (take 16 (drop 2 s))
     \<and> s ! 18 = CHR ''.'' \<and> list_all isReferenceChar (drop 19 s)"

definition isCallbackReference :: "char \<Rightarrow> json option \<Rightarrow> bool" where
  "isCallbackReference p v = (case v of Some (JStr s) \<Rightarrow> referenceText p s \<and> length s \<le> 64 | _ \<Rightarrow> False)"

definition isNullableCallbackReference :: "json option \<Rightarrow> bool" where
  "isNullableCallbackReference = nullOr (isCallbackReference (CHR ''p''))"

definition isNullableReference :: "char \<Rightarrow> json option \<Rightarrow> bool" where
  "isNullableReference p = nullOr (isCallbackReference p)"

definition isSafeCount :: "json option \<Rightarrow> bool" where
  "isSafeCount v = (case v of Some (JNum (NInt i)) \<Rightarrow> isSafeInteger (NInt i) \<and> 0 \<le> i | _ \<Rightarrow> False)"

definition isNullableThreshold :: "json option \<Rightarrow> bool" where
  "isNullableThreshold = nullOr isSafeCount"

definition isNoteVisibility :: "json option \<Rightarrow> bool" where
  "isNoteVisibility = isOneOf [''INTERNAL'', ''CUSTOMER'']"

definition isNotificationCategory :: "json option \<Rightarrow> bool" where
  "isNotificationCategory = isOneOf [''ORDER_CREATED'', ''LOW_STOCK'']"

definition isStatusChar :: "char \<Rightarrow> bool" where
  "isStatusChar c \<longleftrightarrow> isDigit c \<or> 97 \<le> codeUnit c \<and> codeUnit c \<le> 122 \<or> c = CHR ''-''"

definition isStatusText :: "json option \<Rightarrow> bool" where
  "isStatusText v = (case v of Some (JStr s) \<Rightarrow> s \<noteq> [] \<and> length s \<le> 64 \<and> list_all isStatusChar s | _ \<Rightarrow> False)"

text \<open>
  \<open>new Date(value).toISOString() === value\<close>: the instant the fields of the text spell, printed again, is the
  text. The year has four digits, or a sign and six.
\<close>

definition spelledInstant :: "int \<Rightarrow> string \<Rightarrow> date" where
  "spelledInstant y s =
     (daysFromCivil y (numAt s 1 2) (numAt s 4 2) * 86400 + numAt s 7 2 * 3600 + numAt s 10 2 * 60 + numAt s 13 2) * 1000
     + numAt s 16 3"

definition isoInstant :: "string \<Rightarrow> date" where
  "isoInstant s =
     (if take 1 s = ''+'' then spelledInstant (numAt s 1 6) (drop 7 s)
      else if take 1 s = ''-'' then spelledInstant (- numAt s 1 6) (drop 7 s)
      else spelledInstant (numAt s 0 4) (drop 4 s))"

definition isIsoText :: "string \<Rightarrow> bool" where
  "isIsoText s \<longleftrightarrow> \<bar>isoInstant s\<bar> \<le> 8640000000000000 \<and> toISOString (isoInstant s) = s"

definition isIsoDate :: "json option \<Rightarrow> bool" where
  "isIsoDate v = (case v of Some (JStr s) \<Rightarrow> isIsoText s | _ \<Rightarrow> False)"

definition isFreshness :: "json option \<Rightarrow> bool" where
  "isFreshness v = (case recordOf v of None \<Rightarrow> False
     | Some r \<Rightarrow> isIsoDate (field r ''asOf'') \<and> isBool (field r ''delayed''))"

definition isScalarRecord :: "json option \<Rightarrow> bool" where
  "isScalarRecord v = (case recordOf v of None \<Rightarrow> False
     | Some r \<Rightarrow> list_all (\<lambda>(k, x). isText (Some x) \<or> isNumber (Some x)) r)"

definition isOrderLineItem :: "json option \<Rightarrow> bool" where
  "isOrderLineItem v = (case recordOf v of None \<Rightarrow> False
     | Some r \<Rightarrow> isText (field r ''name'') \<and> (isText (field r ''quantity'') \<or> isNumber (field r ''quantity''))
         \<and> isText (field r ''total''))"

definition isPaymentContext :: "json option \<Rightarrow> bool" where
  "isPaymentContext v = (case recordOf v of None \<Rightarrow> False
     | Some r \<Rightarrow> nullOr isText (field r ''method'') \<and> isBool (field r ''paid''))"

definition isShippingContext :: "json option \<Rightarrow> bool" where
  "isShippingContext v = (case recordOf v of None \<Rightarrow> False
     | Some r \<Rightarrow> isArrayOf isText (field r ''methods'') \<and> isArrayOf isText (field r ''addressLines''))"

definition isSettingsRecipient :: "json option \<Rightarrow> bool" where
  "isSettingsRecipient v = (case recordOf v of None \<Rightarrow> False
     | Some r \<Rightarrow> isText (field r ''displayName'') \<and> isBool (field r ''selected'')
         \<and> isOneOf [''AVAILABLE'', ''UNAVAILABLE''] (field r ''availability'')
         \<and> (field r ''actionRef'' = None \<and> field r ''action'' = None
            \<or> isCallbackReference (CHR ''g'') (field r ''actionRef'') \<and> isOneOf [''SELECT'', ''REMOVE''] (field r ''action'')))"

definition isEntitlementSummary :: "json option \<Rightarrow> bool" where
  "isEntitlementSummary v = (case recordOf v of None \<Rightarrow> False
     | Some r \<Rightarrow> textOf (field r ''plan'') \<in> {''FREE'', ''PRO'', ''AGENCY''}
         \<and> textOf (field r ''status'') \<in> {''ACTIVE'', ''SUSPENDED''}
         \<and> textOf (field r ''effectiveState'') \<in> {''ACTIVE'', ''SUSPENDED'', ''EXPIRED''}
         \<and> nullOr isIsoDate (field r ''expiresAt''))"

definition emptyFreshness :: json where
  "emptyFreshness = JObj [(''asOf'', JStr (toISOString 0)), (''delayed'', JBool True)]"

text \<open>\<open>...(typeof record[key] === 'string' ? { key: record[key] } : {})\<close>\<close>

definition keepText :: "jsobject \<Rightarrow> string \<Rightarrow> jsobject" where
  "keepText r k = (case field r k of Some (JStr s) \<Rightarrow> [(k, JStr s)] | _ \<Rightarrow> [])"


section \<open>Orders\<close>

definition inactiveState :: "jsobject \<Rightarrow> bool" where
  "inactiveState r \<longleftrightarrow> field r ''state'' = Some (JStr ''ENTITLEMENT_INACTIVE'')"

definition parseOrderSummary :: "json \<Rightarrow> parsed" where
  "parseOrderSummary value =
     andThen (requireRecordOf (Some value)) (\<lambda>r.
     checkThat (isCallbackReference (CHR ''d'') (field r ''ref'') \<and> isText (field r ''orderNumber'')
       \<and> isText (field r ''status'') \<and> isText (field r ''currency'') \<and> isText (field r ''total'')
       \<and> isText (field r ''customerDisplayName'') \<and> isIsoDate (field r ''wcCreatedAt'')
       \<and> isBool (field r ''remoteDeleted'')) value)"

definition ORDER_LIST_STATES :: "string list" where
  "ORDER_LIST_STATES = [''OK'', ''NO_ACTIVE_STORE'', ''UNAUTHORIZED'', ''CONTEXT_CHANGED'', ''ENTITLEMENT_INACTIVE'']"

definition parseOrderListResult :: "json \<Rightarrow> parsed" where
  "parseOrderListResult value =
     andThen (requireRecordOf (Some value)) (\<lambda>r.
     if inactiveState r
     then Inr (JObj [(''state'', JStr ''ENTITLEMENT_INACTIVE''), (''orders'', JArr []), (''nextCursor'', JNull),
            (''previousCursor'', JNull), (''freshness'', emptyFreshness)])
     else case field r ''orders'' of
            Some (JArr rows) \<Rightarrow>
              if textOf (field r ''state'') \<notin> set ORDER_LIST_STATES
                 \<or> \<not> isNullableCallbackReference (field r ''nextCursor'')
                 \<or> \<not> isNullableCallbackReference (field r ''previousCursor'') \<or> \<not> isFreshness (field r ''freshness'')
              then Inl MalformedBackendResponseError
              else andThen (mapThrow parseOrderSummary rows) (\<lambda>orders.
                   Inr (JObj [(''state'', theField r ''state''), (''orders'', JArr orders),
                     (''nextCursor'', theField r ''nextCursor''), (''previousCursor'', theField r ''previousCursor''),
                     (''freshness'', theField r ''freshness'')]))
          | _ \<Rightarrow> Inl MalformedBackendResponseError)"

definition liveOrderPayload :: "jsobject \<Rightarrow> bool" where
  "liveOrderPayload r \<longleftrightarrow> isText (field r ''currency'') \<and> isIsoDate (field r ''wcCreatedAt'')
     \<and> isIsoDate (field r ''wcModifiedAt'') \<and> isArrayOf isOrderLineItem (field r ''lineItems'')
     \<and> isScalarRecord (field r ''totals'') \<and> absentOr isPaymentContext (field r ''payment'')
     \<and> absentOr isShippingContext (field r ''shipping'')"

definition parseOrderDetailPayload :: "json option \<Rightarrow> BackendError + jsobject" where
  "parseOrderDetailPayload value =
     andThen (requireRecordOf value) (\<lambda>r.
     checkThat (isText (field r ''orderNumber'') \<and> isText (field r ''status'') \<and> isText (field r ''customerDisplayName'')
       \<and> isBool (field r ''remoteDeleted'')
       \<and> (field r ''remoteDeleted'' = Some (JBool False) \<longrightarrow> liveOrderPayload r)) r)"

text \<open>\<open>record['order'] === undefined ? undefined : parseOrderDetailPayload(record['order'])\<close>\<close>

definition optionalOrder :: "jsobject \<Rightarrow> BackendError + jsobject option" where
  "optionalOrder r =
     (if field r ''order'' = None then Inr None else map_sum id Some (parseOrderDetailPayload (field r ''order'')))"

definition orderField :: "jsobject option \<Rightarrow> jsobject" where
  "orderField order = (case order of Some o' \<Rightarrow> [(''order'', JObj o')] | None \<Rightarrow> [])"

definition orderFits :: "json option \<Rightarrow> jsobject option \<Rightarrow> bool" where
  "orderFits st order \<longleftrightarrow>
     (st = Some (JStr ''OK'') \<longrightarrow> (\<exists>o'. order = Some o' \<and> field o' ''remoteDeleted'' = Some (JBool False)))
     \<and> (st = Some (JStr ''DELETED'') \<longrightarrow> (\<exists>o'. order = Some o' \<and> field o' ''remoteDeleted'' = Some (JBool True)))"

definition parseOrderDetailLike :: "string list \<Rightarrow> json option \<Rightarrow> parsed" where
  "parseOrderDetailLike states value =
     andThen (requireRecordOf value) (\<lambda>r.
     if inactiveState r \<and> ''ENTITLEMENT_INACTIVE'' \<in> set states
     then Inr (JObj [(''state'', JStr ''ENTITLEMENT_INACTIVE''), (''freshness'', emptyFreshness)])
     else if textOf (field r ''state'') \<notin> set states \<or> \<not> isFreshness (field r ''freshness'')
        \<or> \<not> absentOr (isCallbackReference (CHR ''p'')) (field r ''backCursor'')
        \<or> \<not> absentOr (isCallbackReference (CHR ''d'')) (field r ''transitionsRef'')
        \<or> \<not> absentOr (isCallbackReference (CHR ''d'')) (field r ''refreshRef'')
        \<or> \<not> absentOr (isCallbackReference (CHR ''d'')) (field r ''addNoteRef'')
     then Inl MalformedBackendResponseError
     else andThen (optionalOrder r) (\<lambda>order.
          if \<not> orderFits (field r ''state'') order then Inl MalformedBackendResponseError
          else Inr (JObj ([(''state'', theField r ''state'')] @ orderField order @ keepText r ''backCursor''
                 @ keepText r ''transitionsRef'' @ keepText r ''refreshRef'' @ keepText r ''addNoteRef''
                 @ [(''freshness'', theField r ''freshness'')]))))"

definition ORDER_DETAIL_STATES :: "string list" where
  "ORDER_DETAIL_STATES =
     [''OK'', ''NOT_FOUND'', ''DELETED'', ''CONTEXT_CHANGED'', ''NO_ACTIVE_STORE'', ''UNAUTHORIZED'', ''ENTITLEMENT_INACTIVE'']"

definition parseOrderDetailResult :: "json option \<Rightarrow> parsed" where
  "parseOrderDetailResult = parseOrderDetailLike ORDER_DETAIL_STATES"

definition parseOrderLookupResult :: "json option \<Rightarrow> parsed" where
  "parseOrderLookupResult = parseOrderDetailLike (ORDER_DETAIL_STATES @ [''MALFORMED_ORDER_NUMBER'', ''AMBIGUOUS''])"

definition parseOrderRefreshResult :: "json option \<Rightarrow> parsed" where
  "parseOrderRefreshResult = parseOrderDetailLike (ORDER_DETAIL_STATES @ [''RETRYABLE'', ''FAILED''])"

definition ORDER_NOTE_STATES :: "string list" where
  "ORDER_NOTE_STATES = [''OK'', ''CANCELLED'', ''INVALID_NOTE'', ''IN_PROGRESS'', ''AMBIGUOUS'', ''RETRYABLE'', ''FAILED'',
     ''NOT_FOUND'', ''DELETED'', ''NO_ACTIVE_STORE'', ''UNAUTHORIZED'', ''CONTEXT_CHANGED'', ''FORBIDDEN_ROLE'',
     ''EXPIRED_REF'', ''ENTITLEMENT_INACTIVE'']"

definition parseOrderNoteBase :: "json \<Rightarrow> BackendError + jsobject" where
  "parseOrderNoteBase value =
     andThen (requireRecordOf (Some value)) (\<lambda>r. checkThat (textOf (field r ''state'') \<in> set ORDER_NOTE_STATES) r)"

definition okState :: "jsobject \<Rightarrow> bool" where
  "okState r \<longleftrightarrow> field r ''state'' = Some (JStr ''OK'')"

definition parseOrderNoteOptionsResult :: "json \<Rightarrow> parsed" where
  "parseOrderNoteOptionsResult value =
     andThen (parseOrderNoteBase value) (\<lambda>r.
     checkThat (okState r \<longrightarrow> isCallbackReference (CHR ''d'') (field r ''ref'')
       \<and> isArrayOf isNoteVisibility (field r ''visibilities'')) value)"

definition parseOrderNoteStartResult :: "json \<Rightarrow> parsed" where
  "parseOrderNoteStartResult value =
     andThen (parseOrderNoteBase value) (\<lambda>r.
     checkThat (okState r \<longrightarrow> isCallbackReference (CHR ''i'') (field r ''inputRef'')
       \<and> isCallbackReference (CHR ''d'') (field r ''detailRef'') \<and> isNoteVisibility (field r ''visibility'')
       \<and> (case field r ''maxLength'' of Some (JNum n) \<Rightarrow> isSafeInteger n | _ \<Rightarrow> False)) value)"

definition parseOrderNotePrepareResult :: "json \<Rightarrow> parsed" where
  "parseOrderNotePrepareResult value =
     andThen (parseOrderNoteBase value) (\<lambda>r.
     checkThat (okState r \<longrightarrow> isCallbackReference (CHR ''c'') (field r ''confirmRef'')
       \<and> isCallbackReference (CHR ''d'') (field r ''detailRef'') \<and> isNoteVisibility (field r ''visibility'')
       \<and> isText (field r ''preview'')) value)"

definition parseOrderNoteMutationResult :: "json \<Rightarrow> parsed" where
  "parseOrderNoteMutationResult value =
     andThen (parseOrderNoteBase value) (\<lambda>r.
     checkThat (absentOr (isCallbackReference (CHR ''d'')) (field r ''detailRef'')
       \<and> absentOr isNoteVisibility (field r ''visibility'') \<and> absentOr isText (field r ''orderNumber'')) value)"

definition TRANSITIONS_STATES :: "string list" where
  "TRANSITIONS_STATES = [''OK'', ''NOT_FOUND'', ''DELETED'', ''NO_ACTIVE_STORE'', ''UNAUTHORIZED'', ''CONTEXT_CHANGED'',
     ''FORBIDDEN_ROLE'', ''ENTITLEMENT_INACTIVE'']"

definition parseOrderTransitionsResult :: "json \<Rightarrow> parsed" where
  "parseOrderTransitionsResult value =
     andThen (requireRecordOf (Some value)) (\<lambda>r.
     checkThat (textOf (field r ''state'') \<in> set TRANSITIONS_STATES
       \<and> (okState r \<longrightarrow> isCallbackReference (CHR ''s'') (field r ''ref'') \<and> isText (field r ''currentStatus'')
            \<and> isArrayOf isStatusText (field r ''targets''))) value)"

definition STATUS_UPDATE_STATES :: "string list" where
  "STATUS_UPDATE_STATES = [''OK'', ''NO_OP'', ''RETRYABLE'', ''FAILED'', ''NOT_FOUND'', ''DELETED'', ''NO_ACTIVE_STORE'',
     ''UNAUTHORIZED'', ''CONTEXT_CHANGED'', ''FORBIDDEN_ROLE'', ''INVALID_TARGET'', ''EXPIRED_REF'', ''ENTITLEMENT_INACTIVE'']"

text \<open>A freshness that was accepted is an object, hence a true value.\<close>

definition parseOrderStatusUpdateResult :: "json \<Rightarrow> parsed" where
  "parseOrderStatusUpdateResult value =
     andThen (requireRecordOf (Some value)) (\<lambda>r.
     if textOf (field r ''state'') \<notin> set STATUS_UPDATE_STATES
        \<or> \<not> absentOr (isCallbackReference (CHR ''p'')) (field r ''backCursor'') \<or> \<not> absentOr isFreshness (field r ''freshness'')
     then Inl MalformedBackendResponseError
     else andThen (optionalOrder r) (\<lambda>order.
          if isOneOf [''OK'', ''NO_OP''] (field r ''state'') \<and> (order = None \<or> field r ''freshness'' = None)
          then Inl MalformedBackendResponseError
          else Inr (JObj ([(''state'', theField r ''state'')] @ orderField order @ keepText r ''backCursor''
                 @ (case field r ''freshness'' of Some f \<Rightarrow> [(''freshness'', f)] | None \<Rightarrow> [])))))"

section \<open>Stock\<close>

definition STOCK_LIST_STATES :: "string list" where
  "STOCK_LIST_STATES = [''OK'', ''SYNCING'', ''SYNC_FAILED'', ''NO_ACTIVE_STORE'', ''UNAUTHORIZED'', ''CONTEXT_CHANGED'',
     ''ENTITLEMENT_INACTIVE'']"

definition CLASSIFICATIONS :: "string list" where
  "CLASSIFICATIONS = [''HEALTHY'', ''LOW_STOCK'', ''OUT_OF_STOCK'']"

definition stockSummaryOk :: "jsobject \<Rightarrow> bool" where
  "stockSummaryOk r \<longleftrightarrow> isCallbackReference (CHR ''v'') (field r ''ref'') \<and> isText (field r ''displayName'')
     \<and> nullOr isText (field r ''sku'') \<and> nullOr isText (field r ''quantity'') \<and> isText (field r ''stockStatus'')
     \<and> isOneOf CLASSIFICATIONS (field r ''classification'') \<and> isOneOf [''PRODUCT'', ''VARIATION''] (field r ''kind'')"

definition parseStockSummary :: "json \<Rightarrow> parsed" where
  "parseStockSummary value =
     andThen (requireRecordOf (Some value)) (\<lambda>r. checkThat (stockSummaryOk r) value)"

definition parseStockListResult :: "json \<Rightarrow> parsed" where
  "parseStockListResult value =
     andThen (requireRecordOf (Some value)) (\<lambda>r.
     let st = textOf (field r ''state'')
     in if st = ''ENTITLEMENT_INACTIVE''
        then Inr (JObj [(''state'', JStr st), (''items'', JArr []), (''nextCursor'', JNull), (''previousCursor'', JNull),
               (''threshold'', JNull)])
        else case field r ''items'' of
               Some (JArr rows) \<Rightarrow>
                 if st \<notin> set STOCK_LIST_STATES \<or> \<not> isNullableReference (CHR ''k'') (field r ''nextCursor'')
                    \<or> \<not> isNullableReference (CHR ''k'') (field r ''previousCursor'')
                    \<or> \<not> isNullableThreshold (field r ''threshold'')
                 then Inl MalformedBackendResponseError
                 else andThen (mapThrow parseStockSummary rows) (\<lambda>items.
                      if st \<noteq> ''OK'' \<and> items \<noteq> [] then Inl MalformedBackendResponseError
                      else Inr (JObj [(''state'', JStr st), (''items'', JArr items),
                             (''nextCursor'', theField r ''nextCursor''), (''previousCursor'', theField r ''previousCursor''),
                             (''threshold'', theField r ''threshold'')]))
             | _ \<Rightarrow> Inl MalformedBackendResponseError)"

definition referenceFixture :: "char \<Rightarrow> string" where
  "referenceFixture p = p # ''.AAAAAAAAAAAAAAAA.AAAAAAAAAAAAAAAA''"

definition isAttribute :: "json option \<Rightarrow> bool" where
  "isAttribute v = (case recordOf v of None \<Rightarrow> False | Some r \<Rightarrow> isText (field r ''name'') \<and> isText (field r ''option''))"

definition STOCK_DETAIL_STATES :: "string list" where
  "STOCK_DETAIL_STATES = [''OK'', ''NOT_FOUND'', ''NO_ACTIVE_STORE'', ''UNAUTHORIZED'', ''CONTEXT_CHANGED'', ''ENTITLEMENT_INACTIVE'']"

definition stockItem :: "jsobject \<Rightarrow> jsobject" where
  "stockItem r = map (\<lambda>k. (k, theField r k)) [''displayName'', ''sku'', ''quantity'', ''stockStatus'', ''classification'',
     ''kind'', ''variationContext'', ''threshold'', ''lastSyncedAt'']"

definition parseStockDetailResult :: "json \<Rightarrow> parsed" where
  "parseStockDetailResult value =
     andThen (requireRecordOf (Some value)) (\<lambda>r.
     let st = textOf (field r ''state'')
     in if st \<notin> set STOCK_DETAIL_STATES then Inl MalformedBackendResponseError
        else if st \<noteq> ''OK'' then Inr (JObj [(''state'', JStr st)])
        else if \<not> isCallbackReference (CHR ''k'') (field r ''backCursor'') then Inl MalformedBackendResponseError
        else andThen (requireRecordOf (field r ''item'')) (\<lambda>item.
             andThen (parseStockSummary (JObj (setField ''ref'' (JStr (referenceFixture (CHR ''v''))) item))) (\<lambda>summary.
             checkThat (isArrayOf isAttribute (field item ''variationContext'')
                 \<and> isNullableThreshold (field item ''threshold'') \<and> isIsoDate (field item ''lastSyncedAt''))
               (JObj [(''state'', JStr st), (''item'', JObj (stockItem item)), (''backCursor'', theField r ''backCursor'')]))))"


section \<open>Search and report\<close>

definition searchRowOk :: "jsobject \<Rightarrow> bool" where
  "searchRowOk r \<longleftrightarrow> isCallbackReference (CHR ''u'') (field r ''ref'') \<and> isOneOf [''ORDER'', ''INVENTORY''] (field r ''kind'')
     \<and> isText (field r ''status'')
     \<and> (field r ''kind'' = Some (JStr ''ORDER'') \<longrightarrow> isText (field r ''orderNumber'')
          \<and> isText (field r ''customerDisplayName'') \<and> isText (field r ''currency'') \<and> isText (field r ''total''))
     \<and> (field r ''kind'' = Some (JStr ''INVENTORY'') \<longrightarrow> isText (field r ''displayName'')
          \<and> nullOr isText (field r ''sku'') \<and> nullOr isText (field r ''quantity'')
          \<and> textOf (field r ''classification'') \<in> set CLASSIFICATIONS)"

definition parseSearchRow :: "json \<Rightarrow> parsed" where
  "parseSearchRow value = andThen (requireRecordOf (Some value)) (\<lambda>r. checkThat (searchRowOk r) value)"

definition SIMPLE_SEARCH_STATES :: "string list" where
  "SIMPLE_SEARCH_STATES = [''INVALID_QUERY'', ''QUERY_TOO_SHORT'', ''UNAUTHORIZED'', ''NO_ACTIVE_STORE'', ''CONTEXT_CHANGED'',
     ''ENTITLEMENT_INACTIVE'']"

definition parseSearchResult :: "json \<Rightarrow> parsed" where
  "parseSearchResult value =
     andThen (requireRecordOf (Some value)) (\<lambda>r.
     let st = textOf (field r ''state'')
     in if st \<in> set SIMPLE_SEARCH_STATES then Inr (JObj [(''state'', JStr st)])
        else if st = ''ORDER_DETAIL''
        then andThen (parseOrderDetailResult (field r ''detail'')) (\<lambda>d. Inr (JObj [(''state'', JStr st), (''detail'', d)]))
        else case field r ''results'' of
               Some (JArr rows) \<Rightarrow>
                 if st \<noteq> ''OK'' \<or> \<not> isNullableReference (CHR ''q'') (field r ''nextCursor'')
                    \<or> \<not> isNullableReference (CHR ''q'') (field r ''previousCursor'') \<or> \<not> isText (field r ''inventoryState'')
                 then Inl MalformedBackendResponseError
                 else andThen (mapThrow parseSearchRow rows) (\<lambda>results.
                      Inr (JObj [(''state'', JStr st), (''results'', JArr results), (''nextCursor'', theField r ''nextCursor''),
                        (''previousCursor'', theField r ''previousCursor''), (''inventoryState'', theField r ''inventoryState'')]))
             | _ \<Rightarrow> Inl MalformedBackendResponseError)"

definition SIMPLE_SELECTION_STATES :: "string list" where
  "SIMPLE_SELECTION_STATES = [''UNAUTHORIZED'', ''NO_ACTIVE_STORE'', ''CONTEXT_CHANGED'', ''NOT_FOUND'', ''SYNCING'',
     ''ENTITLEMENT_INACTIVE'']"

text \<open>The item of the selection carries its summary, with the reference of the fixture, and three fields more.\<close>

definition selectedItem :: "jsobject \<Rightarrow> jsobject" where
  "selectedItem item =
     fold (\<lambda>k r. setField k (theField item k) r) [''variationContext'', ''threshold'', ''lastSyncedAt'']
       (setField ''ref'' (JStr (referenceFixture (CHR ''v''))) item)"

definition parseSearchSelectionResult :: "json \<Rightarrow> parsed" where
  "parseSearchSelectionResult value =
     andThen (requireRecordOf (Some value)) (\<lambda>r.
     let st = textOf (field r ''state'')
     in if st \<in> set SIMPLE_SELECTION_STATES then Inr (JObj [(''state'', JStr st)])
        else if \<not> isCallbackReference (CHR ''q'') (field r ''backCursor'') then Inl MalformedBackendResponseError
        else if st = ''ORDER''
        then andThen (parseOrderDetailResult (field r ''detail'')) (\<lambda>d.
             Inr (JObj [(''state'', JStr st), (''detail'', d), (''backCursor'', theField r ''backCursor'')]))
        else if st = ''INVENTORY''
        then andThen (requireRecordOf (field r ''detail'')) (\<lambda>detail.
             andThen (requireRecordOf (field detail ''item'')) (\<lambda>item.
             andThen (parseStockSummary (JObj (setField ''ref'' (JStr (referenceFixture (CHR ''v''))) item))) (\<lambda>summary.
             checkThat (okState detail \<and> isArrayOf (\<lambda>x. True) (field item ''variationContext'')
                 \<and> isNullableThreshold (field item ''threshold'') \<and> isIsoDate (field item ''lastSyncedAt''))
               (JObj [(''state'', JStr st), (''backCursor'', theField r ''backCursor''),
                  (''detail'', JObj [(''state'', JStr ''OK''), (''item'', JObj (selectedItem item))])]))))
        else Inl MalformedBackendResponseError)"

definition parseDailyReportResult :: "json \<Rightarrow> parsed" where
  "parseDailyReportResult value =
     andThen (requireRecordOf (Some value)) (\<lambda>r.
     let st = textOf (field r ''state'')
     in if st \<in> {''UNAUTHORIZED'', ''NO_ACTIVE_STORE'', ''ENTITLEMENT_INACTIVE''} then Inr (JObj [(''state'', JStr st)])
        else checkThat (st = ''OK'' \<and> isText (field r ''localDate'') \<and> isText (field r ''timezone'')
               \<and> absentOr isIsoDate (field r ''dayStartUtc'') \<and> absentOr isIsoDate (field r ''nextDayStartUtc'')
               \<and> isSafeCount (field r ''ordersToday'') \<and> isArrayOf (\<lambda>x. True) (field r ''statuses'')
               \<and> isArrayOf (\<lambda>x. True) (field r ''sales'') \<and> isSafeCount (field r ''omittedRevenueOrders'')) value)"

section \<open>Settings\<close>

definition SETTINGS_STATES :: "string list" where
  "SETTINGS_STATES = [''OK'', ''NO_ACTIVE_STORE'', ''UNAUTHORIZED'', ''CONTEXT_CHANGED'', ''FORBIDDEN_ROLE'', ''INVALID_VALUE'',
     ''EXPIRED_REF'', ''ENTITLEMENT_INACTIVE'']"

definition languageAction :: "json option \<Rightarrow> bool" where
  "languageAction v = (case recordOf v of None \<Rightarrow> False
     | Some r \<Rightarrow> isOneOf [''FA'', ''EN''] (field r ''language'') \<and> isCallbackReference (CHR ''g'') (field r ''ref''))"

definition categoryAction :: "json option \<Rightarrow> bool" where
  "categoryAction v = (case recordOf v of None \<Rightarrow> False
     | Some r \<Rightarrow> isNotificationCategory (field r ''category'') \<and> isBool (field r ''enabled'')
         \<and> isCallbackReference (CHR ''g'') (field r ''enableRef'') \<and> isCallbackReference (CHR ''g'') (field r ''disableRef''))"

definition recipientModeAction :: "json option \<Rightarrow> bool" where
  "recipientModeAction v = (case recordOf v of None \<Rightarrow> False
     | Some r \<Rightarrow> isOneOf [''ALL_ELIGIBLE'', ''SELECTED''] (field r ''mode'') \<and> isCallbackReference (CHR ''g'') (field r ''ref''))"

definition parseSettingsActions :: "json option \<Rightarrow> BackendError + json" where
  "parseSettingsActions value =
     andThen (requireRecordOf value) (\<lambda>r.
     checkThat (isArrayOf languageAction (field r ''languages'')
       \<and> isCallbackReference (CHR ''g'') (field r ''timezoneInputRef'')
       \<and> isCallbackReference (CHR ''g'') (field r ''thresholdInputRef'')
       \<and> isCallbackReference (CHR ''g'') (field r ''thresholdClearRef'')
       \<and> isArrayOf categoryAction (field r ''categories'')
       \<and> isArrayOf recipientModeAction (field r ''recipientModes'')) (JObj r))"

definition defaultEntitlement :: json where
  "defaultEntitlement = JObj [(''plan'', JStr ''FREE''), (''status'', JStr ''ACTIVE''), (''effectiveState'', JStr ''ACTIVE''),
     (''expiresAt'', JNull)]"

definition settingsOk :: "jsobject \<Rightarrow> bool" where
  "settingsOk r \<longleftrightarrow> isOneOf [''FA'', ''EN''] (field r ''language'') \<and> isText (field r ''timezone'')
     \<and> isNullableThreshold (field r ''lowStockThreshold'')
     \<and> isArrayOf isNotificationCategory (field r ''enabledNotificationCategories'')
     \<and> isOneOf [''ALL_ELIGIBLE'', ''SELECTED''] (field r ''recipientMode'') \<and> isSafeCount (field r ''selectedRecipientCount'')
     \<and> isSafeCount (field r ''availableRecipientCount'') \<and> isBool (field r ''editable'')
     \<and> isArrayOf isSettingsRecipient (field r ''recipients'')"

definition parseSettingsSummary :: "json option \<Rightarrow> parsed" where
  "parseSettingsSummary value =
     andThen (requireRecordOf value) (\<lambda>r.
     if \<not> settingsOk r then Inl MalformedBackendResponseError
     else andThen (if field r ''actions'' = None then Inr None else map_sum id Some (parseSettingsActions (field r ''actions'')))
       (\<lambda>actions.
        checkThat (field r ''editable'' = Some (JBool (actions \<noteq> None)))
          (JObj ([(''entitlement'', if isEntitlementSummary (field r ''entitlement'') then theField r ''entitlement''
                     else defaultEntitlement)]
             @ map (\<lambda>k. (k, theField r k)) [''language'', ''timezone'', ''lowStockThreshold'', ''enabledNotificationCategories'',
                 ''recipientMode'', ''selectedRecipientCount'', ''availableRecipientCount'', ''editable'', ''recipients'']
             @ (case actions of Some a \<Rightarrow> [(''actions'', a)] | None \<Rightarrow> [])))))"

definition parseSettingsResultState :: "json \<Rightarrow> BackendError + string" where
  "parseSettingsResultState value =
     andThen (requireRecordOf (Some value)) (\<lambda>r.
     checkThat (textOf (field r ''state'') \<in> set SETTINGS_STATES) (textOf (field r ''state'')))"

definition parseSettingsResult :: "json \<Rightarrow> parsed" where
  "parseSettingsResult value =
     andThen (requireRecordOf (Some value)) (\<lambda>r.
     andThen (checkThat (textOf (field r ''state'') \<in> set SETTINGS_STATES) (textOf (field r ''state''))) (\<lambda>st.
     if st \<noteq> ''OK'' then Inr (JObj [(''state'', JStr st)])
     else andThen (parseSettingsSummary (field r ''settings'')) (\<lambda>s.
          Inr (JObj [(''state'', JStr st), (''settings'', s)]))))"

definition parseSettingsInputStartResult :: "json \<Rightarrow> parsed" where
  "parseSettingsInputStartResult value =
     andThen (parseSettingsResultState value) (\<lambda>st.
     if st \<noteq> ''OK'' then Inr (JObj [(''state'', JStr st)])
     else andThen (requireRecordOf (Some value)) (\<lambda>r.
          checkThat (isOneOf [''TIMEZONE'', ''THRESHOLD''] (field r ''purpose'') \<and> isCallbackReference (CHR ''g'') (field r ''inputRef''))
            (JObj [(''state'', JStr ''OK''), (''purpose'', theField r ''purpose''), (''inputRef'', theField r ''inputRef'')])))"

section \<open>Presentation\<close>

definition textOr :: "nat \<Rightarrow> string \<Rightarrow> json option \<Rightarrow> string" where
  "textOr n fallback v =
     (case v of Some (JStr s) \<Rightarrow> if take n s = [] then fallback else take n s | _ \<Rightarrow> fallback)"

definition parseOptionalEntitlementSummary :: "json option \<Rightarrow> json" where
  "parseOptionalEntitlementSummary v = (if isEntitlementSummary v then the v else JNull)"

text \<open>\<open>{...result}\<close> of any JSON value.\<close>

definition spread :: "json \<Rightarrow> jsobject" where
  "spread v =
     (case v of
        JObj r \<Rightarrow> r
      | JArr xs \<Rightarrow> map (\<lambda>(k, x). (showNat k, x)) (zip [0..<length xs] xs)
      | JStr s \<Rightarrow> map (\<lambda>(k, c). (showNat k, JStr [c])) (zip [0..<length s] s)
      | _ \<Rightarrow> [])"

definition attachPresentation :: "json \<Rightarrow> json \<Rightarrow> json" where
  "attachPresentation value result =
     (let presentation = (case recordOf (Some value) of None \<Rightarrow> None | Some r \<Rightarrow> recordOf (field r ''presentation''));
          at = (\<lambda>k. case presentation of None \<Rightarrow> None | Some p \<Rightarrow> field p k)
      in JObj (setField ''presentation''
           (JObj [(''language'', JStr (textOr 16 ''en'' (at ''language''))),
              (''timezone'', JStr (textOr 64 ''UTC'' (at ''timezone''))),
              (''entitlement'', parseOptionalEntitlementSummary (at ''entitlement''))]) (spread result)))"

section \<open>Requests\<close>

record BotIdentity =
  biTelegramUserId :: string
  biTelegramChatId :: string
  biUpdateId :: string

text \<open>What \<open>fetch\<close> and the reading of the body make of a request within its time limit.\<close>

datatype HttpAnswer = RequestFailed | Response bool "json option"

record BotHttp =
  bhRequest :: "string \<Rightarrow> (string \<times> string) list \<Rightarrow> json \<Rightarrow> nat \<Rightarrow> HttpAnswer"
  bhBackendInternalUrl :: string
  bhInternalApiKey :: string
  bhBackendTimeoutMs :: "nat option"
  bhStatusWriteTimeoutMs :: "nat option"

definition backendTimeout :: "BotHttp \<Rightarrow> nat" where
  "backendTimeout http = (case bhBackendTimeoutMs http of Some n \<Rightarrow> n | None \<Rightarrow> 5000)"

definition statusWriteTimeout :: "BotHttp \<Rightarrow> nat" where
  "statusWriteTimeout http = (case bhStatusWriteTimeoutMs http of Some n \<Rightarrow> n | None \<Rightarrow> 50000)"

definition postTo :: "BotHttp \<Rightarrow> nat \<Rightarrow> string \<Rightarrow> BotIdentity \<Rightarrow> jsobject \<Rightarrow> parsed" where
  "postTo http timeout path identity body =
     (case bhRequest http (bhBackendInternalUrl http @ ''/internal/telegram/'' @ path)
             [(''content-type'', ''application/json''), (''x-bot-api-key'', bhInternalApiKey http),
              (''x-correlation-id'', ''telegram-update-'' @ biUpdateId identity),
              (''x-telegram-update-id'', biUpdateId identity)] (JObj body) timeout of
        Response True (Some v) \<Rightarrow> Inr v
      | _ \<Rightarrow> Inl BackendUnavailableError)"

definition telegramBody :: "BotIdentity \<Rightarrow> jsobject" where
  "telegramBody identity = [(''telegram'', JObj [(''userId'', JStr (biTelegramUserId identity)),
     (''chatId'', JStr (biTelegramChatId identity))])]"

definition identityBody :: "BotIdentity \<Rightarrow> jsobject" where
  "identityBody identity = [(''telegramUserId'', JStr (biTelegramUserId identity)),
     (''telegramChatId'', JStr (biTelegramChatId identity)), (''updateId'', JStr (biUpdateId identity))]"

definition checkedPost ::
  "BotHttp \<Rightarrow> nat \<Rightarrow> string \<Rightarrow> (json \<Rightarrow> parsed) \<Rightarrow> BotIdentity \<Rightarrow> jsobject \<Rightarrow> parsed" where
  "checkedPost http timeout path parse identity body =
     andThen (postTo http timeout path identity (telegramBody identity @ body)) (\<lambda>value.
     andThen (parse value) (\<lambda>result. Inr (attachPresentation value result)))"

definition uncheckedPost :: "BotHttp \<Rightarrow> string \<Rightarrow> BotIdentity \<Rightarrow> jsobject \<Rightarrow> parsed" where
  "uncheckedPost http path identity body =
     andThen (postTo http (backendTimeout http) path identity (identityBody identity @ body)) (\<lambda>value.
     Inr (attachPresentation value value))"

definition redeem :: "BotHttp \<Rightarrow> BotIdentity \<Rightarrow> string \<Rightarrow> parsed" where
  "redeem http identity token =
     uncheckedPost http ''redeem'' identity [(''chatType'', JStr ''private''), (''token'', JStr token)]"

definition botStatus :: "BotHttp \<Rightarrow> BotIdentity \<Rightarrow> parsed" where
  "botStatus http identity = uncheckedPost http ''status'' identity []"

definition unlink :: "BotHttp \<Rightarrow> BotIdentity \<Rightarrow> bool \<Rightarrow> parsed" where
  "unlink http identity confirmed = uncheckedPost http ''unlink'' identity [(''confirmed'', JBool confirmed)]"

text \<open>A cursor that is absent or empty is not sent.\<close>

definition cursorBody :: "string option \<Rightarrow> jsobject" where
  "cursorBody cursor = (case cursor of Some c \<Rightarrow> if c = [] then [] else [(''cursor'', JStr c)] | None \<Rightarrow> [])"

definition refBody :: "string \<Rightarrow> jsobject" where
  "refBody ref = [(''ref'', JStr ref)]"

definition listOrders :: "BotHttp \<Rightarrow> BotIdentity \<Rightarrow> string option \<Rightarrow> parsed" where
  "listOrders http identity cursor =
     checkedPost http (backendTimeout http) ''orders/list'' parseOrderListResult identity (cursorBody cursor)"

definition lookupOrder :: "BotHttp \<Rightarrow> BotIdentity \<Rightarrow> string \<Rightarrow> parsed" where
  "lookupOrder http identity number =
     checkedPost http (backendTimeout http) ''orders/lookup'' (\<lambda>v. parseOrderLookupResult (Some v)) identity
       [(''orderNumber'', JStr number)]"

definition botOrderDetail :: "BotHttp \<Rightarrow> BotIdentity \<Rightarrow> string \<Rightarrow> parsed" where
  "botOrderDetail http identity ref =
     checkedPost http (backendTimeout http) ''orders/detail'' (\<lambda>v. parseOrderDetailResult (Some v)) identity (refBody ref)"

definition refreshOrder :: "BotHttp \<Rightarrow> BotIdentity \<Rightarrow> string \<Rightarrow> parsed" where
  "refreshOrder http identity ref =
     checkedPost http (statusWriteTimeout http) ''orders/refresh'' (\<lambda>v. parseOrderRefreshResult (Some v)) identity (refBody ref)"

definition orderNoteOptions :: "BotHttp \<Rightarrow> BotIdentity \<Rightarrow> string \<Rightarrow> parsed" where
  "orderNoteOptions http identity ref =
     checkedPost http (backendTimeout http) ''orders/notes/options'' parseOrderNoteOptionsResult identity (refBody ref)"

definition startOrderNote :: "BotHttp \<Rightarrow> BotIdentity \<Rightarrow> string \<Rightarrow> string \<Rightarrow> parsed" where
  "startOrderNote http identity ref visibility =
     checkedPost http (backendTimeout http) ''orders/notes/start'' parseOrderNoteStartResult identity
       (refBody ref @ [(''visibility'', JStr visibility)])"

definition prepareOrderNote :: "BotHttp \<Rightarrow> BotIdentity \<Rightarrow> string \<Rightarrow> string \<Rightarrow> parsed" where
  "prepareOrderNote http identity ref text =
     checkedPost http (backendTimeout http) ''orders/notes/prepare'' parseOrderNotePrepareResult identity
       (refBody ref @ [(''note'', JStr text)])"

definition cancelOrderNote :: "BotHttp \<Rightarrow> BotIdentity \<Rightarrow> string \<Rightarrow> parsed" where
  "cancelOrderNote http identity ref =
     checkedPost http (backendTimeout http) ''orders/notes/cancel'' parseOrderNoteMutationResult identity (refBody ref)"

definition confirmOrderNote :: "BotHttp \<Rightarrow> BotIdentity \<Rightarrow> string \<Rightarrow> parsed" where
  "confirmOrderNote http identity ref =
     checkedPost http (statusWriteTimeout http) ''orders/notes/confirm'' parseOrderNoteMutationResult identity (refBody ref)"

definition botOrderTransitions :: "BotHttp \<Rightarrow> BotIdentity \<Rightarrow> string \<Rightarrow> parsed" where
  "botOrderTransitions http identity ref =
     checkedPost http (backendTimeout http) ''orders/transitions'' parseOrderTransitionsResult identity (refBody ref)"

definition updateOrderStatus :: "BotHttp \<Rightarrow> BotIdentity \<Rightarrow> string \<Rightarrow> string \<Rightarrow> parsed" where
  "updateOrderStatus http identity ref target =
     checkedPost http (statusWriteTimeout http) ''orders/status'' parseOrderStatusUpdateResult identity
       (refBody ref @ [(''target'', JStr target)])"

definition botSettings :: "BotHttp \<Rightarrow> BotIdentity \<Rightarrow> parsed" where
  "botSettings http identity = checkedPost http (backendTimeout http) ''settings/summary'' parseSettingsResult identity []"

definition listStock :: "BotHttp \<Rightarrow> BotIdentity \<Rightarrow> string option \<Rightarrow> parsed" where
  "listStock http identity cursor =
     checkedPost http (backendTimeout http) ''stock/list'' parseStockListResult identity (cursorBody cursor)"

definition botStockDetail :: "BotHttp \<Rightarrow> BotIdentity \<Rightarrow> string \<Rightarrow> parsed" where
  "botStockDetail http identity ref =
     checkedPost http (backendTimeout http) ''stock/detail'' parseStockDetailResult identity (refBody ref)"

datatype QueryOrCursor = SearchQuery string | SearchCursor string

definition botSearch :: "BotHttp \<Rightarrow> BotIdentity \<Rightarrow> QueryOrCursor \<Rightarrow> parsed" where
  "botSearch http identity q =
     checkedPost http (backendTimeout http) ''search'' parseSearchResult identity
       (case q of SearchQuery s \<Rightarrow> [(''query'', JStr s)] | SearchCursor s \<Rightarrow> [(''cursor'', JStr s)])"

definition selectSearchResult :: "BotHttp \<Rightarrow> BotIdentity \<Rightarrow> string \<Rightarrow> parsed" where
  "selectSearchResult http identity ref =
     checkedPost http (backendTimeout http) ''search/select'' parseSearchSelectionResult identity (refBody ref)"

definition botReport :: "BotHttp \<Rightarrow> BotIdentity \<Rightarrow> parsed" where
  "botReport http identity = checkedPost http (backendTimeout http) ''report'' parseDailyReportResult identity []"

definition applySettingsAction :: "BotHttp \<Rightarrow> BotIdentity \<Rightarrow> string \<Rightarrow> parsed" where
  "applySettingsAction http identity ref =
     checkedPost http (backendTimeout http) ''settings/action'' parseSettingsResult identity (refBody ref)"

definition startSettingsInput :: "BotHttp \<Rightarrow> BotIdentity \<Rightarrow> string \<Rightarrow> parsed" where
  "startSettingsInput http identity ref =
     checkedPost http (backendTimeout http) ''settings/input/start'' parseSettingsInputStartResult identity (refBody ref)"

definition applySettingsInput :: "BotHttp \<Rightarrow> BotIdentity \<Rightarrow> string \<Rightarrow> string \<Rightarrow> parsed" where
  "applySettingsInput http identity ref value =
     checkedPost http (backendTimeout http) ''settings/input/apply'' parseSettingsResult identity
       (refBody ref @ [(''value'', JStr value)])"

end
