(* ===== verification/InternalApi.thy ===== *)
theory InternalApi
  imports OrderNotes
begin

text \<open>
  The routes under \<open>internal/telegram/orders\<close> that the bot calls (\<open>backend/src/telegram/telegram-internal.controller.ts\<close>,
  the schemas of \<open>telegram/dto/telegram-internal.dto.ts\<close>, \<open>telegram/guards/bot-api-key.guard.ts\<close>): a request is
  the headers and the JSON body, an answer a JSON value. Keys of an answer that JavaScript leaves undefined are
  not sent; keys stand in the order of the result's interface.
\<close>

section \<open>Answers\<close>

definition givenText :: "string \<Rightarrow> string option \<Rightarrow> jsobject" where
  "givenText k v = (case v of Some s \<Rightarrow> [(k, JStr s)] | None \<Rightarrow> [])"

definition nullText :: "string option \<Rightarrow> json" where
  "nullText v = (case v of Some s \<Rightarrow> JStr s | None \<Rightarrow> JNull)"

definition freshnessJson :: "Freshness \<Rightarrow> json" where
  "freshnessJson f = JObj [(''asOf'', JStr (frAsOf f)), (''delayed'', JBool (frDelayed f))]"

text \<open>\<open>noTotal\<close> stands for the text \<open>\<emdash>\<close> of an order without a total.\<close>

definition orderSummaryJson :: "string \<Rightarrow> OrderSummary \<Rightarrow> json" where
  "orderSummaryJson noTotal s =
     JObj [(''ref'', JStr (smRef s)), (''orderNumber'', JStr (smOrderNumber s)), (''status'', JStr (smStatus s)),
       (''currency'', JStr (smCurrency s)), (''total'', JStr (case smTotal s of Some t \<Rightarrow> t | None \<Rightarrow> noTotal)),
       (''customerDisplayName'', JStr (smCustomer s)), (''wcCreatedAt'', JStr (smCreatedAt s)),
       (''remoteDeleted'', JBool (smRemoteDeleted s))]"

fun listStateText :: "OrderListState \<Rightarrow> string" where
  "listStateText ListOk = ''OK''"
| "listStateText ListNoActiveStore = ''NO_ACTIVE_STORE''"
| "listStateText ListUnauthorized = ''UNAUTHORIZED''"
| "listStateText ListContextChanged = ''CONTEXT_CHANGED''"

definition orderListJson :: "string \<Rightarrow> OrderList \<Rightarrow> jsobject" where
  "orderListJson noTotal l =
     [(''state'', JStr (listStateText (olState l))), (''orders'', JArr (map (orderSummaryJson noTotal) (olOrders l))),
      (''nextCursor'', nullText (olNext l)), (''previousCursor'', nullText (olPrevious l)),
      (''freshness'', freshnessJson (olFreshness l))]"

definition lineItemJson :: "LineItem \<Rightarrow> json" where
  "lineItemJson i = JObj [(''name'', JStr (liName i)), (''quantity'', liQuantity i), (''total'', JStr (liTotal i))]"

definition paymentJson :: "PaymentView \<Rightarrow> json" where
  "paymentJson p = JObj [(''method'', nullText (pvMethod p)), (''paid'', JBool (pvPaid p))]"

definition shippingJson :: "ShippingView \<Rightarrow> json" where
  "shippingJson s = JObj [(''methods'', JArr (map JStr (svMethods s))), (''addressLines'', JArr (map JStr (svAddressLines s)))]"

definition orderDetailFields :: "OrderDetail \<Rightarrow> jsobject" where
  "orderDetailFields d =
     [(''orderNumber'', JStr (odOrderNumber d)), (''status'', JStr (odStatus d)), (''currency'', JStr (odCurrency d)),
      (''totals'', JObj (odTotals d)), (''customerDisplayName'', JStr (odCustomer d)),
      (''lineItems'', JArr (map lineItemJson (odLineItems d))), (''payment'', paymentJson (odPayment d)),
      (''shipping'', shippingJson (odShipping d)), (''wcCreatedAt'', JStr (odCreatedAt d)),
      (''wcModifiedAt'', JStr (odModifiedAt d)), (''remoteDeleted'', JBool False)]"

definition deletedMarkerFields :: "DeletedOrderMarker \<Rightarrow> jsobject" where
  "deletedMarkerFields m =
     [(''orderNumber'', JStr (dmOrderNumber m)), (''status'', JStr (dmStatus m)), (''customerDisplayName'', JStr (dmCustomer m)),
      (''remoteDeleted'', JBool True)]"

definition shownOrderFields :: "ShownOrder \<Rightarrow> jsobject" where
  "shownOrderFields o' = (case o' of LiveOrder d \<Rightarrow> orderDetailFields d | DeletedOrder m \<Rightarrow> deletedMarkerFields m)"

fun detailStateText :: "DetailState \<Rightarrow> string" where
  "detailStateText DetailOk = ''OK''"
| "detailStateText DetailNotFound = ''NOT_FOUND''"
| "detailStateText DetailDeleted = ''DELETED''"
| "detailStateText DetailContextChanged = ''CONTEXT_CHANGED''"
| "detailStateText DetailNoActiveStore = ''NO_ACTIVE_STORE''"
| "detailStateText DetailUnauthorized = ''UNAUTHORIZED''"
| "detailStateText DetailMalformedOrderNumber = ''MALFORMED_ORDER_NUMBER''"
| "detailStateText DetailAmbiguous = ''AMBIGUOUS''"
| "detailStateText DetailRetryable = ''RETRYABLE''"
| "detailStateText DetailFailed = ''FAILED''"

definition orderJson :: "ShownOrder option \<Rightarrow> jsobject" where
  "orderJson shown = (case shown of Some s \<Rightarrow> [(''order'', JObj (shownOrderFields s))] | None \<Rightarrow> [])"

definition detailJson :: "DetailResult \<Rightarrow> jsobject" where
  "detailJson d =
     [(''state'', JStr (detailStateText (dtState d)))] @ orderJson (dtOrder d) @ givenText ''backCursor'' (dtBackCursor d)
     @ givenText ''transitionsRef'' (dtTransitionsRef d) @ givenText ''refreshRef'' (dtRefreshRef d)
     @ givenText ''addNoteRef'' (dtAddNoteRef d) @ [(''freshness'', freshnessJson (dtFreshness d))]"

fun transitionsStateText :: "TransitionsState \<Rightarrow> string" where
  "transitionsStateText TransitionsOk = ''OK''"
| "transitionsStateText TransitionsNotFound = ''NOT_FOUND''"
| "transitionsStateText TransitionsDeleted = ''DELETED''"
| "transitionsStateText TransitionsNoActiveStore = ''NO_ACTIVE_STORE''"
| "transitionsStateText TransitionsUnauthorized = ''UNAUTHORIZED''"
| "transitionsStateText TransitionsContextChanged = ''CONTEXT_CHANGED''"
| "transitionsStateText TransitionsForbiddenRole = ''FORBIDDEN_ROLE''"

text \<open>The choices are sent exactly when the state is \<open>OK\<close>.\<close>

definition transitionsJson :: "TransitionsResult \<Rightarrow> jsobject" where
  "transitionsJson t =
     [(''state'', JStr (transitionsStateText (trState t)))] @ givenText ''ref'' (trRef t)
     @ givenText ''currentStatus'' (trCurrentStatus t)
     @ (if trState t = TransitionsOk then [(''targets'', JArr (map JStr (trTargets t)))] else [])"

fun statusStateText :: "StatusUpdateState \<Rightarrow> string" where
  "statusStateText UpdOk = ''OK''"
| "statusStateText UpdNoOp = ''NO_OP''"
| "statusStateText UpdRetryable = ''RETRYABLE''"
| "statusStateText UpdFailed = ''FAILED''"
| "statusStateText UpdNotFound = ''NOT_FOUND''"
| "statusStateText UpdDeleted = ''DELETED''"
| "statusStateText UpdNoActiveStore = ''NO_ACTIVE_STORE''"
| "statusStateText UpdUnauthorized = ''UNAUTHORIZED''"
| "statusStateText UpdContextChanged = ''CONTEXT_CHANGED''"
| "statusStateText UpdForbiddenRole = ''FORBIDDEN_ROLE''"
| "statusStateText UpdInvalidTarget = ''INVALID_TARGET''"
| "statusStateText UpdExpiredRef = ''EXPIRED_REF''"

definition statusJson :: "StatusResult \<Rightarrow> jsobject" where
  "statusJson s =
     [(''state'', JStr (statusStateText (suState s)))] @ orderJson (map_option LiveOrder (suOrder s))
     @ givenText ''backCursor'' (suBackCursor s)
     @ (case suFreshness s of Some f \<Rightarrow> [(''freshness'', freshnessJson f)] | None \<Rightarrow> [])"

fun noteStateText :: "NoteState \<Rightarrow> string" where
  "noteStateText NoteOk = ''OK''"
| "noteStateText NoteCancelled = ''CANCELLED''"
| "noteStateText NoteInvalid = ''INVALID_NOTE''"
| "noteStateText NoteInProgress = ''IN_PROGRESS''"
| "noteStateText NoteAmbiguous = ''AMBIGUOUS''"
| "noteStateText NoteRetryable = ''RETRYABLE''"
| "noteStateText NoteFailed = ''FAILED''"
| "noteStateText NoteNotFound = ''NOT_FOUND''"
| "noteStateText NoteDeleted = ''DELETED''"
| "noteStateText NoteNoActiveStore = ''NO_ACTIVE_STORE''"
| "noteStateText NoteUnauthorized = ''UNAUTHORIZED''"
| "noteStateText NoteContextChanged = ''CONTEXT_CHANGED''"
| "noteStateText NoteForbiddenRole = ''FORBIDDEN_ROLE''"
| "noteStateText NoteExpiredRef = ''EXPIRED_REF''"

fun visibilityText :: "NoteVisibility \<Rightarrow> string" where
  "visibilityText INTERNAL = ''INTERNAL''"
| "visibilityText CUSTOMER = ''CUSTOMER''"

definition noteOptionsJson :: "NoteOptionsResult \<Rightarrow> jsobject" where
  "noteOptionsJson n =
     [(''state'', JStr (noteStateText (noState n)))] @ givenText ''ref'' (noRef n)
     @ (if noState n = NoteOk then [(''visibilities'', JArr (map (\<lambda>v. JStr (visibilityText v)) (noVisibilities n)))] else [])"

definition noteStartJson :: "NoteStartResult \<Rightarrow> jsobject" where
  "noteStartJson n =
     [(''state'', JStr (noteStateText (nsState n)))] @ givenText ''inputRef'' (nsInputRef n)
     @ givenText ''detailRef'' (nsDetailRef n) @ givenText ''visibility'' (map_option visibilityText (nsVisibility n))
     @ (case nsMaxLength n of Some k \<Rightarrow> [(''maxLength'', JNum (NInt (int k)))] | None \<Rightarrow> [])"

definition notePrepareJson :: "NotePrepareResult \<Rightarrow> jsobject" where
  "notePrepareJson n =
     [(''state'', JStr (noteStateText (npState n)))] @ givenText ''confirmRef'' (npConfirmRef n)
     @ givenText ''detailRef'' (npDetailRef n) @ givenText ''visibility'' (map_option visibilityText (npVisibility n))
     @ givenText ''preview'' (npPreview n)"

definition noteMutationJson :: "NoteMutationResult \<Rightarrow> jsobject" where
  "noteMutationJson n =
     [(''state'', JStr (noteStateText (nmState n)))] @ givenText ''detailRef'' (nmDetailRef n)
     @ givenText ''visibility'' (map_option visibilityText (nmVisibility n)) @ givenText ''orderNumber'' (nmOrderNumber n)"

section \<open>Schemas\<close>

definition MAX_SIGNED_BIGINT :: nat where
  "MAX_SIGNED_BIGINT = 9223372036854775807"

definition isDecimalIdentifier :: "string \<Rightarrow> bool" where
  "isDecimalIdentifier s \<longleftrightarrow>
     (case s of [] \<Rightarrow> False | c # cs \<Rightarrow> isDigit c \<and> c \<noteq> CHR ''0'' \<and> list_all isDigit cs)
     \<and> length s \<le> 19 \<and> readNat s \<le> MAX_SIGNED_BIGINT"

text \<open>The number the services read from the text with \<open>BigInt\<close>.\<close>

definition decimalIdentifier :: "json option \<Rightarrow> int option" where
  "decimalIdentifier v = (case v of Some (JStr s) \<Rightarrow> if isDecimalIdentifier s then Some (int (readNat s)) else None | _ \<Rightarrow> None)"

definition isTokenText :: "string \<Rightarrow> bool" where
  "isTokenText s \<longleftrightarrow> length s = 35 \<and> s ! 0 \<in> set ''cdgikpqsuv'' \<and> s ! 1 = CHR ''.'' \<and> list_all isBase64 (take 16 (drop 2 s))
     \<and> s ! 18 = CHR ''.'' \<and> list_all isBase64 (drop 19 s)"

definition callbackReference :: "json option \<Rightarrow> string option" where
  "callbackReference v = (case v of Some (JStr s) \<Rightarrow> if isTokenText s \<and> length s \<le> 64 then Some s else None | _ \<Rightarrow> None)"

text \<open>\<open>Joi.string().allow('').max(n).required()\<close>\<close>

definition textUpTo :: "nat \<Rightarrow> json option \<Rightarrow> string option" where
  "textUpTo n v = (case v of Some (JStr s) \<Rightarrow> if length s \<le> n then Some s else None | _ \<Rightarrow> None)"

definition telegramOrderIdentitySchema :: "json option \<Rightarrow> TelegramIdentity option" where
  "telegramOrderIdentitySchema v =
     (case v of
        Some (JObj r) \<Rightarrow>
          (case (decimalIdentifier (field r ''userId''), decimalIdentifier (field r ''chatId'')) of
             (Some u, Some c) \<Rightarrow> Some \<lparr>tiUserId = u, tiChatId = c\<rparr>
           | _ \<Rightarrow> None)
      | _ \<Rightarrow> None)"

text \<open>A body is an object whose \<open>telegram\<close> names the chat; unknown keys are dropped.\<close>

definition telegramBodySchema :: "(jsobject \<Rightarrow> 'd option) \<Rightarrow> json \<Rightarrow> (TelegramIdentity \<times> 'd) option" where
  "telegramBodySchema rest body =
     (case body of
        JObj r \<Rightarrow>
          (case (telegramOrderIdentitySchema (field r ''telegram''), rest r) of
             (Some idn, Some d) \<Rightarrow> Some (idn, d)
           | _ \<Rightarrow> None)
      | _ \<Rightarrow> None)"

definition telegramOrderListSchema :: "json \<Rightarrow> (TelegramIdentity \<times> string option) option" where
  "telegramOrderListSchema = telegramBodySchema (\<lambda>r.
     if field r ''cursor'' = None then Some None else map_option Some (callbackReference (field r ''cursor'')))"

definition telegramOrderDetailSchema :: "json \<Rightarrow> (TelegramIdentity \<times> string) option" where
  "telegramOrderDetailSchema = telegramBodySchema (\<lambda>r. callbackReference (field r ''ref''))"

definition telegramOrderLookupSchema :: "json \<Rightarrow> (TelegramIdentity \<times> string) option" where
  "telegramOrderLookupSchema = telegramBodySchema (\<lambda>r. textUpTo 191 (field r ''orderNumber''))"

definition visibilitySchema :: "json option \<Rightarrow> NoteVisibility option" where
  "visibilitySchema v =
     (if v = Some (JStr ''INTERNAL'') then Some INTERNAL else if v = Some (JStr ''CUSTOMER'') then Some CUSTOMER else None)"

text \<open>Both keys of a body are there and accepted.\<close>

definition bothKeys :: "'a option \<Rightarrow> 'b option \<Rightarrow> ('a \<times> 'b) option" where
  "bothKeys a b = (case (a, b) of (Some x, Some y) \<Rightarrow> Some (x, y) | _ \<Rightarrow> None)"

definition telegramOrderNoteStartSchema :: "json \<Rightarrow> (TelegramIdentity \<times> string \<times> NoteVisibility) option" where
  "telegramOrderNoteStartSchema = telegramBodySchema (\<lambda>r.
     bothKeys (callbackReference (field r ''ref'')) (visibilitySchema (field r ''visibility'')))"

definition telegramOrderNotePrepareSchema :: "json \<Rightarrow> (TelegramIdentity \<times> string \<times> string) option" where
  "telegramOrderNotePrepareSchema = telegramBodySchema (\<lambda>r.
     bothKeys (callbackReference (field r ''ref'')) (textUpTo TELEGRAM_ORDER_NOTE_MAX_LENGTH (field r ''note'')))"

definition isTargetText :: "string \<Rightarrow> bool" where
  "isTargetText s \<longleftrightarrow> s \<noteq> [] \<and> length s \<le> 64
     \<and> list_all (\<lambda>c. isDigit c \<or> 97 \<le> codeUnit c \<and> codeUnit c \<le> 122 \<or> c = CHR ''-'') s"

definition targetSchema :: "json option \<Rightarrow> string option" where
  "targetSchema v = (case v of Some (JStr s) \<Rightarrow> if isTargetText s then Some s else None | _ \<Rightarrow> None)"

definition telegramOrderStatusUpdateSchema :: "json \<Rightarrow> (TelegramIdentity \<times> string \<times> string) option" where
  "telegramOrderStatusUpdateSchema = telegramBodySchema (\<lambda>r.
     bothKeys (callbackReference (field r ''ref'')) (targetSchema (field r ''target'')))"

section \<open>Routes\<close>

datatype ApiError = ApiUnauthorized | ApiBadRequest | ApiService ServiceError | ApiDatabase

text \<open>
  \<open>iaPresentation\<close> is there when the presentation service is: the clock it reads and the time zones \<open>Intl\<close> knows.
\<close>

record InternalApi =
  iaOrders :: WritesEnv
  iaApiKey :: string
  iaPresentation :: "(date \<times> (string \<Rightarrow> bool)) option"
  iaNoTotal :: string

type_synonym headers = "(string \<times> string) list"

definition canActivate :: "InternalApi \<Rightarrow> headers \<Rightarrow> ApiError + unit" where
  "canActivate api hs =
     (case map_of hs ''x-bot-api-key'' of
        None \<Rightarrow> Inl ApiUnauthorized
      | Some presented \<Rightarrow> if presented = [] \<or> presented \<noteq> iaApiKey api then Inl ApiUnauthorized else Inr ())"

definition assertUpdateIdHeader :: "headers \<Rightarrow> ApiError + unit" where
  "assertUpdateIdHeader hs =
     (case map_of hs ''x-telegram-update-id'' of
        None \<Rightarrow> Inl ApiUnauthorized
      | Some u \<Rightarrow> if isDecimalIdentifier u then Inr () else Inl ApiUnauthorized)"

definition activeOperation :: "('a \<Rightarrow> jsobject) \<Rightarrow> ServiceError + 'a \<Rightarrow> ApiError + jsobject" where
  "activeOperation send r =
     (case r of
        Inr x \<Rightarrow> Inr (send x)
      | Inl (EntitlementInactiveException s) \<Rightarrow> Inr [(''state'', JStr ''ENTITLEMENT_INACTIVE'')]
      | Inl e \<Rightarrow> Inl (ApiService e))"

fun planText :: "TenantPlan \<Rightarrow> string" where
  "planText FREE = ''FREE''" | "planText PRO = ''PRO''" | "planText AGENCY = ''AGENCY''"

fun entitlementStatusText :: "TenantEntitlementStatus \<Rightarrow> string" where
  "entitlementStatusText ACTIVE = ''ACTIVE''" | "entitlementStatusText SUSPENDED = ''SUSPENDED''"

fun effectiveStateText :: "EffectiveState \<Rightarrow> string" where
  "effectiveStateText EffActive = ''ACTIVE''" | "effectiveStateText EffSuspended = ''SUSPENDED''"
| "effectiveStateText EffExpired = ''EXPIRED''"

definition entitlementJson :: "TenantEntitlementSummary \<Rightarrow> json" where
  "entitlementJson e =
     JObj [(''plan'', JStr (planText (esPlan e))), (''status'', JStr (entitlementStatusText (esStatus e))),
       (''effectiveState'', JStr (effectiveStateText (esEffectiveState e))), (''expiresAt'', nullText (esExpiresAt e))]"

fun languageText :: "TenantLanguage \<Rightarrow> string" where
  "languageText FA = ''fa''" | "languageText EN = ''en''"

definition presentationJson :: "TelegramPresentation \<Rightarrow> json" where
  "presentationJson p =
     JObj ([(''language'', JStr (languageText (prLanguage p))), (''timezone'', JStr (prTimezone p))]
       @ (case prEntitlement p of Some e \<Rightarrow> [(''entitlement'', entitlementJson e)] | None \<Rightarrow> []))"

text \<open>The chat's presentation is read after the handler has run.\<close>

definition presentAnswer :: "InternalApi \<Rightarrow> OrderWritesDb \<Rightarrow> TelegramIdentity \<Rightarrow> jsobject \<Rightarrow> json" where
  "presentAnswer api db identity r =
     (case iaPresentation api of
        None \<Rightarrow> JObj r
      | Some (now, validTimezone) \<Rightarrow>
          JObj (setField ''presentation'' (presentationJson (resolvePresentation validTimezone now db identity)) r))"

definition orderRoute ::
  "(json \<Rightarrow> (TelegramIdentity \<times> 'd) option) \<Rightarrow> (TelegramIdentity \<Rightarrow> 'd \<Rightarrow> OrderWritesDb \<Rightarrow> (ApiError + jsobject) \<times> OrderWritesDb)
     \<Rightarrow> InternalApi \<Rightarrow> headers \<Rightarrow> json \<Rightarrow> OrderWritesDb \<Rightarrow> (ApiError + json) \<times> OrderWritesDb" where
  "orderRoute schema operation api hs body db =
     (case canActivate api hs of
        Inl e \<Rightarrow> (Inl e, db)
      | Inr _ \<Rightarrow>
          (case schema body of
             None \<Rightarrow> (Inl ApiBadRequest, db)
           | Some (idn, d) \<Rightarrow>
               (case assertUpdateIdHeader hs of
                  Inl e \<Rightarrow> (Inl e, db)
                | Inr _ \<Rightarrow>
                    let (r, db') = operation idn d db
                    in (map_sum id (presentAnswer api db' idn) r, db'))))"

definition apiOrders :: "InternalApi \<Rightarrow> OrdersEnv" where
  "apiOrders api = ordersEnv (iaOrders api)"

definition postOrdersList :: "InternalApi \<Rightarrow> headers \<Rightarrow> json \<Rightarrow> OrderWritesDb \<Rightarrow> (ApiError + json) \<times> OrderWritesDb" where
  "postOrdersList api = orderRoute telegramOrderListSchema (\<lambda>idn cursor db.
     map_prod (activeOperation (orderListJson (iaNoTotal api))) id (orderList (apiOrders api) idn cursor db)) api"

definition postOrdersLookup :: "InternalApi \<Rightarrow> headers \<Rightarrow> json \<Rightarrow> OrderWritesDb \<Rightarrow> (ApiError + json) \<times> OrderWritesDb" where
  "postOrdersLookup api = orderRoute telegramOrderLookupSchema (\<lambda>idn number db.
     map_prod (activeOperation detailJson) id (orderLookup (apiOrders api) idn number db)) api"

definition postOrdersDetail :: "InternalApi \<Rightarrow> headers \<Rightarrow> json \<Rightarrow> OrderWritesDb \<Rightarrow> (ApiError + json) \<times> OrderWritesDb" where
  "postOrdersDetail api = orderRoute telegramOrderDetailSchema (\<lambda>idn ref db.
     (activeOperation detailJson (orderDetail (apiOrders api) idn ref db), db)) api"

definition postOrdersRefresh :: "InternalApi \<Rightarrow> headers \<Rightarrow> json \<Rightarrow> OrderWritesDb \<Rightarrow> (ApiError + json) \<times> OrderWritesDb" where
  "postOrdersRefresh api = orderRoute telegramOrderDetailSchema (\<lambda>idn ref db.
     map_prod (activeOperation detailJson) id (orderRefresh (apiOrders api) idn ref db)) api"

definition postNoteOptions :: "InternalApi \<Rightarrow> headers \<Rightarrow> json \<Rightarrow> OrderWritesDb \<Rightarrow> (ApiError + json) \<times> OrderWritesDb" where
  "postNoteOptions api = orderRoute telegramOrderDetailSchema (\<lambda>idn ref db.
     map_prod (activeOperation noteOptionsJson) id (noteOptions (iaOrders api) idn ref db)) api"

definition postNoteStart :: "InternalApi \<Rightarrow> headers \<Rightarrow> json \<Rightarrow> OrderWritesDb \<Rightarrow> (ApiError + json) \<times> OrderWritesDb" where
  "postNoteStart api = orderRoute telegramOrderNoteStartSchema (\<lambda>idn (ref, visibility) db.
     map_prod (activeOperation noteStartJson) id (startNote (iaOrders api) idn ref visibility db)) api"

definition postNotePrepare :: "InternalApi \<Rightarrow> headers \<Rightarrow> json \<Rightarrow> OrderWritesDb \<Rightarrow> (ApiError + json) \<times> OrderWritesDb" where
  "postNotePrepare api = orderRoute telegramOrderNotePrepareSchema (\<lambda>idn (ref, note') db.
     map_prod (activeOperation notePrepareJson) id (prepareNote (iaOrders api) idn ref note' db)) api"

definition postNoteCancel :: "InternalApi \<Rightarrow> headers \<Rightarrow> json \<Rightarrow> OrderWritesDb \<Rightarrow> (ApiError + json) \<times> OrderWritesDb" where
  "postNoteCancel api = orderRoute telegramOrderDetailSchema (\<lambda>idn ref db.
     map_prod (activeOperation noteMutationJson) id (cancelNote (iaOrders api) idn ref db)) api"

definition writeOperation :: "('a \<Rightarrow> jsobject) \<Rightarrow> WriteError + 'a \<Rightarrow> ApiError + jsobject" where
  "writeOperation send r =
     (case r of
        Inr x \<Rightarrow> activeOperation send (Inr x)
      | Inl (ServiceException e) \<Rightarrow> activeOperation send (Inl e)
      | Inl OrderNotes.DatabaseError \<Rightarrow> Inl ApiDatabase)"

definition postNoteConfirm :: "InternalApi \<Rightarrow> headers \<Rightarrow> json \<Rightarrow> OrderWritesDb \<Rightarrow> (ApiError + json) \<times> OrderWritesDb" where
  "postNoteConfirm api = orderRoute telegramOrderDetailSchema (\<lambda>idn ref db.
     map_prod (writeOperation noteMutationJson) id (confirmNote (iaOrders api) idn ref db)) api"

definition postOrdersTransitions :: "InternalApi \<Rightarrow> headers \<Rightarrow> json \<Rightarrow> OrderWritesDb \<Rightarrow> (ApiError + json) \<times> OrderWritesDb" where
  "postOrdersTransitions api = orderRoute telegramOrderDetailSchema (\<lambda>idn ref db.
     map_prod (activeOperation transitionsJson) id (orderTransitions (apiOrders api) idn ref db)) api"

definition postOrdersStatus :: "InternalApi \<Rightarrow> headers \<Rightarrow> json \<Rightarrow> OrderWritesDb \<Rightarrow> (ApiError + json) \<times> OrderWritesDb" where
  "postOrdersStatus api = orderRoute telegramOrderStatusUpdateSchema (\<lambda>idn (ref, target) db.
     map_prod (activeOperation statusJson) id (updateStatus (iaOrders api) idn ref target db)) api"

end
