(* ===== verification/BotAccepts.thy ===== *)
theory BotAccepts
  imports OrderPaging BotClient InternalApi
begin

text \<open>
  The bot talking to the backend: the requests of the bot's client go to the routes of the internal API, and
  what the client hands to the bot is the result of the order service, with the chat's language, time zone
  and plan.
\<close>

section \<open>Texts the client accepts\<close>

lemma isReferenceChar_base64: "isReferenceChar = isBase64"
  by (auto simp: isReferenceChar_def isBase64_def fun_eq_iff)

lemma issued_text:
  assumes mac: "goodMac mac" and s: "shortIdPattern s"
  obtains g where "tokenForReferenceId mac p (''tcr_'' @ s) = [p] @ CHR ''.'' # s @ CHR ''.'' # g" "shortIdPattern g"
proof -
  define bytes where "bytes = take CALLBACK_SIGNATURE_BYTES (mac (signedValue p s))"
  have "length bytes = 12" "list_all (\<lambda>b. b < 256) bytes"
    using mac set_take_subset [of 12 "mac (signedValue p s)"]
    by (auto simp: goodMac_def bytes_def list_all_iff CALLBACK_SIGNATURE_BYTES_def)
  then have "shortIdPattern (toBase64 bytes)" by (simp add: shortIdPattern_def length_toBase64 toBase64_chars)
  moreover have "tokenForReferenceId mac p (''tcr_'' @ s) = [p] @ CHR ''.'' # s @ CHR ''.'' # toBase64 bytes"
    by (simp add: tokenForReferenceId_def issueToken_def startsWith_def signedValue_def bytes_def)
  ultimately show thesis using that by blast
qed

lemma token_shape:
  assumes "shortIdPattern s" and "shortIdPattern g" and t: "t = [p] @ CHR ''.'' # s @ CHR ''.'' # g"
  shows "referenceText p t" and "p \<in> set ''cdgikpqsuv'' \<Longrightarrow> isTokenText t" and "length t = 35"
proof -
  have len: "length s = 16" "length g = 16" using assms by (simp_all add: shortIdPattern_def)
  have parts: "drop 2 t = s @ CHR ''.'' # g" "drop 19 t = g" "t ! 18 = CHR ''.''"
    using len unfolding t by (simp_all add: nth_append numeral_2_eq_2)
  have chars: "list_all isBase64 s" "list_all isBase64 g" using assms by (simp_all add: shortIdPattern_def)
  show len35: "length t = 35" using len by (simp add: t)
  have "referenceText p t \<and> (p \<in> set ''cdgikpqsuv'' \<longrightarrow> isTokenText t)"
    unfolding referenceText_def isTokenText_def parts isReferenceChar_base64 len35
    using len chars by (simp add: t)
  then show "referenceText p t" "p \<in> set ''cdgikpqsuv'' \<Longrightarrow> isTokenText t" by simp_all
qed

lemma issued_accepted:
  assumes "goodMac mac" and "shortIdPattern s"
  shows "referenceText p (tokenForReferenceId mac p (''tcr_'' @ s))" "length (tokenForReferenceId mac p (''tcr_'' @ s)) = 35"
proof -
  obtain g where "tokenForReferenceId mac p (''tcr_'' @ s) = [p] @ CHR ''.'' # s @ CHR ''.'' # g" "shortIdPattern g"
    by (rule issued_text [OF assms])
  from token_shape(1,3) [OF assms(2) this(2,1)]
  show "referenceText p (tokenForReferenceId mac p (''tcr_'' @ s))" "length (tokenForReferenceId mac p (''tcr_'' @ s)) = 35" .
qed

lemma verified_accepted:
  assumes "goodMac mac" and "p \<noteq> CHR ''.''" and "parseAndVerifyToken mac t p = Some i"
  shows "referenceText p t" "length t = 35"
proof -
  from assms obtain s where s: "shortIdPattern s" "i = ''tcr_'' @ s" "t = tokenForReferenceId mac p i"
    using verify_only [of "''tcr_''" mac t p i] unfolding parseAndVerifyToken_def tokenForReferenceId_def by blast
  from issued_accepted [OF assms(1) s(1)] show "referenceText p t" "length t = 35" by (simp_all only: s(2,3))
qed

lemma day_bounds:
  assumes "0 \<le> y" "y \<le> 9999" "1 \<le> m" "m \<le> 12" "1 \<le> d" "d \<le> (31 :: int)"
  shows "\<bar>daysFromCivil y m d\<bar> \<le> 4000000"
proof -
  define y' where "y' = (if m \<le> 2 then y - 1 else y)"
  define doy where "doy = (153 * (if 2 < m then m - 3 else m + 9) + 2) div 5 + d - 1"
  have y: "- 1 \<le> y'" "y' \<le> 9999" and doy: "0 \<le> doy" "doy \<le> 400" using assms by (auto simp: y'_def doy_def)
  have "daysFromCivil y m d = (y' div 400) * 146097 + (y' mod 400) * 365 + (y' mod 400) div 4 - (y' mod 400) div 100 + doy - 719468"
    by (simp add: daysFromCivil_def y'_def doy_def Let_def)
  moreover have "- 1 \<le> y' div 400" "y' div 400 \<le> 24" using y by auto
  moreover have "0 \<le> y' mod 400" "y' mod 400 < 400" by simp_all
  moreover have "0 \<le> (y' mod 400) div 4" "(y' mod 400) div 4 \<le> 100" "0 \<le> (y' mod 400) div 100" "(y' mod 400) div 100 \<le> 4"
    using \<open>0 \<le> y' mod 400\<close> \<open>y' mod 400 < 400\<close> by auto
  ultimately show ?thesis using doy by linarith
qed

lemma iso_accepted:
  assumes "plainInstant t"
  shows "isIsoText (toISOString t)"
proof -
  note p = parse_toISOString [OF assms]
  obtain c cs where cs: "toISOString t = c # cs" and c: "isDigit c" using p(3,9) by (cases "toISOString t") auto
  have "take 1 (toISOString t) \<noteq> ''+''" "take 1 (toISOString t) \<noteq> ''-''" using c unfolding cs by (auto simp: isDigit_def codeUnit_def)
  then have inst: "isoInstant (toISOString t) = t"
    using p(10) by (simp add: isoInstant_def spelledInstant_def numAt_def add.commute)
  obtain y m d where "daysFromCivil y m d = t div 86400000" "0 \<le> y" "y \<le> 9999" "1 \<le> m" "m \<le> 12" "1 \<le> d" "d \<le> 31"
    by (rule toISOString_fields [OF assms])
  with day_bounds [of y m d] have "\<bar>t div 86400000\<bar> \<le> 4000000" by simp
  then have "\<bar>t\<bar> \<le> 8640000000000000" using mult_div_mod_eq [of 86400000 t] pos_mod_bound [of 86400000 t]
      pos_mod_sign [of 86400000 t] by linarith
  with inst show ?thesis by (simp add: isIsoText_def)
qed

section \<open>Answers the client accepts\<close>

lemmas field_simps = field_def recordOf_def requireRecordOf_def checkThat_def isText_def isBool_def isNumber_def theField_def

lemma reference_check [simp]: "isCallbackReference p (Some (JStr s)) \<longleftrightarrow> referenceText p s"
  by (auto simp: isCallbackReference_def referenceText_def)

lemma nullable_check: "nullOr (isCallbackReference p) (Some (nullText v)) \<longleftrightarrow> (\<forall>s. v = Some s \<longrightarrow> referenceText p s)"
  by (cases v) (simp_all add: nullOr_def nullText_def)

lemma freshness_check: "isFreshness (Some (freshnessJson f)) \<longleftrightarrow> isIsoText (frAsOf f)"
  by (simp add: isFreshness_def freshnessJson_def field_simps isIsoDate_def)

definition summaryOk :: "OrderSummary \<Rightarrow> bool" where
  "summaryOk s \<longleftrightarrow> referenceText (CHR ''d'') (smRef s) \<and> isIsoText (smCreatedAt s)"

definition listOk :: "OrderList \<Rightarrow> bool" where
  "listOk l \<longleftrightarrow> (\<forall>s \<in> set (olOrders l). summaryOk s) \<and> (\<forall>t. olNext l = Some t \<longrightarrow> referenceText (CHR ''p'') t)
     \<and> (\<forall>t. olPrevious l = Some t \<longrightarrow> referenceText (CHR ''p'') t) \<and> isIsoText (frAsOf (olFreshness l))"

lemma summary_parsed: "summaryOk s \<Longrightarrow> parseOrderSummary (orderSummaryJson d s) = Inr (orderSummaryJson d s)"
  by (simp add: parseOrderSummary_def orderSummaryJson_def field_simps isIsoDate_def summaryOk_def)

lemma summaries_parsed:
  "\<forall>s \<in> set ss. summaryOk s \<Longrightarrow> mapThrow parseOrderSummary (map (orderSummaryJson d) ss) = Inr (map (orderSummaryJson d) ss)"
  by (induction ss) (simp_all add: summary_parsed)

lemma list_state: "listStateText st \<in> set ORDER_LIST_STATES" "listStateText st \<noteq> ''ENTITLEMENT_INACTIVE''"
  by (cases st; simp add: ORDER_LIST_STATES_def)+

lemma list_parsed:
  assumes "listOk l"
  shows "parseOrderListResult (JObj (orderListJson d l @ extra)) = Inr (JObj (orderListJson d l))"
proof -
  have "\<forall>s \<in> set (olOrders l). summaryOk s" using assms by (simp add: listOk_def)
  note rows = summaries_parsed [OF this]
  from assms show ?thesis
    unfolding parseOrderListResult_def orderListJson_def isNullableCallbackReference_def
    by (simp add: field_simps inactiveState_def rows list_state textOf_def nullable_check freshness_check listOk_def)
qed

section \<open>The presentation\<close>

definition presentationOk :: "TelegramPresentation \<Rightarrow> bool" where
  "presentationOk p \<longleftrightarrow> prTimezone p \<noteq> [] \<and> length (prTimezone p) \<le> 64
     \<and> (\<forall>e t. prEntitlement p = Some e \<longrightarrow> esExpiresAt e = Some t \<longrightarrow> isIsoText t)"

text \<open>What the bot takes from the presentation; its own defaults when the backend sends none.\<close>

definition botPresentation :: "TelegramPresentation option \<Rightarrow> json" where
  "botPresentation p =
     (case p of
        None \<Rightarrow> JObj [(''language'', JStr ''en''), (''timezone'', JStr ''UTC''), (''entitlement'', JNull)]
      | Some q \<Rightarrow>
          JObj [(''language'', JStr (languageText (prLanguage q))), (''timezone'', JStr (prTimezone q)),
            (''entitlement'', case prEntitlement q of Some e \<Rightarrow> entitlementJson e | None \<Rightarrow> JNull)])"

definition chatPresentation :: "InternalApi \<Rightarrow> OrderWritesDb \<Rightarrow> TelegramIdentity \<Rightarrow> TelegramPresentation option" where
  "chatPresentation api db identity =
     map_option (\<lambda>(now, validTimezone). resolvePresentation validTimezone now db identity) (iaPresentation api)"

definition withPresentation :: "TelegramPresentation option \<Rightarrow> jsobject \<Rightarrow> jsobject" where
  "withPresentation p r = (case p of None \<Rightarrow> r | Some q \<Rightarrow> r @ [(''presentation'', presentationJson q)])"

lemma setField_new: "field r k = None \<Longrightarrow> setField k v r = r @ [(k, v)]"
  by (induction r rule: setField.induct) (auto simp: field_def split: if_splits)

lemma presentAnswer_new:
  "field r ''presentation'' = None \<Longrightarrow> presentAnswer api db idn r = JObj (withPresentation (chatPresentation api db idn) r)"
  by (auto simp: presentAnswer_def withPresentation_def chatPresentation_def setField_new split: option.split)

lemma entitlement_check: "isEntitlementSummary (Some (entitlementJson e)) \<longleftrightarrow> (\<forall>t. esExpiresAt e = Some t \<longrightarrow> isIsoText t)"
proof -
  have "planText (esPlan e) \<in> {''FREE'', ''PRO'', ''AGENCY''}" "entitlementStatusText (esStatus e) \<in> {''ACTIVE'', ''SUSPENDED''}"
    "effectiveStateText (esEffectiveState e) \<in> {''ACTIVE'', ''SUSPENDED'', ''EXPIRED''}"
    by (cases "esPlan e"; cases "esStatus e"; cases "esEffectiveState e"; simp)+
  then show ?thesis
    by (cases "esExpiresAt e") (simp_all add: isEntitlementSummary_def entitlementJson_def field_simps textOf_def nullOr_def
        nullText_def isIsoDate_def)
qed

lemma attach_answer:
  assumes "field r ''presentation'' = None" "field result ''presentation'' = None"
    and "\<forall>q. p = Some q \<longrightarrow> presentationOk q"
  shows "attachPresentation (JObj (withPresentation p r)) (JObj result) = JObj (result @ [(''presentation'', botPresentation p)])"
proof (cases p)
  case None
  with assms show ?thesis
    by (simp add: attachPresentation_def withPresentation_def recordOf_def spread_def setField_new textOr_def
        botPresentation_def parseOptionalEntitlementSummary_def isEntitlementSummary_def)
next
  case (Some q)
  have lang: "take 16 (languageText (prLanguage q)) = languageText (prLanguage q)" "languageText (prLanguage q) \<noteq> []"
    by (cases "prLanguage q"; simp)+
  have "field (r @ [(''presentation'', v)]) ''presentation'' = Some v" for v
    using assms(1) by (simp add: field_def map_add_def split: option.split)
  with Some assms lang show ?thesis
    by (cases "prEntitlement q") (simp_all add: attachPresentation_def withPresentation_def recordOf_def spread_def setField_new
        textOr_def botPresentation_def presentationJson_def field_def presentationOk_def parseOptionalEntitlementSummary_def
        entitlement_check isEntitlementSummary_def [of None])
qed

section \<open>One order\<close>

definition liveOk :: "OrderDetail \<Rightarrow> bool" where
  "liveOk d \<longleftrightarrow> isIsoText (odCreatedAt d) \<and> isIsoText (odModifiedAt d)
     \<and> (\<forall>i \<in> set (odLineItems d). isText (Some (liQuantity i)) \<or> isNumber (Some (liQuantity i)))
     \<and> (\<forall>(k, x) \<in> set (odTotals d). isText (Some x) \<or> isNumber (Some x))"

definition tokenOk :: "char \<Rightarrow> string option \<Rightarrow> bool" where
  "tokenOk p t \<longleftrightarrow> (\<forall>s. t = Some s \<longrightarrow> referenceText p s)"

definition detailOk :: "DetailResult \<Rightarrow> bool" where
  "detailOk d \<longleftrightarrow> isIsoText (frAsOf (dtFreshness d)) \<and> tokenOk (CHR ''p'') (dtBackCursor d)
     \<and> tokenOk (CHR ''d'') (dtTransitionsRef d) \<and> tokenOk (CHR ''d'') (dtRefreshRef d) \<and> tokenOk (CHR ''d'') (dtAddNoteRef d)
     \<and> (\<forall>o'. dtOrder d = Some (LiveOrder o') \<longrightarrow> liveOk o')
     \<and> (dtState d = DetailOk \<longrightarrow> (\<exists>o'. dtOrder d = Some (LiveOrder o')))
     \<and> (dtState d = DetailDeleted \<longrightarrow> (\<exists>o'. dtOrder d = Some (DeletedOrder o')))"

lemma payload_parsed:
  assumes "\<forall>o'. s = LiveOrder o' \<longrightarrow> liveOk o'"
  shows "parseOrderDetailPayload (Some (JObj (shownOrderFields s))) = Inr (shownOrderFields s)"
proof (cases s)
  case (LiveOrder d)
  have "isOrderLineItem (Some (lineItemJson i))" if "isText (Some (liQuantity i)) \<or> isNumber (Some (liQuantity i))" for i
    using that by (simp add: isOrderLineItem_def lineItemJson_def field_simps)
  moreover have "isPaymentContext (Some (paymentJson p))" for p
    by (cases "pvMethod p") (simp_all add: isPaymentContext_def paymentJson_def field_simps nullOr_def nullText_def)
  moreover have "isShippingContext (Some (shippingJson q))" for q
    by (simp add: isShippingContext_def shippingJson_def field_simps isArrayOf_def list_all_iff)
  ultimately have "liveOrderPayload (orderDetailFields d)"
    using assms LiveOrder
    by (auto simp: liveOrderPayload_def orderDetailFields_def field_def isText_def isIsoDate_def liveOk_def isArrayOf_def
        isScalarRecord_def recordOf_def absentOr_def list_all_iff)
  then show ?thesis
    by (simp add: parseOrderDetailPayload_def LiveOrder shownOrderFields_def requireRecordOf_def recordOf_def checkThat_def)
      (simp add: orderDetailFields_def field_simps)
next
  case (DeletedOrder m)
  then show ?thesis
    by (simp add: parseOrderDetailPayload_def shownOrderFields_def deletedMarkerFields_def field_simps)
qed

lemma remoteDeleted_fields:
  "field (shownOrderFields (LiveOrder d)) ''remoteDeleted'' = Some (JBool False)"
  "field (shownOrderFields (DeletedOrder m)) ''remoteDeleted'' = Some (JBool True)"
  by (simp_all add: shownOrderFields_def orderDetailFields_def deletedMarkerFields_def field_def)

lemma detail_fields:
  assumes "extra = [] \<or> (\<exists>v. extra = [(''presentation'', v)])"
  shows "field (detailJson d @ extra) ''state'' = Some (JStr (detailStateText (dtState d)))"
    "field (detailJson d @ extra) ''order'' = map_option (\<lambda>s. JObj (shownOrderFields s)) (dtOrder d)"
    "field (detailJson d @ extra) ''backCursor'' = map_option JStr (dtBackCursor d)"
    "field (detailJson d @ extra) ''transitionsRef'' = map_option JStr (dtTransitionsRef d)"
    "field (detailJson d @ extra) ''refreshRef'' = map_option JStr (dtRefreshRef d)"
    "field (detailJson d @ extra) ''addNoteRef'' = map_option JStr (dtAddNoteRef d)"
    "field (detailJson d @ extra) ''freshness'' = Some (freshnessJson (dtFreshness d))"
  using assms
  by (auto simp: detailJson_def field_def orderJson_def givenText_def map_add_def split: option.splits)

lemma detail_state:
  "detailStateText st \<noteq> ''ENTITLEMENT_INACTIVE''" "detailStateText st = ''OK'' \<longleftrightarrow> st = DetailOk"
  "detailStateText st = ''DELETED'' \<longleftrightarrow> st = DetailDeleted"
  by (cases st; simp)+

lemma kept_text:
  "field r k = map_option JStr v \<Longrightarrow> keepText r k = givenText k v"
  "field r k = map_option JStr v \<Longrightarrow> absentOr (isCallbackReference p) (field r k) \<longleftrightarrow> tokenOk p v"
  by (cases v; simp add: keepText_def givenText_def absentOr_def tokenOk_def)+

lemma detail_parsed:
  assumes ok: "detailOk d" and st: "detailStateText (dtState d) \<in> set states"
    and extra: "extra = [] \<or> (\<exists>v. extra = [(''presentation'', v)])"
  shows "parseOrderDetailLike states (Some (JObj (detailJson d @ extra))) = Inr (JObj (detailJson d))"
proof -
  let ?r = "detailJson d @ extra"
  note f = detail_fields [OF extra, of d]
  note kept = kept_text [OF f(3)] kept_text [OF f(4)] kept_text [OF f(5)] kept_text [OF f(6)]
  have order: "optionalOrder ?r = Inr (map_option shownOrderFields (dtOrder d))"
    using ok payload_parsed by (cases "dtOrder d") (auto simp: optionalOrder_def f(2) detailOk_def)
  have fits: "orderFits (field ?r ''state'') (map_option shownOrderFields (dtOrder d))"
    using ok by (auto simp: orderFits_def f(1) detail_state detailOk_def remoteDeleted_fields)
  have shown: "orderField (map_option shownOrderFields (dtOrder d)) = orderJson (dtOrder d)"
    by (simp add: orderField_def orderJson_def split: option.split)
  have "\<not> inactiveState ?r" "textOf (field ?r ''state'') \<in> set states" "isFreshness (field ?r ''freshness'')"
    using ok st by (simp_all add: inactiveState_def f(1,7) detail_state textOf_def freshness_check detailOk_def)
  moreover have "tokenOk (CHR ''p'') (dtBackCursor d)" "tokenOk (CHR ''d'') (dtTransitionsRef d)" "tokenOk (CHR ''d'') (dtRefreshRef d)"
    "tokenOk (CHR ''d'') (dtAddNoteRef d)" using ok by (simp_all add: detailOk_def)
  ultimately have "parseOrderDetailLike states (Some (JObj ?r)) = Inr (JObj ([(''state'', theField ?r ''state'')]
      @ orderField (map_option shownOrderFields (dtOrder d)) @ keepText ?r ''backCursor'' @ keepText ?r ''transitionsRef''
      @ keepText ?r ''refreshRef'' @ keepText ?r ''addNoteRef'' @ [(''freshness'', theField ?r ''freshness'')]))"
    using kept order fits by (simp add: parseOrderDetailLike_def requireRecordOf_def recordOf_def)
  then show ?thesis by (simp add: kept shown theField_def f(1,7)) (simp add: detailJson_def)
qed

section \<open>What the order service answers\<close>

definition issuedId :: "string \<Rightarrow> bool" where
  "issuedId i \<longleftrightarrow> (\<exists>s. shortIdPattern s \<and> i = ''tcr_'' @ s)"

definition plainOrder :: "OrderRow \<Rightarrow> bool" where
  "plainOrder r \<longleftrightarrow> plainInstant (wcCreatedAt r) \<and> plainInstant (wcModifiedAt r) \<and> plainInstant (lastSyncedAt r)"

text \<open>Dates of four-digit years, and references that lead back to references the service made.\<close>

definition plainDb :: "'x TelegramDb_scheme \<Rightarrow> bool" where
  "plainDb db \<longleftrightarrow> (\<forall>r \<in> set (tgOrders db). plainOrder r)
     \<and> (\<forall>r \<in> set (tgReferences db). \<forall>b. rfBackReferenceId r = Some b \<longrightarrow> issuedId b)"

definition soundEnv :: "OrdersEnv \<Rightarrow> bool" where
  "soundEnv env \<longleftrightarrow> goodMac (teMac env) \<and> (\<forall>n. shortIdPattern (teShortId env n))"

lemma issued_token: "goodMac mac \<Longrightarrow> issuedId i \<Longrightarrow> referenceText p (tokenForReferenceId mac p i)"
  unfolding issuedId_def using issued_accepted(1) by blast

lemma epoch_plain: "plainInstant 0"
  by code_simp

lemma freshness_iso: "(\<And>t. asOf = Some t \<Longrightarrow> plainInstant t) \<Longrightarrow> isIsoText (frAsOf (freshness env now asOf))"
  by (cases asOf) (simp_all add: freshness_def Let_def iso_accepted epoch_plain)

lemma freshness_none [simp]: "isIsoText (frAsOf (freshness env now None))"
  by (rule freshness_iso) simp

lemma latestSync_plain:
  assumes "\<forall>r \<in> set page. plainOrder r" and "latestSync page = Some t"
  shows "plainInstant t"
proof -
  have "\<forall>t. latestSync page = Some t \<longrightarrow> plainInstant t"
    unfolding latestSync_def
    by (rule fold_invariant [where Q = plainOrder]) (use assms(1) in \<open>auto simp: plainOrder_def split: option.splits\<close>)
  with assms(2) show ?thesis by blast
qed

lemma set_pageOf: "set (pageOf dir records) \<subseteq> set records"
  by (auto simp: pageOf_def Let_def dest: in_set_takeD)

lemma set_queryPage: "set (queryPage db cx dir c i) \<subseteq> set (tgOrders db)"
  by (auto simp: queryPage_def sortedOrders_def findMany_def Let_def dest!: in_set_takeD split: if_splits)

lemma listPage_accepted:
  assumes env: "soundEnv env" and db: "plainDb db" and run: "listPage env cx c db = (l, db')"
  shows "listOk l"
proof -
  define page where "page = pageOf (pcDirection c) (queryPage db cx (pcDirection c) (pcCreatedAt c) (pcOrderId c))"
  have plain: "\<forall>r \<in> set page. plainOrder r"
    using db set_pageOf set_queryPage unfolding plainDb_def page_def by blast
  have ids: "issuedId (''tcr_'' @ teShortId env n)" for n using env unfolding issuedId_def soundEnv_def by blast
  have mac: "goodMac (teMac env)" using env by (simp add: soundEnv_def)
  have tokens: "referenceText p (ordersToken env p r)" if "rfId r = ''tcr_'' @ teShortId env n" for p r n
    unfolding ordersToken_def that by (rule issued_token [OF mac ids])
  have rows: "summaryOk (toOrderSummary r t)" if "r \<in> set page" "referenceText (CHR ''d'') t" for r t
    using plain that by (simp add: summaryOk_def toOrderSummary_def plainOrder_def iso_accepted)
  have fresh: "isIsoText (frAsOf (freshness e now (latestSync page)))" for e now
    by (rule freshness_iso) (rule latestSync_plain [OF plain])
  have nxt: "referenceText p (ordersToken env p r)"
    if "nextPageReference env cx c page m (teShortId env n) e = Some r" for p r m n e by (rule tokens [OF next_id(1) [OF that]])
  have prev: "referenceText p (ordersToken env p r)"
    if "previousPageReference env cx c page (teShortId env n) e = Some r" for p r n e by (rule tokens [OF next_id(2) [OF that]])
  have l: "l = fst (listPage env cx c db)" using run by simp
  have details: "referenceText (CHR ''d'') (ordersToken env (CHR ''d'') d)"
    if "d \<in> set (map (\<lambda>(r, k). detailReference cx (wcOrderId r) bk (teShortId env (Suc k)) e) zs)" for d bk zs e
    using that by (auto simp del: append.simps intro!: tokens [OF rfId_contextReference(3)])
  have "\<forall>s \<in> set (olOrders l). summaryOk s"
    unfolding l listPage_def Let_def page_def [symmetric] fst_conv OrderList.simps
    unfolding set_map by (auto simp del: append.simps set_map intro!: rows details dest: set_zip_leftD set_zip_rightD)
  moreover have "\<forall>t. olNext l = Some t \<longrightarrow> referenceText (CHR ''p'') t"
    unfolding l listPage_def Let_def page_def [symmetric] fst_conv OrderList.simps using nxt by (simp del: add_2_eq_Suc') blast
  moreover have "\<forall>t. olPrevious l = Some t \<longrightarrow> referenceText (CHR ''p'') t"
    unfolding l listPage_def Let_def page_def [symmetric] fst_conv OrderList.simps using prev by simp blast
  moreover have "isIsoText (frAsOf (olFreshness l))"
    unfolding l listPage_def Let_def page_def [symmetric] fst_conv OrderList.simps by (rule fresh)
  ultimately show ?thesis by (simp add: listOk_def)
qed

lemma emptyOrderList_accepted: "listOk (emptyOrderList env now st)"
  by (simp add: listOk_def emptyOrderList_def freshness_iso)

lemma orderList_accepted:
  assumes "soundEnv env" "plainDb db" "fst (orderList env idn cursor db) = Inr l"
  shows "listOk l"
  using assms(3) listPage_accepted [OF assms(1,2)] emptyOrderList_accepted
  by (auto simp: orderList_def Let_def map_prod_def split: ContextResolution.splits sum.splits if_splits prod.splits)

lemma emptyDetail_accepted: "st \<noteq> DetailOk \<Longrightarrow> st \<noteq> DetailDeleted \<Longrightarrow> detailOk (emptyDetail env now st)"
  by (simp add: detailOk_def emptyDetail_def freshness_iso tokenOk_def)

lemma toDetail_accepted:
  assumes "plainOrder r"
  shows "liveOk (toDetail r)"
proof -
  have scalar: "isText (Some v) \<or> isNumber (Some v)" if "scalarText (Some v) \<noteq> None" for v
    using that by (cases v) (simp_all add: scalarText_def isText_def isNumber_def)
  have "\<forall>i \<in> set (safeLineItems v). scalarText (Some (liQuantity i)) \<noteq> None" for v
    by (auto simp: safeLineItems_def safeLineItem_def Let_def split: json.splits option.splits if_splits)
  moreover have "\<forall>(k, x) \<in> set (safeTotals v). scalarText (Some x) \<noteq> None" for v
    by (auto simp: safeTotals_def split: json.splits)
  ultimately show ?thesis
    using assms scalar by (fastforce simp: liveOk_def toDetail_def plainOrder_def iso_accepted)
qed

lemma shownDetail_accepted:
  assumes "soundEnv env" and "issuedId bk" and "referenceText (CHR ''d'') token"
    and "\<And>r. found = Some r \<Longrightarrow> plainOrder r"
  shows "detailOk (shownDetail env cx token bk found now)"
proof -
  have cur: "referenceText (CHR ''p'') (backCursor env bk)"
    using assms(1,2) by (simp add: backCursor_def issued_token soundEnv_def)
  show ?thesis
  proof (cases found)
    case None
    with cur show ?thesis by (simp add: shownDetail_def detailOk_def emptyDetail_def freshness_iso tokenOk_def)
  next
    case (Some r)
    with assms(4) have r: "plainOrder r" by simp
    then have "isIsoText (frAsOf (freshness e now (Some (lastSyncedAt r))))" for e
      by (intro freshness_iso) (simp add: plainOrder_def)
    with Some cur assms(3) toDetail_accepted [OF r] show ?thesis
      by (simp add: shownDetail_def Let_def detailOk_def emptyDetail_def tokenOk_def)
  qed
qed

lemma validated:
  assumes "soundEnv env" and "validateReference (shortTelegramEnv env) now db token ORDER_DETAIL cx = Some r"
  shows "referenceText (CHR ''d'') token" and "r \<in> set (tgReferences db)"
proof -
  from assms(2) obtain i where i: "parseAndVerifyToken (teMac env) token (CHR ''d'') = Some i" "findReference db i = Some r"
    by (auto simp: validateReference_def referencePrefix_def shortTelegramEnv_def TelegramEnv.truncate_def
        split: option.splits if_splits)
  show "referenceText (CHR ''d'') token"
    by (rule verified_accepted(1) [OF _ _ i(1)]) (use assms(1) in \<open>simp_all add: soundEnv_def\<close>)
  show "r \<in> set (tgReferences db)" using i(2) by (auto simp: findReference_def dest!: findFirst_Some)
qed

lemma orderDetail_accepted:
  assumes env: "soundEnv env" and db: "plainDb db" and run: "orderDetail env idn token db = Inr d"
  shows "detailOk d \<and> dtState d \<in> {DetailOk, DetailNotFound, DetailDeleted, DetailContextChanged, DetailNoActiveStore, DetailUnauthorized}"
proof (cases "resolveContext db idn")
  case (ContextOk cx)
  let ?v = "validateReference (shortTelegramEnv env) (teClock env 0) db token ORDER_DETAIL cx"
  show ?thesis
  proof (cases "referenceTarget ?v")
    case None
    with run ContextOk show ?thesis by (simp add: orderDetail_def) (auto simp: emptyDetail_accepted, simp add: emptyDetail_def)
  next
    case (Some x)
    then obtain r w bk where v: "?v = Some r" "rfBackReferenceId r = Some bk" and x: "x = (r, w, bk)"
      by (auto simp: referenceTarget_def split: option.splits if_splits)
    note ref = validated [OF env v(1)]
    have bk: "issuedId bk" using db ref(2) v(2) unfolding plainDb_def by blast
    from run ContextOk Some x have d: "d = shownDetail env cx token bk (findContextOrder db cx w) (teClock env 2)"
      by (auto simp: orderDetail_def andThen_Inr_iff)
    have "plainOrder r" if "findContextOrder db cx w = Some r" for r
      using that db by (auto simp: findContextOrder_def plainDb_def dest!: findFirst_Some)
    from shownDetail_accepted [OF env bk ref(1) this] show ?thesis
      unfolding d by (auto simp: shownDetail_def Let_def emptyDetail_def split: option.split)
  qed
qed (use run in \<open>auto simp: orderDetail_def unresolvedDetail_def emptyDetail_accepted\<close>, (simp add: emptyDetail_def)+)

lemma later_sound: "soundEnv env \<Longrightarrow> soundEnv (later k env)"
  by (simp add: soundEnv_def later_def)

lemma openDetail_accepted:
  assumes env: "soundEnv env" and db: "plainDb db" and run: "fst (openDetail env idn cx w db) = Inr d"
  shows "detailOk d \<and> dtState d \<in> {DetailOk, DetailNotFound, DetailDeleted, DetailContextChanged, DetailNoActiveStore, DetailUnauthorized}"
proof -
  have "issuedId (''tcr_'' @ teShortId env n)" for n using env unfolding issuedId_def soundEnv_def by blast
  then have "plainDb (addReferences [fst (openReferences env cx w (teClock env 1)), snd (openReferences env cx w (teClock env 1))] db)"
    using db by (auto simp: plainDb_def openReferences_def Let_def listReference_def detailReference_def contextReference_def
        simp del: append.simps)
  from orderDetail_accepted [OF later_sound [OF env] this] run show ?thesis
    by (auto simp: openDetail_def Let_def case_prod_beta)
qed

lemma orderLookup_accepted:
  assumes "soundEnv env" and "plainDb db" and "fst (orderLookup env idn n db) = Inr d"
  shows "detailOk d \<and> dtState d \<in> {DetailOk, DetailNotFound, DetailDeleted, DetailContextChanged, DetailNoActiveStore, DetailUnauthorized,
    DetailMalformedOrderNumber, DetailAmbiguous}"
proof -
  have e: "st \<noteq> DetailOk \<Longrightarrow> st \<noteq> DetailDeleted \<Longrightarrow> detailOk (emptyDetail env now st)" "dtState (emptyDetail env now st) = st" for now st
    by (simp_all add: emptyDetail_accepted) (simp add: emptyDetail_def)
  show ?thesis
    using assms(3) openDetail_accepted [OF assms(1,2)]
    by (fastforce simp: orderLookup_def unresolvedDetail_def e split: ContextResolution.splits sum.splits if_splits list.splits)
qed

section \<open>The bot connected to the backend\<close>

definition postOrders ::
  "InternalApi \<Rightarrow> string \<Rightarrow> headers \<Rightarrow> json \<Rightarrow> OrderWritesDb \<Rightarrow> (ApiError + json) \<times> OrderWritesDb" where
  "postOrders api path hs body db =
     (if path = ''orders/list'' then postOrdersList api hs body db
      else if path = ''orders/lookup'' then postOrdersLookup api hs body db
      else if path = ''orders/detail'' then postOrdersDetail api hs body db
      else if path = ''orders/refresh'' then postOrdersRefresh api hs body db
      else if path = ''orders/notes/options'' then postNoteOptions api hs body db
      else if path = ''orders/notes/start'' then postNoteStart api hs body db
      else if path = ''orders/notes/prepare'' then postNotePrepare api hs body db
      else if path = ''orders/notes/cancel'' then postNoteCancel api hs body db
      else if path = ''orders/notes/confirm'' then postNoteConfirm api hs body db
      else if path = ''orders/transitions'' then postOrdersTransitions api hs body db
      else if path = ''orders/status'' then postOrdersStatus api hs body db
      else (Inl (ApiService (NotFoundException path)), db))"

definition httpAnswer :: "ApiError + json \<Rightarrow> HttpAnswer" where
  "httpAnswer r = (case r of Inr v \<Rightarrow> Response True (Some v) | Inl _ \<Rightarrow> Response False None)"

text \<open>A bot whose requests reach the backend under the configured address and are answered in time.\<close>

definition connectedBot :: "InternalApi \<Rightarrow> OrderWritesDb \<Rightarrow> string \<Rightarrow> string \<Rightarrow> BotHttp" where
  "connectedBot api db base apiKey =
     \<lparr>bhRequest = (\<lambda>url hs body timeout.
        let root = base @ ''/internal/telegram/''
        in if startsWith root url then httpAnswer (fst (postOrders api (drop (length root) url) hs body db)) else RequestFailed),
      bhBackendInternalUrl = base, bhInternalApiKey = apiKey, bhBackendTimeoutMs = None, bhStatusWriteTimeoutMs = None\<rparr>"

definition goodIdentity :: "BotIdentity \<Rightarrow> bool" where
  "goodIdentity who \<longleftrightarrow> isDecimalIdentifier (biTelegramUserId who) \<and> isDecimalIdentifier (biTelegramChatId who)
     \<and> isDecimalIdentifier (biUpdateId who)"

definition chatOf :: "BotIdentity \<Rightarrow> TelegramIdentity" where
  "chatOf who = \<lparr>tiUserId = int (readNat (biTelegramUserId who)), tiChatId = int (readNat (biTelegramChatId who))\<rparr>"

definition botHeaders :: "BotIdentity \<Rightarrow> string \<Rightarrow> headers" where
  "botHeaders who apiKey = [(''content-type'', ''application/json''), (''x-bot-api-key'', apiKey),
     (''x-correlation-id'', ''telegram-update-'' @ biUpdateId who), (''x-telegram-update-id'', biUpdateId who)]"

lemma postTo_connected:
  "postTo (connectedBot api db base apiKey) t path who body =
     (case fst (postOrders api path (botHeaders who apiKey) (JObj body) db) of Inr v \<Rightarrow> Inr v | Inl _ \<Rightarrow> Inl BackendUnavailableError)"
proof -
  define root where "root = base @ ''/internal/telegram/''"
  have "startsWith root (root @ path)" "drop (length root) (root @ path) = path" by (simp_all add: startsWith_def)
  moreover have "base @ ''/internal/telegram/'' @ path = root @ path" by (simp add: root_def)
  ultimately show ?thesis
    unfolding postTo_def connectedBot_def BotHttp.simps root_def [symmetric] Let_def botHeaders_def
    by (simp only: httpAnswer_def if_True) (auto split: sum.split)
qed

lemma body_schema:
  assumes "goodIdentity who"
  shows "telegramBodySchema rest (JObj (telegramBody who @ body)) = map_option (Pair (chatOf who)) (rest (telegramBody who @ body))"
  using assms
  by (simp add: telegramBodySchema_def telegramBody_def field_def telegramOrderIdentitySchema_def decimalIdentifier_def
      goodIdentity_def chatOf_def split: option.split)

lemma body_field: "k \<noteq> ''telegram'' \<Longrightarrow> field (telegramBody who @ body) k = field body k"
  by (simp add: telegramBody_def field_def map_add_def split: option.split)

lemma bot_admitted:
  assumes "goodIdentity who" and "apiKey = iaApiKey api" and "apiKey \<noteq> []"
  shows "canActivate api (botHeaders who apiKey) = Inr ()" "assertUpdateIdHeader (botHeaders who apiKey) = Inr ()"
  using assms by (simp_all add: canActivate_def assertUpdateIdHeader_def botHeaders_def goodIdentity_def)

lemma activeOperation_new:
  assumes "activeOperation send r = Inr v" and "\<And>x. field (send x) ''presentation'' = None"
  shows "field v ''presentation'' = None"
  using assms by (auto simp: activeOperation_def field_def split: sum.splits ServiceError.splits)

lemma soundPresentation:
  assumes "\<forall>t \<in> set (tgTenants db). \<forall>e. tnEntitlementExpiresAt t = Some e \<longrightarrow> plainInstant e"
    and "\<forall>now valid. iaPresentation api = Some (now, valid) \<longrightarrow> (\<forall>z. valid z \<longrightarrow> z \<noteq> [] \<and> length z \<le> 64)"
    and "chatPresentation api db idn = Some q"
  shows "presentationOk q"
proof -
  obtain now valid where api: "iaPresentation api = Some (now, valid)" and q: "q = resolvePresentation valid now db idn"
    using assms(3) by (auto simp: chatPresentation_def)
  have utc: "presentationOk DEFAULT_TELEGRAM_PRESENTATION"
    by (simp add: presentationOk_def DEFAULT_TELEGRAM_PRESENTATION_def)
  have "presentationOk (tenantPresentation valid now t)" if "t \<in> set (tgTenants db)" for t
    using assms(1,2) api that
    by (auto simp: presentationOk_def tenantPresentation_def rowSummary_def toSummary_def iso_accepted)
  moreover have "presentedTenant db a tn = Some t \<Longrightarrow> t \<in> set (tgTenants db)" for a tn t
    by (auto simp: presentedTenant_def dest!: findFirst_Some split: if_splits)
  ultimately show ?thesis unfolding q by (auto simp: resolvePresentation_def utc split: option.splits)
qed

text \<open>Documented behaviour of \<open>Intl\<close> and the columns: known time zones have short names, dates have four-digit years.\<close>

definition readySystem :: "InternalApi \<Rightarrow> OrderWritesDb \<Rightarrow> bool" where
  "readySystem api db \<longleftrightarrow> iaApiKey api \<noteq> [] \<and> soundEnv (apiOrders api) \<and> plainDb db
     \<and> (\<forall>t \<in> set (tgTenants db). \<forall>e. tnEntitlementExpiresAt t = Some e \<longrightarrow> plainInstant e)
     \<and> (\<forall>now valid. iaPresentation api = Some (now, valid) \<longrightarrow> (\<forall>z. valid z \<longrightarrow> z \<noteq> [] \<and> length z \<le> 64))"

text \<open>An answer of the backend as the bot has it: with the presentation of the chat.\<close>

definition readWith :: "InternalApi \<Rightarrow> OrderWritesDb \<Rightarrow> BotIdentity \<Rightarrow> jsobject \<Rightarrow> parsed" where
  "readWith api db who r = Inr (JObj (r @ [(''presentation'', botPresentation (chatPresentation api db (chatOf who)))]))"

text \<open>
  What the bot makes of the outcome of a handler: the result itself, its own view of a chat whose plan has run
  out, or a backend that is unavailable.
\<close>

definition botView ::
  "InternalApi \<Rightarrow> BotIdentity \<Rightarrow> ('a \<Rightarrow> jsobject) \<Rightarrow> jsobject \<Rightarrow> (ServiceError + 'a) \<times> OrderWritesDb \<Rightarrow> parsed" where
  "botView api who send inactive run =
     (case fst run of
        Inr x \<Rightarrow> readWith api (snd run) who (send x)
      | Inl (EntitlementInactiveException s) \<Rightarrow> readWith api (snd run) who inactive
      | Inl e \<Rightarrow> Inl BackendUnavailableError)"

lemma answer_read:
  fixes who :: BotIdentity
  assumes "readySystem api db" and "tgTenants db' = tgTenants db"
    and "field r ''presentation'' = None" "field result ''presentation'' = None"
    and parse: "\<And>extra. extra = [] \<or> (\<exists>v. extra = [(''presentation'', v)]) \<Longrightarrow> parse (JObj (r @ extra)) = Inr (JObj result)"
  defines "v \<equiv> presentAnswer api db' (chatOf who) r"
  shows "andThen (parse v) (\<lambda>result. Inr (attachPresentation v result)) = readWith api db' who result"
proof -
  let ?p = "chatPresentation api db' (chatOf who)"
  have v: "v = JObj (withPresentation ?p r)" unfolding v_def by (rule presentAnswer_new [OF assms(3)])
  have "parse v = Inr (JObj result)"
    unfolding v withPresentation_def using parse [of "[]"] parse by (cases ?p) auto
  moreover have "\<forall>q. ?p = Some q \<longrightarrow> presentationOk q"
  proof (intro allI impI)
    fix q assume "?p = Some q"
    with assms(1,2) show "presentationOk q" unfolding readySystem_def by (intro soundPresentation) auto
  qed
  ultimately show ?thesis unfolding v using attach_answer [OF assms(3,4)] by (simp add: readWith_def)
qed

lemma route_read:
  assumes sys: "readySystem api db" and who: "goodIdentity who"
    and path: "postOrders api path = orderRoute schema (\<lambda>idn d db. map_prod (activeOperation send) id (operation idn d db)) api"
    and body: "schema (JObj (telegramBody who @ body)) = Some (chatOf who, d)"
    and keeps: "tgTenants (snd (operation (chatOf who) d db)) = tgTenants db"
    and sent: "\<And>x. field (send x) ''presentation'' = None" "field inactive ''presentation'' = None"
    and reads: "\<And>x extra. fst (operation (chatOf who) d db) = Inr x \<Longrightarrow> extra = [] \<or> (\<exists>v. extra = [(''presentation'', v)])
      \<Longrightarrow> parse (JObj (send x @ extra)) = Inr (JObj (send x))"
    and refused: "\<And>extra. parse (JObj ([(''state'', JStr ''ENTITLEMENT_INACTIVE'')] @ extra)) = Inr (JObj inactive)"
  shows "checkedPost (connectedBot api db base (iaApiKey api)) t path parse who body
    = botView api who send inactive (operation (chatOf who) d db)"
proof -
  obtain x db' where run: "operation (chatOf who) d db = (x, db')" by force
  have db': "tgTenants db' = tgTenants db" using keeps run by simp
  note read = answer_read [OF sys db', where parse = parse and who = who]
  have route: "fst (postOrders api path (botHeaders who (iaApiKey api)) (JObj (telegramBody who @ body)) db)
      = map_sum id (presentAnswer api db' (chatOf who)) (activeOperation send x)"
    using sys bot_admitted [OF who refl] by (simp add: path orderRoute_def body run readySystem_def)
  show ?thesis
  proof (cases x)
    case (Inr y)
    with read [OF sent(1) sent(1) reads] run route show ?thesis
      by (simp add: checkedPost_def postTo_connected botView_def activeOperation_def)
  next
    case (Inl e)
    have none: "field [(''state'', JStr ''ENTITLEMENT_INACTIVE'')] ''presentation'' = None" by (simp add: field_def)
    from Inl read [OF none sent(2) refused] run route show ?thesis
      by (cases e) (simp_all add: checkedPost_def postTo_connected botView_def activeOperation_def)
  qed
qed

section \<open>The list and one order in the bot\<close>

definition inactiveList :: jsobject where
  "inactiveList = [(''state'', JStr ''ENTITLEMENT_INACTIVE''), (''orders'', JArr []), (''nextCursor'', JNull),
     (''previousCursor'', JNull), (''freshness'', emptyFreshness)]"

definition inactiveDetail :: jsobject where
  "inactiveDetail = [(''state'', JStr ''ENTITLEMENT_INACTIVE''), (''freshness'', emptyFreshness)]"

lemma inactive_parsed:
  "parseOrderListResult (JObj ([(''state'', JStr ''ENTITLEMENT_INACTIVE'')] @ extra)) = Inr (JObj inactiveList)"
  "''ENTITLEMENT_INACTIVE'' \<in> set states \<Longrightarrow>
    parseOrderDetailLike states (Some (JObj ([(''state'', JStr ''ENTITLEMENT_INACTIVE'')] @ extra))) = Inr (JObj inactiveDetail)"
  by (simp_all add: parseOrderListResult_def parseOrderDetailLike_def requireRecordOf_def recordOf_def inactiveState_def
      field_def inactiveList_def inactiveDetail_def)

lemma no_presentation:
  "field (orderListJson n l) ''presentation'' = None" "field (detailJson d) ''presentation'' = None"
  "field inactiveList ''presentation'' = None" "field inactiveDetail ''presentation'' = None"
  by (auto simp: orderListJson_def detailJson_def inactiveList_def inactiveDetail_def field_def orderJson_def givenText_def
      map_add_def split: option.splits)

lemma listPage_tenants: "tgTenants (snd (listPage env cx c db)) = tgTenants db"
  by (simp add: listPage_def Let_def)

lemma orderList_tenants: "tgTenants (snd (orderList env idn cursor db)) = tgTenants db"
  by (simp add: orderList_def Let_def listPage_tenants split: ContextResolution.split sum.split)

lemma orderLookup_tenants: "tgTenants (snd (orderLookup env idn n db)) = tgTenants db"
  by (simp add: orderLookup_def openDetail_def Let_def case_prod_beta split: ContextResolution.split sum.split list.split)

definition cursorAccepted :: "string option \<Rightarrow> bool" where
  "cursorAccepted cursor \<longleftrightarrow> (\<forall>t. cursor = Some t \<longrightarrow> t = [] \<or> isTokenText t)"

lemma cursor_field:
  "field (cursorBody cursor) ''cursor'' = (if cursor = None \<or> cursor = Some [] then None else map_option JStr cursor)"
  by (cases cursor) (simp_all add: cursorBody_def field_def)

lemma cursor_schema:
  assumes "goodIdentity who" and "cursorAccepted cursor"
  obtains d where "telegramOrderListSchema (JObj (telegramBody who @ cursorBody cursor)) = Some (chatOf who, d)"
    and "orderList env idn d db = orderList env idn cursor db"
proof -
  have "length t \<le> 64" if "isTokenText t" for t using that by (simp add: isTokenText_def)
  then have "telegramOrderListSchema (JObj (telegramBody who @ cursorBody cursor))
      = Some (chatOf who, if cursor = Some [] then None else cursor)"
    using assms(2) body_schema [OF assms(1), of _ "[]", simplified]
    by (cases cursor) (auto simp: telegramOrderListSchema_def body_schema [OF assms(1)] body_field cursor_field
        callbackReference_def cursorAccepted_def)
  moreover have "orderList env idn (if cursor = Some [] then None else cursor) db = orderList env idn cursor db"
    by (cases "cursor = Some []") (simp_all add: orderList_def cong: ContextResolution.case_cong)
  ultimately show thesis using that by blast
qed

text \<open>
  C34: what a chat sees of its list of orders is what the order service answers: the bot's request is admitted,
  and the client accepts every answer and hands on the state, the orders, the two page tokens and the
  freshness unchanged, with the language, time zone and plan of the chat; a plan that has run out becomes the
  empty list of that state, every other error a backend that is unavailable.
\<close>

theorem bot_reads_order_list:
  assumes "readySystem api db" and "goodIdentity who" and "cursorAccepted cursor"
  shows "listOrders (connectedBot api db base (iaApiKey api)) who cursor
    = botView api who (orderListJson (iaNoTotal api)) inactiveList (orderList (apiOrders api) (chatOf who) cursor db)"
proof -
  obtain d where d: "telegramOrderListSchema (JObj (telegramBody who @ cursorBody cursor)) = Some (chatOf who, d)"
    "orderList (apiOrders api) (chatOf who) d db = orderList (apiOrders api) (chatOf who) cursor db"
    by (rule cursor_schema [OF assms(2,3)])
  have path: "postOrders api ''orders/list'' = orderRoute telegramOrderListSchema (\<lambda>idn d db.
      map_prod (activeOperation (orderListJson (iaNoTotal api))) id (orderList (apiOrders api) idn d db)) api"
    by (simp add: fun_eq_iff postOrders_def postOrdersList_def)
  have sound: "soundEnv (apiOrders api)" "plainDb db" using assms(1) by (simp_all add: readySystem_def)
  show ?thesis
    unfolding listOrders_def d(2) [symmetric]
    by (rule route_read [where operation = "orderList (apiOrders api)", OF assms(1,2) path d(1) orderList_tenants
          no_presentation(1,3) list_parsed [OF orderList_accepted [OF sound]] inactive_parsed(1)])
qed

lemma ref_schema:
  assumes "goodIdentity who" and "isTokenText ref"
  shows "telegramOrderDetailSchema (JObj (telegramBody who @ refBody ref)) = Some (chatOf who, ref)"
proof -
  have "field (refBody ref) ''ref'' = Some (JStr ref)" "length ref \<le> 64"
    using assms(2) by (simp_all add: refBody_def field_def isTokenText_def)
  with assms show ?thesis
    by (simp add: telegramOrderDetailSchema_def body_schema body_field callbackReference_def)
qed

lemma number_schema:
  assumes "goodIdentity who" and "length number \<le> 191"
  shows "telegramOrderLookupSchema (JObj (telegramBody who @ [(''orderNumber'', JStr number)])) = Some (chatOf who, number)"
proof -
  have "field [(''orderNumber'', JStr number)] ''orderNumber'' = Some (JStr number)" by (simp add: field_def)
  with assms show ?thesis by (simp add: telegramOrderLookupSchema_def body_schema body_field textUpTo_def)
qed

lemma detail_states:
  "dtState x \<in> {DetailOk, DetailNotFound, DetailDeleted, DetailContextChanged, DetailNoActiveStore, DetailUnauthorized}
    \<Longrightarrow> detailStateText (dtState x) \<in> set ORDER_DETAIL_STATES"
  "''ENTITLEMENT_INACTIVE'' \<in> set ORDER_DETAIL_STATES"
  by (auto simp: ORDER_DETAIL_STATES_def)

text \<open>
  C35: the same of one order, opened with its button or looked up by its number: the client accepts every
  answer of the service, with the order, the token of the way back and the tokens of the offered actions, and
  hands it on unchanged.
\<close>

theorem bot_reads_order_detail:
  assumes "readySystem api db" and "goodIdentity who" and "isTokenText ref" and "length number \<le> 191"
  shows "botOrderDetail (connectedBot api db base (iaApiKey api)) who ref
      = botView api who detailJson inactiveDetail (orderDetail (apiOrders api) (chatOf who) ref db, db)
    \<and> lookupOrder (connectedBot api db base (iaApiKey api)) who number
      = botView api who detailJson inactiveDetail (orderLookup (apiOrders api) (chatOf who) number db)"
proof -
  have sound: "soundEnv (apiOrders api)" "plainDb db" using assms(1) by (simp_all add: readySystem_def)
  have path: "postOrders api ''orders/detail'' = orderRoute telegramOrderDetailSchema (\<lambda>idn ref db.
      map_prod (activeOperation detailJson) id (orderDetail (apiOrders api) idn ref db, db)) api"
    "postOrders api ''orders/lookup'' = orderRoute telegramOrderLookupSchema (\<lambda>idn number db.
      map_prod (activeOperation detailJson) id (orderLookup (apiOrders api) idn number db)) api"
    by (simp_all add: fun_eq_iff postOrders_def postOrdersDetail_def postOrdersLookup_def)
  have "botOrderDetail (connectedBot api db base (iaApiKey api)) who ref
      = botView api who detailJson inactiveDetail (orderDetail (apiOrders api) (chatOf who) ref db, db)"
    unfolding botOrderDetail_def parseOrderDetailResult_def
    by (rule route_read [where operation = "\<lambda>idn ref db. (orderDetail (apiOrders api) idn ref db, db)" and send = detailJson
          and parse = "\<lambda>v. parseOrderDetailLike ORDER_DETAIL_STATES (Some v)", OF assms(1,2) path(1) ref_schema [OF assms(2,3)] _ no_presentation(2,4) _ inactive_parsed(2) [OF detail_states(2)]])
      (use orderDetail_accepted [OF sound] detail_states(1) in \<open>auto intro!: detail_parsed\<close>)
  moreover have "lookupOrder (connectedBot api db base (iaApiKey api)) who number
      = botView api who detailJson inactiveDetail (orderLookup (apiOrders api) (chatOf who) number db)"
    unfolding lookupOrder_def parseOrderLookupResult_def
    by (rule route_read [where operation = "orderLookup (apiOrders api)" and send = detailJson
          and parse = "\<lambda>v. parseOrderDetailLike (ORDER_DETAIL_STATES @ [''MALFORMED_ORDER_NUMBER'', ''AMBIGUOUS'']) (Some v)",
          OF assms(1,2) path(2)
          number_schema [OF assms(2,4)] orderLookup_tenants no_presentation(2,4) _ inactive_parsed(2)])
      (use orderLookup_accepted [OF sound] in \<open>fastforce simp: ORDER_DETAIL_STATES_def intro!: detail_parsed\<close>,
       simp add: ORDER_DETAIL_STATES_def)
  ultimately show ?thesis by blast
qed

section \<open>A connected bot\<close>

definition listedApi :: InternalApi where
  "listedApi = \<lparr>iaOrders = OrdersEnv.extend (sampleOrdersEnv 0)
       \<lparr>weBetween = (\<lambda>n d. d), weUpdateStatus = (\<lambda>s i t. Inl OtherFetchError), weCreateNote = (\<lambda>s i t v. Inl OtherFetchError),
        weHex = (\<lambda>n. [CHR ''0'']), weEncrypt = (\<lambda>s. s), weDecrypt = Some, weNoteHmac = (\<lambda>s. s), weClaimFault = False,
        weRecordFault = False\<rparr>,
     iaApiKey = ''key'', iaPresentation = Some (0, \<lambda>z. z = ''UTC''), iaNoTotal = ''-''\<rparr>"

definition listedDb :: OrderWritesDb where
  "listedDb = TelegramDb.extend sampleOrders
     \<lparr>owStatusWrites = [], owNoteActions = [], owAudit = [], owStatusSent = [], owNotesSent = []\<rparr>"

definition listedChat :: BotIdentity where
  "listedChat = \<lparr>biTelegramUserId = ''77'', biTelegramChatId = ''77'', biUpdateId = ''5''\<rparr>"

lemma listedDb_simps [simp]:
  "tgTenants listedDb = tgTenants sampleOrders" "tgShops listedDb = tgShops sampleOrders"
  "tgMemberships listedDb = tgMemberships sampleOrders" "tgAccounts listedDb = tgAccounts sampleOrders"
  "tgChats listedDb = tgChats sampleOrders" "tgOrders listedDb = tgOrders sampleOrders"
  "tgReferences listedDb = tgReferences sampleOrders" "tenantAlive listedDb = tenantAlive sampleOrders"
  by (simp_all add: listedDb_def TelegramDb.defs sampleOrders_def sampleTelegram_def fun_eq_iff tenantAlive_def)

lemma listed_env: "apiOrders listedApi = sampleOrdersEnv 0"
  by (simp add: apiOrders_def ordersEnv_def listedApi_def OrdersEnv.defs)

lemma listed_chat: "goodIdentity listedChat" "chatOf listedChat = sampleIdentity"
  by (simp_all add: goodIdentity_def listedChat_def isDecimalIdentifier_def isDigit_def codeUnit_def chatOf_def sampleIdentity_def
      readNat_def MAX_SIGNED_BIGINT_def)

lemma base64Digit_always: "isBase64 (base64Digit n)"
proof (cases "n < 64")
  case False
  then have "base64Digit n = base64Digit 63" by (simp add: base64Digit_def)
  then show ?thesis using base64_digit(2) [of 63] by simp
qed (rule base64_digit(2))

lemma listed_ready: "readySystem listedApi listedDb"
proof -
  have "isBase64 (CHR ''A'')" by code_simp
  then have "soundEnv (sampleOrdersEnv 0)"
    by (simp add: soundEnv_def sampleOrdersEnv_def goodMac_def list_all_iff shortIdPattern_def base64Digit_always)
  moreover have "plainDb listedDb"
    by (simp add: plainDb_def sampleOrders_def sampleTelegram_def plainOrder_def sampleNotifiedOrder_def epoch_plain)
  ultimately show ?thesis
    unfolding readySystem_def listed_env by (simp add: listedApi_def sampleOrders_def sampleTelegram_def)
qed

theorem bot_reads_order_list_witness:
  "\<exists>l. listOrders (connectedBot listedApi listedDb ''http://backend/api'' (iaApiKey listedApi)) listedChat None
     = readWith listedApi (snd (listPage (sampleOrdersEnv 0) sampleContext (cursorOfReference None) listedDb)) listedChat
         (orderListJson (iaNoTotal listedApi) l) \<and> olState l = ListOk"
proof -
  have "resolveContext listedDb sampleIdentity = ContextOk sampleContext"
    by (simp add: resolveContext_def resolveMembership_def sampleOrders_def sampleTelegram_def sampleIdentity_def
        sampleContext_def findFirst_def findMany_def membershipWhere_def activeShopWhere_def activeChat_def tenantAlive_def)
  moreover obtain s where "assertActive (cxTenantId sampleContext) (teClock (sampleOrdersEnv 0) 1) (tgTenants sampleOrders) = Inr s"
    using sampleOrders_steady by (auto simp: steadyChat_def simp del: One_nat_def)
  moreover have "\<not> cursorInvalid (cursorOfReference None)"
    by (simp add: cursorInvalid_def cursorOfReference_def REACHABLE_ORDER_CAP_def)
  ultimately have "orderList (sampleOrdersEnv 0) sampleIdentity None listedDb
      = map_prod Inr id (listPage (sampleOrdersEnv 0) sampleContext (cursorOfReference None) listedDb)"
    by (simp add: orderList_def)
  moreover have "olState (fst (listPage (sampleOrdersEnv 0) sampleContext (cursorOfReference None) listedDb)) = ListOk"
    by (simp add: listPage_def Let_def)
  ultimately show ?thesis
    using bot_reads_order_list [OF listed_ready listed_chat(1), of None "''http://backend/api''"]
    by (simp add: cursorAccepted_def listed_env listed_chat(2) botView_def) blast
qed

theorem bot_reads_order_detail_witness:
  "botOrderDetail (connectedBot listedApi listedDb ''http://backend/api'' (iaApiKey listedApi)) listedChat
       ''d.AAAAAAAAAAAAAAAA.AAAAAAAAAAAAAAAA''
     = botView listedApi listedChat detailJson inactiveDetail
         (orderDetail (sampleOrdersEnv 0) sampleIdentity ''d.AAAAAAAAAAAAAAAA.AAAAAAAAAAAAAAAA'' listedDb, listedDb)
   \<and> lookupOrder (connectedBot listedApi listedDb ''http://backend/api'' (iaApiKey listedApi)) listedChat ''1007''
     = botView listedApi listedChat detailJson inactiveDetail (orderLookup (sampleOrdersEnv 0) sampleIdentity ''1007'' listedDb)"
proof -
  have "isTokenText ''d.AAAAAAAAAAAAAAAA.AAAAAAAAAAAAAAAA''" "length ''1007'' \<le> 191" by code_simp+
  from bot_reads_order_detail [OF listed_ready listed_chat(1) this, unfolded listed_env listed_chat(2)] show ?thesis by blast
qed

end
