(* ===== verification/Linking.thy ===== *)
theory Linking
  imports TelegramContext
begin

text \<open>
  Binding a Telegram account to a user (\<open>backend/src/telegram/telegram-linking.service.ts\<close>): a signed-in user
  is given a random token once, a Telegram user presents it in a chat and is linked, and unlinks again. The
  hash, the random texts and the clock are parameters; a serializable transaction is one step, before which
  other processes may have committed and which the database may abort.
\<close>

section \<open>Rows\<close>

record LinkAccount = AccountRow +
  laLastRedeemUpdateId :: "int option"
  laLastUnlinkUpdateId :: "int option"

record LinkChat = ChatRow +
  lcActiveStoreId :: "string option"

record LinkStore = ShopRow +
  lsLastHealthyAt :: "date option"
  lsWebhookSecretEncrypted :: "string option"
  lsWebhookEndpointKey :: "string option"

record LinkToken =
  ltId :: string
  ltUserId :: string
  ltTokenHash :: string
  ltExpiresAt :: date
  ltConsumedAt :: "date option"

record LinkDb =
  lkUsers :: "string list"
  lkTenants :: "TenantRow list"
  lkStores :: "LinkStore list"
  lkMemberships :: "MembershipRow list"
  lkAccounts :: "LinkAccount list"
  lkChats :: "LinkChat list"
  lkTokens :: "LinkToken list"

record TelegramAuthorizationStatus =
  asLinked :: bool
  asAuthorized :: bool
  asMembershipActive :: bool
  asActiveTenantId :: "string option"
  asActiveStoreId :: "string option"
  asTenantSelectionRequired :: bool
  asStoreSelectionRequired :: bool
  asSelectionRequired :: bool
  asEntitlement :: "TenantEntitlementSummary option"

datatype TelegramRedeemResult =
    RedeemInvalid
  | RedeemInactive TenantEntitlementSummary
  | RedeemLinked TelegramAuthorizationStatus

datatype TelegramUnlinkResult = ConfirmationRequired | UnlinkUnauthorized | Unlinked

section \<open>The user's tenant and store\<close>

definition linkTenantAlive :: "LinkDb \<Rightarrow> string \<Rightarrow> bool" where
  "linkTenantAlive db t \<longleftrightarrow> list_ex (\<lambda>r. tnId r = t \<and> tnDeletedAt r = None) (lkTenants db)"

definition linkMemberships :: "LinkDb \<Rightarrow> string \<Rightarrow> MembershipRow list" where
  "linkMemberships db user =
     take 2 (findMany (\<lambda>m. mbUserId m = user \<and> mbDeletedAt m = None \<and> linkTenantAlive db (mbTenantId m)) (lkMemberships db))"

definition linkStores :: "LinkDb \<Rightarrow> string \<Rightarrow> LinkStore list" where
  "linkStores db tenant =
     take 2 (findMany (\<lambda>s. shTenantId s = tenant \<and> shStatus s = StoreActive \<and> shDeletedAt s = None
        \<and> linkTenantAlive db tenant) (lkStores db))"

definition healthyStore :: "LinkStore \<Rightarrow> bool" where
  "healthyStore s \<longleftrightarrow> lsLastHealthyAt s \<noteq> None \<and> lsWebhookSecretEncrypted s \<noteq> None \<and> lsWebhookEndpointKey s \<noteq> None"

definition contextStatus ::
  "MembershipRow list \<Rightarrow> LinkStore list \<Rightarrow> TenantEntitlementSummary option \<Rightarrow> TelegramAuthorizationStatus" where
  "contextStatus memberships shops entitlement =
     (let hasOneTenant = (length memberships = 1);
          hasOneStore = (case shops of [s] \<Rightarrow> healthyStore s | _ \<Rightarrow> False);
          resolved = (hasOneTenant \<and> hasOneStore)
      in \<lparr>asLinked = True, asAuthorized = (memberships \<noteq> []), asMembershipActive = (memberships \<noteq> []),
          asActiveTenantId = (if resolved then Some (mbTenantId (hd memberships)) else None),
          asActiveStoreId = (if resolved then Some (shId (hd shops)) else None),
          asTenantSelectionRequired = (length memberships \<noteq> 1),
          asStoreSelectionRequired = (hasOneTenant \<and> \<not> hasOneStore),
          asSelectionRequired = (length memberships \<noteq> 1 \<or> hasOneTenant \<and> \<not> hasOneStore),
          asEntitlement = entitlement\<rparr>)"

text \<open>A tenant id that is the empty text counts as none.\<close>

definition linkContext :: "LinkDb \<Rightarrow> date \<Rightarrow> string \<Rightarrow> ServiceError + TelegramAuthorizationStatus" where
  "linkContext db now user =
     (let memberships = linkMemberships db user
      in case memberships of
           [m] \<Rightarrow>
             if mbTenantId m = [] then Inr (contextStatus memberships [] None)
             else andThen (resolveTenant (mbTenantId m) now (lkTenants db)) (\<lambda>e.
                  Inr (contextStatus memberships (linkStores db (mbTenantId m)) (Some e)))
         | _ \<Rightarrow> Inr (contextStatus memberships [] None))"

section \<open>Issuing a token\<close>

definition assertLinkingEligible :: "LinkDb \<Rightarrow> date \<Rightarrow> string \<Rightarrow> ServiceError + unit" where
  "assertLinkingEligible db now user =
     andThen (linkContext db now user) (\<lambda>c.
     if asTenantSelectionRequired c
     then Inl (ForbiddenException ''Exactly one active Tenant membership is required for Telegram linking'')
     else case asEntitlement c of
       Some e \<Rightarrow>
         if esEffectiveState e \<noteq> EffActive then Inl (EntitlementInactiveException (esEffectiveState e))
         else if asActiveStoreId c = None \<or> asActiveStoreId c = Some []
         then Inl (ForbiddenException ''Exactly one ACTIVE and healthy Store is required for Telegram linking'')
         else Inr ()
     | None \<Rightarrow>
         if asActiveStoreId c = None \<or> asActiveStoreId c = Some []
         then Inl (ForbiddenException ''Exactly one ACTIVE and healthy Store is required for Telegram linking'')
         else Inr ())"

text \<open>\<open>payload?.sub\<close>, as the JSON of the verified token has it.\<close>

definition authenticatedUserId :: "json option \<Rightarrow> ServiceError + string" where
  "authenticatedUserId sub =
     (case sub of
        Some (JStr s) \<Rightarrow>
          if trim s = [] then Inl (UnauthorizedException ''Authenticated user subject is required'') else Inr s
      | _ \<Rightarrow> Inl (UnauthorizedException ''Authenticated user subject is required''))"

text \<open>
  The clock of the check and of the expiry, the random part of the token, the id of the row, and what other
  processes commit between the check and the new row.
\<close>

record IssueEnv =
  ieNow :: date
  ieExpiryNow :: date
  ieTtlSeconds :: int
  ieRandom :: string
  ieRowId :: string
  ieHash :: "string \<Rightarrow> string"
  ieBetween :: "LinkDb \<Rightarrow> LinkDb"

definition newLinkToken :: "IssueEnv \<Rightarrow> string \<Rightarrow> LinkToken" where
  "newLinkToken env user =
     \<lparr>ltId = ieRowId env, ltUserId = user, ltTokenHash = ieHash env (''tgl_'' @ ieRandom env),
      ltExpiresAt = ieExpiryNow env + ieTtlSeconds env * 1000, ltConsumedAt = None\<rparr>"

definition createLinkToken :: "LinkToken \<Rightarrow> LinkDb \<Rightarrow> (ServiceError + unit) \<times> LinkDb" where
  "createLinkToken t db =
     (if ltUserId t \<notin> set (lkUsers db) then (Inl (UnauthorizedException ''Authenticated user was not found''), db)
      else if ltTokenHash t \<in> ltTokenHash ` set (lkTokens db) \<or> ltId t \<in> ltId ` set (lkTokens db)
      then (Inl (DatabaseError ''P2002''), db)
      else (Inr (), db\<lparr>lkTokens := lkTokens db @ [t]\<rparr>))"

definition issueLinkToken :: "IssueEnv \<Rightarrow> json option \<Rightarrow> LinkDb \<Rightarrow> (ServiceError + string \<times> date) \<times> LinkDb" where
  "issueLinkToken env sub db =
     (case authenticatedUserId sub of
        Inl e \<Rightarrow> (Inl e, db)
      | Inr user \<Rightarrow>
          (case assertLinkingEligible db (ieNow env) user of
             Inl e \<Rightarrow> (Inl e, db)
           | Inr _ \<Rightarrow>
               let t = newLinkToken env user
               in map_prod (map_sum id (\<lambda>_. (''tgl_'' @ ieRandom env, ltExpiresAt t))) id
                    (createLinkToken t (ieBetween env db))))"

section \<open>Redeeming a token\<close>

record RedeemInput =
  rdUserId :: int
  rdChatId :: int
  rdToken :: string
  rdUpdateId :: int

record RedeemEnv =
  reNow :: date
  reEntitlementNow :: date
  reAccountId :: string
  reAuthorizationId :: string
  reUpdatedAt :: date
  reHash :: "string \<Rightarrow> string"

definition identityConflict :: "int \<Rightarrow> string \<Rightarrow> LinkAccount option \<Rightarrow> LinkAccount option \<Rightarrow> bool" where
  "identityConflict telegramUser user byTelegram bySaas =
     (let conflictingAccounts = (case (byTelegram, bySaas) of (Some x, Some y) \<Rightarrow> acId x \<noteq> acId y | _ \<Rightarrow> False);
          canReassign = (case byTelegram of Some x \<Rightarrow> acDeletedAt x \<noteq> None \<and> bySaas = None | None \<Rightarrow> False);
          telegramIdentityConflict = (case byTelegram of Some x \<Rightarrow> acUserId x \<noteq> user \<and> \<not> canReassign | None \<Rightarrow> False);
          saasIdentityConflict = (case bySaas of Some y \<Rightarrow> acTelegramUserId y \<noteq> telegramUser | None \<Rightarrow> False)
      in conflictingAccounts \<or> telegramIdentityConflict \<or> saasIdentityConflict)"

definition existingAccount :: "LinkAccount option \<Rightarrow> LinkAccount option \<Rightarrow> LinkAccount option" where
  "existingAccount byTelegram bySaas = (case bySaas of Some y \<Rightarrow> Some y | None \<Rightarrow> byTelegram)"

text \<open>A redelivered update: the account it linked is linked still, in this chat.\<close>

definition replayedRedeem :: "RedeemInput \<Rightarrow> LinkToken \<Rightarrow> LinkAccount option \<Rightarrow> LinkDb \<Rightarrow> bool" where
  "replayedRedeem i t account db =
     (ltConsumedAt t \<noteq> None \<and>
      (case account of
         None \<Rightarrow> False
       | Some a \<Rightarrow>
           acTelegramUserId a = rdUserId i \<and> acUserId a = ltUserId t \<and> laLastRedeemUpdateId a = Some (rdUpdateId i)
           \<and> acDeletedAt a = None
           \<and> (case findFirst (\<lambda>c. chChatId c = rdChatId i) (lkChats db) of
                None \<Rightarrow> False
              | Some c \<Rightarrow> chAccountId c = acId a \<and> chRevokedAt c = None)))"

definition linkedAccount :: "RedeemEnv \<Rightarrow> RedeemInput \<Rightarrow> LinkToken \<Rightarrow> LinkAccount" where
  "linkedAccount env i t =
     \<lparr>acId = reAccountId env, acTelegramUserId = rdUserId i, acUserId = ltUserId t, acDeletedAt = None,
      laLastRedeemUpdateId = Some (rdUpdateId i), laLastUnlinkUpdateId = None\<rparr>"

definition relinkAccount :: "RedeemInput \<Rightarrow> LinkToken \<Rightarrow> LinkAccount \<Rightarrow> LinkAccount" where
  "relinkAccount i t a =
     a\<lparr>acTelegramUserId := rdUserId i, acUserId := ltUserId t, acDeletedAt := None,
       laLastRedeemUpdateId := Some (rdUpdateId i)\<rparr>"

definition consumeWhere :: "LinkToken \<Rightarrow> date \<Rightarrow> LinkToken \<Rightarrow> bool" where
  "consumeWhere t now r \<longleftrightarrow> ltId r = ltId t \<and> ltConsumedAt r = None \<and> now < ltExpiresAt r"

definition saveAccount :: "RedeemEnv \<Rightarrow> RedeemInput \<Rightarrow> LinkToken \<Rightarrow> LinkAccount option \<Rightarrow> LinkDb \<Rightarrow> string \<times> LinkDb" where
  "saveAccount env i t account db =
     (case account of
        Some a \<Rightarrow> (acId a, db\<lparr>lkAccounts := snd (updateMany (\<lambda>r. acId r = acId a) (relinkAccount i t) (lkAccounts db))\<rparr>)
      | None \<Rightarrow> (reAccountId env, db\<lparr>lkAccounts := lkAccounts db @ [linkedAccount env i t]\<rparr>))"

definition authoriseChat ::
  "RedeemEnv \<Rightarrow> RedeemInput \<Rightarrow> string \<Rightarrow> TelegramAuthorizationStatus \<Rightarrow> LinkDb \<Rightarrow> LinkDb" where
  "authoriseChat env i accountId c db =
     (if findFirst (\<lambda>r. chChatId r = rdChatId i) (lkChats db) \<noteq> None
      then db\<lparr>lkChats := snd (updateMany (\<lambda>r. chChatId r = rdChatId i)
             (\<lambda>r. r\<lparr>chType := PRIVATE, chRevokedAt := None, chActiveTenantId := asActiveTenantId c,
                    chUpdatedAt := reUpdatedAt env, lcActiveStoreId := asActiveStoreId c\<rparr>) (lkChats db))\<rparr>
      else db\<lparr>lkChats := lkChats db @ [\<lparr>chId = reAuthorizationId env, chAccountId = accountId, chChatId = rdChatId i,
             chType = PRIVATE, chActiveTenantId = asActiveTenantId c, chRevokedAt = None, chUpdatedAt = reUpdatedAt env,
             lcActiveStoreId = asActiveStoreId c\<rparr>]\<rparr>)"

definition foreignChat :: "RedeemInput \<Rightarrow> LinkAccount option \<Rightarrow> LinkDb \<Rightarrow> bool" where
  "foreignChat i account db =
     (case findFirst (\<lambda>c. chChatId c = rdChatId i) (lkChats db) of
        None \<Rightarrow> False
      | Some c \<Rightarrow> (case account of Some a \<Rightarrow> chAccountId c \<noteq> acId a | None \<Rightarrow> True))"

definition present :: "string option \<Rightarrow> bool" where
  "present v \<longleftrightarrow> (case v of Some s \<Rightarrow> s \<noteq> [] | None \<Rightarrow> False)"

definition linkAccount ::
  "RedeemEnv \<Rightarrow> RedeemInput \<Rightarrow> LinkToken \<Rightarrow> LinkAccount option \<Rightarrow> TelegramAuthorizationStatus \<Rightarrow> LinkDb
     \<Rightarrow> TelegramRedeemResult \<times> LinkDb" where
  "linkAccount env i t account c db =
     (let (n, tokens) = updateMany (consumeWhere t (reNow env)) (\<lambda>r. r\<lparr>ltConsumedAt := Some (reNow env)\<rparr>) (lkTokens db)
      in if n \<noteq> 1 then (RedeemInvalid, db\<lparr>lkTokens := tokens\<rparr>)
         else let (accountId, db') = saveAccount env i t account (db\<lparr>lkTokens := tokens\<rparr>)
              in (RedeemLinked c, authoriseChat env i accountId c db'))"

text \<open>The token is fresh: link when the user's plan runs, the context is resolved and the chat is free.\<close>

definition redeemFresh ::
  "RedeemEnv \<Rightarrow> RedeemInput \<Rightarrow> LinkToken \<Rightarrow> LinkAccount option \<Rightarrow> LinkDb \<Rightarrow> ServiceError + TelegramRedeemResult \<times> LinkDb" where
  "redeemFresh env i t account db =
     (case linkContext db (reEntitlementNow env) (ltUserId t) of
        Inl e \<Rightarrow> Inl e
      | Inr c \<Rightarrow>
          (case asEntitlement c of
             None \<Rightarrow> Inr (RedeemInvalid, db)
           | Some e \<Rightarrow>
               if esEffectiveState e \<noteq> EffActive then Inr (RedeemInactive e, db)
               else if \<not> present (asActiveTenantId c) \<or> \<not> present (asActiveStoreId c) \<or> foreignChat i account db
               then Inr (RedeemInvalid, db)
               else Inr (linkAccount env i t account c db)))"

definition redeemInTransaction ::
  "RedeemEnv \<Rightarrow> RedeemInput \<Rightarrow> string \<Rightarrow> LinkDb \<Rightarrow> ServiceError + TelegramRedeemResult \<times> LinkDb" where
  "redeemInTransaction env i tokenHash db =
     (case findFirst (\<lambda>t. ltTokenHash t = tokenHash) (lkTokens db) of
        None \<Rightarrow> Inr (RedeemInvalid, db)
      | Some t \<Rightarrow>
          let byTelegram = findFirst (\<lambda>a. acTelegramUserId a = rdUserId i) (lkAccounts db);
              bySaas = findFirst (\<lambda>a. acUserId a = ltUserId t) (lkAccounts db);
              account = existingAccount byTelegram bySaas
          in if identityConflict (rdUserId i) (ltUserId t) byTelegram bySaas then Inr (RedeemInvalid, db)
             else if replayedRedeem i t account db
             then andThen (linkContext db (reEntitlementNow env) (ltUserId t)) (\<lambda>c. Inr (RedeemLinked c, db))
             else if ltConsumedAt t \<noteq> None \<or> ltExpiresAt t \<le> reNow env then Inr (RedeemInvalid, db)
             else redeemFresh env i t account db)"

text \<open>
  The transaction is not repeated. A broken uniqueness answers \<open>invalid_or_expired\<close>, an aborted serializable
  transaction that the service is unavailable.
\<close>

definition redeemToken ::
  "LinkDb Attempt \<Rightarrow> RedeemEnv \<Rightarrow> RedeemInput \<Rightarrow> LinkDb \<Rightarrow> (ServiceError + TelegramRedeemResult) \<times> LinkDb" where
  "redeemToken att env i db =
     (case runTransaction att (\<lambda>d. map_sum Thrown id (redeemInTransaction env i (reHash env (rdToken i)) d)) db of
        (Inr r, db') \<Rightarrow> (Inr r, db')
      | (Inl (PrismaError c), db') \<Rightarrow>
          if c = ''P2002'' then (Inr RedeemInvalid, db')
          else if c = ''P2034'' then (Inl (ServiceUnavailableException ''Telegram linking is temporarily unavailable''), db')
          else (Inl (DatabaseError c), db')
      | (Inl (Thrown e), db') \<Rightarrow> (Inl e, db')
      | (Inl ConcurrentProjectionError, db') \<Rightarrow> (Inl (DatabaseError ''''), db'))"

section \<open>Status and unlinking\<close>

definition unauthorizedStatus :: TelegramAuthorizationStatus where
  "unauthorizedStatus = \<lparr>asLinked = False, asAuthorized = False, asMembershipActive = False, asActiveTenantId = None,
     asActiveStoreId = None, asTenantSelectionRequired = False, asStoreSelectionRequired = False,
     asSelectionRequired = False, asEntitlement = None\<rparr>"

definition accountChats :: "LinkDb \<Rightarrow> LinkAccount \<Rightarrow> int \<Rightarrow> LinkChat list" where
  "accountChats db a chat = findMany (\<lambda>c. chAccountId c = acId a \<and> chChatId c = chat) (lkChats db)"

definition linkStatus :: "TelegramIdentity \<Rightarrow> date \<Rightarrow> LinkDb \<Rightarrow> ServiceError + TelegramAuthorizationStatus" where
  "linkStatus idn now db =
     (case findFirst (\<lambda>a. acTelegramUserId a = tiUserId idn) (lkAccounts db) of
        None \<Rightarrow> Inr unauthorizedStatus
      | Some a \<Rightarrow>
          if acDeletedAt a \<noteq> None then Inr unauthorizedStatus
          else (case accountChats db a (tiChatId idn) of
                  [c] \<Rightarrow> if chAccountId c \<noteq> acId a \<or> chRevokedAt c \<noteq> None then Inr unauthorizedStatus
                         else linkContext db now (acUserId a)
                | _ \<Rightarrow> Inr unauthorizedStatus))"

record UnlinkInput =
  ulIdentity :: TelegramIdentity
  ulConfirmed :: bool
  ulUpdateId :: int

text \<open>\<open>updatedAt\<close> is what the database client writes into changed rows.\<close>

definition unlinkInTransaction :: "date \<Rightarrow> date \<Rightarrow> UnlinkInput \<Rightarrow> LinkDb \<Rightarrow> TelegramUnlinkResult \<times> LinkDb" where
  "unlinkInTransaction revokedAt updatedAt i db =
     (case findFirst (\<lambda>a. acTelegramUserId a = tiUserId (ulIdentity i)) (lkAccounts db) of
        None \<Rightarrow> (UnlinkUnauthorized, db)
      | Some a \<Rightarrow>
          let identityMatches = (case accountChats db a (tiChatId (ulIdentity i)) of [c] \<Rightarrow> chAccountId c = acId a | _ \<Rightarrow> False)
          in if laLastUnlinkUpdateId a = Some (ulUpdateId i) \<and> acDeletedAt a \<noteq> None \<and> identityMatches then (Unlinked, db)
             else if acDeletedAt a \<noteq> None \<or> \<not> identityMatches then (UnlinkUnauthorized, db)
             else (Unlinked, db\<lparr>
               lkChats := snd (updateMany (\<lambda>c. chAccountId c = acId a \<and> chRevokedAt c = None)
                 (\<lambda>c. c\<lparr>chRevokedAt := Some revokedAt, chActiveTenantId := None, chUpdatedAt := updatedAt,
                        lcActiveStoreId := None\<rparr>) (lkChats db)),
               lkAccounts := snd (updateMany (\<lambda>r. acId r = acId a)
                 (\<lambda>r. r\<lparr>acDeletedAt := Some revokedAt, laLastUnlinkUpdateId := Some (ulUpdateId i)\<rparr>) (lkAccounts db))\<rparr>))"

definition unlinkAccount ::
  "LinkDb Attempt \<Rightarrow> date \<Rightarrow> date \<Rightarrow> UnlinkInput \<Rightarrow> LinkDb \<Rightarrow> (ServiceError + TelegramUnlinkResult) \<times> LinkDb" where
  "unlinkAccount att now updatedAt i db =
     (if \<not> ulConfirmed i then (Inr ConfirmationRequired, db)
      else (case runTransaction att (\<lambda>d. Inr (unlinkInTransaction now updatedAt i d)) db of
              (Inr r, db') \<Rightarrow> (Inr r, db')
            | (Inl (PrismaError c), db') \<Rightarrow> (Inl (DatabaseError c), db')
            | (Inl (Thrown e), db') \<Rightarrow> (Inl e, db')
            | (Inl ConcurrentProjectionError, db') \<Rightarrow> (Inl (DatabaseError ''''), db')))"

end
