(* ===== verification/LinkHistory.thy ===== *)
theory LinkHistory
  imports Linking
begin

text \<open>
  Histories of linking: what issuing, redeeming and unlinking keep of the tables, whatever order their
  transactions commit in, and what the rest of the backend makes of a chat that was linked or unlinked.
\<close>

section \<open>The tables\<close>

definition linkOk :: "LinkDb \<Rightarrow> bool" where
  "linkOk db \<longleftrightarrow> distinct (map ltTokenHash (lkTokens db)) \<and> distinct (map ltId (lkTokens db))
     \<and> distinct (map acId (lkAccounts db)) \<and> distinct (map acTelegramUserId (lkAccounts db))
     \<and> distinct (map acUserId (lkAccounts db)) \<and> distinct (map chChatId (lkChats db))
     \<and> chAccountId ` set (lkChats db) \<subseteq> acId ` set (lkAccounts db)
     \<and> (\<forall>a \<in> set (lkAccounts db). \<forall>c \<in> set (lkChats db).
          acDeletedAt a \<noteq> None \<longrightarrow> chAccountId c = acId a \<longrightarrow> chRevokedAt c \<noteq> None)"

text \<open>
  One committed transaction: of the service, or of another process, which leaves its three tables alone. The
  ids a transaction draws are not in use.
\<close>

inductive linkStep :: "LinkDb \<Rightarrow> LinkDb \<Rightarrow> bool" where
  others: "lkTokens db' = lkTokens db \<Longrightarrow> lkAccounts db' = lkAccounts db \<Longrightarrow> lkChats db' = lkChats db \<Longrightarrow> linkStep db db'"
| issues: "ltConsumedAt t = None \<Longrightarrow> createLinkToken t db = (r, db') \<Longrightarrow> linkStep db db'"
| redeems: "redeemInTransaction env i h db = Inr (r, db') \<Longrightarrow> reAccountId env \<notin> acId ` set (lkAccounts db) \<Longrightarrow> linkStep db db'"
| unlinks: "unlinkInTransaction now stamp u db = (r, db') \<Longrightarrow> linkStep db db'"

abbreviation "linkSteps \<equiv> linkStep\<^sup>*\<^sup>*"

lemma distinct_update:
  assumes "distinct (map k rows)"
    and "\<And>r s. r \<in> set rows \<Longrightarrow> s \<in> set rows \<Longrightarrow> P r \<Longrightarrow> r \<noteq> s \<Longrightarrow> k (f r) \<noteq> k s \<and> \<not> P s"
  shows "distinct (map k (map (\<lambda>r. if P r then f r else r) rows))"
proof -
  have rows: "distinct rows" "inj_on k (set rows)" using assms(1) by (simp_all add: distinct_map)
  have "inj_on (\<lambda>r. k (if P r then f r else r)) (set rows)"
  proof (rule inj_onI)
    fix r s assume m: "r \<in> set rows" "s \<in> set rows" and eq: "k (if P r then f r else r) = k (if P s then f s else s)"
    show "r = s"
    proof (rule ccontr)
      assume "r \<noteq> s"
      moreover from this have "k r \<noteq> k s" using rows(2) m by (auto dest: inj_onD)
      ultimately show False using eq assms(2) [OF m] assms(2) [OF m(2,1)] by (metis (full_types))
    qed
  qed
  with rows(1) show ?thesis by (simp add: distinct_map comp_def)
qed

text \<open>Tokens: the tables only gain unconsumed tokens and consume others.\<close>

definition tokensGrow :: "LinkDb \<Rightarrow> LinkDb \<Rightarrow> bool" where
  "tokensGrow db db' \<longleftrightarrow> (\<forall>t \<in> set (lkTokens db). \<exists>t' \<in> set (lkTokens db'). ltTokenHash t' = ltTokenHash t
     \<and> ltId t' = ltId t \<and> ltUserId t' = ltUserId t \<and> (ltConsumedAt t \<noteq> None \<longrightarrow> ltConsumedAt t' = ltConsumedAt t))"

lemma tokensGrow_refl: "tokensGrow db db"
  by (auto simp: tokensGrow_def)

lemma tokensGrow_trans:
  assumes "tokensGrow db db1" and "tokensGrow db1 db2"
  shows "tokensGrow db db2"
  unfolding tokensGrow_def
proof
  fix t assume "t \<in> set (lkTokens db)"
  with assms(1) obtain t1 where t1: "t1 \<in> set (lkTokens db1)" "ltTokenHash t1 = ltTokenHash t" "ltId t1 = ltId t"
    "ltUserId t1 = ltUserId t" "ltConsumedAt t \<noteq> None \<longrightarrow> ltConsumedAt t1 = ltConsumedAt t" by (auto simp: tokensGrow_def)
  from assms(2) t1(1) obtain t2 where "t2 \<in> set (lkTokens db2)" "ltTokenHash t2 = ltTokenHash t1" "ltId t2 = ltId t1"
    "ltUserId t2 = ltUserId t1" "ltConsumedAt t1 \<noteq> None \<longrightarrow> ltConsumedAt t2 = ltConsumedAt t1" by (auto simp: tokensGrow_def)
  with t1 show "\<exists>t' \<in> set (lkTokens db2). ltTokenHash t' = ltTokenHash t \<and> ltId t' = ltId t \<and> ltUserId t' = ltUserId t
      \<and> (ltConsumedAt t \<noteq> None \<longrightarrow> ltConsumedAt t' = ltConsumedAt t)"
    by (intro bexI [of _ t2]) auto
qed

section \<open>Redeeming\<close>

text \<open>What a fresh link has found, and the tables it leaves.\<close>

definition freshLink :: "RedeemEnv \<Rightarrow> RedeemInput \<Rightarrow> LinkToken \<Rightarrow> LinkAccount option \<Rightarrow> TelegramAuthorizationStatus \<Rightarrow> LinkDb \<Rightarrow> bool" where
  "freshLink env i t account c db \<longleftrightarrow>
     (let byTelegram = findFirst (\<lambda>a. acTelegramUserId a = rdUserId i) (lkAccounts db);
          bySaas = findFirst (\<lambda>a. acUserId a = ltUserId t) (lkAccounts db)
      in account = existingAccount byTelegram bySaas \<and> \<not> identityConflict (rdUserId i) (ltUserId t) byTelegram bySaas)
     \<and> ltConsumedAt t = None \<and> reNow env < ltExpiresAt t \<and> linkContext db (reEntitlementNow env) (ltUserId t) = Inr c
     \<and> present (asActiveTenantId c) \<and> present (asActiveStoreId c) \<and> \<not> foreignChat i account db"

lemma redeem_fresh:
  assumes "redeemFresh env i t account db = Inr (r, db')"
  shows "db' = db \<and> (r = RedeemInvalid \<or> (\<exists>e. r = RedeemInactive e))
    \<or> (\<exists>c. linkContext db (reEntitlementNow env) (ltUserId t) = Inr c \<and> present (asActiveTenantId c) \<and> present (asActiveStoreId c)
        \<and> \<not> foreignChat i account db \<and> (r, db') = linkAccount env i t account c db)"
proof (cases "linkContext db (reEntitlementNow env) (ltUserId t)")
  case (Inr c)
  with assms show ?thesis by (cases "asEntitlement c") (auto simp: redeemFresh_def split: if_splits)
qed (use assms in \<open>simp add: redeemFresh_def\<close>)

definition replayed :: "RedeemEnv \<Rightarrow> RedeemInput \<Rightarrow> string \<Rightarrow> TelegramAuthorizationStatus \<Rightarrow> LinkDb \<Rightarrow> bool" where
  "replayed env i h c db \<longleftrightarrow> (\<exists>t. findFirst (\<lambda>t. ltTokenHash t = h) (lkTokens db) = Some t
     \<and> replayedRedeem i t (existingAccount (findFirst (\<lambda>a. acTelegramUserId a = rdUserId i) (lkAccounts db))
         (findFirst (\<lambda>a. acUserId a = ltUserId t) (lkAccounts db))) db
     \<and> linkContext db (reEntitlementNow env) (ltUserId t) = Inr c)"

lemma redeem_cases:
  assumes "redeemInTransaction env i h db = Inr (r, db')"
  shows "db' = db \<and> (\<forall>c. r = RedeemLinked c \<longrightarrow> replayed env i h c db) \<or> (\<exists>t account c. findFirst (\<lambda>t. ltTokenHash t = h) (lkTokens db) = Some t
    \<and> freshLink env i t account c db \<and> (r, db') = linkAccount env i t account c db)"
proof (cases "findFirst (\<lambda>t. ltTokenHash t = h) (lkTokens db)")
  case (Some t)
  define byTelegram where "byTelegram = findFirst (\<lambda>a. acTelegramUserId a = rdUserId i) (lkAccounts db)"
  define bySaas where "bySaas = findFirst (\<lambda>a. acUserId a = ltUserId t) (lkAccounts db)"
  define account where "account = existingAccount byTelegram bySaas"
  note fold = byTelegram_def [symmetric] bySaas_def [symmetric] account_def [symmetric]
  have run: "(if identityConflict (rdUserId i) (ltUserId t) byTelegram bySaas then Inr (RedeemInvalid, db)
      else if replayedRedeem i t account db
      then andThen (linkContext db (reEntitlementNow env) (ltUserId t)) (\<lambda>c. Inr (RedeemLinked c, db))
      else if ltConsumedAt t \<noteq> None \<or> ltExpiresAt t \<le> reNow env then Inr (RedeemInvalid, db)
      else redeemFresh env i t account db) = Inr (r, db')"
    using assms unfolding redeemInTransaction_def Some option.case Let_def byTelegram_def bySaas_def account_def .
  consider "identityConflict (rdUserId i) (ltUserId t) byTelegram bySaas \<or> replayedRedeem i t account db
      \<or> ltConsumedAt t \<noteq> None \<or> ltExpiresAt t \<le> reNow env"
    | "\<not> identityConflict (rdUserId i) (ltUserId t) byTelegram bySaas" "ltConsumedAt t = None" "reNow env < ltExpiresAt t"
      "redeemFresh env i t account db = Inr (r, db')"
    using run by (fastforce split: if_splits)
  then show ?thesis
  proof cases
    case 1
    with run have "db' = db" "\<And>c. r = RedeemLinked c \<Longrightarrow> replayedRedeem i t account db \<and> linkContext db (reEntitlementNow env) (ltUserId t) = Inr c"
      by (auto simp: andThen_Inr_iff split: if_splits)
    then show ?thesis unfolding replayed_def using Some fold(3) unfolding byTelegram_def bySaas_def by blast
  next
    case 2
    from redeem_fresh [OF 2(4)] show ?thesis
    proof (elim disjE exE conjE)
      fix c assume "linkContext db (reEntitlementNow env) (ltUserId t) = Inr c" "present (asActiveTenantId c)"
        "present (asActiveStoreId c)" "\<not> foreignChat i account db" "(r, db') = linkAccount env i t account c db"
      with 2 have "freshLink env i t account c db" by (simp add: freshLink_def Let_def fold)
      with Some \<open>(r, db') = _\<close> show ?thesis by blast
    qed simp_all
  qed
qed (use assms in \<open>auto simp: redeemInTransaction_def\<close>)

lemma freshLink_some:
  assumes ok: "linkOk db" and fresh: "freshLink env i t (Some a) c db"
  shows "a \<in> set (lkAccounts db)" "acTelegramUserId a = rdUserId i"
    "\<And>b. b \<in> set (lkAccounts db) \<Longrightarrow> acUserId b = ltUserId t \<Longrightarrow> b = a"
proof -
  let ?byT = "findFirst (\<lambda>a. acTelegramUserId a = rdUserId i) (lkAccounts db)"
    and ?byS = "findFirst (\<lambda>a. acUserId a = ltUserId t) (lkAccounts db)"
  have a: "Some a = existingAccount ?byT ?byS" and free: "\<not> identityConflict (rdUserId i) (ltUserId t) ?byT ?byS"
    using fresh by (simp_all add: freshLink_def Let_def)
  have "a \<in> set (lkAccounts db) \<and> acTelegramUserId a = rdUserId i
      \<and> (\<forall>b \<in> set (lkAccounts db). acUserId b = ltUserId t \<longrightarrow> b = a)"
  proof (cases ?byS)
    case None
    with a have T: "?byT = Some a" by (simp add: existingAccount_def)
    from findFirst_Some [OF T] None show ?thesis by (auto simp: findFirst_None)
  next
    case (Some b)
    with a have b: "b = a" by (simp add: existingAccount_def)
    have "acTelegramUserId a = rdUserId i" using free Some b by (simp add: identityConflict_def Let_def)
    moreover have "distinct (map acUserId (lkAccounts db))" using ok by (simp add: linkOk_def)
    ultimately show ?thesis using findFirst_Some [OF Some] b by (auto dest: distinct_key_eq)
  qed
  then show "a \<in> set (lkAccounts db)" "acTelegramUserId a = rdUserId i"
    "\<And>b. b \<in> set (lkAccounts db) \<Longrightarrow> acUserId b = ltUserId t \<Longrightarrow> b = a" by blast+
qed

lemma freshLink_none:
  assumes "freshLink env i t None c db" and "b \<in> set (lkAccounts db)"
  shows "acTelegramUserId b \<noteq> rdUserId i" "acUserId b \<noteq> ltUserId t"
proof -
  have "findFirst (\<lambda>a. acTelegramUserId a = rdUserId i) (lkAccounts db) = None" "findFirst (\<lambda>a. acUserId a = ltUserId t) (lkAccounts db) = None"
    using assms(1) by (auto simp: freshLink_def Let_def existingAccount_def split: option.splits)
  with assms(2) show "acTelegramUserId b \<noteq> rdUserId i" "acUserId b \<noteq> ltUserId t" by (auto simp: findFirst_None)
qed

lemma consume_tokens:
  assumes "updateMany (consumeWhere t now) (\<lambda>r. r\<lparr>ltConsumedAt := Some now\<rparr>) rows = (n, tokens)"
  shows "map ltTokenHash tokens = map ltTokenHash rows" "map ltId tokens = map ltId rows"
    and "\<And>s. s \<in> set rows \<Longrightarrow> \<exists>s' \<in> set tokens. ltTokenHash s' = ltTokenHash s \<and> ltId s' = ltId s \<and> ltUserId s' = ltUserId s
      \<and> (ltConsumedAt s \<noteq> None \<longrightarrow> ltConsumedAt s' = ltConsumedAt s)"
    and "\<And>s. s \<in> set rows \<Longrightarrow> consumeWhere t now s \<Longrightarrow> \<exists>s' \<in> set tokens. ltTokenHash s' = ltTokenHash s \<and> ltUserId s' = ltUserId s \<and> ltConsumedAt s' = Some now"
proof -
  let ?f = "\<lambda>r. if consumeWhere t now r then r\<lparr>ltConsumedAt := Some now\<rparr> else r"
  have tokens: "tokens = map ?f rows" using assms by (simp add: updateMany_def)
  show "map ltTokenHash tokens = map ltTokenHash rows" "map ltId tokens = map ltId rows" by (simp_all add: tokens)
  fix s assume s: "s \<in> set rows"
  then have m: "?f s \<in> set tokens" by (simp add: tokens)
  then show "\<exists>s' \<in> set tokens. ltTokenHash s' = ltTokenHash s \<and> ltId s' = ltId s \<and> ltUserId s' = ltUserId s
      \<and> (ltConsumedAt s \<noteq> None \<longrightarrow> ltConsumedAt s' = ltConsumedAt s)"
    by (intro bexI [of _ "?f s"]) (auto simp: consumeWhere_def)
  assume "consumeWhere t now s"
  with m show "\<exists>s' \<in> set tokens. ltTokenHash s' = ltTokenHash s \<and> ltUserId s' = ltUserId s \<and> ltConsumedAt s' = Some now"
    by (intro bexI [of _ "?f s"]) auto
qed

lemma linkAccount_tables:
  assumes "(r, db') = linkAccount env i t account c db"
  obtains n tokens where
    "updateMany (consumeWhere t (reNow env)) (\<lambda>r. r\<lparr>ltConsumedAt := Some (reNow env)\<rparr>) (lkTokens db) = (n, tokens)"
    "lkTokens db' = tokens" "n \<noteq> 1 \<Longrightarrow> r = RedeemInvalid \<and> db' = db\<lparr>lkTokens := tokens\<rparr>"
    "n = 1 \<Longrightarrow> r = RedeemLinked c \<and> db' = authoriseChat env i (fst (saveAccount env i t account (db\<lparr>lkTokens := tokens\<rparr>))) c
      (snd (saveAccount env i t account (db\<lparr>lkTokens := tokens\<rparr>)))"
proof -
  obtain n tokens where u: "updateMany (consumeWhere t (reNow env)) (\<lambda>r. r\<lparr>ltConsumedAt := Some (reNow env)\<rparr>) (lkTokens db) = (n, tokens)"
    by force
  have kept: "lkTokens (snd (saveAccount env i t account d)) = lkTokens d" "lkTokens (authoriseChat env i k c d) = lkTokens d" for d k
    by (auto simp: saveAccount_def authoriseChat_def split: option.split)
  show thesis
    by (rule that [OF u]) (use assms in \<open>auto simp: linkAccount_def u kept case_prod_beta split: if_splits\<close>)
qed

text \<open>The parts of \<open>linkOk\<close>, table by table.\<close>

definition accountsOk :: "LinkAccount list \<Rightarrow> bool" where
  "accountsOk as \<longleftrightarrow> distinct (map acId as) \<and> distinct (map acTelegramUserId as) \<and> distinct (map acUserId as)"

definition chatsOk :: "LinkAccount list \<Rightarrow> LinkChat list \<Rightarrow> bool" where
  "chatsOk as cs \<longleftrightarrow> distinct (map chChatId cs) \<and> chAccountId ` set cs \<subseteq> acId ` set as
     \<and> (\<forall>a \<in> set as. \<forall>c \<in> set cs. acDeletedAt a \<noteq> None \<longrightarrow> chAccountId c = acId a \<longrightarrow> chRevokedAt c \<noteq> None)"

lemma linkOk_parts:
  "linkOk db \<longleftrightarrow> distinct (map ltTokenHash (lkTokens db)) \<and> distinct (map ltId (lkTokens db)) \<and> accountsOk (lkAccounts db)
    \<and> chatsOk (lkAccounts db) (lkChats db)"
  by (auto simp: linkOk_def accountsOk_def chatsOk_def)

lemma relink_accounts:
  assumes ok: "accountsOk as" and a: "a \<in> set as" "acTelegramUserId a = rdUserId i"
    and user: "\<And>b. b \<in> set as \<Longrightarrow> acUserId b = ltUserId t \<Longrightarrow> b = a"
  shows "accountsOk (map (\<lambda>r. if acId r = acId a then relinkAccount i t r else r) as)"
proof -
  have one: "r = a" if "r \<in> set as" "acId r = acId a" for r
    using ok a(1) that by (auto simp: accountsOk_def dest: distinct_key_eq)
  let ?g = "\<lambda>r. if acId r = acId a then relinkAccount i t r else r"
  have "map acId (map ?g as) = map acId as" by (simp add: relinkAccount_def)
  moreover have "map acTelegramUserId (map ?g as) = map acTelegramUserId as"
    using one a(2) by (auto simp: relinkAccount_def dest: one)
  moreover have "distinct (map acUserId (map ?g as))"
  proof (rule distinct_update)
    fix r s assume m: "r \<in> set as" "s \<in> set as" "acId r = acId a" "r \<noteq> s"
    have "r = a" by (rule one [OF m(1,3)])
    with m(4) user [OF m(2)] one [OF m(2)] show "acUserId (relinkAccount i t r) \<noteq> acUserId s \<and> acId s \<noteq> acId a"
      by (auto simp: relinkAccount_def)
  qed (use ok in \<open>simp add: accountsOk_def\<close>)
  ultimately show ?thesis using ok by (simp only: accountsOk_def)
qed

lemma key_update: "(\<And>r. k (f r) = k r) \<Longrightarrow> k ` set (map (\<lambda>r. if P r then f r else r) rows) = k ` set rows"
  by (simp only: set_map image_image) (rule image_cong; simp)

lemma acIds_relink: "acId ` set (map (\<lambda>r. if acId r = k then relinkAccount i t r else r) as) = acId ` set as"
  by (rule key_update) (simp add: relinkAccount_def)

lemma authorise_chats:
  assumes ok: "chatsOk as cs" and acc: "k \<in> acId ` set as" "\<And>a. a \<in> set as \<Longrightarrow> acId a = k \<Longrightarrow> acDeletedAt a = None"
    and cs: "cs = lkChats db" "as = lkAccounts db"
    and own: "\<And>c. c \<in> set cs \<Longrightarrow> chChatId c = rdChatId i \<Longrightarrow> chAccountId c = k"
  shows "chatsOk (lkAccounts (authoriseChat env i k st db)) (lkChats (authoriseChat env i k st db))"
proof (cases "findFirst (\<lambda>r. chChatId r = rdChatId i) cs")
  case None
  then have "\<forall>c \<in> set cs. chChatId c \<noteq> rdChatId i" by (simp add: findFirst_None)
  with ok acc show ?thesis unfolding authoriseChat_def cs [symmetric] None by (auto simp: chatsOk_def cs)
next
  case (Some x)
  let ?P = "\<lambda>r. chChatId r = rdChatId i"
    and ?f = "\<lambda>r. r\<lparr>chType := PRIVATE, chRevokedAt := None, chActiveTenantId := asActiveTenantId st,
                    chUpdatedAt := reUpdatedAt env, lcActiveStoreId := asActiveStoreId st\<rparr> :: LinkChat"
  have "distinct (map chChatId (map (\<lambda>r. if ?P r then ?f r else r) cs))"
    using ok by (intro distinct_update) (auto simp: chatsOk_def dest: distinct_key_eq)
  moreover have "chAccountId ` set (map (\<lambda>r. if ?P r then ?f r else r) cs) = chAccountId ` set cs"
    by (rule key_update) simp
  moreover have "chRevokedAt c \<noteq> None"
    if "a \<in> set as" "c \<in> set (map (\<lambda>r. if ?P r then ?f r else r) cs)" "acDeletedAt a \<noteq> None" "chAccountId c = acId a" for a c
  proof -
    from that(2) obtain r where r: "r \<in> set cs" "c = (if ?P r then ?f r else r)" by auto
    show ?thesis
    proof (cases "?P r")
      case True
      then have "acId a = k" using own [OF r(1)] r(2) that(4) by simp
      with acc(2) [OF that(1)] that(3) show ?thesis by simp
    next
      case False
      with r ok that(1,3,4) show ?thesis by (auto simp: chatsOk_def)
    qed
  qed
  ultimately show ?thesis
    using ok Some unfolding authoriseChat_def cs [symmetric]
    by (simp add: chatsOk_def updateMany_rows cs del: set_map)
qed

lemma save_account:
  assumes ok: "linkOk db" and fresh: "freshLink env i t account c db" and new: "reAccountId env \<notin> acId ` set (lkAccounts db)"
    and run: "saveAccount env i t account (db\<lparr>lkTokens := tokens\<rparr>) = (k, db1)"
  shows "accountsOk (lkAccounts db1)" "lkTokens db1 = tokens" "lkChats db1 = lkChats db" "chatsOk (lkAccounts db1) (lkChats db1)"
    "lkTenants db1 = lkTenants db" "lkStores db1 = lkStores db" "lkMemberships db1 = lkMemberships db"
    "\<exists>a \<in> set (lkAccounts db1). acId a = k \<and> acDeletedAt a = None \<and> acTelegramUserId a = rdUserId i \<and> acUserId a = ltUserId t"
    "\<And>c. c \<in> set (lkChats db) \<Longrightarrow> chChatId c = rdChatId i \<Longrightarrow> chAccountId c = k"
proof -
  have accounts: "accountsOk (lkAccounts db)" and chats: "chatsOk (lkAccounts db) (lkChats db)" using ok by (simp_all add: linkOk_parts)
  have free: "\<not> foreignChat i account db" using fresh by (simp add: freshLink_def)
  have "accountsOk (lkAccounts db1) \<and> lkTokens db1 = tokens \<and> lkChats db1 = lkChats db \<and> chatsOk (lkAccounts db1) (lkChats db1)
    \<and> lkTenants db1 = lkTenants db \<and> lkStores db1 = lkStores db \<and> lkMemberships db1 = lkMemberships db
    \<and> (\<exists>a \<in> set (lkAccounts db1). acId a = k \<and> acDeletedAt a = None \<and> acTelegramUserId a = rdUserId i \<and> acUserId a = ltUserId t)
    \<and> (\<forall>c \<in> set (lkChats db). chChatId c = rdChatId i \<longrightarrow> chAccountId c = k)"
  proof (cases account)
    case None
    then have none: "acTelegramUserId b \<noteq> rdUserId i" "acUserId b \<noteq> ltUserId t" if "b \<in> set (lkAccounts db)" for b
      using freshLink_none [OF _ that] fresh by simp_all
    have "accountsOk (lkAccounts db @ [linkedAccount env i t])"
      using accounts none new by (auto simp: accountsOk_def linkedAccount_def dest: none)
    moreover have "chatsOk (lkAccounts db @ [linkedAccount env i t]) (lkChats db)"
      using chats by (auto simp: chatsOk_def linkedAccount_def)
    moreover have "\<forall>c \<in> set (lkChats db). chChatId c \<noteq> rdChatId i"
      using free None by (auto simp: foreignChat_def findFirst_None split: option.splits)
    ultimately show ?thesis using run None by (auto simp: saveAccount_def linkedAccount_def)
  next
    case (Some a)
    note a = freshLink_some [OF ok fresh [unfolded Some]]
    let ?as = "map (\<lambda>r. if acId r = acId a then relinkAccount i t r else r) (lkAccounts db)"
    have "accountsOk ?as" by (rule relink_accounts [OF accounts a])
    moreover have "chatsOk ?as (lkChats db)"
      using chats acIds_relink [of "acId a" i t "lkAccounts db"] by (auto simp: chatsOk_def relinkAccount_def)
    moreover have "relinkAccount i t a \<in> set ?as" using a(1) by force
    moreover have "\<forall>c \<in> set (lkChats db). chChatId c = rdChatId i \<longrightarrow> chAccountId c = acId a"
    proof (intro ballI impI)
      fix c' assume c': "c' \<in> set (lkChats db)" "chChatId c' = rdChatId i"
      then have "findFirst (\<lambda>c. chChatId c = rdChatId i) (lkChats db) = Some c'"
        using chats by (intro findFirst_unique [where k = chChatId]) (auto simp: chatsOk_def)
      with free Some show "chAccountId c' = acId a" by (simp add: foreignChat_def)
    qed
    moreover have "db1 = db\<lparr>lkTokens := tokens, lkAccounts := ?as\<rparr>" "k = acId a"
      using run by (auto simp: saveAccount_def Some updateMany_rows)
    ultimately show ?thesis
      by (simp del: set_map) (rule bexI [of _ "relinkAccount i t a"]; simp add: relinkAccount_def)
  qed
  then show "accountsOk (lkAccounts db1)" "lkTokens db1 = tokens" "lkChats db1 = lkChats db" "chatsOk (lkAccounts db1) (lkChats db1)"
    "lkTenants db1 = lkTenants db" "lkStores db1 = lkStores db" "lkMemberships db1 = lkMemberships db"
    "\<exists>a \<in> set (lkAccounts db1). acId a = k \<and> acDeletedAt a = None \<and> acTelegramUserId a = rdUserId i \<and> acUserId a = ltUserId t"
    "\<And>c. c \<in> set (lkChats db) \<Longrightarrow> chChatId c = rdChatId i \<Longrightarrow> chAccountId c = k" by blast+
qed

lemma authorise_keeps:
  "lkTokens (authoriseChat env i k st db) = lkTokens db" "lkAccounts (authoriseChat env i k st db) = lkAccounts db"
  "lkTenants (authoriseChat env i k st db) = lkTenants db" "lkStores (authoriseChat env i k st db) = lkStores db"
  "lkMemberships (authoriseChat env i k st db) = lkMemberships db"
  by (simp_all add: authoriseChat_def)

lemma linkAccount_ok:
  assumes ok: "linkOk db" and fresh: "freshLink env i t account c db" and new: "reAccountId env \<notin> acId ` set (lkAccounts db)"
    and run: "(r, db') = linkAccount env i t account c db"
  shows "linkOk db'"
proof -
  from run obtain n tokens where u: "updateMany (consumeWhere t (reNow env)) (\<lambda>r. r\<lparr>ltConsumedAt := Some (reNow env)\<rparr>) (lkTokens db) = (n, tokens)"
    and raced: "n \<noteq> 1 \<Longrightarrow> db' = db\<lparr>lkTokens := tokens\<rparr>"
    and linked: "n = 1 \<Longrightarrow> db' = authoriseChat env i (fst (saveAccount env i t account (db\<lparr>lkTokens := tokens\<rparr>))) c
      (snd (saveAccount env i t account (db\<lparr>lkTokens := tokens\<rparr>)))"
    by (rule linkAccount_tables) blast
  note keys = consume_tokens(1,2) [OF u]
  show ?thesis
  proof (cases "n = 1")
    case False
    with raced ok keys show ?thesis by (simp add: linkOk_parts)
  next
    case True
    obtain k db1 where s: "saveAccount env i t account (db\<lparr>lkTokens := tokens\<rparr>) = (k, db1)" by force
    note saved = save_account [OF ok fresh new s]
    have live: "acDeletedAt a = None" if "a \<in> set (lkAccounts db1)" "acId a = k" for a
      using saved(1,8) that by (auto simp: accountsOk_def dest: distinct_key_eq)
    from saved(8) have k: "k \<in> acId ` set (lkAccounts db1)" by blast
    from authorise_chats [OF saved(4) k live refl refl, of i env c] saved(3,9)
    have "chatsOk (lkAccounts (authoriseChat env i k c db1)) (lkChats (authoriseChat env i k c db1))" by simp
    with linked True s saved(1,2) ok keys show ?thesis by (simp add: linkOk_parts authorise_keeps)
  qed
qed

section \<open>Every step\<close>

lemma redeem_ok:
  assumes "linkOk db" and "redeemInTransaction env i h db = Inr (r, db')" and "reAccountId env \<notin> acId ` set (lkAccounts db)"
  shows "linkOk db'"
  using redeem_cases [OF assms(2)] assms(1) linkAccount_ok [OF assms(1) _ assms(3)] by blast

lemma unlink_ok:
  assumes ok: "linkOk db" and run: "unlinkInTransaction now stamp u db = (r, db')"
  shows "linkOk db'"
proof (cases "db' = db")
  case False
  with run obtain a where a: "findFirst (\<lambda>a. acTelegramUserId a = tiUserId (ulIdentity u)) (lkAccounts db) = Some a"
    and db': "db' = db\<lparr>
      lkChats := snd (updateMany (\<lambda>c. chAccountId c = acId a \<and> chRevokedAt c = None)
        (\<lambda>c. c\<lparr>chRevokedAt := Some now, chActiveTenantId := None, chUpdatedAt := stamp, lcActiveStoreId := None\<rparr>) (lkChats db)),
      lkAccounts := snd (updateMany (\<lambda>r. acId r = acId a)
        (\<lambda>r. r\<lparr>acDeletedAt := Some now, laLastUnlinkUpdateId := Some (ulUpdateId u)\<rparr>) (lkAccounts db))\<rparr>"
    by (auto simp: unlinkInTransaction_def Let_def split: option.splits if_splits)
  let ?f = "\<lambda>r. r\<lparr>acDeletedAt := Some now, laLastUnlinkUpdateId := Some (ulUpdateId u)\<rparr> :: LinkAccount"
    and ?g = "\<lambda>c. c\<lparr>chRevokedAt := Some now, chActiveTenantId := None, chUpdatedAt := stamp, lcActiveStoreId := None\<rparr> :: LinkChat"
  let ?as = "map (\<lambda>r. if acId r = acId a then ?f r else r) (lkAccounts db)"
    and ?cs = "map (\<lambda>c. if chAccountId c = acId a \<and> chRevokedAt c = None then ?g c else c) (lkChats db)"
  have keys: "map acId ?as = map acId (lkAccounts db)" "map acTelegramUserId ?as = map acTelegramUserId (lkAccounts db)"
    "map acUserId ?as = map acUserId (lkAccounts db)" "map chChatId ?cs = map chChatId (lkChats db)" by simp_all
  have ids: "acId ` set ?as = acId ` set (lkAccounts db)" "chAccountId ` set ?cs = chAccountId ` set (lkChats db)"
    by (rule key_update; simp)+
  have revoked: "chRevokedAt c \<noteq> None" if "b \<in> set ?as" "c \<in> set ?cs" "acDeletedAt b \<noteq> None" "chAccountId c = acId b" for b c
  proof -
    from that(1) obtain b0 where b0: "b0 \<in> set (lkAccounts db)" "b = (if acId b0 = acId a then ?f b0 else b0)" by auto
    from that(2) obtain c0 where c0: "c0 \<in> set (lkChats db)" "c = (if chAccountId c0 = acId a \<and> chRevokedAt c0 = None then ?g c0 else c0)" by auto
    show ?thesis
      using ok b0 c0 that(3,4) by (auto simp: linkOk_def split: if_splits)
  qed
  have "distinct (map chChatId ?cs)" unfolding keys(4) using ok by (simp add: linkOk_parts chatsOk_def)
  moreover have "chAccountId ` set ?cs \<subseteq> acId ` set ?as" unfolding ids using ok by (simp add: linkOk_parts chatsOk_def)
  ultimately have "chatsOk ?as ?cs" unfolding chatsOk_def using revoked by blast
  moreover have "accountsOk ?as" using ok keys(1-3) by (simp only: linkOk_parts accountsOk_def)
  ultimately show ?thesis using ok by (simp add: linkOk_parts db' updateMany_rows del: set_map)
qed (use ok in simp)

lemma create_ok:
  assumes "linkOk db" and "createLinkToken t db = (r, db')"
  shows "linkOk db'"
  using assms by (auto simp: createLinkToken_def linkOk_parts split: if_splits)

lemma linkStep_ok: "linkStep db db' \<Longrightarrow> linkOk db \<Longrightarrow> linkOk db'"
  by (induction rule: linkStep.induct) (simp add: linkOk_parts, rule create_ok, assumption+, rule redeem_ok, assumption+,
      rule unlink_ok, assumption+)

lemma linkSteps_ok: "linkSteps db db' \<Longrightarrow> linkOk db \<Longrightarrow> linkOk db'"
  by (induction rule: rtranclp_induct) (auto intro: linkStep_ok)

lemma redeem_tokens:
  assumes "redeemInTransaction env i h db = Inr (r, db')"
  shows "tokensGrow db db'"
  using redeem_cases [OF assms]
proof (elim disjE exE conjE)
  fix t account c assume "(r, db') = linkAccount env i t account c db"
  then obtain n tokens where "updateMany (consumeWhere t (reNow env)) (\<lambda>r. r\<lparr>ltConsumedAt := Some (reNow env)\<rparr>) (lkTokens db) = (n, tokens)"
    "lkTokens db' = tokens" by (rule linkAccount_tables)
  with consume_tokens(3) show ?thesis by (fastforce simp: tokensGrow_def)
qed (simp add: tokensGrow_refl)

lemma unlink_tokens: "unlinkInTransaction now stamp u db = (r, db') \<Longrightarrow> lkTokens db' = lkTokens db"
  by (auto simp: unlinkInTransaction_def Let_def split: option.splits if_splits)

lemma linkStep_tokens: "linkStep db db' \<Longrightarrow> tokensGrow db db'"
proof (induction rule: linkStep.induct)
  case (issues t db r db')
  then show ?case by (auto simp: createLinkToken_def tokensGrow_def split: if_splits)
next
  case (unlinks now stamp u db r db')
  from unlink_tokens [OF this] show ?case by (auto simp: tokensGrow_def)
next
  case (redeems env i h db r db')
  then show ?case by (intro redeem_tokens)
qed (auto simp: tokensGrow_def)

lemma linkSteps_tokens: "linkSteps db db' \<Longrightarrow> tokensGrow db db'"
  by (induction rule: rtranclp_induct) (auto intro: tokensGrow_refl tokensGrow_trans linkStep_tokens)

section \<open>A token links once\<close>

lemma redeemToken_run:
  assumes "redeemToken att env i db = (x, db')"
  shows "db' = interference att db \<and> (\<forall>c. x \<noteq> Inr (RedeemLinked c))
    \<or> (\<exists>r. x = Inr r \<and> redeemInTransaction env i (reHash env (rdToken i)) (interference att db) = Inr (r, db'))"
proof (cases "databaseFault att")
  case None
  with assms show ?thesis
    by (cases "redeemInTransaction env i (reHash env (rdToken i)) (interference att db)")
      (auto simp: redeemToken_def runTransaction_def split: prod.splits)
qed (use assms in \<open>auto simp: redeemToken_def runTransaction_def split: if_splits\<close>)

lemma linkAccount_linked:
  assumes "(RedeemLinked c', db') = linkAccount env i t account c db"
  obtains tokens k db1 where "c' = c"
    "updateMany (consumeWhere t (reNow env)) (\<lambda>r. r\<lparr>ltConsumedAt := Some (reNow env)\<rparr>) (lkTokens db) = (1, tokens)"
    "lkTokens db' = tokens" "saveAccount env i t account (db\<lparr>lkTokens := tokens\<rparr>) = (k, db1)"
    "db' = authoriseChat env i k c db1"
proof -
  obtain n tokens where u: "updateMany (consumeWhere t (reNow env)) (\<lambda>r. r\<lparr>ltConsumedAt := Some (reNow env)\<rparr>) (lkTokens db) = (n, tokens)"
    "lkTokens db' = tokens" "n \<noteq> 1 \<Longrightarrow> RedeemLinked c' = RedeemInvalid"
    "n = 1 \<Longrightarrow> RedeemLinked c' = RedeemLinked c \<and> db' = authoriseChat env i (fst (saveAccount env i t account (db\<lparr>lkTokens := tokens\<rparr>))) c
      (snd (saveAccount env i t account (db\<lparr>lkTokens := tokens\<rparr>)))"
    using linkAccount_tables [OF assms] by metis
  then have n: "n = 1" by blast
  show thesis by (rule that [of tokens, OF _ _ u(2) prod.collapse [symmetric]]) (use u n in auto)
qed

lemma linked_consumes:
  assumes "redeemInTransaction env i h db = Inr (RedeemLinked c, db')"
  shows "\<exists>t \<in> set (lkTokens db'). ltTokenHash t = h \<and> ltConsumedAt t \<noteq> None"
  using redeem_cases [OF assms]
proof (elim disjE exE conjE)
  assume "db' = db" and "\<forall>c'. RedeemLinked c = RedeemLinked c' \<longrightarrow> replayed env i h c' db"
  then obtain t where "findFirst (\<lambda>t. ltTokenHash t = h) (lkTokens db) = Some t" "ltConsumedAt t \<noteq> None"
    by (auto simp: replayed_def replayedRedeem_def)
  with findFirst_Some [OF this(1)] \<open>db' = db\<close> show ?thesis by blast
next
  fix t account c' assume found: "findFirst (\<lambda>t. ltTokenHash t = h) (lkTokens db) = Some t"
    and fresh: "freshLink env i t account c' db" and run: "(RedeemLinked c, db') = linkAccount env i t account c' db"
  from run obtain tokens where u: "updateMany (consumeWhere t (reNow env)) (\<lambda>r. r\<lparr>ltConsumedAt := Some (reNow env)\<rparr>) (lkTokens db) = (1, tokens)"
    "lkTokens db' = tokens" by (rule linkAccount_linked)
  have "consumeWhere t (reNow env) t" using fresh by (simp add: freshLink_def consumeWhere_def)
  with consume_tokens(4) [OF u(1)] findFirst_Some [OF found] u(2) show ?thesis by fastforce
qed

text \<open>
  C36: a token links once: after a presentation of a token has been answered \<open>linked\<close>, and whatever else has been
  issued, redeemed and unlinked since, presenting it again writes nothing; it is answered \<open>linked\<close> only to the
  Telegram user whose account is, at that time, linked to the user the token was issued for, by the very
  update that is repeated, in a chat of that account that has not been revoked.
\<close>

theorem link_token_links_once:
  assumes ok: "linkOk (interference att0 db0)" and fresh: "reAccountId env0 \<notin> acId ` set (lkAccounts (interference att0 db0))"
    and first: "redeemToken att0 env0 i0 db0 = (Inr (RedeemLinked c0), db)"
    and history: "linkSteps db (interference att db1)"
    and again: "redeemToken att env i db1 = (x, db2)" and same: "reHash env (rdToken i) = reHash env0 (rdToken i0)"
  shows "db2 = interference att db1 \<and> (\<forall>c. x = Inr (RedeemLinked c) \<longrightarrow>
    (\<exists>t \<in> set (lkTokens db2). \<exists>a \<in> set (lkAccounts db2). \<exists>ch \<in> set (lkChats db2).
       ltTokenHash t = reHash env (rdToken i) \<and> acTelegramUserId a = rdUserId i \<and> acUserId a = ltUserId t \<and> acDeletedAt a = None
       \<and> laLastRedeemUpdateId a = Some (rdUpdateId i) \<and> chAccountId ch = acId a \<and> chChatId ch = rdChatId i \<and> chRevokedAt ch = None))"
proof -
  let ?h = "reHash env (rdToken i)" and ?d = "interference att db1"
  from redeemToken_run [OF first] have "redeemInTransaction env0 i0 ?h (interference att0 db0) = Inr (RedeemLinked c0, db)"
    using same by auto
  note one = this linked_consumes [OF this]
  have ok1: "linkOk ?d" by (rule linkSteps_ok [OF history redeem_ok [OF ok one(1) fresh]])
  obtain t where t: "t \<in> set (lkTokens ?d)" "ltTokenHash t = ?h" "ltConsumedAt t \<noteq> None"
    using one(2) linkSteps_tokens [OF history] by (force simp: tokensGrow_def)
  have found: "findFirst (\<lambda>t. ltTokenHash t = ?h) (lkTokens ?d) = Some t"
    using ok1 t by (intro findFirst_unique [where k = ltTokenHash]) (auto simp: linkOk_def)
  have kept: "db2 = ?d \<and> (\<forall>c. r = RedeemLinked c \<longrightarrow> replayed env i ?h c ?d)"
    if "redeemInTransaction env i ?h ?d = Inr (r, db2)" for r
    using redeem_cases [OF that] found t(3) by (auto simp: freshLink_def)
  from redeemToken_run [OF again] show ?thesis
  proof (elim disjE exE conjE)
    fix r assume x: "x = Inr r" and run: "redeemInTransaction env i ?h ?d = Inr (r, db2)"
    note k = kept [OF run]
    have "\<exists>t \<in> set (lkTokens ?d). \<exists>a \<in> set (lkAccounts ?d). \<exists>ch \<in> set (lkChats ?d).
       ltTokenHash t = ?h \<and> acTelegramUserId a = rdUserId i \<and> acUserId a = ltUserId t \<and> acDeletedAt a = None
       \<and> laLastRedeemUpdateId a = Some (rdUpdateId i) \<and> chAccountId ch = acId a \<and> chChatId ch = rdChatId i \<and> chRevokedAt ch = None"
      if "r = RedeemLinked c" for c
    proof -
      from k that have "replayed env i ?h c ?d" by blast
      then obtain a ch where a: "existingAccount (findFirst (\<lambda>a. acTelegramUserId a = rdUserId i) (lkAccounts ?d))
          (findFirst (\<lambda>a. acUserId a = ltUserId t) (lkAccounts ?d)) = Some a"
        and ch: "findFirst (\<lambda>c. chChatId c = rdChatId i) (lkChats ?d) = Some ch"
        and facts: "acTelegramUserId a = rdUserId i" "acUserId a = ltUserId t" "acDeletedAt a = None"
          "laLastRedeemUpdateId a = Some (rdUpdateId i)" "chAccountId ch = acId a" "chRevokedAt ch = None"
        by (auto simp: replayed_def replayedRedeem_def found split: option.splits)
      have "a \<in> set (lkAccounts ?d)" using a by (auto simp: existingAccount_def dest!: findFirst_Some split: option.splits)
      with t(1,2) findFirst_Some [OF ch] facts show ?thesis by blast
    qed
    with x k show ?thesis by blast
  qed simp
qed

section \<open>What the order service makes of a link\<close>

text \<open>The rows the order service reads, of the columns it selects.\<close>

definition servedDb :: "TelegramDb \<Rightarrow> LinkDb \<Rightarrow> TelegramDb" where
  "servedDb rest db =
     rest\<lparr>tgTenants := lkTenants db, tgShops := map ShopRow.truncate (lkStores db), tgMemberships := lkMemberships db,
       tgAccounts := map AccountRow.truncate (lkAccounts db), tgChats := map ChatRow.truncate (lkChats db)\<rparr>"

lemma served_alive: "tenantAlive (servedDb rest db) = linkTenantAlive db"
  by (simp add: fun_eq_iff tenantAlive_def linkTenantAlive_def servedDb_def)

lemma served_memberships:
  "take 2 (findMany (membershipWhere (servedDb rest db) user) (tgMemberships (servedDb rest db))) = linkMemberships db user"
proof -
  have "role \<in> {OWNER, ADMIN, MEMBER}" for role by (cases role) simp_all
  then have "membershipWhere (servedDb rest db) user = (\<lambda>m. mbUserId m = user \<and> mbDeletedAt m = None \<and> linkTenantAlive db (mbTenantId m))"
    by (simp add: fun_eq_iff membershipWhere_def served_alive del: insert_iff)
  then show ?thesis by (simp add: linkMemberships_def servedDb_def)
qed

lemma served_shops:
  "map shId (take 2 (findMany (activeShopWhere (servedDb rest db) tenant) (tgShops (servedDb rest db)))) = map shId (linkStores db tenant)"
proof -
  have shop: "shTenantId (ShopRow.truncate s) = shTenantId s" "shStatus (ShopRow.truncate s) = shStatus s"
    "shDeletedAt (ShopRow.truncate s) = shDeletedAt s" "shId (ShopRow.truncate s) = shId s" for s :: LinkStore
    by (simp_all add: ShopRow.truncate_def)
  have "tgShops (servedDb rest db) = map ShopRow.truncate (lkStores db)" by (simp add: servedDb_def)
  then show ?thesis
    by (simp add: linkStores_def findMany_def filter_map take_map comp_def activeShopWhere_def served_alive shop)
qed

lemma context_resolved:
  assumes "linkContext db now user = Inr c" and "present (asActiveStoreId c)"
  obtains m s where "linkMemberships db user = [m]" "linkStores db (mbTenantId m) = [s]"
    "asActiveTenantId c = Some (mbTenantId m)" "asActiveStoreId c = Some (shId s)"
proof -
  obtain ms where ms: "linkMemberships db user = ms" by blast
  with assms obtain m where m: "ms = [m]"
    by (auto simp: linkContext_def Let_def contextStatus_def present_def split: list.splits if_splits)
  with assms ms obtain e where c: "c = contextStatus [m] (linkStores db (mbTenantId m)) (Some e)"
    by (auto simp: linkContext_def Let_def andThen_Inr_iff contextStatus_def present_def split: if_splits)
  with assms(2) obtain s where s: "linkStores db (mbTenantId m) = [s]"
    by (auto simp: contextStatus_def Let_def present_def split: list.splits if_splits)
  with c assms(2) have "asActiveTenantId c = Some (mbTenantId m)" "asActiveStoreId c = Some (shId s)"
    by (auto simp: contextStatus_def Let_def present_def split: if_splits)
  with ms m s that show thesis by blast
qed

lemma linkContext_cong:
  assumes "lkTenants db' = lkTenants db" "lkStores db' = lkStores db" "lkMemberships db' = lkMemberships db"
  shows "linkContext db' now user = linkContext db now user"
proof -
  have parts: "linkMemberships db' = linkMemberships db" "linkStores db' = linkStores db"
    using assms by (simp_all add: fun_eq_iff linkMemberships_def linkStores_def linkTenantAlive_def)
  show ?thesis unfolding linkContext_def assms parts by (rule refl)
qed

lemma truncate_account:
  "acId (AccountRow.truncate a) = acId a" "acTelegramUserId (AccountRow.truncate a) = acTelegramUserId a"
  "acUserId (AccountRow.truncate a) = acUserId a" "acDeletedAt (AccountRow.truncate a) = acDeletedAt a"
  by (simp_all add: AccountRow.truncate_def)

lemma truncate_chat:
  "chAccountId (ChatRow.truncate c) = chAccountId c" "chChatId (ChatRow.truncate c) = chChatId c"
  "chRevokedAt (ChatRow.truncate c) = chRevokedAt c"
  by (simp_all add: ChatRow.truncate_def)

text \<open>A chat of a linked account whose user has one tenant with one store is served for that user.\<close>

lemma linked_served:
  assumes ok: "linkOk db" and a: "a \<in> set (lkAccounts db)" "acDeletedAt a = None"
    and ch: "ch \<in> set (lkChats db)" "chAccountId ch = acId a" "chRevokedAt ch = None"
    and c: "linkContext db now (acUserId a) = Inr c" "present (asActiveStoreId c)"
  shows "\<exists>cx. resolveContext (servedDb rest db) \<lparr>tiUserId = acTelegramUserId a, tiChatId = chChatId ch\<rparr> = ContextOk cx
    \<and> cxUserId cx = acUserId a \<and> asActiveTenantId c = Some (cxTenantId cx) \<and> asActiveStoreId c = Some (cxStoreId cx)"
proof -
  let ?db = "servedDb rest db" and ?a = "AccountRow.truncate a"
  obtain m s where m: "linkMemberships db (acUserId a) = [m]" and s: "linkStores db (mbTenantId m) = [s]"
    and ids: "asActiveTenantId c = Some (mbTenantId m)" "asActiveStoreId c = Some (shId s)" by (rule context_resolved [OF c])
  have found: "findFirst (\<lambda>x. acTelegramUserId x = acTelegramUserId a) (tgAccounts ?db) = Some ?a"
  proof -
    have "findFirst (\<lambda>x. acTelegramUserId x = acTelegramUserId a) (lkAccounts db) = Some a"
      using ok a(1) by (intro findFirst_unique [where k = acTelegramUserId]) (auto simp: linkOk_def)
    then show ?thesis by (simp add: servedDb_def findFirst_map truncate_account)
  qed
  have "filter (\<lambda>x. chAccountId x = acId a \<and> chChatId x = chChatId ch \<and> chRevokedAt x = None) (lkChats db) = [ch]"
    using ok ch by (intro filter_single_key [where k = chChatId]) (auto simp: linkOk_def)
  then have one: "length (findMany (activeChat ?a (chChatId ch)) (tgChats ?db)) = 1"
    by (simp add: servedDb_def findMany_def filter_map comp_def activeChat_def truncate_account truncate_chat)
  have shops: "map shId (take 2 (findMany (activeShopWhere ?db (mbTenantId m)) (tgShops ?db))) = [shId s]"
    by (simp only: served_shops s list.map)
  then obtain s' where s': "take 2 (findMany (activeShopWhere ?db (mbTenantId m)) (tgShops ?db)) = [s']" "shId s' = shId s"
    by (auto simp: map_eq_Cons_conv)
  have "take 2 (findMany (membershipWhere ?db (acUserId ?a)) (tgMemberships ?db)) = [m]"
    by (simp only: truncate_account served_memberships m)
  with found one s' show ?thesis
    by (simp add: resolveContext_def truncate_account a(2) resolveMembership_def ids)
qed

lemma replayed_rows:
  assumes "replayedRedeem i t account db"
  shows "\<exists>a ch. account = Some a \<and> findFirst (\<lambda>c. chChatId c = rdChatId i) (lkChats db) = Some ch \<and> acTelegramUserId a = rdUserId i
    \<and> acUserId a = ltUserId t \<and> acDeletedAt a = None \<and> chAccountId ch = acId a \<and> chRevokedAt ch = None"
  using assms
  by (cases account; cases "findFirst (\<lambda>c. chChatId c = rdChatId i) (lkChats db)") (simp_all add: replayedRedeem_def)

text \<open>Which account and chat an answer \<open>linked\<close> leaves.\<close>

lemma linked_rows:
  assumes ok: "linkOk db" and new: "reAccountId env \<notin> acId ` set (lkAccounts db)"
    and run: "redeemInTransaction env i h db = Inr (RedeemLinked c, db')"
  shows "\<exists>t a ch. t \<in> set (lkTokens db') \<and> ltTokenHash t = h \<and> ltUserId t = acUserId a \<and> a \<in> set (lkAccounts db')
    \<and> acDeletedAt a = None \<and> acTelegramUserId a = rdUserId i \<and> ch \<in> set (lkChats db') \<and> chAccountId ch = acId a
    \<and> chChatId ch = rdChatId i \<and> chRevokedAt ch = None \<and> linkContext db' (reEntitlementNow env) (acUserId a) = Inr c"
  using redeem_cases [OF run]
proof (elim disjE exE conjE)
  assume db': "db' = db" and "\<forall>c'. RedeemLinked c = RedeemLinked c' \<longrightarrow> replayed env i h c' db"
  then have "replayed env i h c db" by blast
  then obtain t where t: "findFirst (\<lambda>t. ltTokenHash t = h) (lkTokens db) = Some t"
    and rep: "replayedRedeem i t (existingAccount (findFirst (\<lambda>a. acTelegramUserId a = rdUserId i) (lkAccounts db))
      (findFirst (\<lambda>a. acUserId a = ltUserId t) (lkAccounts db))) db"
    and ctx: "linkContext db (reEntitlementNow env) (ltUserId t) = Inr c" unfolding replayed_def by blast
  from replayed_rows [OF rep] obtain a ch where a: "existingAccount (findFirst (\<lambda>a. acTelegramUserId a = rdUserId i) (lkAccounts db))
      (findFirst (\<lambda>a. acUserId a = ltUserId t) (lkAccounts db)) = Some a"
    and ch: "findFirst (\<lambda>c. chChatId c = rdChatId i) (lkChats db) = Some ch"
    and facts: "acTelegramUserId a = rdUserId i" "acUserId a = ltUserId t" "acDeletedAt a = None"
      "chAccountId ch = acId a" "chRevokedAt ch = None" by blast
  have "a \<in> set (lkAccounts db)" using a by (auto simp: existingAccount_def dest!: findFirst_Some split: option.splits)
  with findFirst_Some [OF t] findFirst_Some [OF ch] facts ctx db' show ?thesis by (intro exI [of _ t] exI [of _ a] exI [of _ ch]) simp
next
  fix t account c' assume found: "findFirst (\<lambda>t. ltTokenHash t = h) (lkTokens db) = Some t"
    and fresh: "freshLink env i t account c' db" and link: "(RedeemLinked c, db') = linkAccount env i t account c' db"
  from link obtain tokens k db1 where c: "c = c'"
    and u: "updateMany (consumeWhere t (reNow env)) (\<lambda>r. r\<lparr>ltConsumedAt := Some (reNow env)\<rparr>) (lkTokens db) = (1, tokens)"
    and tokens: "lkTokens db' = tokens" and save: "saveAccount env i t account (db\<lparr>lkTokens := tokens\<rparr>) = (k, db1)"
    and db': "db' = authoriseChat env i k c' db1" by (rule linkAccount_linked)
  note saved = save_account [OF ok fresh new save]
  obtain a where a: "a \<in> set (lkAccounts db1)" "acId a = k" "acDeletedAt a = None" "acTelegramUserId a = rdUserId i" "acUserId a = ltUserId t"
    using saved(8) by blast
  have "consumeWhere t (reNow env) t" using fresh by (simp add: freshLink_def consumeWhere_def)
  with consume_tokens(4) [OF u] findFirst_Some [OF found] obtain t' where t': "t' \<in> set tokens" "ltTokenHash t' = h" "ltUserId t' = ltUserId t"
    by fastforce
  have "\<exists>ch \<in> set (lkChats db'). chAccountId ch = k \<and> chChatId ch = rdChatId i \<and> chRevokedAt ch = None"
  proof (cases "findFirst (\<lambda>r. chChatId r = rdChatId i) (lkChats db1)")
    case None
    then show ?thesis by (simp add: db' authoriseChat_def)
  next
    case (Some x)
    from findFirst_Some [OF Some] have x: "x \<in> set (lkChats db1)" "chChatId x = rdChatId i" by simp_all
    with saved(3,9) have "chAccountId x = k" by auto
    let ?f = "\<lambda>r. r\<lparr>chType := PRIVATE, chRevokedAt := None, chActiveTenantId := asActiveTenantId c',
                    chUpdatedAt := reUpdatedAt env, lcActiveStoreId := asActiveStoreId c'\<rparr> :: LinkChat"
    have "lkChats db' = map (\<lambda>r. if chChatId r = rdChatId i then ?f r else r) (lkChats db1)"
      using Some by (simp add: db' authoriseChat_def updateMany_rows)
    then have "?f x \<in> set (lkChats db')" using x by auto
    with x \<open>chAccountId x = k\<close> show ?thesis by (intro bexI [of _ "?f x"]) simp_all
  qed
  then obtain ch where ch: "ch \<in> set (lkChats db')" "chAccountId ch = k" "chChatId ch = rdChatId i" "chRevokedAt ch = None" by blast
  have "lkTenants db' = lkTenants db" "lkStores db' = lkStores db" "lkMemberships db' = lkMemberships db"
    using saved(5-7) by (simp_all add: db' authorise_keeps)
  from linkContext_cong [OF this] have "linkContext db' (reEntitlementNow env) (ltUserId t) = Inr c"
    using fresh by (simp add: freshLink_def c)
  moreover have "a \<in> set (lkAccounts db')" "t' \<in> set (lkTokens db')" using a(1) t'(1) tokens by (simp_all add: db' authorise_keeps)
  ultimately show ?thesis
    using a(2-5) t'(2,3) ch by (intro exI [of _ t'] exI [of _ a] exI [of _ ch]) simp
qed

lemma unlinkAccount_run:
  assumes "unlinkAccount att now stamp u db = (Inr Unlinked, db')"
  shows "unlinkInTransaction now stamp u (interference att db) = (Unlinked, db')"
  using assms
  by (cases "databaseFault att") (auto simp: unlinkAccount_def runTransaction_def Let_def split: if_splits prod.splits)

lemma unlinked_deleted:
  assumes "unlinkInTransaction now stamp u db = (Unlinked, db')"
  shows "\<exists>a. findFirst (\<lambda>x. acTelegramUserId x = tiUserId (ulIdentity u)) (lkAccounts db') = Some a \<and> acDeletedAt a \<noteq> None"
proof -
  let ?P = "\<lambda>x. acTelegramUserId x = tiUserId (ulIdentity u)"
  from assms obtain a where a: "findFirst ?P (lkAccounts db) = Some a"
    by (auto simp: unlinkInTransaction_def split: option.splits)
  consider "db' = db" "acDeletedAt a \<noteq> None"
    | "lkAccounts db' = map (\<lambda>r. if acId r = acId a then r\<lparr>acDeletedAt := Some now, laLastUnlinkUpdateId := Some (ulUpdateId u)\<rparr> else r) (lkAccounts db)"
    using assms a by (auto simp: unlinkInTransaction_def Let_def updateMany_rows split: if_splits)
  then show ?thesis
  proof cases
    case 1
    with a show ?thesis by simp
  next
    case 2
    have "findFirst (\<lambda>r. ?P (if acId r = acId a then r\<lparr>acDeletedAt := Some now, laLastUnlinkUpdateId := Some (ulUpdateId u)\<rparr> else r)) (lkAccounts db)
        = findFirst ?P (lkAccounts db)" by (rule findFirst_cong) simp
    with a show ?thesis by (simp add: 2 findFirst_map)
  qed
qed

text \<open>
  C37: linking opens the bot's handlers and unlinking closes them: after an answer \<open>linked\<close> that names a store the
  order service resolves this chat of this Telegram user, for the user the token was issued to, to that tenant
  and store; after a confirmed unlink, whatever happened in between, it refuses the Telegram user in every chat.
\<close>

theorem link_opens_unlink_closes:
  assumes ok: "linkOk (interference att db)" and new: "reAccountId env \<notin> acId ` set (lkAccounts (interference att db))"
    and link: "redeemToken att env i db = (Inr (RedeemLinked c), db1)" and store: "present (asActiveStoreId c)"
    and unlink: "unlinkAccount att' now stamp u db2 = (Inr Unlinked, db3)"
  shows "(\<exists>cx. resolveContext (servedDb rest db1) \<lparr>tiUserId = rdUserId i, tiChatId = rdChatId i\<rparr> = ContextOk cx
      \<and> asActiveTenantId c = Some (cxTenantId cx) \<and> asActiveStoreId c = Some (cxStoreId cx)
      \<and> (\<exists>t \<in> set (lkTokens db1). ltTokenHash t = reHash env (rdToken i) \<and> ltUserId t = cxUserId cx))
    \<and> (\<forall>chat. resolveContext (servedDb rest db3) \<lparr>tiUserId = tiUserId (ulIdentity u), tiChatId = chat\<rparr> = Unauthorized)"
proof
  from redeemToken_run [OF link]
  have run: "redeemInTransaction env i (reHash env (rdToken i)) (interference att db) = Inr (RedeemLinked c, db1)" by auto
  from linked_rows [OF ok new run] obtain t a ch where r: "t \<in> set (lkTokens db1)" "ltTokenHash t = reHash env (rdToken i)"
    "ltUserId t = acUserId a" "a \<in> set (lkAccounts db1)" "acDeletedAt a = None" "acTelegramUserId a = rdUserId i"
    "ch \<in> set (lkChats db1)" "chAccountId ch = acId a" "chChatId ch = rdChatId i" "chRevokedAt ch = None"
    "linkContext db1 (reEntitlementNow env) (acUserId a) = Inr c" by blast
  from linked_served [OF redeem_ok [OF ok run new] r(4,5,7,8,10,11) store, of rest] r(1-3,6,9)
  show "\<exists>cx. resolveContext (servedDb rest db1) \<lparr>tiUserId = rdUserId i, tiChatId = rdChatId i\<rparr> = ContextOk cx
      \<and> asActiveTenantId c = Some (cxTenantId cx) \<and> asActiveStoreId c = Some (cxStoreId cx)
      \<and> (\<exists>t \<in> set (lkTokens db1). ltTokenHash t = reHash env (rdToken i) \<and> ltUserId t = cxUserId cx)"
    by auto
  from unlinked_deleted [OF unlinkAccount_run [OF unlink]] obtain b where
    "findFirst (\<lambda>x. acTelegramUserId x = tiUserId (ulIdentity u)) (lkAccounts db3) = Some b" "acDeletedAt b \<noteq> None" by blast
  then show "\<forall>chat. resolveContext (servedDb rest db3) \<lparr>tiUserId = tiUserId (ulIdentity u), tiChatId = chat\<rparr> = Unauthorized"
    by (simp add: resolveContext_def servedDb_def findFirst_map truncate_account)
qed

section \<open>One user who links and unlinks\<close>

definition sampleLinkDb :: LinkDb where
  "sampleLinkDb = \<lparr>lkUsers = [''usr_1''], lkTenants = tgTenants sampleTelegram,
     lkStores = map (\<lambda>s. ShopRow.extend s \<lparr>lsLastHealthyAt = Some 0, lsWebhookSecretEncrypted = Some ''x'',
       lsWebhookEndpointKey = Some ''k''\<rparr>) (tgShops sampleTelegram),
     lkMemberships = tgMemberships sampleTelegram, lkAccounts = [], lkChats = [],
     lkTokens = [\<lparr>ltId = ''tlt_1'', ltUserId = ''usr_1'', ltTokenHash = ''tgl_A'', ltExpiresAt = 600000, ltConsumedAt = None\<rparr>]\<rparr>"

definition sampleRedeem :: RedeemInput where
  "sampleRedeem = \<lparr>rdUserId = 77, rdChatId = 77, rdToken = ''tgl_A'', rdUpdateId = 5\<rparr>"

definition sampleRedeemEnv :: RedeemEnv where
  "sampleRedeemEnv = \<lparr>reNow = 1000, reEntitlementNow = 1000, reAccountId = ''tga_1'', reAuthorizationId = ''tgc_1'',
     reUpdatedAt = 1000, reHash = (\<lambda>s. s)\<rparr>"

definition sampleUnlink :: UnlinkInput where
  "sampleUnlink = \<lparr>ulIdentity = \<lparr>tiUserId = 77, tiChatId = 77\<rparr>, ulConfirmed = True, ulUpdateId = 6\<rparr>"

definition sampleLinked :: LinkDb where
  "sampleLinked = snd (redeemToken quietAttempt sampleRedeemEnv sampleRedeem sampleLinkDb)"

lemma sampleLinkDb_ok: "linkOk sampleLinkDb" "reAccountId env \<notin> acId ` set (lkAccounts sampleLinkDb)"
  by (simp_all add: linkOk_def sampleLinkDb_def)

lemma sample_linked:
  obtains c where "redeemToken quietAttempt sampleRedeemEnv sampleRedeem sampleLinkDb = (Inr (RedeemLinked c), sampleLinked)"
    "present (asActiveStoreId c)"
    "lkAccounts sampleLinked = [\<lparr>acId = ''tga_1'', acTelegramUserId = 77, acUserId = ''usr_1'', acDeletedAt = None,
       laLastRedeemUpdateId = Some 5, laLastUnlinkUpdateId = None\<rparr>]"
    "map (\<lambda>ch. (chAccountId ch, chChatId ch, chRevokedAt ch)) (lkChats sampleLinked) = [(''tga_1'', 77, None)]"
    "map ltUserId (lkTokens sampleLinked) = [''usr_1'']"
proof -
  obtain m where m: "tgMemberships sampleTelegram = [m]" "mbTenantId m = ''ten_1''" "mbUserId m = ''usr_1''" "mbDeletedAt m = None"
    by (simp add: sampleTelegram_def)
  obtain s where s: "lkStores sampleLinkDb = [s]" "shTenantId s = ''ten_1''" "shStatus s = StoreActive" "shDeletedAt s = None"
    "shId s = ''sto_1''" "healthyStore s"
    by (simp add: sampleLinkDb_def sampleTelegram_def ShopRow.extend_def healthyStore_def)
  have alive: "linkTenantAlive sampleLinkDb ''ten_1''" by (simp add: linkTenantAlive_def sampleLinkDb_def sampleTelegram_def)
  have members: "linkMemberships sampleLinkDb ''usr_1'' = [m]" using m alive
    by (simp add: linkMemberships_def findMany_def) (simp add: sampleLinkDb_def m)
  have shops: "linkStores sampleLinkDb ''ten_1'' = [s]" using s alive by (simp add: linkStores_def findMany_def)
  have tenant: "resolveTenant ''ten_1'' 1000 (lkTenants sampleLinkDb) = Inr \<lparr>esPlan = FREE, esStatus = ACTIVE, esEffectiveState = EffActive, esExpiresAt = None\<rparr>"
    by (simp add: resolveTenant_def sampleLinkDb_def sampleTelegram_def tenantWhere_def rowSummary_def toSummary_def
        effectiveTenantEntitlementState_def)
  obtain c where c: "linkContext sampleLinkDb 1000 ''usr_1'' = Inr c" "asActiveTenantId c = Some ''ten_1''" "asActiveStoreId c = Some ''sto_1''"
    "asEntitlement c = Some \<lparr>esPlan = FREE, esStatus = ACTIVE, esEffectiveState = EffActive, esExpiresAt = None\<rparr>"
    using tenant m s by (simp add: linkContext_def members shops contextStatus_def)
  let ?t = "\<lparr>ltId = ''tlt_1'', ltUserId = ''usr_1'', ltTokenHash = ''tgl_A'', ltExpiresAt = 600000, ltConsumedAt = None\<rparr>"
  have tables: "lkTokens sampleLinkDb = [?t]" "lkAccounts sampleLinkDb = []" "lkChats sampleLinkDb = []"
    by (simp_all add: sampleLinkDb_def)
  have none: "findFirst P [] = None" for P :: "'x \<Rightarrow> bool" by (simp add: findFirst_def)
  have "redeemInTransaction sampleRedeemEnv sampleRedeem ''tgl_A'' sampleLinkDb
      = Inr (linkAccount sampleRedeemEnv sampleRedeem ?t None c sampleLinkDb)"
    using c by (simp add: redeemInTransaction_def redeemFresh_def sampleRedeem_def sampleRedeemEnv_def Let_def identityConflict_def
        existingAccount_def replayedRedeem_def foreignChat_def present_def tables none)
  then have run: "redeemToken quietAttempt sampleRedeemEnv sampleRedeem sampleLinkDb
      = map_prod Inr id (linkAccount sampleRedeemEnv sampleRedeem ?t None c sampleLinkDb)"
    by (simp add: redeemToken_def runTransaction_def quietAttempt_def sampleRedeemEnv_def sampleRedeem_def split: prod.split)
  have link: "fst (linkAccount sampleRedeemEnv sampleRedeem ?t None c sampleLinkDb) = RedeemLinked c"
    "lkAccounts (snd (linkAccount sampleRedeemEnv sampleRedeem ?t None c sampleLinkDb)) = [\<lparr>acId = ''tga_1'', acTelegramUserId = 77,
      acUserId = ''usr_1'', acDeletedAt = None, laLastRedeemUpdateId = Some 5, laLastUnlinkUpdateId = None\<rparr>]"
    "map (\<lambda>ch. (chAccountId ch, chChatId ch, chRevokedAt ch)) (lkChats (snd (linkAccount sampleRedeemEnv sampleRedeem ?t None c sampleLinkDb)))
      = [(''tga_1'', 77, None)]"
    "map ltUserId (lkTokens (snd (linkAccount sampleRedeemEnv sampleRedeem ?t None c sampleLinkDb))) = [''usr_1'']"
    by (simp_all add: linkAccount_def updateMany_def consumeWhere_def saveAccount_def authoriseChat_def linkedAccount_def
        sampleRedeem_def sampleRedeemEnv_def tables none)
  have linked: "sampleLinked = snd (linkAccount sampleRedeemEnv sampleRedeem ?t None c sampleLinkDb)"
    by (simp add: sampleLinked_def run)
  show thesis
    by (rule that [of c]) (simp_all add: linked run link c(3) present_def, simp add: prod_eq_iff link)
qed

theorem link_token_links_once_witness:
  "snd (redeemToken quietAttempt sampleRedeemEnv sampleRedeem sampleLinked) = sampleLinked
   \<and> snd (redeemToken quietAttempt sampleRedeemEnv (sampleRedeem\<lparr>rdUserId := 88\<rparr>) sampleLinked) = sampleLinked"
proof -
  obtain c where "redeemToken quietAttempt sampleRedeemEnv sampleRedeem sampleLinkDb = (Inr (RedeemLinked c), sampleLinked)"
    by (rule sample_linked)
  note once = link_token_links_once [OF _ _ this, of quietAttempt sampleLinked sampleRedeemEnv, OF _ _ _ prod.collapse [symmetric]]
  show ?thesis
    using once [of sampleRedeem] once [of "sampleRedeem\<lparr>rdUserId := 88\<rparr>"]
    by (simp add: quietAttempt_def sampleLinkDb_ok)
qed

theorem link_opens_unlink_closes_witness:
  "(\<exists>cx. resolveContext (servedDb sampleTelegram sampleLinked) \<lparr>tiUserId = 77, tiChatId = 77\<rparr> = ContextOk cx \<and> cxUserId cx = ''usr_1'')
   \<and> resolveContext (servedDb sampleTelegram (snd (unlinkAccount quietAttempt 2000 2000 sampleUnlink sampleLinked)))
       \<lparr>tiUserId = 77, tiChatId = 77\<rparr> = Unauthorized"
proof -
  obtain c where run: "redeemToken quietAttempt sampleRedeemEnv sampleRedeem sampleLinkDb = (Inr (RedeemLinked c), sampleLinked)"
    and c: "present (asActiveStoreId c)"
    and rows: "lkAccounts sampleLinked = [\<lparr>acId = ''tga_1'', acTelegramUserId = 77, acUserId = ''usr_1'', acDeletedAt = None,
       laLastRedeemUpdateId = Some 5, laLastUnlinkUpdateId = None\<rparr>]"
      "map (\<lambda>ch. (chAccountId ch, chChatId ch, chRevokedAt ch)) (lkChats sampleLinked) = [(''tga_1'', 77, None)]" "map ltUserId (lkTokens sampleLinked) = [''usr_1'']"
    by (rule sample_linked)
  from rows(2) obtain ch where ch: "lkChats sampleLinked = [ch]" "chAccountId ch = ''tga_1''" "chChatId ch = 77" by auto
  have unlink: "unlinkAccount quietAttempt 2000 2000 sampleUnlink sampleLinked
      = (Inr Unlinked, snd (unlinkAccount quietAttempt 2000 2000 sampleUnlink sampleLinked))"
    by (simp add: unlinkAccount_def sampleUnlink_def runTransaction_def quietAttempt_def unlinkInTransaction_def rows(1) ch
        accountChats_def findMany_def)
  have start: "interference quietAttempt sampleLinkDb = sampleLinkDb" by (simp add: quietAttempt_def)
  have ids: "rdUserId sampleRedeem = 77" "rdChatId sampleRedeem = 77" "tiUserId (ulIdentity sampleUnlink) = 77"
    by (simp_all add: sampleRedeem_def sampleUnlink_def)
  note both = link_opens_unlink_closes [OF _ _ run c unlink, of sampleTelegram, unfolded start ids, OF sampleLinkDb_ok]
  from both obtain cx t where cx: "resolveContext (servedDb sampleTelegram sampleLinked) \<lparr>tiUserId = 77, tiChatId = 77\<rparr> = ContextOk cx"
    and t: "t \<in> set (lkTokens sampleLinked)" "ltUserId t = cxUserId cx" by blast
  have "ltUserId t \<in> set (map ltUserId (lkTokens sampleLinked))" using t(1) by simp
  then have "cxUserId cx = ''usr_1''" by (simp only: rows(3) t(2)) simp
  with cx both show ?thesis by blast
qed

end
