(* ===== verification/Spec2Isabelle.thy ===== *)
theory Spec2Isabelle
  imports InventoryNotifications OrderProjection InventoryProjection PayloadMinimizer WebhookProcessor OrderNotifications
    CatalogueScan OrderPaging NoteWrites BotAccepts LinkHistory
begin

text \<open>
  WCTM connects WooCommerce shops with Telegram. A shop sends webhooks; the backend (\<open>src/backend/src\<close>)
  stores them, a queue worker projects each into the tables of orders and of inventory items, schedulers
  create notifications from what the projection reports, and further workers send them to the bot process,
  which talks to Telegram. Chats browse and change orders through callback tokens the backend signs.

  How the theories follow the code:

  \<^item> \<open>Prelude\<close> and \<open>Json\<close>: tables as lists of rows (\<open>findFirst\<close>, \<open>findMany\<close> and \<open>updateMany\<close> as the Prisma client
    has them), JSON values, JavaScript numbers as texts, dates as milliseconds since 1970, ISO texts.
  \<^item> \<open>Calendar\<close>: the civil calendar behind \<open>toISOString\<close> and \<open>Date.parse\<close>, and that they are inverse.
  \<^item> \<open>OrderMapper\<close> (\<open>orders/order-payload.mapper.ts\<close>) and \<open>InventoryMapper\<close>
    (\<open>inventory/inventory-payload.mapper.ts\<close>): payloads of the shop to projections, with their fingerprints.
  \<^item> \<open>Decisions\<close> and \<open>Transactions\<close>: stores, events and decisions both projections share; serializable
    transactions, the conflicts they report and the loop of three attempts, in which attempts that end in a
    conflict leave no trace.
  \<^item> \<open>WooCommerceClient\<close> (\<open>woocommerce/client/woocommerce.client.ts\<close>): failure categories, retries, the total
    timeout, and the management of the webhooks of a shop.
  \<^item> \<open>OrderProjection\<close> and \<open>InventoryProjection\<close> (the services of those names): which webhook wins, deletions,
    reconciliation with the REST API, what a failure says, what a webhook does after conflicts, stock incidents
    and the alert signals, which a redelivered webhook repeats.
  \<^item> \<open>PayloadMinimizer\<close> (\<open>webhooks/webhook-payload-minimizer.ts\<close>): what is kept of a webhook.
  \<^item> \<open>WebhookProcessor\<close> (\<open>queue/woocommerce-webhook.processor.ts\<close>): the worker with its lease, and all
    interleavings of workers, ingestion and dead letters as a step relation.
  \<^item> \<open>Entitlements\<close> (\<open>entitlements/\<close>): the plan state of a tenant and the command line that changes it.
  \<^item> \<open>Deliveries\<close>: the table of notifications, the answer of the bot (\<open>telegram/telegram-delivery.client.ts\<close>),
    the abstract life cycle of a delivery, the locale \<open>delivery_processor\<close> that states what every
    notification worker promises about it, and the interleavings of such workers.
  \<^item> \<open>Base64\<close> and \<open>TelegramContext\<close>: which tenant, membership and store a chat acts for, the signed callback
    tokens (locale \<open>token_codec\<close>), the references they name, and the texts shown to a chat.
  \<^item> \<open>OrderNotifications\<close>: preparation, worker and scheduler of the notification of a new order; that an
    undisturbed attempt carries out one decision (\<open>attemptPlan\<close>) on the database it starts from.
  \<^item> \<open>InventoryBootstrap\<close> (\<open>queue/inventory-bootstrap.scheduler.ts\<close>, \<open>queue/inventory-bootstrap.processor.ts\<close>) and
    \<open>CatalogueScan\<close>: the first scan of a shop's catalogue, a page per job with its cursor and lease in the store's
    row, and the sweep over the catalogue in memory that the jobs amount to.
  \<^item> \<open>TelegramOrders\<close> (the reading half of \<open>telegram/telegram-order.service.ts\<close>) and \<open>OrderPaging\<close>: lists, lookups,
    details, refreshes and the transitions offered; that the pages of a list are its consecutive parts.
  \<^item> \<open>WriteLedger\<close>: records made before requests are sent, and the locale \<open>owned_steps\<close> of workers that touch
    their own records only. \<open>OrderWrites\<close> and \<open>StatusWrites\<close> (\<open>updateStatus\<close>), \<open>OrderNotes\<close> and \<open>NoteWrites\<close>
    (\<open>startNote\<close> to \<open>confirmNote\<close>): the writing half of the order service, and that under every interleaving a
    button reaches the shop at most once.
  \<^item> \<open>StockBrowsing\<close> (\<open>inventory/telegram-inventory.service.ts\<close>): the list of items that run low, one item, and the
    preparation of an alert; that an item opened from the list is the one shown and leads back to its page.
  \<^item> \<open>InventoryNotifications\<close> (\<open>queue/inventory-notification.processor.ts\<close>, \<open>queue/inventory-notification.scheduler.ts\<close>):
    the recipients of an alert are captured once, and what is sent is current; the worker is the second
    interpretation of \<open>delivery_processor\<close>.
  \<^item> \<open>InternalApi\<close> (\<open>telegram/telegram-internal.controller.ts\<close>, its schemas and its guard), \<open>BotClient\<close>
    (\<open>src/telegram-bot/src/internal-backend.client.ts\<close>) and \<open>BotAccepts\<close>: both ends of the connection between the
    backend and the bot, and that the bot gets what the order service answered.
  \<^item> \<open>Linking\<close> (\<open>telegram/telegram-linking.service.ts\<close>) and \<open>LinkHistory\<close>: one-time tokens that bind a Telegram
    account to a user, and what histories of issuing, redeeming and unlinking keep of the tables.

  Conventions. Stateful code is explicit state passing: an operation takes the tables and returns its result,
  \<open>Inl\<close> for a thrown error and \<open>Inr\<close> for a value, with the tables it leaves. Time, random ids, SHA-256, HMAC and
  the answers of the shop and of the bot are parameters. A handler that runs several statements
  outside a transaction takes a parameter for what other processes commit in between.

  Bounds and fuel. The only fuel is the number of pages followed in \<open>OrderPaging\<close>: 25 pages of 8 orders are the
  200 orders the code can reach. The loop of three attempts of a transaction and the attempts of a
  request recurse on what the code counts. The scan of a catalogue is a run of jobs; that it empties the queue,
  after one job per page, is proved in \<open>CatalogueScan\<close>.

  Not modelled. Sign-up, sessions, password hashing and the encryption of credentials with its key rotation:
  what they compute is library code. The HTTP servers, queues and Redis themselves: a handler takes the request
  or job and returns its answer. Configuration is read into parameters. Not modelled for their size, and
  independent of what is proved here: privacy exports and pilot data, tenants and memberships as edited from the
  onboarding pages, store registration, and the settings, search and reports of a chat. The bot process beyond its client
  (\<open>bot.ts\<close>, \<open>localization.ts\<close>) routes messages and holds texts. The theorems of \<open>BotAccepts\<close> are about the
  list and the detail of orders; the answers of the other routes are modelled in \<open>InternalApi\<close> and \<open>BotClient\<close>
  without such a theorem.
\<close>

end
